(* ===== verification/Prelude.thy ===== *)
theory Prelude
  imports Complex_Main "HOL-Library.Word" "HOL-Library.Sublist" "HOL-Library.Multiset"
    "HOL-Library.Code_Target_Nat"
begin

text \<open>
  The vocabulary every component of the abp model shares: bytes and results, the hint
  collections of the development, generic facts on lists, and the comparison-based sort that
  stands for \<open>std::sort\<close> and \<open>std::stable_sort\<close> with the locale of the comparators it accepts.
\<close>

named_theorems cxx_simps \<open>rewrite rules for the modelled C++ library calls\<close>
named_theorems trace_simps \<open>how each operation changes the observable trace\<close>
named_theorems trace_intros \<open>which events an operation may emit\<close>
named_theorems frame_simps \<open>fields an operation leaves alone\<close>
named_theorems json_simps \<open>evaluation of JSON accessors on built objects\<close>

section \<open>Bytes, numbers, results\<close>

text \<open>A \<open>std::string\<close> is a list of bytes; a HOL \<open>char\<close> has exactly 256 values.\<close>

abbreviation byte_val :: "char \<Rightarrow> nat" where
  "byte_val c \<equiv> of_char c"

lemma byte_val_less [simp]: "byte_val c < 256"
  by (rule nat_of_char_less_256)

text \<open>A computation that may throw \<open>std::runtime_error\<close> carries its \<open>what()\<close> text on the left.\<close>

type_synonym 'a result = "string + 'a"

fun is_ok :: "'e + 'a \<Rightarrow> bool" where
  "is_ok (Inl _) = False"
| "is_ok (Inr _) = True"

text \<open>Unsigned 64-bit arithmetic (\<open>size_t\<close>, \<open>unsigned long long\<close>) on \<open>nat\<close>, with the wrap-around.\<close>

definition u64 :: "nat \<Rightarrow> nat" where
  "u64 n = n mod 2 ^ 64"

lemma u64_less [simp]: "u64 n < 2 ^ 64"
  unfolding u64_def by (rule mod_less_divisor) simp

lemma u64_small: "n < 2 ^ 64 \<Longrightarrow> u64 n = n"
  by (simp add: u64_def)

lemma u64_idem [simp]: "u64 (u64 n) = u64 n"
  by (simp add: u64_def)

section \<open>Lists\<close>

lemma takeWhile_eq_all: "(\<forall>x\<in>set xs. P x) \<Longrightarrow> takeWhile P xs = xs"
  by simp

lemma dropWhile_idem [simp]: "dropWhile P (dropWhile P xs) = dropWhile P xs"
  by (induction xs) auto

lemma rev_dropWhile_rev_append:
  "rev (dropWhile P (rev (xs @ [x]))) = (if P x then rev (dropWhile P (rev xs)) else xs @ [x])"
  by simp

lemma hd_dropWhile_not: "dropWhile P xs \<noteq> [] \<Longrightarrow> \<not> P (hd (dropWhile P xs))"
  by (rule hd_dropWhile)

lemma set_dropWhile_subset: "set (dropWhile P xs) \<subseteq> set xs"
  by (auto dest: set_dropWhileD)

lemma append_eq_prefix_take: "prefix p s \<longleftrightarrow> length p \<le> length s \<and> take (length p) s = p"
proof
  assume "prefix p s"
  then show "length p \<le> length s \<and> take (length p) s = p"
    by (auto simp: prefix_def)
next
  assume "length p \<le> length s \<and> take (length p) s = p"
  then show "prefix p s" by (metis take_is_prefix)
qed

lemma append_eq_suffix_drop:
  "suffix p s \<longleftrightarrow> length p \<le> length s \<and> drop (length s - length p) s = p"
proof
  assume "suffix p s"
  then show "length p \<le> length s \<and> drop (length s - length p) s = p"
    by (auto simp: suffix_def)
next
  assume "length p \<le> length s \<and> drop (length s - length p) s = p"
  then show "suffix p s" by (metis suffix_drop)
qed

text \<open>Appending each element not already there: \<open>if (std::find(...) == end) push_back\<close>.\<close>

definition push_unique :: "'a list \<Rightarrow> 'a \<Rightarrow> 'a list" where
  "push_unique acc x = (if x \<in> set acc then acc else acc @ [x])"

lemma set_push_unique [simp]: "set (push_unique acc x) = insert x (set acc)"
  by (auto simp: push_unique_def)

lemma distinct_push_unique [simp]: "distinct (push_unique acc x) \<longleftrightarrow> distinct acc"
  by (auto simp: push_unique_def)

section \<open>Comparison sorts\<close>

text \<open>
  \<open>std::stable_sort\<close> keeps equal elements in input order and \<open>std::sort\<close> may not; the model of
  both is the stable insertion sort by the code's comparator \<open>lt\<close>.  The laws a comparator has to
  satisfy are the locale's assumptions; each comparator of the code is an interpretation.
\<close>

fun insert_by :: "('a \<Rightarrow> 'a \<Rightarrow> bool) \<Rightarrow> 'a \<Rightarrow> 'a list \<Rightarrow> 'a list" where
  "insert_by lt x [] = [x]"
| "insert_by lt x (y # ys) = (if lt y x then y # insert_by lt x ys else x # y # ys)"

fun sort_by :: "('a \<Rightarrow> 'a \<Rightarrow> bool) \<Rightarrow> 'a list \<Rightarrow> 'a list" where
  "sort_by lt [] = []"
| "sort_by lt (x # xs) = insert_by lt x (sort_by lt xs)"

lemma mset_insert_by [simp]: "mset (insert_by lt x xs) = add_mset x (mset xs)"
  by (induction xs) auto

lemma mset_sort_by [simp]: "mset (sort_by lt xs) = mset xs"
  by (induction xs) auto

lemma set_sort_by [simp]: "set (sort_by lt xs) = set xs"
  by (metis mset_sort_by set_mset_mset)

lemma set_insert_by [simp]: "set (insert_by lt x xs) = insert x (set xs)"
  by (metis mset_insert_by set_mset_add_mset_insert set_mset_mset)

lemma length_sort_by [simp]: "length (sort_by lt xs) = length xs"
  by (metis mset_sort_by size_mset)

lemma distinct_sort_by [simp]: "distinct (sort_by lt xs) \<longleftrightarrow> distinct xs"
  by (metis mset_eq_imp_distinct_iff mset_sort_by)

locale comparator =
  fixes lt :: "'a \<Rightarrow> 'a \<Rightarrow> bool"
  assumes irrefl: "\<not> lt x x"
    and trans: "lt x y \<Longrightarrow> lt y z \<Longrightarrow> lt x z"
    and incomp_trans: "\<not> lt x y \<Longrightarrow> \<not> lt y z \<Longrightarrow> \<not> lt x z"
begin

lemma asym: "lt x y \<Longrightarrow> \<not> lt y x"
  using irrefl trans by blast

text \<open>Sorted by \<open>lt\<close>: no later element is strictly before an earlier one.\<close>

lemma insert_by_sorted:
  "sorted_wrt (\<lambda>a b. \<not> lt b a) xs \<Longrightarrow> sorted_wrt (\<lambda>a b. \<not> lt b a) (insert_by lt x xs)"
proof (induction xs)
  case Nil
  then show ?case by simp
next
  case (Cons y ys)
  show ?case
  proof (cases "lt y x")
    case True
    with Cons show ?thesis by (auto dest: asym)
  next
    case False
    with Cons.prems have "\<forall>z\<in>set ys. \<not> lt z x"
      using incomp_trans [of _ y x] by simp
    with False Cons.prems show ?thesis by simp
  qed
qed

theorem sort_by_sorted: "sorted_wrt (\<lambda>a b. \<not> lt b a) (sort_by lt xs)"
  by (induction xs) (auto intro: insert_by_sorted)

text \<open>Stability: the elements incomparable to \<open>z\<close> keep their order.\<close>

lemma insert_by_stable:
  "sorted_wrt (\<lambda>a b. \<not> lt b a) xs \<Longrightarrow>
   filter (\<lambda>y. \<not> lt y z \<and> \<not> lt z y) (insert_by lt x xs) =
   filter (\<lambda>y. \<not> lt y z \<and> \<not> lt z y) (x # xs)"
proof (induction xs)
  case Nil
  then show ?case by simp
next
  case (Cons y ys)
  show ?case
  proof (cases "lt y x \<and> (\<not> lt y z \<and> \<not> lt z y) \<and> (\<not> lt x z \<and> \<not> lt z x)")
    case True
    then have "\<not> lt y x" using incomp_trans by blast
    with True show ?thesis by blast
  next
    case False
    with Cons show ?thesis by auto
  qed
qed

theorem sort_by_stable:
  "filter (\<lambda>y. \<not> lt y z \<and> \<not> lt z y) (sort_by lt xs) = filter (\<lambda>y. \<not> lt y z \<and> \<not> lt z y) xs"
proof (induction xs)
  case Nil
  then show ?case by simp
next
  case (Cons x xs)
  have "filter (\<lambda>y. \<not> lt y z \<and> \<not> lt z y) (insert_by lt x (sort_by lt xs)) =
        filter (\<lambda>y. \<not> lt y z \<and> \<not> lt z y) (x # sort_by lt xs)"
    by (rule insert_by_stable [OF sort_by_sorted])
  with Cons.IH show ?case by simp
qed

end

end
