(* ===== verification/CxxLib.thy ===== *)
theory CxxLib
  imports Prelude
begin

text \<open>
  The parts of the C++ standard library the sources call, on byte strings: searching and slicing
  a \<open>std::string\<close>, \<open>std::isspace\<close> and its kin in the "C" locale, \<open>std::to_string\<close>, the
  \<open>std::sto*\<close> family with the exceptions as \<^term>\<open>None\<close>, and the \<open>%0*x\<close> conversions.
\<close>

section \<open>Character classes (the "C" locale)\<close>

definition is_space :: "char \<Rightarrow> bool" where
  "is_space c \<longleftrightarrow> byte_val c = 32 \<or> (9 \<le> byte_val c \<and> byte_val c \<le> 13)"

definition is_digit :: "char \<Rightarrow> bool" where
  "is_digit c \<longleftrightarrow> 48 \<le> byte_val c \<and> byte_val c \<le> 57"

definition is_lower :: "char \<Rightarrow> bool" where
  "is_lower c \<longleftrightarrow> 97 \<le> byte_val c \<and> byte_val c \<le> 122"

definition is_upper :: "char \<Rightarrow> bool" where
  "is_upper c \<longleftrightarrow> 65 \<le> byte_val c \<and> byte_val c \<le> 90"

definition is_alpha :: "char \<Rightarrow> bool" where
  "is_alpha c \<longleftrightarrow> is_lower c \<or> is_upper c"

definition is_alnum :: "char \<Rightarrow> bool" where
  "is_alnum c \<longleftrightarrow> is_alpha c \<or> is_digit c"

definition is_xdigit :: "char \<Rightarrow> bool" where
  "is_xdigit c \<longleftrightarrow> is_digit c \<or> (97 \<le> byte_val c \<and> byte_val c \<le> 102) \<or> (65 \<le> byte_val c \<and> byte_val c \<le> 70)"

lemmas char_class_defs =
  is_space_def is_digit_def is_lower_def is_upper_def is_alpha_def is_alnum_def is_xdigit_def

definition to_lower :: "char \<Rightarrow> char" where
  "to_lower c = (if is_upper c then char_of (byte_val c + 32) else c)"

lemma byte_val_eq_iff: "byte_val a = byte_val b \<longleftrightarrow> a = b"
  by (rule of_char_eq_iff)

lemma byte_val_char_of: "n < 256 \<Longrightarrow> byte_val (char_of n) = n"
  by (simp add: of_char_of)

section \<open>Searching and slicing\<close>

text \<open>\<open>s.find(c)\<close>, \<open>s.rfind(c)\<close>, \<open>s.find(pat, pos)\<close>; \<open>npos\<close> is \<^term>\<open>None\<close>.\<close>

fun find_char :: "char \<Rightarrow> string \<Rightarrow> nat option" where
  "find_char c [] = None"
| "find_char c (x # xs) = (if x = c then Some 0 else map_option Suc (find_char c xs))"

definition rfind_char :: "char \<Rightarrow> string \<Rightarrow> nat option" where
  "rfind_char c s = map_option (\<lambda>i. length s - 1 - i) (find_char c (rev s))"

fun find_sub :: "string \<Rightarrow> string \<Rightarrow> nat option" where
  "find_sub pat [] = (if pat = [] then Some 0 else None)"
| "find_sub pat (x # xs) =
     (if take (length pat) (x # xs) = pat then Some 0 else map_option Suc (find_sub pat xs))"

definition find_sub_at :: "string \<Rightarrow> nat \<Rightarrow> string \<Rightarrow> nat option" where
  "find_sub_at pat pos s =
     (if pos \<le> length s then map_option ((+) pos) (find_sub pat (drop pos s)) else None)"

definition find_char_at :: "char \<Rightarrow> nat \<Rightarrow> string \<Rightarrow> nat option" where
  "find_char_at c pos s =
     (if pos \<le> length s then map_option ((+) pos) (find_char c (drop pos s)) else None)"

definition contains_sub :: "string \<Rightarrow> string \<Rightarrow> bool" where
  "contains_sub pat s \<longleftrightarrow> find_sub pat s \<noteq> None"

text \<open>\<open>s.substr(pos, n)\<close> for \<open>pos \<le> s.size()\<close>; the callers' positions are in range.\<close>

definition substr :: "string \<Rightarrow> nat \<Rightarrow> nat \<Rightarrow> string" where
  "substr s pos n = take n (drop pos s)"

lemma find_char_None [simp]: "find_char c s = None \<longleftrightarrow> c \<notin> set s"
  by (induction s) auto

lemma find_char_Some_iff:
  "find_char c s = Some i \<longleftrightarrow> i < length s \<and> s ! i = c \<and> c \<notin> set (take i s)"
proof (induction s arbitrary: i)
  case Nil
  then show ?case by simp
next
  case (Cons x s)
  show ?case
  proof (cases i)
    case 0
    then show ?thesis by auto
  next
    case (Suc j)
    with Cons [of j] show ?thesis by auto
  qed
qed

lemma find_char_Some_split:
  "find_char c s = Some i \<Longrightarrow> s = take i s @ c # drop (Suc i) s"
  by (metis find_char_Some_iff id_take_nth_drop)

lemma find_char_append:
  "find_char c (xs @ ys) =
     (if c \<in> set xs then find_char c xs else map_option ((+) (length xs)) (find_char c ys))"
proof (induction xs)
  case Nil
  have "(+) (0::nat) = id" by auto
  then show ?case by (simp add: option.map_id)
next
  case (Cons x xs)
  then show ?case by (auto simp: option.map_comp o_def)
qed

lemma find_char_append_hit [simp]: "c \<notin> set xs \<Longrightarrow> find_char c (xs @ c # ys) = Some (length xs)"
  by (simp add: find_char_append)

lemma rfind_char_None [simp]: "rfind_char c s = None \<longleftrightarrow> c \<notin> set s"
  by (simp add: rfind_char_def)

lemma rfind_char_append_hit: "c \<notin> set ys \<Longrightarrow> rfind_char c (xs @ c # ys) = Some (length xs)"
  by (simp add: rfind_char_def)

lemma rfind_char_Some_less: "rfind_char c s = Some i \<Longrightarrow> i < length s"
  by (auto simp: rfind_char_def find_char_Some_iff)

lemma find_sub_hit:
  "find_sub pat s = Some i \<Longrightarrow> take (length pat) (drop i s) = pat \<and> i \<le> length s"
  by (induction s arbitrary: i) (auto split: if_splits)

lemma find_sub_Some_prefix: "pat \<noteq> [] \<Longrightarrow> find_sub pat (pat @ s) = Some 0"
  by (cases pat) auto

lemma contains_sub_hit: "contains_sub pat (xs @ pat @ ys)"
proof (induction xs)
  case Nil
  have "take (length pat) (pat @ ys) = pat" by simp
  then show ?case by (cases "pat @ ys") (auto simp: contains_sub_def)
next
  case (Cons x xs)
  then show ?case by (auto simp: contains_sub_def)
qed

lemma contains_sub_iff: "contains_sub pat s \<longleftrightarrow> (\<exists>xs ys. s = xs @ pat @ ys)"
proof
  assume "contains_sub pat s"
  then obtain i where "find_sub pat s = Some i" by (auto simp: contains_sub_def)
  then have "take (length pat) (drop i s) = pat" by (simp add: find_sub_hit)
  then have "s = take i s @ pat @ drop (length pat) (drop i s)"
    by (metis append_take_drop_id)
  then show "\<exists>xs ys. s = xs @ pat @ ys" by blast
next
  assume "\<exists>xs ys. s = xs @ pat @ ys"
  then show "contains_sub pat s" using contains_sub_hit by blast
qed

lemma substr_append_left [simp]: "n \<le> length xs \<Longrightarrow> substr (xs @ ys) 0 n = take n xs"
  by (simp add: substr_def)

lemma length_substr_le: "length (substr s p n) \<le> n"
  by (simp add: substr_def)

section \<open>Decimal and hexadecimal text\<close>

definition digit_char :: "nat \<Rightarrow> char" where
  "digit_char d = ''0123456789'' ! d"

fun nat_to_string :: "nat \<Rightarrow> string" where
  "nat_to_string n =
     (if n < 10 then [digit_char n] else nat_to_string (n div 10) @ [digit_char (n mod 10)])"

declare nat_to_string.simps [simp del]

definition int_to_string :: "int \<Rightarrow> string" where
  "int_to_string i = (if i < 0 then CHR ''-'' # nat_to_string (nat (- i)) else nat_to_string (nat i))"

definition digit_val :: "char \<Rightarrow> nat" where
  "digit_val c = byte_val c - 48"

definition digits_value :: "string \<Rightarrow> nat" where
  "digits_value ds = foldl (\<lambda>v c. v * 10 + digit_val c) 0 ds"

definition hex_char :: "nat \<Rightarrow> char" where
  "hex_char d = ''0123456789abcdef'' ! d"

text \<open>\<open>%0kx\<close>: the low \<open>k\<close> hexadecimal digits, most significant first.\<close>

fun hex_digits :: "nat \<Rightarrow> nat \<Rightarrow> string" where
  "hex_digits 0 n = []"
| "hex_digits (Suc k) n = hex_digits k (n div 16) @ [hex_char (n mod 16)]"

lemma digit_cases: "d < 10 \<Longrightarrow> d \<in> {0, 1, 2, 3, 4, 5, 6, 7, 8, 9::nat}"
  by auto

lemma digit_char_val [simp]: "d < 10 \<Longrightarrow> digit_val (digit_char d) = d"
  by (drule digit_cases) (auto simp: digit_char_def digit_val_def)

lemma digit_char_is_digit [simp]: "d < 10 \<Longrightarrow> is_digit (digit_char d)"
  by (drule digit_cases) (auto simp: digit_char_def is_digit_def)

lemma nat_to_string_not_Nil [simp]: "nat_to_string n \<noteq> []"
  by (subst nat_to_string.simps) simp

lemma nat_to_string_digits: "\<forall>c\<in>set (nat_to_string n). is_digit c"
proof (induction n rule: nat_to_string.induct)
  case (1 n)
  show ?case
  proof (cases "n < 10")
    case True
    then show ?thesis by (subst nat_to_string.simps) simp
  next
    case False
    with 1 show ?thesis by (subst nat_to_string.simps) auto
  qed
qed

lemma digits_value_snoc: "digits_value (ds @ [c]) = digits_value ds * 10 + digit_val c"
  by (simp add: digits_value_def)

lemma digits_value_nat_to_string [simp]: "digits_value (nat_to_string n) = n"
proof (induction n rule: nat_to_string.induct)
  case (1 n)
  show ?case
  proof (cases "n < 10")
    case True
    then show ?thesis by (subst nat_to_string.simps) (simp add: digits_value_def)
  next
    case False
    with 1 show ?thesis by (subst nat_to_string.simps) (simp add: digits_value_snoc)
  qed
qed

lemma nat_to_string_inj [simp]: "nat_to_string m = nat_to_string n \<longleftrightarrow> m = n"
  by (metis digits_value_nat_to_string)

lemma is_digit_not_space: "is_digit c \<Longrightarrow> \<not> is_space c"
  by (auto simp: is_digit_def is_space_def)

lemma is_digit_not_sign: "is_digit c \<Longrightarrow> c \<noteq> CHR ''-'' \<and> c \<noteq> CHR ''+''"
  by (auto simp: is_digit_def)

lemma int_to_string_not_Nil [simp]: "int_to_string i \<noteq> []"
  by (simp add: int_to_string_def)

lemma length_hex_digits [simp]: "length (hex_digits k n) = k"
  by (induction k arbitrary: n) auto

lemma hex_cases: "d < 16 \<Longrightarrow> d \<in> {0, 1, 2, 3, 4, 5, 6, 7, 8, 9, 10, 11, 12, 13, 14, 15::nat}"
  by (simp, presburger)

lemma hex_char_class: "d < 16 \<Longrightarrow> is_digit (hex_char d) \<or> is_lower (hex_char d)"
  by (drule hex_cases) (auto simp: hex_char_def is_digit_def is_lower_def)

lemma hex_digits_class: "c \<in> set (hex_digits k n) \<Longrightarrow> is_digit c \<or> is_lower c"
proof (induction k arbitrary: n)
  case 0
  then show ?case by simp
next
  case (Suc k)
  then show ?case using hex_char_class [of "n mod 16"] by auto
qed

section \<open>The \<open>std::sto*\<close> family\<close>

text \<open>
  \<open>strtol\<close> in base 10: skip white space, an optional sign, the longest run of digits.  The result
  is the value and the number of characters used, or \<^term>\<open>None\<close> when there is no digit
  (\<open>std::invalid_argument\<close>).
\<close>

definition sign_length :: "string \<Rightarrow> nat" where
  "sign_length s = (case s of c # _ \<Rightarrow> if c = CHR ''-'' \<or> c = CHR ''+'' then 1 else 0 | [] \<Rightarrow> 0)"

definition scan_int :: "string \<Rightarrow> (int \<times> nat) option" where
  "scan_int s =
     (let ws = takeWhile is_space s;
          r = drop (length ws) s;
          n = sign_length r;
          ds = takeWhile is_digit (drop n r)
      in if ds = [] then None
         else Some ((if take 1 r = ''-'' then - int (digits_value ds) else int (digits_value ds)),
                    length ws + n + length ds))"

text \<open>\<open>std::out_of_range\<close> is \<^term>\<open>None\<close> too: every caller catches \<open>std::exception\<close>.\<close>

definition cxx_stoi :: "string \<Rightarrow> (int \<times> nat) option" where
  "cxx_stoi s = (case scan_int s of
     Some (v, k) \<Rightarrow> if - (2 ^ 31) \<le> v \<and> v < 2 ^ 31 then Some (v, k) else None
   | None \<Rightarrow> None)"

definition cxx_stoll :: "string \<Rightarrow> int option" where
  "cxx_stoll s = (case scan_int s of
     Some (v, _) \<Rightarrow> if - (2 ^ 63) \<le> v \<and> v < 2 ^ 63 then Some v else None
   | None \<Rightarrow> None)"

text \<open>
  \<open>strtoul\<close> and \<open>strtoull\<close> accept a minus sign: the magnitude has to fit in 64 bits and the
  result is its negation modulo \<open>2^64\<close>.
\<close>

definition cxx_stoull :: "string \<Rightarrow> nat option" where
  "cxx_stoull s = (case scan_int s of
     Some (v, _) \<Rightarrow> if \<bar>v\<bar> < 2 ^ 64 then Some (nat (v mod 2 ^ 64)) else None
   | None \<Rightarrow> None)"

lemma takeWhile_digits_append:
  assumes "\<forall>c\<in>set ds. is_digit c" and "rest = [] \<or> \<not> is_digit (hd rest)"
  shows "takeWhile is_digit (ds @ rest) = ds"
  using assms by (cases rest) (auto simp: takeWhile_append)

lemma scan_int_digits:
  assumes ds: "\<forall>c\<in>set ds. is_digit c" "ds \<noteq> []" and rest: "rest = [] \<or> \<not> is_digit (hd rest)"
  shows "scan_int (ds @ rest) = Some (int (digits_value ds), length ds)"
proof -
  obtain d ds' where d: "ds = d # ds'" "is_digit d" using ds by (cases ds) auto
  have "takeWhile is_space (ds @ rest) = []"
    using d by (simp add: is_digit_not_space)
  moreover have "sign_length (ds @ rest) = 0" "take 1 (ds @ rest) \<noteq> ''-''"
    using d is_digit_not_sign by (auto simp: sign_length_def)
  moreover have "takeWhile is_digit (ds @ rest) = ds"
    using ds(1) rest by (rule takeWhile_digits_append)
  ultimately show ?thesis using ds(2) by (simp add: scan_int_def)
qed

lemma scan_int_to_string: "scan_int (int_to_string i) = Some (i, length (int_to_string i))"
proof (cases "i < 0")
  case True
  let ?ds = "nat_to_string (nat (- i))"
  have minus: "\<not> is_space (CHR ''-'')" by (simp add: is_space_def)
  have ds: "takeWhile is_digit ?ds = ?ds"
    by (rule takeWhile_eq_all) (rule nat_to_string_digits)
  have "scan_int (CHR ''-'' # ?ds) = Some (- int (digits_value ?ds), Suc (length ?ds))"
    unfolding scan_int_def Let_def by (simp add: sign_length_def minus ds del: takeWhile_eq_all_conv)
  with True show ?thesis by (simp add: int_to_string_def)
next
  case False
  then show ?thesis
    using scan_int_digits [OF nat_to_string_digits, of _ "[]"]
    by (simp add: int_to_string_def)
qed

lemma cxx_stoll_to_string:
  "- (2 ^ 63) \<le> i \<Longrightarrow> i < 2 ^ 63 \<Longrightarrow> cxx_stoll (int_to_string i) = Some i"
  by (simp add: cxx_stoll_def scan_int_to_string)

lemma cxx_stoull_less: "cxx_stoull s = Some n \<Longrightarrow> n < 2 ^ 64"
  by (auto simp: cxx_stoull_def nat_less_iff split: option.splits if_splits)

lemma cxx_stoull_digits:
  assumes "\<forall>c\<in>set ds. is_digit c" "ds \<noteq> []" "digits_value ds < 2 ^ 64"
  shows "cxx_stoull ds = Some (digits_value ds)"
  using scan_int_digits [OF assms(1,2), of "[]"] assms(3)
  by (simp add: cxx_stoull_def nat_mod_distrib)

end
