(* ===== verification/CxxDouble.thy ===== *)
theory CxxDouble
  imports CxxLib
begin

text \<open>
  Finite IEEE binary64 values as rationals: rounding to nearest-even, \<open>std::stod\<close> on decimal
  literals, the conversions \<open>static_cast<double>\<close> and \<open>static_cast<long long>\<close>, and the
  \<open>%.17g\<close> and \<open>%.2f\<close> conversions.  Infinities and NaN cannot arise: abp's numbers come from
  integers and from \<open>stod\<close>, which throws on overflow.
\<close>

type_synonym double = rat

section \<open>Rounding\<close>

definition round_half_even :: "rat \<Rightarrow> int" where
  "round_half_even x =
     (let f = \<lfloor>x\<rfloor>; d = x - of_int f
      in if d < 1 / 2 then f else if 1 / 2 < d then f + 1 else if even f then f else f + 1)"

definition pow2 :: "int \<Rightarrow> rat" where
  "pow2 i = (if 0 \<le> i then 2 ^ nat i else 1 / 2 ^ nat (- i))"

definition pow10 :: "int \<Rightarrow> rat" where
  "pow10 i = (if 0 \<le> i then 10 ^ nat i else 1 / 10 ^ nat (- i))"

fun bit_count :: "nat \<Rightarrow> nat" where
  "bit_count n = (if n = 0 then 0 else Suc (bit_count (n div 2)))"

declare bit_count.simps [simp del]

text \<open>The exponent \<open>e\<close> with \<open>2^e \<le> x < 2^(e+1)\<close>, for positive \<open>x\<close>.\<close>

definition binary_exponent :: "rat \<Rightarrow> int" where
  "binary_exponent x =
     (let (n, d) = quotient_of x;
          l = int (bit_count (nat n)) - int (bit_count (nat d))
      in if pow2 l \<le> x then l else l - 1)"

text \<open>Nearest double of a positive rational: 53 significant bits, at least the subnormal spacing.\<close>

definition round_pos :: "rat \<Rightarrow> rat" where
  "round_pos x =
     (let q = max (binary_exponent x - 52) (- 1074)
      in of_int (round_half_even (x / pow2 q)) * pow2 q)"

definition double_of_rat :: "rat \<Rightarrow> double option" where
  "double_of_rat x =
     (if x = 0 then Some 0
      else let r = round_pos \<bar>x\<bar>
           in if pow2 1024 \<le> r then None else Some (if x < 0 then - r else r))"

lemma round_half_even_of_int [simp]: "round_half_even (of_int k) = k"
  by (simp add: round_half_even_def)

lemma pow2_nonpos: "q \<le> 0 \<Longrightarrow> pow2 q = 1 / 2 ^ nat (- q)"
  by (cases "q = 0") (auto simp: pow2_def)

lemma bit_count_bounds: "0 < n \<Longrightarrow> 2 ^ (bit_count n - 1) \<le> n \<and> n < 2 ^ bit_count n"
proof (induction n rule: bit_count.induct)
  case (1 n)
  show ?case
  proof (cases "n = 1")
    case True
    then show ?thesis by (simp add: bit_count.simps [of "Suc 0"] bit_count.simps [of 0])
  next
    case False
    with 1 have IH: "2 ^ (bit_count (n div 2) - 1) \<le> n div 2" "n div 2 < 2 ^ bit_count (n div 2)"
      and pos: "0 < n div 2" by auto
    have "bit_count (n div 2) \<noteq> 0"
      using pos by (subst bit_count.simps) simp
    then obtain k where k: "bit_count (n div 2) = Suc k" using not0_implies_Suc by blast
    have "bit_count n = Suc (Suc k)" using "1.prems" k by (subst bit_count.simps) simp
    with IH k show ?thesis by auto
  qed
qed

lemma bit_count_le: "n < 2 ^ k \<Longrightarrow> bit_count n \<le> k"
proof (cases "n = 0")
  case True
  then show ?thesis by (subst bit_count.simps) simp
next
  case False
  assume "n < 2 ^ k"
  moreover have "2 ^ (bit_count n - 1) \<le> n" using False bit_count_bounds [of n] by simp
  ultimately have "(2::nat) ^ (bit_count n - 1) < 2 ^ k" by (rule le_less_trans [rotated])
  then have "bit_count n - 1 < k" by (rule power_less_imp_less_exp [rotated]) simp
  then show ?thesis by simp
qed

lemma quotient_of_of_int [simp]: "quotient_of (of_int n) = (n, 1)"
  by (simp add: quotient_of_int)

lemma binary_exponent_int:
  assumes "0 < n"
  shows "binary_exponent (of_int n) = int (bit_count (nat n)) - 1"
proof -
  let ?b = "bit_count (nat n)"
  have one: "bit_count (Suc 0) = 1"
    by (simp add: bit_count.simps [of "Suc 0"] bit_count.simps [of 0])
  have b: "?b \<noteq> 0" using assms by (subst bit_count.simps) simp
  have "(2::nat) ^ (?b - 1) \<le> nat n" using bit_count_bounds [of "nat n"] assms by simp
  then have "(2::int) ^ (?b - 1) \<le> n" using assms by (simp add: le_nat_iff)
  then have "(of_int ((2::int) ^ (?b - 1)) :: rat) \<le> of_int n" by (simp only: of_int_le_iff)
  with b one show ?thesis
    by (auto simp: binary_exponent_def pow2_def nat_diff_distrib')
qed

text \<open>Integers below \<open>2^53\<close> are doubles.\<close>

lemma round_pos_int:
  assumes "0 < n" and "n < 2 ^ 53"
  shows "round_pos (of_int n) = of_int n"
proof -
  let ?q = "max (binary_exponent (of_int n) - 52) (- 1074)"
  have "bit_count (nat n) \<le> 53"
    using assms by (intro bit_count_le) (simp add: nat_less_iff)
  then have q: "?q \<le> 0" using binary_exponent_int [OF assms(1)] by simp
  have "of_int n / pow2 ?q = (of_int (n * 2 ^ nat (- ?q)) :: rat)"
    using q by (simp add: pow2_nonpos)
  then have "round_half_even (of_int n / pow2 ?q) = n * 2 ^ nat (- ?q)"
    by (simp only: round_half_even_of_int)
  then show ?thesis using q by (simp add: round_pos_def pow2_nonpos)
qed

lemma pow2_1024_bound: "\<bar>n\<bar> < 2 ^ 53 \<Longrightarrow> \<not> pow2 1024 \<le> of_int \<bar>n\<bar>"
proof -
  assume n: "\<bar>n\<bar> < 2 ^ 53"
  have "(2::rat) ^ 53 < 2 ^ 1024" by (rule power_strict_increasing) auto
  moreover have "(of_int \<bar>n\<bar> :: rat) < of_int (2 ^ 53)" using n by (simp only: of_int_less_iff)
  ultimately have "(of_int \<bar>n\<bar> :: rat) < 2 ^ 1024" by (simp del: of_int_abs)
  then show ?thesis by (simp add: pow2_def)
qed

lemma double_of_int [simp]:
  assumes "\<bar>n\<bar> < 2 ^ 53"
  shows "double_of_rat (of_int n) = Some (of_int n)"
proof (cases "n = 0")
  case True
  then show ?thesis by (simp add: double_of_rat_def)
next
  case False
  have "round_pos \<bar>of_int n\<bar> = of_int \<bar>n\<bar>"
    using round_pos_int [of "\<bar>n\<bar>"] False assms by simp
  with False pow2_1024_bound [OF assms] show ?thesis
    by (simp add: double_of_rat_def Let_def)
qed

section \<open>Conversions\<close>

text \<open>\<open>static_cast<double>\<close> of a 64-bit integer: always finite.\<close>

definition double_from_int :: "int \<Rightarrow> double" where
  "double_from_int i = (case double_of_rat (of_int i) of Some d \<Rightarrow> d | None \<Rightarrow> 0)"

text \<open>
  \<open>static_cast<long long>\<close> truncates towards zero.  Outside the range of \<open>long long\<close> the C++
  standard leaves the result undefined; the model takes the value x86-64 and its compilers
  give, \<open>LLONG_MIN\<close>.
\<close>

definition ll_from_double :: "double \<Rightarrow> int" where
  "ll_from_double d =
     (let t = (if 0 \<le> d then \<lfloor>d\<rfloor> else \<lceil>d\<rceil>)
      in if - (2 ^ 63) \<le> t \<and> t < 2 ^ 63 then t else - (2 ^ 63))"

text \<open>\<open>static_cast<int>\<close> and \<open>static_cast<unsigned long long>\<close> of a \<open>long long\<close>.\<close>

definition int32_from_ll :: "int \<Rightarrow> int" where
  "int32_from_ll i = (let m = i mod 2 ^ 32 in if m < 2 ^ 31 then m else m - 2 ^ 32)"

definition ull_from_ll :: "int \<Rightarrow> nat" where
  "ull_from_ll i = nat (i mod 2 ^ 64)"

lemma double_from_int_small [simp]: "\<bar>i\<bar> < 2 ^ 53 \<Longrightarrow> double_from_int i = of_int i"
  by (simp add: double_from_int_def)

lemma ll_from_double_of_int: "- (2 ^ 63) \<le> i \<Longrightarrow> i < 2 ^ 63 \<Longrightarrow> ll_from_double (of_int i) = i"
  by (simp add: ll_from_double_def)

lemma int32_from_ll_small: "- (2 ^ 31) \<le> i \<Longrightarrow> i < 2 ^ 31 \<Longrightarrow> int32_from_ll i = i"
proof (cases "0 \<le> i")
  case True
  assume "i < 2 ^ 31"
  with True show ?thesis by (simp add: int32_from_ll_def)
next
  case False
  assume "- (2 ^ 31) \<le> i"
  then have "(i + 2 ^ 32) mod 2 ^ 32 = i + 2 ^ 32" using False by (intro mod_pos_pos_trivial) auto
  then have "i mod 2 ^ 32 = i + 2 ^ 32" by simp
  with \<open>- (2 ^ 31) \<le> i\<close> show ?thesis by (simp add: int32_from_ll_def)
qed

lemma ull_from_ll_small: "n < 2 ^ 64 \<Longrightarrow> ull_from_ll (int n) = n"
proof -
  assume "n < 2 ^ 64"
  then have "int n < 2 ^ 64" by simp
  then have "int n mod 2 ^ 64 = int n" by (intro mod_pos_pos_trivial) auto
  then show ?thesis by (simp add: ull_from_ll_def)
qed

section \<open>\<open>std::stod\<close>\<close>

text \<open>
  On the texts the JSON scanner hands it: an optional minus sign, digits, optionally a point and
  digits, optionally an exponent part, which counts only when it has a digit.  Overflow, and a
  subnormal result that is inexact, are \<open>std::out_of_range\<close>.
\<close>

definition scan_exponent :: "string \<Rightarrow> int" where
  "scan_exponent s =
     (case s of
        e # r \<Rightarrow>
          if e = CHR ''e'' \<or> e = CHR ''E'' then
            (let n = sign_length r; ds = takeWhile is_digit (drop n r)
             in if take 1 r = ''-'' then - int (digits_value ds) else int (digits_value ds))
          else 0
      | [] \<Rightarrow> 0)"

definition decimal_value :: "string \<Rightarrow> rat" where
  "decimal_value s =
     (let ip = takeWhile is_digit s;
          r1 = drop (length ip) s;
          point = (take 1 r1 = ''.'');
          fp = (if point then takeWhile is_digit (drop 1 r1) else []);
          r2 = (if point then drop (Suc (length fp)) r1 else r1)
      in of_nat (digits_value (ip @ fp)) * pow10 (scan_exponent r2 - int (length fp)))"

definition cxx_stod :: "string \<Rightarrow> double option" where
  "cxx_stod s =
     (let neg = (take 1 s = ''-'');
          x = decimal_value (if neg then drop 1 s else s)
      in case double_of_rat x of
           None \<Rightarrow> None
         | Some r \<Rightarrow> if r \<noteq> x \<and> r < pow2 (- 1022) then None
                     else Some (if neg then - r else r))"

lemma decimal_value_digits:
  assumes "\<forall>c\<in>set ds. is_digit c"
  shows "decimal_value ds = of_nat (digits_value ds)"
proof -
  have "takeWhile is_digit ds = ds" using assms by (rule takeWhile_eq_all)
  then show ?thesis
    by (simp add: decimal_value_def scan_exponent_def pow10_def Let_def del: takeWhile_eq_all_conv)
qed

lemma cxx_stod_int_to_string:
  assumes "\<bar>n\<bar> < 2 ^ 53"
  shows "cxx_stod (int_to_string n) = Some (of_int n)"
proof -
  have double: "double_of_rat (of_nat k) = Some (of_nat k)" if "int k < 2 ^ 53" for k
    using double_of_int [of "int k"] that by simp
  have hd: "take 1 (nat_to_string m) \<noteq> ''-''" for m
    using nat_to_string_digits [of m] is_digit_not_sign by (cases "nat_to_string m") auto
  show ?thesis
  proof (cases "n < 0")
    case True
    then have "of_nat (nat (- n)) = (- of_int n :: rat)" by simp
    with True assms double [of "nat (- n)"] show ?thesis
      by (simp add: int_to_string_def cxx_stod_def decimal_value_digits nat_to_string_digits)
  next
    case False
    then have "of_nat (nat n) = (of_int n :: rat)" by simp
    with False assms double [of "nat n"] hd [of "nat n"] show ?thesis
      by (simp add: int_to_string_def cxx_stod_def decimal_value_digits nat_to_string_digits)
  qed
qed

section \<open>Formatting\<close>

text \<open>\<open>%.2f\<close> of a non-negative value.\<close>

definition format_2f :: "double \<Rightarrow> string" where
  "format_2f d =
     (let r = nat (round_half_even (d * 100))
      in nat_to_string (r div 100) @ ''.'' @ [digit_char (r div 10 mod 10), digit_char (r mod 10)])"

text \<open>The exponent \<open>e\<close> with \<open>10^e \<le> x < 10^(e+1)\<close>, for positive \<open>x\<close>.\<close>

definition decimal_exponent :: "rat \<Rightarrow> int" where
  "decimal_exponent x =
     (let (n, d) = quotient_of x;
          l = int (length (nat_to_string (nat n))) - int (length (nat_to_string (nat d)))
      in if pow10 l \<le> x then l else l - 1)"

definition strip_zeros :: "string \<Rightarrow> string" where
  "strip_zeros s = rev (dropWhile (\<lambda>c. c = CHR ''0'') (rev s))"

definition with_fraction :: "string \<Rightarrow> string \<Rightarrow> string" where
  "with_fraction ip fp = (let f = strip_zeros fp in if f = [] then ip else ip @ ''.'' @ f)"

text \<open>\<open>ostream << value\<close> with \<open>precision(17)\<close>, i.e. \<open>%.17g\<close>.\<close>

definition format_g17 :: "double \<Rightarrow> string" where
  "format_g17 v =
     (if v = 0 then ''0''
      else let x = \<bar>v\<bar>;
               e0 = decimal_exponent x;
               m0 = nat (round_half_even (x * pow10 (16 - e0)));
               e = (if m0 = 10 ^ 17 then e0 + 1 else e0);
               ds = nat_to_string (if m0 = 10 ^ 17 then 10 ^ 16 else m0);
               body =
                 (if e < - 4 \<or> 17 \<le> e then
                    with_fraction (take 1 ds) (drop 1 ds) @ ''e'' @ (if e < 0 then ''-'' else ''+'') @
                    (let es = nat_to_string (nat \<bar>e\<bar>) in if length es < 2 then ''0'' @ es else es)
                  else if 0 \<le> e then with_fraction (take (nat e + 1) ds) (drop (nat e + 1) ds)
                  else with_fraction ''0'' (replicate (nat (- e) - 1) (CHR ''0'') @ ds))
           in (if v < 0 then ''-'' else []) @ body)"

end
