(* ===== verification/ShellWords.thy ===== *)
theory ShellWords
  imports Prelude
begin

text \<open>
  The abstract specification the command strings are proved against: how a POSIX shell (the
  device's \<open>sh\<close>) splits a command line into words and operators (Shell Command Language, 2.2
  and 2.3).  Single quotes and the backslash quote; blanks separate words; every other character
  with a meaning to the shell is an operator token of its own, so a byte of data that reached the
  shell unquoted shows up as \<^term>\<open>Oper\<close>, or as a split word.  Nothing here models abp itself.
\<close>

datatype sh_token = Word string | Oper char

datatype sh_quoting = Plain | Quoted | Escaped

record sh_state =
  sh_mode :: sh_quoting
  sh_cur :: "string option"
  sh_toks :: "sh_token list"

definition is_blank :: "char \<Rightarrow> bool" where
  "is_blank c \<longleftrightarrow> c = CHR '' '' \<or> byte_val c = 9"

definition is_oper :: "char \<Rightarrow> bool" where
  "is_oper c \<longleftrightarrow> c \<in> set ''|&;<>()$`*?[]#~{}!%'' \<or> byte_val c = 34 \<or> byte_val c = 10"

definition end_word :: "sh_state \<Rightarrow> sh_state" where
  "end_word st = (case sh_cur st of None \<Rightarrow> st | Some w \<Rightarrow> st\<lparr>sh_cur := None, sh_toks := sh_toks st @ [Word w]\<rparr>)"

definition add_char :: "char \<Rightarrow> sh_state \<Rightarrow> sh_state" where
  "add_char c st = st\<lparr>sh_cur := Some (case sh_cur st of None \<Rightarrow> [c] | Some w \<Rightarrow> w @ [c])\<rparr>"

definition open_word :: "sh_state \<Rightarrow> sh_state" where
  "open_word st = st\<lparr>sh_cur := Some (case sh_cur st of None \<Rightarrow> [] | Some w \<Rightarrow> w)\<rparr>"

fun sh_step :: "sh_state \<Rightarrow> char \<Rightarrow> sh_state" where
  "sh_step st c =
     (case sh_mode st of
        Quoted \<Rightarrow> if c = CHR 0x27 then st\<lparr>sh_mode := Plain\<rparr> else add_char c st
      | Escaped \<Rightarrow> (add_char c st)\<lparr>sh_mode := Plain\<rparr>
      | Plain \<Rightarrow>
          if c = CHR 0x27 then (open_word st)\<lparr>sh_mode := Quoted\<rparr>
          else if c = CHR 0x5C then st\<lparr>sh_mode := Escaped\<rparr>
          else if is_blank c then end_word st
          else if is_oper c then (let st' = end_word st in st'\<lparr>sh_toks := sh_toks st' @ [Oper c]\<rparr>)
          else add_char c st)"

declare sh_step.simps [simp del]

definition sh_start :: sh_state where
  "sh_start = \<lparr>sh_mode = Plain, sh_cur = None, sh_toks = []\<rparr>"

definition sh_run :: "sh_state \<Rightarrow> string \<Rightarrow> sh_state" where
  "sh_run st s = foldl sh_step st s"

text \<open>The words and operators of a command line; \<^term>\<open>None\<close> when a quote is left open.\<close>

definition sh_words :: "string \<Rightarrow> sh_token list option" where
  "sh_words s =
     (let st = sh_run sh_start s in if sh_mode st = Plain then Some (sh_toks (end_word st)) else None)"

section \<open>Running the lexer piecewise\<close>

lemma sh_run_Nil [simp]: "sh_run st [] = st"
  by (simp add: sh_run_def)

lemma sh_run_Cons [simp]: "sh_run st (c # s) = sh_run (sh_step st c) s"
  by (simp add: sh_run_def)

lemma sh_run_append [simp]: "sh_run st (s @ t) = sh_run (sh_run st s) t"
  by (simp add: sh_run_def)

text \<open>The state between two words: plain mode, no word begun.\<close>

definition between :: "sh_token list \<Rightarrow> sh_state" where
  "between ts = \<lparr>sh_mode = Plain, sh_cur = None, sh_toks = ts\<rparr>"

definition inside :: "string \<Rightarrow> sh_token list \<Rightarrow> sh_state" where
  "inside w ts = \<lparr>sh_mode = Plain, sh_cur = Some w, sh_toks = ts\<rparr>"

lemma sh_start_between: "sh_start = between []"
  by (simp add: sh_start_def between_def)

text \<open>Characters that stand for themselves outside quotes.\<close>

definition is_ordinary :: "char \<Rightarrow> bool" where
  "is_ordinary c \<longleftrightarrow> \<not> is_blank c \<and> \<not> is_oper c \<and> c \<noteq> CHR 0x27 \<and> c \<noteq> CHR 0x5C"

lemma sh_step_ordinary:
  "is_ordinary c \<Longrightarrow> sh_step (inside w ts) c = inside (w @ [c]) ts"
  "is_ordinary c \<Longrightarrow> sh_step (between ts) c = inside [c] ts"
  by (simp_all add: sh_step.simps is_ordinary_def inside_def between_def add_char_def)

lemma sh_run_ordinary_inside:
  "\<forall>c\<in>set s. is_ordinary c \<Longrightarrow> sh_run (inside w ts) s = inside (w @ s) ts"
  by (induction s arbitrary: w) (auto simp: sh_step_ordinary)

lemma sh_run_word:
  "\<forall>c\<in>set s. is_ordinary c \<Longrightarrow> s \<noteq> [] \<Longrightarrow> sh_run (between ts) s = inside s ts"
  by (cases s) (auto simp: sh_step_ordinary sh_run_ordinary_inside)

lemma sh_step_blank:
  "is_blank c \<Longrightarrow> sh_step (inside w ts) c = between (ts @ [Word w])"
  "is_blank c \<Longrightarrow> sh_step (between ts) c = between ts"
  by (auto simp: sh_step.simps is_blank_def inside_def between_def end_word_def)

lemma sh_step_oper:
  "is_oper c \<Longrightarrow> sh_step (inside w ts) c = between (ts @ [Word w, Oper c])"
  "is_oper c \<Longrightarrow> sh_step (between ts) c = between (ts @ [Oper c])"
  by (auto simp: sh_step.simps is_oper_def is_blank_def inside_def between_def end_word_def)

lemma sh_words_inside: "sh_run sh_start s = inside w ts \<Longrightarrow> sh_words s = Some (ts @ [Word w])"
  by (simp add: sh_words_def inside_def end_word_def)

lemma sh_words_between: "sh_run sh_start s = between ts \<Longrightarrow> sh_words s = Some ts"
  by (simp add: sh_words_def between_def end_word_def)

end
