(* ===== verification/StringUtil.thy ===== *)
theory StringUtil
  imports CxxDouble ShellWords
begin

text \<open>
  \<open>src/src/util/StringUtil.cpp\<close>: splitting, joining, trimming, the shell quoting every device
  command goes through, the package-name validator, and byte-count formatting.
\<close>

section \<open>Definitions\<close>

fun split_loop :: "char \<Rightarrow> string \<Rightarrow> string \<Rightarrow> string list" where
  "split_loop d current [] = [current]"
| "split_loop d current (c # cs) =
     (if c = d then current # split_loop d [] cs else split_loop d (current @ [c]) cs)"

definition split :: "string \<Rightarrow> char \<Rightarrow> string list" where
  "split text delimiter = split_loop delimiter [] text"

fun join :: "string list \<Rightarrow> string \<Rightarrow> string" where
  "join [] sep = []"
| "join [p] sep = p"
| "join (p # q # ps) sep = p @ sep @ join (q # ps) sep"

definition trim :: "string \<Rightarrow> string" where
  "trim text = rev (dropWhile is_space (rev (dropWhile is_space text)))"

definition startsWith :: "string \<Rightarrow> string \<Rightarrow> bool" where
  "startsWith text pre \<longleftrightarrow> length pre \<le> length text \<and> take (length pre) text = pre"

definition endsWith :: "string \<Rightarrow> string \<Rightarrow> bool" where
  "endsWith text suf \<longleftrightarrow>
     length suf \<le> length text \<and> drop (length text - length suf) text = suf"

text \<open>A single quote closes the quotation, is escaped outside it, and opens it again.\<close>

definition quote_char :: "char \<Rightarrow> string" where
  "quote_char c = (if c = CHR 0x27 then [CHR 0x27, CHR 0x5C, CHR 0x27, CHR 0x27] else [c])"

definition shellQuote :: "string \<Rightarrow> string" where
  "shellQuote arg = CHR 0x27 # concat (map quote_char arg) @ [CHR 0x27]"

text \<open>
  The regular expression \<open>^[A-Za-z][A-Za-z0-9_]*(\.[A-Za-z0-9_]+)+$\<close> as its automaton: in the
  first segment, just after a dot, inside a later segment.
\<close>

definition is_ident :: "char \<Rightarrow> bool" where
  "is_ident c \<longleftrightarrow> is_alnum c \<or> c = CHR ''_''"

datatype pkg_state = PkgStart | PkgFirst | PkgDot | PkgLater | PkgReject

fun pkg_step :: "pkg_state \<Rightarrow> char \<Rightarrow> pkg_state" where
  "pkg_step PkgStart c = (if is_alpha c then PkgFirst else PkgReject)"
| "pkg_step PkgFirst c = (if is_ident c then PkgFirst else if c = CHR ''.'' then PkgDot else PkgReject)"
| "pkg_step PkgDot c = (if is_ident c then PkgLater else PkgReject)"
| "pkg_step PkgLater c = (if is_ident c then PkgLater else if c = CHR ''.'' then PkgDot else PkgReject)"
| "pkg_step PkgReject c = PkgReject"

definition isValidPackageName :: "string \<Rightarrow> bool" where
  "isValidPackageName name \<longleftrightarrow>
     name \<noteq> [] \<and> length name \<le> 255 \<and> foldl pkg_step PkgStart name = PkgLater"

definition size_units :: "string list" where
  "size_units = [''B'', ''KB'', ''MB'', ''GB'', ''TB'']"

fun scale_bytes :: "nat \<Rightarrow> double \<Rightarrow> nat \<Rightarrow> double \<times> nat" where
  "scale_bytes 0 v i = (v, i)"
| "scale_bytes (Suc n) v i = (if 1024 \<le> v then scale_bytes n (v / 1024) (Suc i) else (v, i))"

definition formatBytes :: "nat \<Rightarrow> string" where
  "formatBytes bytes =
     (let (v, i) = scale_bytes 4 (double_from_int (int bytes)) 0
      in (if i = 0 then nat_to_string bytes else format_2f v) @ '' '' @ size_units ! i)"

section \<open>Splitting and joining\<close>

lemma split_loop_eq:
  "split_loop d cur s =
     (case split_loop d [] s of [] \<Rightarrow> [cur] | p # ps \<Rightarrow> (cur @ p) # ps)"
proof (induction s arbitrary: cur)
  case Nil
  then show ?case by simp
next
  case (Cons c s)
  show ?case
    using Cons [of "cur @ [c]"] Cons [of "[c]"]
    by (auto split: list.splits)
qed

lemma split_loop_not_Nil [simp]: "split_loop d cur s \<noteq> []"
  by (induction s arbitrary: cur) auto

lemma split_not_Nil [simp]: "split s d \<noteq> []"
  by (simp add: split_def)

lemma split_Nil [simp]: "split [] d = [[]]"
  by (simp add: split_def)

lemma split_Cons:
  "split (c # s) d =
     (if c = d then [] # split s d
      else case split s d of [] \<Rightarrow> [[c]] | p # ps \<Rightarrow> (c # p) # ps)"
  by (simp add: split_def split_loop_eq [of d "[c]"] split: list.splits)

lemma join_Cons: "ps \<noteq> [] \<Longrightarrow> join (p # ps) sep = p @ sep @ join ps sep"
  by (cases ps) auto

lemma join_cons_head: "join ((c # p) # ps) sep = c # join (p # ps) sep"
  by (cases ps) auto

lemma join_split [simp]: "join (split s d) [d] = s"
proof (induction s)
  case Nil
  then show ?case by simp
next
  case (Cons c s)
  then show ?case
    by (cases "split s d") (auto simp: split_Cons join_Cons join_cons_head)
qed

lemma split_no_delimiter: "d \<notin> set s \<Longrightarrow> split s d = [s]"
  by (induction s) (auto simp: split_Cons)

lemma split_append: "d \<notin> set p \<Longrightarrow> split (p @ d # s) d = p # split s d"
  by (induction p) (auto simp: split_Cons)

lemma split_join:
  "ps \<noteq> [] \<Longrightarrow> \<forall>p\<in>set ps. d \<notin> set p \<Longrightarrow> split (join ps [d]) d = ps"
  by (induction ps "[d]" rule: join.induct) (auto simp: split_no_delimiter split_append)

lemma split_parts_clean: "p \<in> set (split s d) \<Longrightarrow> d \<notin> set p"
proof (induction s arbitrary: p)
  case Nil
  then show ?case by simp
next
  case (Cons c s)
  show ?case
  proof (cases "c = d")
    case True
    with Cons show ?thesis by (auto simp: split_Cons)
  next
    case False
    obtain q qs where q: "split s d = q # qs" by (cases "split s d") auto
    with Cons.prems False have "p = c # q \<or> p \<in> set qs" by (auto simp: split_Cons)
    with q False Cons.IH show ?thesis by auto
  qed
qed

lemma set_split_subset: "p \<in> set (split s d) \<Longrightarrow> set p \<subseteq> set s"
proof (induction s arbitrary: p)
  case Nil
  then show ?case by simp
next
  case (Cons c s)
  obtain q qs where q: "split s d = q # qs" by (cases "split s d") auto
  with Cons.prems have "p = [] \<or> p = c # q \<or> p \<in> set (split s d)"
    by (auto simp: split_Cons split: if_splits)
  with q Cons.IH show ?case by fastforce
qed

section \<open>Trimming\<close>

lemma trim_no_space: "s = [] \<or> (\<not> is_space (hd s) \<and> \<not> is_space (last s)) \<Longrightarrow> trim s = s"
proof (cases s rule: rev_cases)
  case Nil
  then show ?thesis by (simp add: trim_def)
next
  case (snoc t x)
  assume "s = [] \<or> (\<not> is_space (hd s) \<and> \<not> is_space (last s))"
  with snoc have "dropWhile is_space s = s" by (cases t) auto
  with snoc \<open>s = [] \<or> _\<close> show ?thesis by (simp add: trim_def)
qed

lemma trim_ends: "trim s \<noteq> [] \<Longrightarrow> \<not> is_space (hd (trim s)) \<and> \<not> is_space (last (trim s))"
proof -
  assume ne: "trim s \<noteq> []"
  define l where "l = dropWhile is_space s"
  define r where "r = dropWhile is_space (rev l)"
  have trim: "trim s = rev r" by (simp only: trim_def l_def r_def)
  have r: "r \<noteq> []" using ne trim by simp
  then have last: "\<not> is_space (last (rev r))"
    unfolding last_rev unfolding r_def by (rule hd_dropWhile)
  have "rev l = takeWhile is_space (rev l) @ r" by (simp add: r_def)
  then have l: "l = rev r @ rev (takeWhile is_space (rev l))" by (metis rev_append rev_rev_ident)
  then have "l \<noteq> []" using r by (metis append_is_Nil_conv rev_is_Nil_conv)
  then have "\<not> is_space (hd l)" unfolding l_def by (rule hd_dropWhile)
  moreover have "hd l = hd (rev r)" using l r by (metis hd_append2 rev_is_Nil_conv)
  ultimately show ?thesis using last trim by simp
qed

lemma trim_idem [simp]: "trim (trim s) = trim s"
  using trim_ends [of s] by (intro trim_no_space) auto

lemma trim_Nil [simp]: "trim [] = []"
  by (simp add: trim_def)

lemma set_trim_subset: "set (trim s) \<subseteq> set s"
  unfolding trim_def by (metis set_dropWhileD set_rev subsetI)

section \<open>Prefixes and suffixes\<close>

lemma startsWith_prefix: "startsWith s p \<longleftrightarrow> prefix p s"
  by (simp add: startsWith_def append_eq_prefix_take)

lemma endsWith_suffix: "endsWith s p \<longleftrightarrow> suffix p s"
  by (simp add: endsWith_def append_eq_suffix_drop)

section \<open>Shell quoting\<close>

text \<open>Inside quotes, each quoted byte adds itself to the word; an apostrophe takes four steps.\<close>

lemma sh_run_quote_char:
  "sh_run \<lparr>sh_mode = Quoted, sh_cur = Some w, sh_toks = ts\<rparr> (quote_char c) =
     \<lparr>sh_mode = Quoted, sh_cur = Some (w @ [c]), sh_toks = ts\<rparr>"
  by (simp add: quote_char_def sh_step.simps add_char_def open_word_def)

lemma sh_run_quoted_body:
  "sh_run \<lparr>sh_mode = Quoted, sh_cur = Some w, sh_toks = ts\<rparr> (concat (map quote_char s)) =
     \<lparr>sh_mode = Quoted, sh_cur = Some (w @ s), sh_toks = ts\<rparr>"
  by (induction s arbitrary: w) (auto simp: sh_run_quote_char)

lemma sh_run_shellQuote [simp]:
  "sh_run (between ts) (shellQuote arg) = inside arg ts"
  "sh_run (inside w ts) (shellQuote arg) = inside (w @ arg) ts"
  by (simp_all add: shellQuote_def between_def inside_def sh_step.simps open_word_def
      sh_run_quoted_body)

lemma sh_run_joined_quotes:
  "args \<noteq> [] \<Longrightarrow>
   sh_run (between ts) (join (map shellQuote args) '' '') =
     inside (last args) (ts @ map Word (butlast args))"
proof (induction args arbitrary: ts)
  case Nil
  then show ?case by simp
next
  case (Cons a args)
  show ?case
  proof (cases args)
    case Nil
    then show ?thesis by simp
  next
    case (Cons b bs)
    then have "sh_run (between ts) (join (map shellQuote (a # args)) '' '') =
        sh_run (between (ts @ [Word a])) (join (map shellQuote args) '' '')"
      by (simp add: sh_step_blank is_blank_def)
    also have "\<dots> = inside (last args) ((ts @ [Word a]) @ map Word (butlast args))"
      using Cons by (intro Cons.IH) simp
    finally show ?thesis using Cons by simp
  qed
qed

lemma sh_words_shellQuote: "sh_words (shellQuote arg) = Some [Word arg]"
  using sh_words_inside [of "shellQuote arg" arg "[]"] by (simp add: sh_start_between)

section \<open>Package names\<close>

lemma foldl_pkg_reject [simp]: "foldl pkg_step PkgReject s = PkgReject"
  by (induction s) auto

lemma is_ident_not_dot: "is_ident c \<Longrightarrow> c \<noteq> CHR ''.''"
  by (auto simp: is_ident_def char_class_defs)

definition ident_segment :: "string \<Rightarrow> bool" where
  "ident_segment p \<longleftrightarrow> p \<noteq> [] \<and> (\<forall>c\<in>set p. is_ident c)"

text \<open>What the automaton accepts, segment by segment.\<close>

lemma pkg_run_later:
  "foldl pkg_step PkgDot s = PkgLater \<longleftrightarrow> (\<forall>p\<in>set (split s CHR ''.''). ident_segment p)"
  "foldl pkg_step PkgLater s = PkgLater \<longleftrightarrow>
     (\<forall>c\<in>set (hd (split s CHR ''.'')). is_ident c) \<and>
     (\<forall>p\<in>set (tl (split s CHR ''.'')). ident_segment p)"
proof (induction s)
  case Nil
  show "foldl pkg_step PkgDot [] = PkgLater \<longleftrightarrow> (\<forall>p\<in>set (split [] CHR ''.''). ident_segment p)"
    by (simp add: ident_segment_def)
  show "foldl pkg_step PkgLater [] = PkgLater \<longleftrightarrow>
     (\<forall>c\<in>set (hd (split [] CHR ''.'')). is_ident c) \<and>
     (\<forall>p\<in>set (tl (split [] CHR ''.'')). ident_segment p)"
    by simp
next
  case (Cons c s)
  obtain q qs where q: "split s CHR ''.'' = q # qs" by (cases "split s CHR ''.''") auto
  show "foldl pkg_step PkgDot (c # s) = PkgLater \<longleftrightarrow>
      (\<forall>p\<in>set (split (c # s) CHR ''.''). ident_segment p)"
    using Cons q is_ident_not_dot by (auto simp: split_Cons ident_segment_def)
  show "foldl pkg_step PkgLater (c # s) = PkgLater \<longleftrightarrow>
     (\<forall>d\<in>set (hd (split (c # s) CHR ''.'')). is_ident d) \<and>
     (\<forall>p\<in>set (tl (split (c # s) CHR ''.'')). ident_segment p)"
    using Cons q is_ident_not_dot by (auto simp: split_Cons ident_segment_def)
qed

lemma pkg_run_first:
  "foldl pkg_step PkgFirst s = PkgLater \<longleftrightarrow>
     (\<forall>c\<in>set (hd (split s CHR ''.'')). is_ident c) \<and> tl (split s CHR ''.'') \<noteq> [] \<and>
     (\<forall>p\<in>set (tl (split s CHR ''.'')). ident_segment p)"
proof (induction s)
  case Nil
  then show ?case by simp
next
  case (Cons c s)
  obtain q qs where q: "split s CHR ''.'' = q # qs" by (cases "split s CHR ''.''") auto
  show ?case
    using Cons q is_ident_not_dot
    by (auto simp: split_Cons pkg_run_later)
qed

lemma is_alpha_ident: "is_alpha c \<Longrightarrow> is_ident c"
  by (simp add: is_ident_def is_alnum_def)

lemma isValidPackageName_chars:
  assumes "isValidPackageName name"
  shows "\<forall>c\<in>set name. is_ident c \<or> c = CHR ''.''"
proof -
  have step: "foldl pkg_step st s \<noteq> PkgReject \<Longrightarrow> \<forall>c\<in>set s. is_ident c \<or> c = CHR ''.''" for st s
  proof (induction s arbitrary: st)
    case Nil
    then show ?case by simp
  next
    case (Cons c s)
    from Cons.prems have "pkg_step st c \<noteq> PkgReject" by auto
    then have "is_ident c \<or> c = CHR ''.''"
      by (cases st) (auto simp: is_alpha_ident split: if_splits)
    with Cons show ?case by auto
  qed
  show ?thesis using step [of PkgStart name] assms by (simp add: isValidPackageName_def)
qed

lemma isValidPackageName_hd: "isValidPackageName name \<Longrightarrow> is_alpha (hd name)"
  by (cases name) (auto simp: isValidPackageName_def split: if_splits)

lemma is_ident_ordinary: "is_ident c \<Longrightarrow> is_ordinary c"
  by (auto simp: is_ident_def char_class_defs is_ordinary_def is_blank_def is_oper_def)

lemma pkg_run_start:
  "foldl pkg_step PkgStart s = PkgLater \<longleftrightarrow>
     s \<noteq> [] \<and> is_alpha (hd s) \<and> list_all ident_segment (split s CHR ''.'') \<and>
     1 < length (split s CHR ''.'')"
proof (cases s)
  case (Cons c t)
  obtain q qs where q: "split t CHR ''.'' = q # qs" by (cases "split t CHR ''.''") auto
  have "is_alpha c \<Longrightarrow> c \<noteq> CHR ''.''" using is_alpha_ident is_ident_not_dot by blast
  with Cons q show ?thesis
    by (auto simp: pkg_run_first split_Cons ident_segment_def list_all_iff is_alpha_ident)
qed simp

section \<open>Properties\<close>

text \<open>C36: a command line built by quoting each argument and joining them with blanks is read
  back by a POSIX shell as exactly those arguments, whatever bytes they hold: no argument can
  end its word, start an operator, or expand.\<close>

theorem shellQuote_safe:
  "sh_words (join (map shellQuote args) '' '') = Some (map Word args)"
proof (cases "args = []")
  case True
  then show ?thesis by (simp add: sh_words_between [of _ "[]"] sh_start_between)
next
  case False
  then have "sh_run sh_start (join (map shellQuote args) '' '') =
      inside (last args) (map Word (butlast args))"
    using sh_run_joined_quotes [of args "[]"] by (simp add: sh_start_between)
  from sh_words_inside [OF this] False show ?thesis
    by (metis append_butlast_last_id list.simps(8,9) map_append)
qed

text \<open>The package-name validator accepts exactly the names of at most 255 bytes with at
  least two dot-separated segments, each a non-empty run of letters, digits and underscores, the
  first one starting with a letter.\<close>

theorem isValidPackageName_iff:
  "isValidPackageName name \<longleftrightarrow>
     name \<noteq> [] \<and> length name \<le> 255 \<and> is_alpha (hd name) \<and>
     1 < length (split name CHR ''.'') \<and> list_all ident_segment (split name CHR ''.'')"
  by (auto simp: isValidPackageName_def pkg_run_start)

text \<open>Splitting and joining on a delimiter are inverse: joining the parts gives the text
  back, the parts never hold the delimiter, and splitting a join of delimiter-free parts
  returns them.\<close>

theorem split_join_inverse:
  "join (split text d) [d] = text \<and> list_all (\<lambda>p. d \<notin> set p) (split text d) \<and>
   (ps \<noteq> [] \<and> list_all (\<lambda>p. d \<notin> set p) ps \<longrightarrow> split (join ps [d]) d = ps)"
  by (auto simp: list_all_iff split_join dest: split_parts_clean)

theorem split_join_inverse_witness:
  "split (join [''a'', [], ''b''] '','') CHR '','' = [''a'', [], ''b'']"
  using split_join_inverse [of "[]" "CHR '',''" "[''a'', [], ''b'']"] by simp

end
