(* ===== verification/DevicePaths.thy ===== *)
theory DevicePaths
  imports StringUtil
begin

text \<open>
  \<open>src/src/util/DevicePaths.cpp\<close>: normalising a device path, the prefix order on whole segments,
  the verdict on whether a path may be pulled, and the removal of nested capture roots.  The
  abstract view of a path is its list of non-empty segments; \<open>isUnder\<close> is proved to be the prefix
  order on that view, and the capture roots are handled in a locale over such an order.
\<close>

section \<open>Definitions\<close>

definition pseudoFilesystems :: "string list" where
  "pseudoFilesystems =
     [''/proc'', ''/sys'', ''/dev'', ''/acct'', ''/config'', ''/debug_ramdisk'', ''/mnt/runtime'',
      ''/apex'', ''/storage/self'']"

text \<open>The first loop of \<open>normalize\<close>; the flag is \<open>previousWasSlash\<close>.\<close>

fun squeeze_slashes :: "bool \<Rightarrow> string \<Rightarrow> string" where
  "squeeze_slashes prev [] = []"
| "squeeze_slashes prev (c # cs) =
     (if c = CHR ''/'' then (if prev then squeeze_slashes True cs else c # squeeze_slashes True cs)
      else c # squeeze_slashes False cs)"

text \<open>The second loop: \<open>while (result.size() > 1 && result.back() == '/') result.pop_back()\<close>.\<close>

function pop_slashes :: "string \<Rightarrow> string" where
  "pop_slashes s = (if 1 < length s \<and> last s = CHR ''/'' then pop_slashes (butlast s) else s)"
  by auto
termination by (relation "measure length") auto

declare pop_slashes.simps [simp del]

definition normalize :: "string \<Rightarrow> string" where
  "normalize path = (if path = [] then path else pop_slashes (squeeze_slashes False path))"

definition isUnder :: "string \<Rightarrow> string \<Rightarrow> bool" where
  "isUnder candidate ancestor =
     (let a = normalize candidate; b = normalize ancestor
      in if b = ''/'' then True
         else if a = b then True
         else length b < length a \<and> take (length b) a = b \<and> a ! length b = CHR ''/'')"

datatype PathVerdict = Ok | Empty | NotAbsolute | Root | PseudoFilesystem | Traversal

definition classify :: "string \<Rightarrow> PathVerdict" where
  "classify path =
     (let n = normalize (trim path)
      in if n = [] then Empty
         else if n ! 0 \<noteq> CHR ''/'' then NotAbsolute
         else if n = ''/'' then Root
         else if list_ex (\<lambda>segment. segment = ''..'') (split n CHR ''/'') then Traversal
         else if list_ex (isUnder n) pseudoFilesystems then PseudoFilesystem
         else Ok)"

definition isPullable :: "string \<Rightarrow> bool" where
  "isPullable path \<longleftrightarrow> classify path = Ok"

definition apostrophe :: string where
  "apostrophe = [CHR 0x27]"

fun explainVerdict :: "PathVerdict \<Rightarrow> string \<Rightarrow> string" where
  "explainVerdict Ok path = []"
| "explainVerdict Empty path = ''empty device path''"
| "explainVerdict NotAbsolute path =
     apostrophe @ path @ apostrophe @ '' is not an absolute device path (it must start with '' @
     apostrophe @ ''/'' @ apostrophe @ '')''"
| "explainVerdict Root path =
     ''refusing to pull '' @ apostrophe @ ''/'' @ apostrophe @
     '': it descends into /proc, /sys and /dev, which are kernel pseudo-filesystems rather than stored files -- /proc/kcore alone exposes all of physical memory, and reading a device node can block indefinitely. Use --all-files for every persistent partition, or name real paths with --pull-path.''"
| "explainVerdict PseudoFilesystem path =
     ''refusing to pull '' @ apostrophe @ path @ apostrophe @
     '': it is a kernel pseudo-filesystem or a bind-mount duplicate, not stored files''"
| "explainVerdict Traversal path =
     apostrophe @ path @ apostrophe @ '' contains a '' @ apostrophe @ ''..'' @ apostrophe @
     '' segment; name the target path directly''"

definition defaultCaptureRoots :: "string list" where
  "defaultCaptureRoots =
     [''/data'', ''/sdcard'', ''/system'', ''/system_ext'', ''/vendor'', ''/product'', ''/odm'', ''/oem'',
      ''/metadata'']"

text \<open>The three loops of \<open>collapseRedundant\<close>: clean, keep what no kept path covers, reorder.\<close>

definition clean_path :: "string \<Rightarrow> string" where
  "clean_path path = normalize (trim path)"

definition clean_step :: "string list \<Rightarrow> string \<Rightarrow> string list" where
  "clean_step acc path =
     (let clean = clean_path path in if clean = [] then acc else push_unique acc clean)"

definition shorter :: "string \<Rightarrow> string \<Rightarrow> bool" where
  "shorter a b \<longleftrightarrow> length a < length b"

definition keep_step :: "('a \<Rightarrow> 'a \<Rightarrow> bool) \<Rightarrow> 'a list \<Rightarrow> 'a \<Rightarrow> 'a list" where
  "keep_step below kept x = (if list_ex (below x) kept then kept else kept @ [x])"

definition order_step :: "string list \<Rightarrow> string list \<Rightarrow> string \<Rightarrow> string list" where
  "order_step kept ordered path =
     (let clean = clean_path path in if clean \<in> set kept then push_unique ordered clean else ordered)"

definition collapseRedundant :: "string list \<Rightarrow> string list" where
  "collapseRedundant paths =
     (let normalized = foldl clean_step [] paths;
          kept = foldl (keep_step isUnder) [] (sort_by shorter normalized)
      in foldl (order_step kept) [] paths)"

section \<open>Segments\<close>

definition segments :: "string \<Rightarrow> string list" where
  "segments p = filter (\<lambda>s. s \<noteq> []) (split p CHR ''/'')"

definition absolute :: "string \<Rightarrow> bool" where
  "absolute p \<longleftrightarrow> p \<noteq> [] \<and> hd p = CHR ''/''"

lemma absolute_Cons [simp]: "absolute (c # s) \<longleftrightarrow> c = CHR ''/''"
  by (simp add: absolute_def)

lemma segments_Nil [simp]: "segments [] = []"
  by (simp add: segments_def)

lemma segments_slash [simp]: "segments (CHR ''/'' # s) = segments s"
  by (simp add: segments_def split_Cons)

lemma segments_clean: "x \<in> set (segments p) \<Longrightarrow> x \<noteq> [] \<and> CHR ''/'' \<notin> set x"
  by (auto simp: segments_def dest: split_parts_clean)

definition clean_segments :: "string list \<Rightarrow> bool" where
  "clean_segments ss \<longleftrightarrow> (\<forall>x\<in>set ss. x \<noteq> [] \<and> CHR ''/'' \<notin> set x)"

lemma clean_segments_segments [simp]: "clean_segments (segments p)"
  using segments_clean by (auto simp: clean_segments_def)

lemma split_join_clean:
  "clean_segments ss \<Longrightarrow> ss \<noteq> [] \<Longrightarrow> split (join ss ''/'') CHR ''/'' = ss"
  by (rule split_join) (auto simp: clean_segments_def)

lemma segments_join [simp]: "clean_segments ss \<Longrightarrow> segments (join ss ''/'') = ss"
proof (cases "ss = []")
  case False
  assume clean: "clean_segments ss"
  then have "split (join ss ''/'') CHR ''/'' = ss" using False by (rule split_join_clean)
  with clean show ?thesis by (simp add: segments_def clean_segments_def filter_id_conv)
qed simp

lemma join_not_Nil: "join (x # xs) sep = [] \<Longrightarrow> x = []"
  by (cases xs) auto

lemma join_eq_Nil: "clean_segments ss \<Longrightarrow> join ss ''/'' = [] \<longleftrightarrow> ss = []"
  by (cases ss) (auto simp: clean_segments_def dest: join_not_Nil)

lemma join_inj: "clean_segments ss \<Longrightarrow> clean_segments ts \<Longrightarrow> join ss ''/'' = join ts ''/'' \<longleftrightarrow> ss = ts"
  by (metis segments_join)

lemma split_app_delim: "split (s @ d # t) d = split s d @ split t d"
proof (induction s)
  case Nil
  then show ?case by (simp add: split_Cons)
next
  case (Cons c s)
  obtain q qs where "split s d = q # qs" by (cases "split s d") auto
  with Cons show ?case by (simp add: split_Cons)
qed

lemma join_append: "ss \<noteq> [] \<Longrightarrow> ts \<noteq> [] \<Longrightarrow> join (ss @ ts) sep = join ss sep @ sep @ join ts sep"
proof (induction ss)
  case (Cons s ss)
  then show ?case by (cases "ss = []") (simp_all add: join_Cons)
qed simp

section \<open>Normalisation\<close>

definition strip_slashes :: "string \<Rightarrow> string" where
  "strip_slashes s = rev (dropWhile (\<lambda>c. c = CHR ''/'') (rev s))"

lemma pop_slashes_Cons: "pop_slashes (c # s) = c # strip_slashes s"
proof (induction s rule: rev_induct)
  case Nil
  then show ?case by (simp add: pop_slashes.simps strip_slashes_def)
next
  case (snoc x s)
  then show ?case
    by (subst pop_slashes.simps) (simp add: strip_slashes_def butlast_append)
qed

lemma strip_slashes_Cons:
  "strip_slashes (c # s) = (if strip_slashes s = [] \<and> c = CHR ''/'' then [] else c # strip_slashes s)"
  by (auto simp: strip_slashes_def dropWhile_append)

lemma strip_squeeze:
  "strip_slashes (squeeze_slashes True s) = join (segments s) ''/''"
  "strip_slashes (squeeze_slashes False s) =
     join (hd (split s CHR ''/'') # filter (\<lambda>x. x \<noteq> []) (tl (split s CHR ''/''))) ''/''"
proof (induction s)
  case Nil
  show "strip_slashes (squeeze_slashes True []) = join (segments []) ''/''"
    by (simp add: strip_slashes_def)
  show "strip_slashes (squeeze_slashes False []) =
     join (hd (split [] CHR ''/'') # filter (\<lambda>x. x \<noteq> []) (tl (split [] CHR ''/''))) ''/''"
    by (simp add: strip_slashes_def)
next
  case (Cons c s)
  obtain q qs where q: "split s CHR ''/'' = q # qs" by (cases "split s CHR ''/''") auto
  show "strip_slashes (squeeze_slashes True (c # s)) = join (segments (c # s)) ''/''"
    using Cons q by (simp add: strip_slashes_Cons segments_def split_Cons join_cons_head)
  show "strip_slashes (squeeze_slashes False (c # s)) =
     join (hd (split (c # s) CHR ''/'') # filter (\<lambda>x. x \<noteq> []) (tl (split (c # s) CHR ''/''))) ''/''"
  proof (cases "c = CHR ''/''")
    case True
    have "filter (\<lambda>x. x \<noteq> []) (split s CHR ''/'') = segments s" by (simp add: segments_def)
    with True Cons.IH(1) show ?thesis
      by (cases "segments s = []") (simp_all add: strip_slashes_Cons split_Cons join_Cons join_eq_Nil)
  next
    case False
    with Cons.IH(2) q show ?thesis by (simp add: strip_slashes_Cons split_Cons join_cons_head)
  qed
qed

lemma normalize_absolute: "absolute p \<Longrightarrow> normalize p = CHR ''/'' # join (segments p) ''/''"
  by (cases p) (auto simp: absolute_def normalize_def pop_slashes_Cons strip_squeeze)

lemma normalize_relative: "\<not> absolute p \<Longrightarrow> normalize p = join (segments p) ''/''"
proof (cases p)
  case (Cons c s)
  assume "\<not> absolute p"
  with Cons have c: "c \<noteq> CHR ''/''" by (simp add: absolute_def)
  obtain q qs where q: "split s CHR ''/'' = q # qs" by (cases "split s CHR ''/''") auto
  with Cons c show ?thesis
    by (simp add: normalize_def pop_slashes_Cons strip_squeeze segments_def split_Cons join_cons_head)
qed (simp add: normalize_def)

lemma segments_normalize [simp]: "segments (normalize p) = segments p"
  by (cases "absolute p") (simp_all add: normalize_absolute normalize_relative)

lemma absolute_normalize [simp]: "absolute (normalize p) \<longleftrightarrow> absolute p"
proof (cases "absolute p")
  case True
  then have "normalize p = CHR ''/'' # join (segments p) ''/''" by (rule normalize_absolute)
  with True show ?thesis by simp
next
  case False
  have "hd (join (segments p) ''/'') \<noteq> CHR ''/''" if ne: "segments p \<noteq> []"
  proof -
    obtain x xs where x: "segments p = x # xs" using ne by (meson neq_Nil_conv)
    then have "x \<noteq> []" "CHR ''/'' \<notin> set x" using segments_clean [of x p] by auto
    then have "hd x \<noteq> CHR ''/''" using hd_in_set by metis
    then show ?thesis using x \<open>x \<noteq> []\<close> by (cases xs) (auto simp: join_Cons)
  qed
  with False show ?thesis
    by (cases "segments p = []") (auto simp: normalize_relative absolute_def)
qed

lemma normalize_eq_Nil: "normalize p = [] \<longleftrightarrow> p = []"
proof (cases "absolute p")
  case True
  then show ?thesis by (simp add: normalize_absolute, auto simp: absolute_def)
next
  case False
  then show ?thesis
    by (cases p) (auto simp: normalize_def pop_slashes_Cons absolute_def)
qed

lemma normalize_idem [simp]: "normalize (normalize p) = normalize p"
  by (metis absolute_normalize normalize_absolute normalize_relative segments_normalize)

section \<open>The prefix order\<close>

lemma join_prefix_iff:
  assumes "clean_segments A" "clean_segments B" "B \<noteq> []"
  shows "(length (join B ''/'') < length (join A ''/'') \<and> take (length (join B ''/'')) (join A ''/'') = join B ''/'' \<and>
          join A ''/'' ! length (join B ''/'') = CHR ''/'') \<longleftrightarrow> (\<exists>C. C \<noteq> [] \<and> A = B @ C)"
    (is "?L \<longleftrightarrow> ?R")
proof
  assume ?L
  then have "join A ''/'' = join B ''/'' @ CHR ''/'' # drop (Suc (length (join B ''/''))) (join A ''/'')"
    by (metis id_take_nth_drop)
  then obtain r where r: "join A ''/'' = join B ''/'' @ CHR ''/'' # r" by blast
  have "A \<noteq> []" using \<open>?L\<close> by auto
  then have "A = split (join A ''/'') CHR ''/''" using assms by (simp add: split_join_clean)
  also have "\<dots> = B @ split r CHR ''/''" using assms by (simp add: r split_app_delim split_join_clean)
  finally show ?R using split_not_Nil by blast
next
  assume ?R
  then obtain C where C: "C \<noteq> []" "A = B @ C" by blast
  then show ?L using assms by (simp add: join_append nth_append)
qed

theorem isUnder_segments:
  assumes "absolute a" "absolute b"
  shows "isUnder a b \<longleftrightarrow> prefix (segments b) (segments a)"
proof (cases "segments b = []")
  case True
  with assms show ?thesis by (simp add: isUnder_def normalize_absolute)
next
  case False
  let ?A = "segments a" and ?B = "segments b"
  have ne: "join ?B ''/'' \<noteq> []" using False by (simp add: join_eq_Nil)
  have "isUnder a b \<longleftrightarrow> ?A = ?B \<or>
      (length (join ?B ''/'') < length (join ?A ''/'') \<and>
       take (length (join ?B ''/'')) (join ?A ''/'') = join ?B ''/'' \<and>
       join ?A ''/'' ! length (join ?B ''/'') = CHR ''/'')"
    using assms ne by (auto simp: isUnder_def normalize_absolute join_inj)
  also have "\<dots> \<longleftrightarrow> prefix ?B ?A"
    using join_prefix_iff [of ?A ?B] False by (auto simp: prefix_def)
  finally show ?thesis .
qed

lemma isUnder_normalize [simp]:
  "isUnder (normalize a) b = isUnder a b" "isUnder a (normalize b) = isUnder a b"
  by (simp_all add: isUnder_def)

section \<open>Removing covered elements\<close>

text \<open>
  What \<open>collapseRedundant\<close> needs of \<open>isUnder\<close>: on the values it compares, an order in which going
  up strictly lowers a rank, the length by which the list is sorted.
\<close>

locale cover_order =
  fixes below :: "'a \<Rightarrow> 'a \<Rightarrow> bool" and carrier :: "'a \<Rightarrow> bool" and rank :: "'a \<Rightarrow> nat"
  assumes below_refl: "carrier x \<Longrightarrow> below x x"
    and below_trans: "carrier x \<Longrightarrow> carrier y \<Longrightarrow> carrier z \<Longrightarrow> below x y \<Longrightarrow> below y z \<Longrightarrow> below x z"
    and below_rank: "carrier x \<Longrightarrow> carrier y \<Longrightarrow> below x y \<Longrightarrow> x \<noteq> y \<Longrightarrow> rank y < rank x"
begin

lemma set_keep_subset: "set (foldl (keep_step below) [] xs) \<subseteq> set xs"
  by (induction xs rule: rev_induct) (auto simp: keep_step_def)

lemma keep_covers:
  "\<forall>x\<in>set xs. carrier x \<Longrightarrow> \<forall>x\<in>set xs. \<exists>k\<in>set (foldl (keep_step below) [] xs). below x k"
  by (induction xs rule: rev_induct) (auto simp: keep_step_def list_ex_iff below_refl)

text \<open>The loop keeps exactly the elements nothing else covers, in order.\<close>

theorem keep_maximal:
  assumes "\<forall>x\<in>set xs. carrier x" "sorted_wrt (\<lambda>a b. rank a \<le> rank b) xs" "distinct xs"
  shows "foldl (keep_step below) [] xs = filter (\<lambda>x. \<forall>y\<in>set xs. below x y \<longrightarrow> y = x) xs"
  using assms
proof (induction xs rule: rev_induct)
  case Nil
  then show ?case by simp
next
  case (snoc x xs)
  let ?kept = "foldl (keep_step below) [] xs"
  have car: "\<forall>y\<in>set xs. carrier y" "carrier x" using snoc.prems by auto
  have ranks: "rank y \<le> rank x" if "y \<in> set xs" for y
    using snoc.prems(2) that by (simp add: sorted_wrt_append)
  have IH: "?kept = filter (\<lambda>z. \<forall>y\<in>set xs. below z y \<longrightarrow> y = z) xs"
    using snoc by (simp add: sorted_wrt_append)
  have new: "list_ex (below x) ?kept \<longleftrightarrow> (\<exists>y\<in>set xs. below x y)"
  proof
    assume "\<exists>y\<in>set xs. below x y"
    then obtain y where y: "y \<in> set xs" "below x y" by blast
    then obtain k where k: "k \<in> set ?kept" "below y k" using keep_covers car by blast
    then have "carrier k" using set_keep_subset car by blast
    with y k car have "below x k" using below_trans by blast
    with k show "list_ex (below x) ?kept" by (auto simp: list_ex_iff)
  qed (use set_keep_subset in \<open>auto simp: list_ex_iff\<close>)
  have old: "\<not> below z x" if "z \<in> set xs" for z
    using below_rank [of z x] ranks [OF that] car that snoc.prems(3) by auto
  have "filter (\<lambda>z. \<forall>y\<in>set (xs @ [x]). below z y \<longrightarrow> y = z) xs = ?kept"
    unfolding IH using old by (intro filter_cong) auto
  moreover have "(\<forall>y\<in>set (xs @ [x]). below x y \<longrightarrow> y = x) \<longleftrightarrow> \<not> list_ex (below x) ?kept"
    using new snoc.prems(3) by auto
  ultimately show ?case by (simp add: keep_step_def [of below ?kept x])
qed

end

lemma isUnder_length:
  "absolute x \<Longrightarrow> absolute y \<Longrightarrow> isUnder x y \<Longrightarrow> normalize x \<noteq> normalize y \<Longrightarrow>
   length (normalize y) < length (normalize x)"
proof -
  assume abs: "absolute x" "absolute y" and u: "isUnder x y" and ne: "normalize x \<noteq> normalize y"
  then obtain C where C: "segments x = segments y @ C"
    by (auto simp: isUnder_segments prefix_def)
  then have "C \<noteq> []" using abs ne by (auto simp: normalize_absolute)
  show ?thesis
  proof (cases "segments y = []")
    case True
    with C \<open>C \<noteq> []\<close> abs show ?thesis
      using join_eq_Nil [OF clean_segments_segments, of x] by (simp add: normalize_absolute)
  next
    case False
    with C \<open>C \<noteq> []\<close> abs show ?thesis by (simp add: normalize_absolute join_append)
  qed
qed

interpretation path_order: cover_order isUnder "\<lambda>p. absolute p \<and> normalize p = p" length
proof unfold_locales
  fix x y z
  assume x: "absolute x \<and> normalize x = x" and y: "absolute y \<and> normalize y = y"
    and z: "absolute z \<and> normalize z = z" and "isUnder x y" "isUnder y z"
  then show "isUnder x z" by (auto simp: isUnder_segments)
next
  fix x y
  assume "absolute x \<and> normalize x = x" "absolute y \<and> normalize y = y" "isUnder x y" "x \<noteq> y"
  then show "length y < length x" using isUnder_length [of x y] by simp
qed (auto simp: isUnder_segments)

interpretation path_length: comparator shorter
  by unfold_locales (auto simp: shorter_def)

section \<open>Capture roots\<close>

lemma clean_path_idem [simp]: "normalize (clean_path p) = clean_path p"
  by (simp add: clean_path_def)

lemma set_clean_fold:
  "set (foldl clean_step acc paths) = set acc \<union> {c \<in> clean_path ` set paths. c \<noteq> []}"
  by (induction paths arbitrary: acc) (auto simp: clean_step_def Let_def)

lemma distinct_clean_fold: "distinct acc \<Longrightarrow> distinct (foldl clean_step acc paths)"
  by (induction paths arbitrary: acc) (auto simp: clean_step_def Let_def)

lemma set_order_fold:
  "set (foldl (order_step kept) acc paths) = set acc \<union> (clean_path ` set paths \<inter> set kept)"
  by (induction paths arbitrary: acc) (auto simp: order_step_def Let_def)

lemma distinct_order_fold: "distinct acc \<Longrightarrow> distinct (foldl (order_step kept) acc paths)"
  by (induction paths arbitrary: acc) (auto simp: order_step_def Let_def)

lemma absolute_clean_path [simp]: "absolute (clean_path p) \<longleftrightarrow> absolute (trim p)"
  by (simp add: clean_path_def)

lemma collapse_set:
  assumes abs: "\<forall>p\<in>set paths. absolute (trim p)"
  shows "set (collapseRedundant paths) =
    {k \<in> clean_path ` set paths. \<forall>q\<in>set paths. isUnder k (trim q) \<longrightarrow> clean_path q = k}"
proof -
  let ?n = "foldl clean_step [] paths"
  let ?s = "sort_by shorter ?n"
  have n: "set ?n = clean_path ` set paths"
    using abs by (auto simp: set_clean_fold clean_path_def normalize_eq_Nil absolute_def)
  have car: "\<forall>x\<in>set ?s. absolute x \<and> normalize x = x" using abs n by auto
  have sorted: "sorted_wrt (\<lambda>a b. length a \<le> length b) ?s"
    using path_length.sort_by_sorted [of ?n] by (rule sorted_wrt_mono_rel [rotated]) (simp add: shorter_def)
  have "foldl (keep_step isUnder) [] ?s = filter (\<lambda>x. \<forall>y\<in>set ?s. isUnder x y \<longrightarrow> y = x) ?s"
    using path_order.keep_maximal [OF car sorted] by (simp add: distinct_clean_fold)
  then have "set (collapseRedundant paths) =
      clean_path ` set paths \<inter> {x \<in> set ?n. \<forall>y\<in>set ?n. isUnder x y \<longrightarrow> y = x}"
    by (simp add: collapseRedundant_def Let_def set_order_fold)
  then show ?thesis by (auto simp: n) (auto simp: clean_path_def)
qed

lemma collapse_covers:
  assumes abs: "\<forall>p\<in>set paths. absolute (trim p)" and p: "p \<in> set paths"
  shows "\<exists>k\<in>set (collapseRedundant paths). isUnder (trim p) k"
proof -
  let ?n = "foldl clean_step [] paths"
  let ?s = "sort_by shorter ?n"
  have n: "set ?n = clean_path ` set paths"
    using abs by (auto simp: set_clean_fold clean_path_def normalize_eq_Nil absolute_def)
  have car: "\<forall>x\<in>set ?s. absolute x \<and> normalize x = x" using abs n by auto
  have sub: "set (foldl (keep_step isUnder) [] ?s) \<subseteq> set ?n"
    using path_order.set_keep_subset [of ?s] by simp
  obtain k where k: "k \<in> set (foldl (keep_step isUnder) [] ?s)" "isUnder (clean_path p) k"
    using path_order.keep_covers [OF car] n p by auto
  with sub n have "k \<in> set (collapseRedundant paths)"
    by (auto simp: collapseRedundant_def Let_def set_order_fold)
  with k show ?thesis by (auto simp: clean_path_def)
qed

lemma classify_Ok:
  "classify p = Ok \<longleftrightarrow>
     absolute (trim p) \<and> segments (trim p) \<noteq> [] \<and> ''..'' \<notin> set (segments (trim p)) \<and>
     (\<forall>q\<in>set pseudoFilesystems. \<not> prefix (segments q) (segments (trim p)))"
proof (cases "absolute (trim p)")
  case False
  then have "normalize (trim p) = [] \<or> \<not> absolute (normalize (trim p))" by simp
  with False show ?thesis by (auto simp: classify_def Let_def absolute_def hd_conv_nth)
next
  case True
  let ?n = "normalize (trim p)"
  have n: "?n \<noteq> []" "?n ! 0 = CHR ''/''" using True by (simp_all add: normalize_absolute)
  have root: "?n = ''/'' \<longleftrightarrow> segments (trim p) = []"
    using True by (simp add: normalize_absolute join_eq_Nil)
  have seg: "''..'' \<in> set (split ?n CHR ''/'') \<longleftrightarrow> ''..'' \<in> set (segments (trim p))"
  proof -
    have "''..'' \<in> set (split ?n CHR ''/'') \<longleftrightarrow> ''..'' \<in> set (segments ?n)"
      unfolding segments_def by simp
    then show ?thesis by simp
  qed
  have pseudo: "absolute q" if "q \<in> set pseudoFilesystems" for q
    using that by (auto simp: pseudoFilesystems_def)
  have "isUnder ?n q \<longleftrightarrow> prefix (segments q) (segments (trim p))" if "q \<in> set pseudoFilesystems" for q
    using pseudo [OF that] True by (simp add: isUnder_segments)
  then show ?thesis
    using n True root seg by (auto simp: classify_def Let_def list_ex_iff)
qed

lemma segments_dot: "segments (CHR ''.'' # CHR ''/'' # s) = ''.'' # segments s"
  using split_append [of "CHR ''/''" "''.''" s] by (simp add: segments_def split_Cons)

lemma isPullable_dot:
  "isPullable (CHR ''/'' # CHR ''.'' # CHR ''/'' # s) \<longleftrightarrow> ''..'' \<notin> set (segments s)" if "s \<noteq> []" "\<not> is_space (last s)"
proof -
  have "trim (CHR ''/'' # CHR ''.'' # CHR ''/'' # s) = CHR ''/'' # CHR ''.'' # CHR ''/'' # s"
    using that by (intro trim_no_space) (simp add: is_space_def)
  moreover have "list_all (\<lambda>q. \<not> prefix (segments q) (''.'' # r)) pseudoFilesystems" for r
    by (simp add: pseudoFilesystems_def segments_def split_Cons)
  ultimately show ?thesis
    by (simp add: isPullable_def classify_Ok segments_dot list_all_iff)
qed

section \<open>Properties\<close>

text \<open>On absolute paths \<open>isUnder\<close> is the prefix order on whole path segments, so
  \<open>/datafoo\<close> is not under \<open>/data\<close> and repeated or trailing slashes make no difference.\<close>

theorem isUnder_is_segment_prefix:
  "absolute a \<Longrightarrow> absolute b \<Longrightarrow> isUnder a b \<longleftrightarrow> prefix (segments b) (segments a)"
  by (rule isUnder_segments)

theorem isUnder_is_segment_prefix_witness:
  "isUnder ''/data//app/'' ''/data/'' \<and> \<not> isUnder ''/datafoo'' ''/data''"
  using isUnder_is_segment_prefix [of "''/data//app/''" "''/data/''"]
    isUnder_is_segment_prefix [of "''/datafoo''" "''/data''"]
  by (simp add: segments_def split_Cons)

text \<open>A path is pullable exactly when, trimmed, it is absolute, names something below the
  root, has no \<open>..\<close> segment, and no pseudo-filesystem is a segment prefix of it.\<close>

theorem isPullable_iff:
  "isPullable path \<longleftrightarrow>
     absolute (trim path) \<and> segments (trim path) \<noteq> [] \<and> ''..'' \<notin> set (segments (trim path)) \<and>
     list_all (\<lambda>q. \<not> prefix (segments q) (segments (trim path))) pseudoFilesystems"
  by (simp add: isPullable_def classify_Ok list_all_iff)

text \<open>\<open>collapseRedundant\<close> on absolute paths loses nothing and repeats nothing: every path
  given is under one that is kept, no kept path is under another, the result has no duplicate,
  and it is the set of the given paths that no other given path covers, whatever their order.\<close>

theorem collapseRedundant_correct:
  assumes "\<forall>p\<in>set paths. absolute (trim p)"
  shows "(\<forall>p\<in>set paths. \<exists>k\<in>set (collapseRedundant paths). isUnder (trim p) k) \<and>
    (\<forall>k\<in>set (collapseRedundant paths). \<forall>l\<in>set (collapseRedundant paths). isUnder k l \<longrightarrow> k = l) \<and>
    distinct (collapseRedundant paths) \<and>
    set (collapseRedundant paths) =
      {k \<in> (\<lambda>p. normalize (trim p)) ` set paths.
         \<forall>q\<in>set paths. isUnder k (trim q) \<longrightarrow> normalize (trim q) = k}"
proof (intro conjI)
  show "\<forall>p\<in>set paths. \<exists>k\<in>set (collapseRedundant paths). isUnder (trim p) k"
    using collapse_covers [OF assms] by blast
  show "\<forall>k\<in>set (collapseRedundant paths). \<forall>l\<in>set (collapseRedundant paths). isUnder k l \<longrightarrow> k = l"
  proof (intro ballI impI)
    fix k l
    assume k: "k \<in> set (collapseRedundant paths)" and "l \<in> set (collapseRedundant paths)" and "isUnder k l"
    then obtain q where q: "q \<in> set paths" "l = normalize (trim q)"
      unfolding collapse_set [OF assms] clean_path_def by blast
    with \<open>isUnder k l\<close> have "isUnder k (trim q)" by simp
    moreover have "\<forall>q\<in>set paths. isUnder k (trim q) \<longrightarrow> clean_path q = k"
      using k unfolding collapse_set [OF assms] by blast
    ultimately show "k = l" using q by (simp add: clean_path_def)
  qed
  show "distinct (collapseRedundant paths)"
    by (simp add: collapseRedundant_def Let_def distinct_order_fold)
  show "set (collapseRedundant paths) =
      {k \<in> (\<lambda>p. normalize (trim p)) ` set paths.
         \<forall>q\<in>set paths. isUnder k (trim q) \<longrightarrow> normalize (trim q) = k}"
    unfolding collapse_set [OF assms] clean_path_def by (rule refl)
qed

theorem collapseRedundant_correct_witness:
  "\<exists>k\<in>set (collapseRedundant [''/d/a'', ''/s/'', '' /d'']). isUnder ''/d/a'' k"
proof -
  have "\<forall>p\<in>set [''/d/a'', ''/s/'', '' /d'']. absolute (trim p)" "trim ''/d/a'' = ''/d/a''"
    by (simp_all add: trim_def is_space_def)
  with collapseRedundant_correct [OF this(1), THEN conjunct1, THEN bspec, of "''/d/a''"]
  show ?thesis by (simp only: list.set insertI1)
qed

text \<open>Single-dot segments are not resolved, so the refusal of pseudo-filesystems and of the
  root does not see through them: \<open>/./proc\<close> and its like, and \<open>/.\<close>, are all accepted.\<close>

theorem dot_segment_is_pullable:
  "list_all (\<lambda>q. isPullable (''/.'' @ q)) pseudoFilesystems \<and> isPullable ''/.''"
proof
  have "''..'' \<notin> set (segments (tl q))" if "q \<in> set pseudoFilesystems" for q
    using that by (auto simp: pseudoFilesystems_def segments_def split_Cons)
  moreover have "q \<noteq> [] \<and> hd q = CHR ''/'' \<and> tl q \<noteq> [] \<and> \<not> is_space (last (tl q))"
    if "q \<in> set pseudoFilesystems" for q
    using that by (auto simp: pseudoFilesystems_def is_space_def)
  ultimately have "isPullable (''/.'' @ q)" if "q \<in> set pseudoFilesystems" for q
    using that isPullable_dot [of "tl q"] by (cases q) fastforce+
  then show "list_all (\<lambda>q. isPullable (''/.'' @ q)) pseudoFilesystems"
    by (simp add: list_all_iff)
  have "list_all (\<lambda>q. \<not> prefix (segments q) [''.'']) pseudoFilesystems"
    by (simp add: pseudoFilesystems_def segments_def split_Cons)
  moreover have "trim ''/.'' = ''/.''" "segments ''/.'' = [''.'']"
    by (simp_all add: trim_no_space is_space_def segments_def split_Cons)
  ultimately show "isPullable ''/.''"
    by (simp add: isPullable_def classify_Ok list_all_iff)
qed

end
