(* ===== verification/CxxTime.thy ===== *)
theory CxxTime
  imports CxxLib
begin

text \<open>
  What the program uses of \<open>gmtime_r\<close> and \<open>strftime\<close>: the proleptic Gregorian date and the time of
  day of a number of seconds since 1970-01-01T00:00:00Z, for years from 1000 on, which is where
  \<open>%Y\<close> is the plain decimal year.
\<close>

record utc_time =
  tm_year :: int
  tm_mon :: int
  tm_mday :: int
  tm_hour :: int
  tm_min :: int
  tm_sec :: int

text \<open>Years start in March in the computation, so that a leap day is the last day of its year.\<close>

definition civil_from_days :: "int \<Rightarrow> int \<times> int \<times> int" where
  "civil_from_days days =
     (let z = days + 719468;
          era = z div 146097;
          doe = z mod 146097;
          yoe = (doe - doe div 1460 + doe div 36524 - doe div 146096) div 365;
          doy = doe - (365 * yoe + yoe div 4 - yoe div 100);
          mp = (5 * doy + 2) div 153;
          d = doy - (153 * mp + 2) div 5 + 1;
          m = (if mp < 10 then mp + 3 else mp - 9);
          y = yoe + era * 400
      in (if m \<le> 2 then y + 1 else y, m, d))"

definition gmtime :: "int \<Rightarrow> utc_time" where
  "gmtime secs =
     (let (y, m, d) = civil_from_days (secs div 86400);
          t = secs mod 86400
      in \<lparr>tm_year = y, tm_mon = m, tm_mday = d, tm_hour = t div 3600, tm_min = t mod 3600 div 60, tm_sec = t mod 60\<rparr>)"

definition two_digits :: "int \<Rightarrow> string" where
  "two_digits n = [digit_char (nat (n div 10)), digit_char (nat (n mod 10))]"

text \<open>\<open>"%Y-%m-%dT%H:%M:%SZ"\<close>, \<open>"%Y%m%dT%H%M%SZ"\<close> and \<open>"%Y%m%d"\<close>.\<close>

definition utc_date :: "string \<Rightarrow> utc_time \<Rightarrow> string" where
  "utc_date sep t = int_to_string (tm_year t) @ sep @ two_digits (tm_mon t) @ sep @ two_digits (tm_mday t)"

definition utc_clock :: "string \<Rightarrow> utc_time \<Rightarrow> string" where
  "utc_clock sep t = ''T'' @ two_digits (tm_hour t) @ sep @ two_digits (tm_min t) @ sep @ two_digits (tm_sec t) @ ''Z''"

lemma leap_day: "utc_date ''-'' (gmtime 951782400) @ utc_clock '':'' (gmtime 951868799) = ''2000-02-29T23:59:59Z''"
  by code_simp

end
