(* ===== verification/Host.thy ===== *)
theory Host
  imports CxxTime
begin

text \<open>
  What abp does to the world around it.  The operating system and the \<open>adb\<close> program are not part
  of the sources: they are a record of functions over an arbitrary world \<open>'w\<close>, an argument of
  every definition that reaches them, and nothing is assumed of them here.  A \<open>sys\<close> is that world
  with the observable trace: the log messages that pass the verbosity filter, the progress
  reports, the processes started, the files written or removed, and what is written to
  \<open>std::cout\<close> and \<open>std::cerr\<close>, in order.  On top of it stand
  \<open>src/src/util/FsUtil.cpp\<close>, the entry points of \<open>Process.cpp\<close> and the filter of \<open>Logger.cpp\<close>.
\<close>

section \<open>The host\<close>

record ProcessResult =
  exitCode :: int
  stdOut :: string
  stdErr :: string
  spawnFailed :: bool
  cancelled :: bool

definition result_ok :: "ProcessResult \<Rightarrow> bool" where
  "result_ok r \<longleftrightarrow> \<not> spawnFailed r \<and> exitCode r = 0"

text \<open>How the child's standard streams are connected: \<open>run\<close>, \<open>runToFile\<close>, \<open>runFromFile\<close>.\<close>

datatype proc_io = Capture "string option" | ToFile string | FromFile string

record dirent =
  de_path :: string
  de_is_directory :: bool
  de_is_regular :: bool

record 'w host =
  h_exec :: "proc_io \<Rightarrow> string list \<Rightarrow> 'w \<Rightarrow> ProcessResult \<times> 'w"
  h_cancelRequested :: "'w \<Rightarrow> bool \<times> 'w"
  h_verbose :: bool
  h_exists :: "string \<Rightarrow> 'w \<Rightarrow> bool"
  h_is_directory :: "string \<Rightarrow> 'w \<Rightarrow> bool"
  h_is_regular :: "string \<Rightarrow> 'w \<Rightarrow> bool"
  h_file_size :: "string \<Rightarrow> 'w \<Rightarrow> nat option"
  h_read :: "string \<Rightarrow> 'w \<Rightarrow> (string \<times> bool) option"
  h_write :: "string \<Rightarrow> string \<Rightarrow> 'w \<Rightarrow> bool option \<times> 'w"
  h_create_directories :: "string \<Rightarrow> 'w \<Rightarrow> bool \<times> 'w"
  h_remove :: "string \<Rightarrow> 'w \<Rightarrow> 'w"
  h_remove_all :: "string \<Rightarrow> 'w \<Rightarrow> 'w"
  h_list :: "string \<Rightarrow> 'w \<Rightarrow> dirent list option"
  h_walk :: "string \<Rightarrow> 'w \<Rightarrow> dirent list option"
  h_owner_only :: "string \<Rightarrow> 'w \<Rightarrow> 'w"
  h_time :: "'w \<Rightarrow> int \<times> 'w"

text \<open>
  The readings: \<open>h_read\<close> is an \<open>ifstream\<close>, \<^term>\<open>None\<close> when it does not open, otherwise the bytes
  delivered and whether the end of the file was reached rather than a read error; \<open>h_write\<close>
  truncates and writes, \<^term>\<open>None\<close> when the file does not open, else whether the stream is still
  good; the listings are the entries in iteration order, up to the first iteration error, and
  \<^term>\<open>None\<close> when the iterator cannot be made.  \<open>h_cancelRequested\<close> steps the world: the flag
  is set by another thread or a signal handler, at any time.
\<close>

datatype LogLevel = Debug | Info | Warn | Error

datatype event =
    EvLog LogLevel string
  | EvProgress string int int string
  | EvExec proc_io "string list"
  | EvWrite string string
  | EvMkdir string
  | EvRemove string
  | EvOwnerOnly string
  | EvOut string
  | EvErr string

record 'w sys =
  world :: 'w
  trace :: "event list"

definition emit :: "event \<Rightarrow> 'w sys \<Rightarrow> 'w sys" where
  "emit e s = s\<lparr>trace := trace s @ [e]\<rparr>"

lemma trace_emit [simp]: "trace (emit e s) = trace s @ [e]"
  by (simp add: emit_def)

lemma world_emit [simp]: "world (emit e s) = world s"
  by (simp add: emit_def)

section \<open>Logging\<close>

fun logLevelName :: "LogLevel \<Rightarrow> string" where
  "logLevelName Debug = ''debug''"
| "logLevelName Info = ''info''"
| "logLevelName Warn = ''warn''"
| "logLevelName Error = ''error''"

definition log :: "'w host \<Rightarrow> LogLevel \<Rightarrow> string \<Rightarrow> 'w sys \<Rightarrow> 'w sys" where
  "log h level message s =
     (if level = Debug \<and> \<not> h_verbose h then s else emit (EvLog level message) s)"

definition log_debug :: "'w host \<Rightarrow> string \<Rightarrow> 'w sys \<Rightarrow> 'w sys" where
  "log_debug h m = log h Debug m"

definition log_info :: "'w host \<Rightarrow> string \<Rightarrow> 'w sys \<Rightarrow> 'w sys" where
  "log_info h m = log h Info m"

definition log_warn :: "'w host \<Rightarrow> string \<Rightarrow> 'w sys \<Rightarrow> 'w sys" where
  "log_warn h m = log h Warn m"

definition log_error :: "'w host \<Rightarrow> string \<Rightarrow> 'w sys \<Rightarrow> 'w sys" where
  "log_error h m = log h Error m"

definition progress :: "string \<Rightarrow> nat \<Rightarrow> nat \<Rightarrow> string \<Rightarrow> 'w sys \<Rightarrow> 'w sys" where
  "progress step i n item s = emit (EvProgress step (int i) (int n) item) s"

section \<open>Processes\<close>

definition cancelRequested :: "'w host \<Rightarrow> 'w sys \<Rightarrow> bool \<times> 'w sys" where
  "cancelRequested h s = (let (b, w) = h_cancelRequested h (world s) in (b, s\<lparr>world := w\<rparr>))"

definition cancelledResult :: ProcessResult where
  "cancelledResult =
     \<lparr>exitCode = - 1, stdOut = [], stdErr = ''cancelled'', spawnFailed = True, cancelled = True\<rparr>"

definition emptyArgsResult :: ProcessResult where
  "emptyArgsResult =
     \<lparr>exitCode = - 1, stdOut = [], stdErr = [], spawnFailed = True, cancelled = False\<rparr>"

text \<open>
  The common shape of \<open>run\<close>, \<open>runToFile\<close> and \<open>runFromFile\<close>: no arguments and a pending cancel
  return at once; from there on everything (opening the file and the pipes, the child, its wait
  status) is the host's answer.
\<close>

definition process :: "'w host \<Rightarrow> proc_io \<Rightarrow> string list \<Rightarrow> 'w sys \<Rightarrow> ProcessResult \<times> 'w sys" where
  "process h io args s =
     (if args = [] then (emptyArgsResult, s)
      else case cancelRequested h s of
        (True, s1) \<Rightarrow> (cancelledResult, s1)
      | (False, s1) \<Rightarrow>
          (let (r, w) = h_exec h io args (world s1)
           in (r, emit (EvExec io args) (s1\<lparr>world := w\<rparr>))))"

definition Process_run :: "'w host \<Rightarrow> string list \<Rightarrow> 'w sys \<Rightarrow> ProcessResult \<times> 'w sys" where
  "Process_run h args = process h (Capture None) args"

definition Process_runToFile :: "'w host \<Rightarrow> string list \<Rightarrow> string \<Rightarrow> 'w sys \<Rightarrow> ProcessResult \<times> 'w sys" where
  "Process_runToFile h args path = process h (ToFile path) args"

definition Process_runFromFile :: "'w host \<Rightarrow> string list \<Rightarrow> string \<Rightarrow> 'w sys \<Rightarrow> ProcessResult \<times> 'w sys" where
  "Process_runFromFile h args path = process h (FromFile path) args"

section \<open>Files\<close>

text \<open>\<open>operator/\<close> of \<open>std::filesystem::path\<close>: an absolute right-hand side replaces the left one.\<close>

definition path_join :: "string \<Rightarrow> string \<Rightarrow> string" where
  "path_join a b =
     (if take 1 b = ''/'' then b
      else if a = [] \<or> last a = CHR ''/'' then a @ b
      else a @ ''/'' @ b)"

definition path_filename :: "string \<Rightarrow> string" where
  "path_filename p = (case rfind_char (CHR ''/'') p of None \<Rightarrow> p | Some i \<Rightarrow> drop (Suc i) p)"

text \<open>\<open>parent_path()\<close>: without the last component and the slashes before it, but never losing the root.\<close>

definition path_parent :: "string \<Rightarrow> string" where
  "path_parent p =
     (case rfind_char (CHR ''/'') p of
        None \<Rightarrow> []
      | Some i \<Rightarrow>
          (let q = rev (dropWhile (\<lambda>c. c = CHR ''/'') (rev (take i p)))
           in if q = [] then ''/'' else q))"

definition create_directories :: "'w host \<Rightarrow> string \<Rightarrow> 'w sys \<Rightarrow> bool \<times> 'w sys" where
  "create_directories h dir s =
     (let (ok, w) = h_create_directories h dir (world s) in (ok, emit (EvMkdir dir) (s\<lparr>world := w\<rparr>)))"

definition fs_remove :: "'w host \<Rightarrow> string \<Rightarrow> 'w sys \<Rightarrow> 'w sys" where
  "fs_remove h p s = emit (EvRemove p) (s\<lparr>world := h_remove h p (world s)\<rparr>)"

definition fs_remove_all :: "'w host \<Rightarrow> string \<Rightarrow> 'w sys \<Rightarrow> 'w sys" where
  "fs_remove_all h p s = emit (EvRemove p) (s\<lparr>world := h_remove_all h p (world s)\<rparr>)"

text \<open>\<open>fs::permissions(p, owner_read | owner_write)\<close> and \<open>std::time(nullptr)\<close>.\<close>

definition fs_owner_only :: "'w host \<Rightarrow> string \<Rightarrow> 'w sys \<Rightarrow> 'w sys" where
  "fs_owner_only h p s = emit (EvOwnerOnly p) (s\<lparr>world := h_owner_only h p (world s)\<rparr>)"

definition time_now :: "'w host \<Rightarrow> 'w sys \<Rightarrow> int \<times> 'w sys" where
  "time_now h s = (let (t, w) = h_time h (world s) in (t, s\<lparr>world := w\<rparr>))"

definition utcTimestamp :: "'w host \<Rightarrow> 'w sys \<Rightarrow> string \<times> 'w sys" where
  "utcTimestamp h s =
     (let (t, s1) = time_now h s; utc = gmtime t in (utc_date ''-'' utc @ utc_clock '':'' utc, s1))"

definition ensureDirectory :: "'w host \<Rightarrow> string \<Rightarrow> 'w sys \<Rightarrow> bool \<times> 'w sys" where
  "ensureDirectory h dir s =
     (if h_is_directory h dir (world s) then (True, s)
      else if h_exists h dir (world s) then (False, s)
      else case create_directories h dir s of
        (True, s1) \<Rightarrow> (True, s1)
      | (False, s1) \<Rightarrow> (h_is_directory h dir (world s1), s1))"

definition fileSize :: "'w host \<Rightarrow> string \<Rightarrow> 'w sys \<Rightarrow> nat" where
  "fileSize h path s =
     (if \<not> h_is_regular h path (world s) then 0
      else case h_file_size h path (world s) of None \<Rightarrow> 0 | Some n \<Rightarrow> n)"

definition readTextFile :: "'w host \<Rightarrow> string \<Rightarrow> 'w sys \<Rightarrow> string result" where
  "readTextFile h path s =
     (case h_read h path (world s) of
        None \<Rightarrow> Inl (''cannot open file for reading: '' @ path)
      | Some (bytes, _) \<Rightarrow> Inr bytes)"

definition writeTextFile :: "'w host \<Rightarrow> string \<Rightarrow> string \<Rightarrow> 'w sys \<Rightarrow> unit result \<times> 'w sys" where
  "writeTextFile h path content s =
     (let s1 = (if path_parent path \<noteq> [] then snd (create_directories h (path_parent path) s) else s)
      in case h_write h path content (world s1) of
           (None, w) \<Rightarrow> (Inl (''cannot open file for writing: '' @ path), s1\<lparr>world := w\<rparr>)
         | (Some ok, w) \<Rightarrow>
             (if ok then Inr () else Inl (''failed writing file: '' @ path),
              emit (EvWrite path content) (s1\<lparr>world := w\<rparr>)))"

definition directorySize :: "'w host \<Rightarrow> string \<Rightarrow> 'w sys \<Rightarrow> nat" where
  "directorySize h dir s =
     (if \<not> h_exists h dir (world s) then 0
      else case h_walk h dir (world s) of
        None \<Rightarrow> 0
      | Some es \<Rightarrow>
          foldl (\<lambda>acc e. if de_is_regular e then u64 (acc + fileSize h (de_path e) s) else acc) 0 es)"

definition sanitize_char :: "char \<Rightarrow> char" where
  "sanitize_char c =
     (if is_alnum c \<or> c = CHR ''.'' \<or> c = CHR ''_'' \<or> c = CHR ''-'' then c else CHR ''_'')"

definition sanitizeForFilename :: "string \<Rightarrow> string" where
  "sanitizeForFilename name = (let r = map sanitize_char name in if r = [] then ''_'' else r)"

section \<open>What may be added to the trace\<close>

text \<open>\<open>extends Q s s'\<close>: the step kept the trace and every event it added satisfies \<open>Q\<close>.\<close>

definition extends :: "(event \<Rightarrow> bool) \<Rightarrow> 'w sys \<Rightarrow> 'w sys \<Rightarrow> bool" where
  "extends Q s s' \<longleftrightarrow> (\<exists>es. trace s' = trace s @ es \<and> list_all Q es)"

lemma extends_refl [simp, intro]: "extends Q s s"
  by (simp add: extends_def)

lemma extends_trans [trans]: "extends Q s t \<Longrightarrow> extends Q t u \<Longrightarrow> extends Q s u"
  by (auto simp: extends_def)

lemma extends_mono: "extends P s t \<Longrightarrow> (\<And>e. P e \<Longrightarrow> Q e) \<Longrightarrow> extends Q s t"
  by (auto simp: extends_def list_all_iff)

lemma extends_world [simp]: "extends Q s (t\<lparr>world := w\<rparr>) = extends Q s t"
  "extends Q (s\<lparr>world := w\<rparr>) t = extends Q s t"
  by (simp_all add: extends_def)

lemma extends_emit: "Q e \<Longrightarrow> extends Q s t \<Longrightarrow> extends Q s (emit e t)"
  by (auto simp: extends_def)

lemma extends_emit_self [simp]: "extends Q s (emit e s) \<longleftrightarrow> Q e"
  by (auto simp: extends_def)

text \<open>Events that are not processes: they never reach the device.\<close>

fun local_event :: "event \<Rightarrow> bool" where
  "local_event (EvExec _ _) = False"
| "local_event _ = True"

text \<open>Processes all satisfying \<open>P\<close>, other events free.\<close>

fun execs_only :: "(proc_io \<Rightarrow> string list \<Rightarrow> bool) \<Rightarrow> event \<Rightarrow> bool" where
  "execs_only P (EvExec io args) = P io args"
| "execs_only P _ = True"

lemma local_execs_only: "local_event e \<Longrightarrow> execs_only P e"
  by (cases e) auto

lemma extends_local_execs: "extends local_event s t \<Longrightarrow> extends (execs_only P) s t"
  by (erule extends_mono) (rule local_execs_only)

lemma extends_log [trace_intros]:
  "extends local_event s (log_debug h m s)" "extends local_event s (log_info h m s)"
  "extends local_event s (log_warn h m s)" "extends local_event s (log_error h m s)"
  "extends local_event s (progress st d n i s)"
  by (simp_all add: log_debug_def log_info_def log_warn_def log_error_def log_def progress_def)

lemma extends_cancelRequested: "extends Q s (snd (cancelRequested h s))"
  by (simp add: cancelRequested_def split: prod.splits)

lemma extends_files [trace_intros]:
  "extends local_event s (snd (create_directories h d s))"
  "extends local_event s (fs_remove h p s)" "extends local_event s (fs_remove_all h p s)"
  "extends local_event s (fs_owner_only h p s)" "extends local_event s (snd (utcTimestamp h s))"
  "extends local_event s (snd (time_now h s))"
  "extends local_event s (snd (ensureDirectory h d s))"
proof -
  show "extends local_event s (fs_owner_only h p s)" by (auto simp: fs_owner_only_def intro: extends_emit)
  show "extends local_event s (snd (time_now h s))" by (simp add: time_now_def split_beta Let_def)
  then show "extends local_event s (snd (utcTimestamp h s))" by (simp add: utcTimestamp_def split_beta Let_def)
  show mk: "extends local_event s (snd (create_directories h d s))"
    by (auto simp: create_directories_def split: prod.splits intro: extends_emit)
  show "extends local_event s (fs_remove h p s)" "extends local_event s (fs_remove_all h p s)"
    by (auto simp: fs_remove_def fs_remove_all_def intro: extends_emit)
  show "extends local_event s (snd (ensureDirectory h d s))"
    using mk by (auto simp: ensureDirectory_def split: prod.splits bool.splits)
qed

lemma extends_writeTextFile [trace_intros]: "extends local_event s (snd (writeTextFile h p c s))"
proof -
  have "extends local_event s (if path_parent p \<noteq> [] then snd (create_directories h (path_parent p) s) else s)"
    by (simp add: extends_files)
  then show ?thesis
    by (auto simp: writeTextFile_def Let_def split: prod.splits option.splits intro!: extends_emit)
qed

lemma extends_process: "(args \<noteq> [] \<Longrightarrow> P io args) \<Longrightarrow> extends (execs_only P) s (snd (process h io args s))"
  using extends_cancelRequested [of "execs_only P" s h]
  by (auto simp: process_def Let_def split: prod.splits bool.splits intro: extends_emit)

text \<open>While a cancel is pending no process starts, and the call reports \<open>cancelled\<close>.\<close>

lemma process_cancelled:
  "args \<noteq> [] \<Longrightarrow> fst (cancelRequested h s) \<Longrightarrow>
   process h io args s = (cancelledResult, snd (cancelRequested h s))"
  by (auto simp: process_def split: prod.splits)

section \<open>File names\<close>

lemma sanitize_char_class:
  "is_alnum (sanitize_char c) \<or> sanitize_char c \<in> set ''._-''"
  by (auto simp: sanitize_char_def)

lemma sanitize_no_slash: "CHR ''/'' \<notin> set (sanitizeForFilename name)"
proof -
  have "CHR ''/'' \<noteq> sanitize_char c" for c
    by (auto simp: sanitize_char_def char_class_defs)
  then show ?thesis by (auto simp: sanitizeForFilename_def Let_def)
qed

lemma sanitize_not_Nil: "sanitizeForFilename name \<noteq> []"
  by (simp add: sanitizeForFilename_def Let_def)

lemma sanitize_id:
  "name \<noteq> [] \<Longrightarrow> \<forall>c\<in>set name. is_alnum c \<or> c \<in> set ''._-'' \<Longrightarrow> sanitizeForFilename name = name"
  by (auto simp: sanitizeForFilename_def sanitize_char_def Let_def intro!: map_idI)

section \<open>A concrete host\<close>

text \<open>A host with no files, on which every process succeeds without output: for instances.\<close>

definition silent_success :: ProcessResult where
  "silent_success = \<lparr>exitCode = 0, stdOut = [], stdErr = [], spawnFailed = False, cancelled = False\<rparr>"

definition quiet_host :: "unit host" where
  "quiet_host =
     \<lparr>h_exec = (\<lambda>io args w. (silent_success, w)), h_cancelRequested = (\<lambda>w. (False, w)), h_verbose = False,
      h_exists = (\<lambda>p w. False), h_is_directory = (\<lambda>p w. False), h_is_regular = (\<lambda>p w. False),
      h_file_size = (\<lambda>p w. None), h_read = (\<lambda>p w. None), h_write = (\<lambda>p c w. (Some True, w)),
      h_create_directories = (\<lambda>p w. (True, w)), h_remove = (\<lambda>p w. w), h_remove_all = (\<lambda>p w. w),
      h_list = (\<lambda>p w. None), h_walk = (\<lambda>p w. None), h_owner_only = (\<lambda>p w. w),
      h_time = (\<lambda>w. (1767225600, w))\<rparr>"

definition quiet_sys :: "unit sys" where
  "quiet_sys = \<lparr>world = (), trace = []\<rparr>"

end
