(* ===== verification/TarArchive.thy ===== *)
theory TarArchive
  imports StringUtil Host "HOL-Library.Char_ord" "HOL-Library.List_Lexorder"
begin

text \<open>
  \<open>include/abp/TarArchive.h\<close> and \<open>src/src/backup/TarArchive.cpp\<close>: indexing an uncompressed tar
  archive by its headers and listing one level of its tree.  The file is its list of bytes and the
  size the file system reports for it; \<open>size_t\<close> arithmetic wraps at \<open>2^64\<close>.  The two loops that
  need not end take fuel, and running out of it is \<^term>\<open>None\<close>.
\<close>

section \<open>Header fields\<close>

definition kBlock :: nat where
  "kBlock = 512"

definition kMaxMetadataBytes :: nat where
  "kMaxMetadataBytes = 1024 * 1024"

definition NUL :: char where
  "NUL = CHR 0x00"

definition field :: "string \<Rightarrow> nat \<Rightarrow> nat \<Rightarrow> string" where
  "field header offset n = takeWhile (\<lambda>c. c \<noteq> NUL) (substr header offset n)"

text \<open>The two loops of \<open>number\<close>: base 256 modulo \<open>2^64\<close>, and octal text with leading blanks.\<close>

fun base256 :: "nat \<Rightarrow> string \<Rightarrow> nat" where
  "base256 val [] = val"
| "base256 val (c # cs) = base256 (u64 (val * 256) + byte_val c) cs"

fun octal :: "nat \<Rightarrow> string \<Rightarrow> nat" where
  "octal val [] = val"
| "octal val (c # cs) =
     (if c = CHR '' '' \<and> val = 0 then octal val cs
      else if byte_val c < 48 \<or> 55 < byte_val c then val
      else octal (u64 (val * 8 + (byte_val c - 48))) cs)"

definition number :: "string \<Rightarrow> nat \<Rightarrow> nat \<Rightarrow> nat" where
  "number header offset n =
     (let bytes = substr header offset n; first = byte_val (hd bytes)
      in if 128 \<le> first then base256 (first mod 128) (tl bytes) else octal 0 bytes)"

definition isZeroBlock :: "string \<Rightarrow> bool" where
  "isZeroBlock header \<longleftrightarrow> list_all (\<lambda>c. c = NUL) header"

definition checksum_sum :: "string \<Rightarrow> nat" where
  "checksum_sum header =
     sum_list (map byte_val (take 148 header)) + 8 * 32 + sum_list (map byte_val (drop 156 header))"

definition checksumValid :: "string \<Rightarrow> bool" where
  "checksumValid header \<longleftrightarrow> checksum_sum header = number header 148 8"

fun strip_dot_slash :: "string \<Rightarrow> string" where
  "strip_dot_slash (c # d # r) =
     (if c = CHR ''.'' \<and> d = CHR ''/'' then strip_dot_slash r else c # d # r)"
| "strip_dot_slash s = s"

definition cleanName :: "string \<Rightarrow> string" where
  "cleanName name = dropWhile (\<lambda>c. c = CHR ''/'') (strip_dot_slash name)"

text \<open>\<open>data.c_str()\<close> assigned to a string: up to the first NUL.\<close>

definition c_str :: "string \<Rightarrow> string" where
  "c_str bytes = takeWhile (\<lambda>c. c \<noteq> NUL) bytes"

section \<open>Pax records\<close>

type_synonym pax_map = "string \<Rightarrow> string option"

text \<open>One round of the loop of \<open>parsePax\<close>: \<^term>\<open>None\<close> is \<open>break\<close>.\<close>

definition pax_record :: "string \<Rightarrow> nat \<Rightarrow> (nat \<times> string) option" where
  "pax_record bytes pos =
     (case find_char_at (CHR '' '') pos bytes of
        None \<Rightarrow> None
      | Some space \<Rightarrow>
          (case cxx_stoull (substr bytes pos (space - pos)) of
             None \<Rightarrow> None
           | Some len \<Rightarrow>
               if len < (space - pos) + 3 \<or> length bytes < u64 (pos + len) then None
               else Some (len, substr bytes (space + 1) (len - (space - pos) - 2))))"

definition pax_store :: "pax_map \<Rightarrow> string \<Rightarrow> pax_map" where
  "pax_store out record =
     (case find_char (CHR ''='') record of
        None \<Rightarrow> out
      | Some eq \<Rightarrow> out(take eq record \<mapsto> drop (eq + 1) record))"

fun parsePax_loop :: "nat \<Rightarrow> string \<Rightarrow> nat \<Rightarrow> pax_map \<Rightarrow> pax_map option" where
  "parsePax_loop 0 bytes pos out = (if pos < length bytes then None else Some out)"
| "parsePax_loop (Suc n) bytes pos out =
     (if pos < length bytes then
        (case pax_record bytes pos of
           None \<Rightarrow> Some out
         | Some (len, record) \<Rightarrow> parsePax_loop n bytes (u64 (pos + len)) (pax_store out record))
      else Some out)"

definition parsePax :: "string \<Rightarrow> pax_map \<Rightarrow> pax_map option" where
  "parsePax bytes out = parsePax_loop (length bytes + 1) bytes 0 out"

section \<open>The index\<close>

datatype EntryType = TarFile | TarDirectory | TarSymlink | TarOther

record Entry =
  te_name :: string
  te_type :: EntryType
  te_size :: nat
  te_offset :: nat
  te_mtime :: int
  te_linkTarget :: string

text \<open>The metadata collected for the entry that follows.\<close>

record tar_meta =
  longName :: string
  longLink :: string
  pax :: pax_map

definition no_meta :: tar_meta where
  "no_meta = \<lparr>longName = [], longLink = [], pax = Map.empty\<rparr>"

text \<open>\<open>static_cast<long long>\<close> of an unsigned 64-bit value.\<close>

definition ll_from_ull :: "nat \<Rightarrow> int" where
  "ll_from_ull n = (if n < 2 ^ 63 then int n else int n - 2 ^ 64)"

definition minus_u64 :: "nat \<Rightarrow> nat \<Rightarrow> nat" where
  "minus_u64 a b = nat ((int a - int b) mod 2 ^ 64)"

definition next_block :: "nat \<Rightarrow> nat \<Rightarrow> nat" where
  "next_block dataOffset sz = u64 (dataOffset + u64 (sz + kBlock - 1) div kBlock * kBlock)"

definition entry_type :: "char \<Rightarrow> EntryType" where
  "entry_type type =
     (if type = CHR ''0'' \<or> type = NUL \<or> type = CHR ''7'' then TarFile
      else if type = CHR ''5'' then TarDirectory
      else if type = CHR ''2'' then TarSymlink
      else TarOther)"

definition strip_trailing_slashes :: "string \<Rightarrow> string" where
  "strip_trailing_slashes s = rev (dropWhile (\<lambda>c. c = CHR ''/'') (rev s))"

definition entry_name :: "string \<Rightarrow> tar_meta \<Rightarrow> string" where
  "entry_name header m =
     (let name = field header 0 100;
          pre = field header 345 155;
          name1 = (if field header 257 5 = ''ustar'' \<and> pre \<noteq> [] then pre @ ''/'' @ name else name);
          name2 = (if longName m \<noteq> [] then longName m else name1)
      in case pax m ''path'' of Some p \<Rightarrow> p | None \<Rightarrow> name2)"

text \<open>The member header: its entry and final size, or \<^term>\<open>None\<close> for a truncating pax size.\<close>

definition member_size :: "string \<Rightarrow> tar_meta \<Rightarrow> nat \<Rightarrow> nat \<Rightarrow> nat option" where
  "member_size header m fileSz dataOffset =
     (let sz = number header 124 12
      in case pax m ''size'' of
           None \<Rightarrow> Some sz
         | Some t \<Rightarrow>
             (let size1 = (case cxx_stoull t of Some n \<Rightarrow> n | None \<Rightarrow> sz)
              in if minus_u64 fileSz dataOffset < size1 then None else Some size1))"

definition member_entry :: "string \<Rightarrow> tar_meta \<Rightarrow> nat \<Rightarrow> nat \<Rightarrow> Entry" where
  "member_entry header m sz dataOffset =
     (let type = header ! 156;
          name = cleanName (entry_name header m);
          kind0 = entry_type type;
          kind = (if kind0 = TarFile \<and> name \<noteq> [] \<and> last name = CHR ''/'' then TarDirectory else kind0)
      in \<lparr>te_name = (if kind = TarDirectory then strip_trailing_slashes name else name),
          te_type = kind,
          te_size = (if kind = TarFile then sz else 0),
          te_offset = dataOffset,
          te_mtime = ll_from_ull (number header 136 12),
          te_linkTarget =
            (if longLink m \<noteq> [] then longLink m
             else case pax m ''linkpath'' of Some l \<Rightarrow> l | None \<Rightarrow> field header 157 100)\<rparr>)"

definition corrupt_header :: "string \<Rightarrow> nat \<Rightarrow> string" where
  "corrupt_header path offset =
     ''corrupt tar header at offset '' @ nat_to_string offset @ '' in '' @ path"

text \<open>What one round of the main loop does: stop, fail, or go on at a position.\<close>

datatype tar_step =
    TarStop
  | TarFail string
  | TarDiverge
  | TarMeta tar_meta nat
  | TarMember Entry nat

text \<open>\<open>skipTo\<close> takes a signed offset: past \<open>2^63\<close> the seek fails and the next read finds nothing.\<close>

definition metadata_step ::
    "string \<Rightarrow> string \<Rightarrow> tar_meta \<Rightarrow> char \<Rightarrow> nat \<Rightarrow> nat \<Rightarrow> nat \<Rightarrow> tar_step" where
  "metadata_step path content m type sz dataOffset nxt =
     (if kMaxMetadataBytes < sz then TarFail (corrupt_header path (dataOffset - kBlock))
      else if length content < dataOffset + sz then TarFail (''truncated archive: '' @ path)
      else let bytes = substr content dataOffset sz
           in if type = CHR ''L'' then TarMeta (m\<lparr>longName := c_str bytes\<rparr>) nxt
              else if type = CHR ''K'' then TarMeta (m\<lparr>longLink := c_str bytes\<rparr>) nxt
              else case parsePax bytes (pax m) of
                None \<Rightarrow> TarDiverge
              | Some p \<Rightarrow> TarMeta (m\<lparr>pax := p\<rparr>) nxt)"

definition header_step ::
    "string \<Rightarrow> nat \<Rightarrow> string \<Rightarrow> tar_meta \<Rightarrow> string \<Rightarrow> nat \<Rightarrow> bool \<Rightarrow> tar_step" where
  "header_step path fileSz content m header dataOffset none_yet =
     (if isZeroBlock header then TarStop
      else if \<not> checksumValid header then
        TarFail (if none_yet then ''not a tar archive: '' @ path
                 else corrupt_header path (dataOffset - kBlock))
      else
        let type = header ! 156;
            sz = number header 124 12;
            hasData = (type \<noteq> CHR ''1'' \<and> type \<noteq> CHR ''2'' \<and> type \<noteq> CHR ''5'')
        in if hasData \<and> minus_u64 fileSz dataOffset < sz then TarStop
           else if type = CHR ''L'' \<or> type = CHR ''K'' \<or> type = CHR ''x'' then
             metadata_step path content m type sz dataOffset (next_block dataOffset sz)
           else if type = CHR ''g'' then TarMeta m (next_block dataOffset sz)
           else case member_size header m fileSz dataOffset of
             None \<Rightarrow> TarStop
           | Some final \<Rightarrow>
               TarMember (member_entry header m final dataOffset)
                 (if hasData then next_block dataOffset final else dataOffset))"

fun index_loop ::
    "nat \<Rightarrow> string \<Rightarrow> nat \<Rightarrow> string \<Rightarrow> nat \<Rightarrow> tar_meta \<Rightarrow> Entry list \<Rightarrow> Entry list result option" where
  "index_loop 0 path fileSz content pos m entries = None"
| "index_loop (Suc n) path fileSz content pos m entries =
     (let header = substr content pos kBlock
      in if header = [] \<or> 2 ^ 63 \<le> pos then Some (Inr entries)
         else if length header \<noteq> kBlock then Some (Inl (''truncated archive: '' @ path))
         else case header_step path fileSz content m header (pos + kBlock) (entries = []) of
           TarStop \<Rightarrow> Some (Inr entries)
         | TarFail e \<Rightarrow> Some (Inl e)
         | TarDiverge \<Rightarrow> None
         | TarMeta m' nxt \<Rightarrow> index_loop n path fileSz content nxt m' entries
         | TarMember e nxt \<Rightarrow>
             index_loop n path fileSz content nxt no_meta
               (if te_name e \<noteq> [] then entries @ [e] else entries))"

definition index_content :: "string \<Rightarrow> nat \<Rightarrow> string \<Rightarrow> Entry list result option" where
  "index_content path fileSz content =
     index_loop (length content div kBlock + 2) path fileSz content 0 no_meta []"

definition tar_index :: "'w host \<Rightarrow> string \<Rightarrow> 'w sys \<Rightarrow> Entry list result option" where
  "tar_index h path s =
     (case h_read h path (world s) of
        None \<Rightarrow> Some (Inl (''cannot open archive: '' @ path))
      | Some (content, _) \<Rightarrow>
          (case h_file_size h path (world s) of
             None \<Rightarrow> Some (Inl (''cannot read archive size: '' @ path))
           | Some n \<Rightarrow> index_content path n content))"

definition isGzip :: "'w host \<Rightarrow> string \<Rightarrow> 'w sys \<Rightarrow> bool" where
  "isGzip h path s =
     (case h_read h path (world s) of
        None \<Rightarrow> False
      | Some (content, _) \<Rightarrow> take 2 content = [CHR 0x1F, CHR 0x8B])"

section \<open>One level of the tree\<close>

record Child =
  ch_name :: string
  ch_path :: string
  ch_isDirectory :: bool
  ch_size :: nat
  ch_mtime :: int

definition new_child :: Child where
  "new_child = \<lparr>ch_name = [], ch_path = [], ch_isDirectory = False, ch_size = 0, ch_mtime = 0\<rparr>"

text \<open>\<open>std::map<std::string, Child>\<close> as the list of its pairs in key order; \<open>children[name]\<close>
  creates the value, and the update is applied to it.\<close>

fun map_update :: "string \<Rightarrow> (Child \<Rightarrow> Child) \<Rightarrow> (string \<times> Child) list \<Rightarrow> (string \<times> Child) list" where
  "map_update k f [] = [(k, f new_child)]"
| "map_update k f ((k', c) # m) =
     (if k = k' then (k', f c) # m
      else if k < k' then (k, f new_child) # (k', c) # m
      else (k', c) # map_update k f m)"

definition update_child :: "string \<Rightarrow> string \<Rightarrow> bool \<Rightarrow> Entry \<Rightarrow> Child \<Rightarrow> Child" where
  "update_child pre name deeper e c =
     c\<lparr>ch_name := name,
       ch_path := pre @ name,
       ch_isDirectory := (deeper \<or> te_type e = TarDirectory \<or> ch_isDirectory c),
       ch_size := (if deeper \<or> te_type e = TarDirectory then u64 (ch_size c + te_size e) else te_size e),
       ch_mtime := max (ch_mtime c) (te_mtime e)\<rparr>"

definition add_child :: "string \<Rightarrow> (string \<times> Child) list \<Rightarrow> Entry \<Rightarrow> (string \<times> Child) list" where
  "add_child pre m e =
     (if length (te_name e) \<le> length pre \<or> take (length pre) (te_name e) \<noteq> pre then m
      else let rest = drop (length pre) (te_name e);
               slash = find_char (CHR ''/'') rest;
               name = (case slash of Some i \<Rightarrow> take i rest | None \<Rightarrow> rest)
           in map_update name (update_child pre name (slash \<noteq> None) e) m)"

definition directory_first :: "Child \<Rightarrow> Child \<Rightarrow> bool" where
  "directory_first a b \<longleftrightarrow> ch_isDirectory a \<and> \<not> ch_isDirectory b"

definition listChildren :: "Entry list \<Rightarrow> string \<Rightarrow> Child list" where
  "listChildren entries pre = sort_by directory_first (map snd (foldl (add_child pre) [] entries))"

section \<open>Pax records: when the loop ends\<close>

lemma pax_record_len: "pax_record bytes pos = Some (len, r) \<Longrightarrow> 3 \<le> len \<and> u64 (pos + len) \<le> length bytes"
  by (auto simp: pax_record_def split: option.splits if_splits)

definition pax_no_wrap :: "string \<Rightarrow> bool" where
  "pax_no_wrap bytes \<longleftrightarrow> (\<forall>pos len r. pax_record bytes pos = Some (len, r) \<longrightarrow> pos + len < 2 ^ 64)"

lemma parsePax_loop_ends:
  "pax_no_wrap bytes \<Longrightarrow> length bytes < n + pos \<Longrightarrow> parsePax_loop n bytes pos out \<noteq> None"
proof (induction n arbitrary: pos out)
  case (Suc n)
  show ?case
  proof (cases "pax_record bytes pos")
    case (Some lr)
    obtain len r where lr: "lr = (len, r)" by force
    have "3 \<le> len" "pos + len < 2 ^ 64"
      using pax_record_len [of bytes pos len r] Suc.prems(1) Some lr by (auto simp: pax_no_wrap_def)
    then have "length bytes < n + u64 (pos + len)" using Suc.prems(2) by (simp add: u64_small)
    with Suc.IH [OF Suc.prems(1)] Some lr show ?thesis by simp
  qed simp
qed simp

lemma parsePax_ends: "pax_no_wrap bytes \<Longrightarrow> parsePax bytes out \<noteq> None"
  unfolding parsePax_def by (rule parsePax_loop_ends) auto

text \<open>Two records, the second of which claims the length \<open>-6\<close>.\<close>

definition looping_pax :: string where
  "looping_pax = ''6 a=b'' @ [CHR 0x0A] @ ''-6 c=d'' @ [CHR 0x0A]"

lemma looping_pax_records:
  "pax_record looping_pax 0 = Some (6, ''a=b'')"
  "pax_record looping_pax 6 = Some (2 ^ 64 - 6, ''c=d'' @ [CHR 0x0A])"
  unfolding looping_pax_def by code_simp+

lemma looping_pax_diverges:
  "(\<forall>out. parsePax_loop n looping_pax 0 out = None) \<and> (\<forall>out. parsePax_loop n looping_pax 6 out = None)"
proof (induction n)
  case 0
  show ?case by (simp add: looping_pax_def)
next
  case (Suc n)
  have "length looping_pax = 13" by (simp add: looping_pax_def)
  with Suc show ?case by (simp add: looping_pax_records u64_def)
qed

section \<open>Bounds and termination of the index\<close>

lemma minus_u64_le: "b \<le> a \<Longrightarrow> a < 2 ^ 64 \<Longrightarrow> minus_u64 a b = a - b"
proof -
  assume "b \<le> a" "a < 2 ^ 64"
  then have "int (a - b) mod 2 ^ 64 = int (a - b)" by (intro mod_pos_pos_trivial) auto
  with \<open>b \<le> a\<close> show ?thesis by (simp add: minus_u64_def of_nat_diff)
qed

lemma next_block_ge:
  assumes "d + n < 2 ^ 63"
  shows "d + n \<le> next_block d n"
proof -
  have n: "u64 (n + kBlock - 1) = n + 511" using assms by (simp add: u64_small kBlock_def)
  have "512 * ((n + 511) div 512) + (n + 511) mod 512 = n + 511" by (rule mult_div_mod_eq)
  moreover have "(n + 511) mod 512 < 512" by simp
  ultimately have "n \<le> (n + 511) div 512 * 512" by linarith
  moreover have "(n + 511) div 512 * 512 \<le> n + 511" by simp
  ultimately show ?thesis
    using assms unfolding next_block_def n by (simp add: kBlock_def u64_small)
qed

definition entry_in_bounds :: "nat \<Rightarrow> Entry \<Rightarrow> bool" where
  "entry_in_bounds n e \<longleftrightarrow> te_offset e + te_size e \<le> n"

lemma member_entry_bounds:
  assumes size: "member_size header m n d = Some final" and d: "d \<le> n" "n < 2 ^ 63"
    and header: "header ! 156 \<noteq> CHR ''1'' \<and> header ! 156 \<noteq> CHR ''2'' \<and> header ! 156 \<noteq> CHR ''5'' \<Longrightarrow>
      number header 124 12 \<le> n - d"
  shows "entry_in_bounds n (member_entry header m final d)"
proof (cases "entry_type (header ! 156) = TarFile")
  case True
  then have "number header 124 12 \<le> n - d"
    using header by (auto simp: entry_type_def NUL_def split: if_splits)
  then have "final \<le> n - d"
    using size d by (auto simp: member_size_def Let_def minus_u64_le split: option.splits if_splits)
  with d show ?thesis by (auto simp: entry_in_bounds_def member_entry_def Let_def)
next
  case False
  with d show ?thesis by (auto simp: entry_in_bounds_def member_entry_def Let_def)
qed

text \<open>What a round that goes on guarantees, on a file whose reported size is the real one.\<close>

lemma header_step_progress:
  assumes n: "length content = n" "n < 2 ^ 63" and d: "d \<le> n"
  shows "header_step path n content m header d b = TarMeta m' nxt \<Longrightarrow> d \<le> nxt"
    "header_step path n content m header d b = TarMember e nxt \<Longrightarrow> d \<le> nxt \<and> entry_in_bounds n e"
proof -
  define size where "size = number header 124 12"
  define has where "has = (header ! 156 \<noteq> CHR ''1'' \<and> header ! 156 \<noteq> CHR ''2'' \<and> header ! 156 \<noteq> CHR ''5'')"
  have minus: "minus_u64 n d = n - d" using d n by (simp add: minus_u64_le)
  have ge: "d \<le> next_block d k" if "k \<le> n - d" for k
    using next_block_ge [of d k] that d n by linarith
  show "d \<le> nxt" if step: "header_step path n content m header d b = TarMeta m' nxt"
  proof -
    have sz: "has \<longrightarrow> size \<le> n - d" and t: "header ! 156 \<in> set ''LKxg''" and nx: "nxt = next_block d size"
      using step unfolding header_step_def Let_def size_def [symmetric] minus has_def [symmetric]
      by (auto simp: metadata_step_def Let_def not_less split: if_splits option.splits)
    have has using t by (auto simp: has_def)
    with sz nx ge show ?thesis by simp
  qed
  show "d \<le> nxt \<and> entry_in_bounds n e" if step: "header_step path n content m header d b = TarMember e nxt"
  proof -
    obtain final where f: "member_size header m n d = Some final"
      "e = member_entry header m final d" "nxt = (if has then next_block d final else d)"
      and sz: "has \<longrightarrow> size \<le> n - d"
      using step unfolding header_step_def Let_def size_def [symmetric] minus has_def [symmetric]
      by (auto simp: metadata_step_def Let_def not_less split: if_splits option.splits)
    have "final \<le> n - d" if has
      using f(1) sz that d n
      by (auto simp: member_size_def Let_def minus size_def [symmetric] split: option.splits if_splits)
    moreover have "entry_in_bounds n e"
      unfolding f(2) using f(1) d n sz by (intro member_entry_bounds) (auto simp: has_def size_def)
    ultimately show ?thesis using f(3) ge by auto
  qed
qed

lemma index_loop_bounds:
  assumes n: "length content = sz" "sz < 2 ^ 63"
  shows "index_loop k path sz content pos m es = Some (Inr es') \<Longrightarrow>
    list_all (entry_in_bounds sz) es \<Longrightarrow> list_all (entry_in_bounds sz) es'"
proof (induction k arbitrary: pos m es)
  case (Suc k)
  let ?h = "substr content pos kBlock"
  show ?case
  proof (cases "?h = [] \<or> 2 ^ 63 \<le> pos \<or> length ?h \<noteq> kBlock")
    case True
    with Suc.prems show ?thesis by (auto simp: Let_def split: if_splits)
  next
    case False
    then have "pos + kBlock \<le> sz"
      using n by (auto simp: substr_def kBlock_def min_def split: if_splits)
    note prog = header_step_progress [OF n this]
    show ?thesis
    proof (cases "header_step path sz content m ?h (pos + kBlock) (es = [])")
      case (TarMeta m' nxt)
      with False Suc show ?thesis by (simp add: Let_def)
    next
      case (TarMember e nxt)
      then have "entry_in_bounds sz e" using prog(2) by blast
      with TarMember False Suc show ?thesis by (auto simp: Let_def split: if_splits)
    qed (use False Suc.prems in \<open>auto simp: Let_def\<close>)
  qed
qed simp

lemma header_step_diverge:
  "header_step path sz content m header d b = TarDiverge \<Longrightarrow>
   \<exists>off k p. parsePax (substr content off k) p = None"
  by (auto simp: header_step_def metadata_step_def Let_def split: if_splits option.splits)

lemma index_loop_ends:
  assumes n: "length content = sz" "sz < 2 ^ 63"
    and pax: "\<forall>off k. pax_no_wrap (substr content off k)"
  shows "(sz - pos) div kBlock + 2 \<le> k \<Longrightarrow> index_loop k path sz content pos m es \<noteq> None"
proof (induction k arbitrary: pos m es)
  case (Suc k)
  let ?h = "substr content pos kBlock"
  show ?case
  proof (cases "?h = [] \<or> 2 ^ 63 \<le> pos \<or> length ?h \<noteq> kBlock")
    case True
    then show ?thesis by (auto simp: Let_def)
  next
    case False
    then have le: "pos + kBlock \<le> sz"
      using n by (auto simp: substr_def kBlock_def min_def split: if_splits)
    note prog = header_step_progress [OF n this]
    have fuel: "(sz - nxt) div kBlock + 2 \<le> k" if "pos + kBlock \<le> nxt" for nxt
    proof -
      have "(sz - nxt) div kBlock \<le> (sz - (pos + kBlock)) div kBlock"
        using that by (intro div_le_mono) simp
      moreover have "(sz - pos) div kBlock = Suc ((sz - (pos + kBlock)) div kBlock)"
        using le by (simp add: kBlock_def le_div_geq)
      ultimately show ?thesis using Suc.prems by simp
    qed
    show ?thesis
    proof (cases "header_step path sz content m ?h (pos + kBlock) (es = [])")
      case (TarMeta m' nxt)
      with False Suc.IH fuel prog(1) show ?thesis by (simp add: Let_def)
    next
      case (TarMember e nxt)
      with False Suc.IH fuel prog(2) show ?thesis by (simp add: Let_def)
    next
      case TarDiverge
      with pax parsePax_ends show ?thesis using header_step_diverge by blast
    qed (use False in \<open>auto simp: Let_def\<close>)
  qed
qed simp

section \<open>The listing\<close>

lemma keys_map_update: "set (map fst (map_update k f m)) = insert k (set (map fst m))"
  by (induction k f m rule: map_update.induct) auto

lemma sorted_map_update: "sorted_wrt (<) (map fst m) \<Longrightarrow> sorted_wrt (<) (map fst (map_update k f m))"
proof (induction k f m rule: map_update.induct)
  case (2 k f k' c m)
  show ?case
  proof (cases "k = k' \<or> k < k'")
    case True
    with 2 show ?thesis by auto
  next
    case False
    then have "k' < k" by auto
    with 2 False keys_map_update [of k f m] show ?thesis by auto
  qed
qed simp

lemma map_update_values:
  "(k', c) \<in> set (map_update k f m) \<Longrightarrow>
     (k', c) \<in> set m \<or> (k' = k \<and> (\<exists>c0. c = f c0))"
  by (induction k f m rule: map_update.induct) (auto split: if_splits)

text \<open>The part of an entry's name below \<open>pre\<close>, and its first segment.\<close>

definition child_of :: "string \<Rightarrow> Entry \<Rightarrow> string option" where
  "child_of pre e =
     (if prefix pre (te_name e) \<and> te_name e \<noteq> pre
      then Some (takeWhile (\<lambda>c. c \<noteq> CHR ''/'') (drop (length pre) (te_name e))) else None)"

lemma take_find_char:
  "(case find_char c s of Some i \<Rightarrow> take i s | None \<Rightarrow> s) = takeWhile (\<lambda>x. x \<noteq> c) s"
proof (induction s)
  case (Cons x s)
  then show ?case by (auto split: option.splits simp del: find_char_None)
qed simp

lemma add_child_eq:
  "add_child pre m e =
     (case child_of pre e of
        None \<Rightarrow> m
      | Some name \<Rightarrow>
          map_update name
            (update_child pre name (find_char (CHR ''/'') (drop (length pre) (te_name e)) \<noteq> None) e) m)"
proof (cases "length (te_name e) \<le> length pre \<or> take (length pre) (te_name e) \<noteq> pre")
  case True
  then have "\<not> (prefix pre (te_name e) \<and> te_name e \<noteq> pre)"
    by (auto simp: append_eq_prefix_take)
  with True show ?thesis by (auto simp: add_child_def child_of_def)
next
  case False
  then have "prefix pre (te_name e) \<and> te_name e \<noteq> pre"
    by (auto simp: append_eq_prefix_take)
  with False show ?thesis
    unfolding add_child_def child_of_def Let_def take_find_char by auto
qed

definition child_ok :: "string \<Rightarrow> string \<times> Child \<Rightarrow> bool" where
  "child_ok pre kc \<longleftrightarrow> ch_name (snd kc) = fst kc \<and> ch_path (snd kc) = pre @ fst kc"

lemma child_fold:
  assumes "sorted_wrt (<) (map fst m)" "list_all (child_ok pre) m"
  shows "sorted_wrt (<) (map fst (foldl (add_child pre) m es)) \<and>
    list_all (child_ok pre) (foldl (add_child pre) m es) \<and>
    set (map fst (foldl (add_child pre) m es)) =
      set (map fst m) \<union> {n. \<exists>e\<in>set es. child_of pre e = Some n}"
  using assms
proof (induction es arbitrary: m)
  case (Cons e es)
  have step: "sorted_wrt (<) (map fst (add_child pre m e)) \<and> list_all (child_ok pre) (add_child pre m e) \<and>
      set (map fst (add_child pre m e)) = set (map fst m) \<union> {n. child_of pre e = Some n}"
  proof (cases "child_of pre e")
    case None
    with Cons.prems show ?thesis by (simp add: add_child_eq)
  next
    case (Some n)
    let ?f = "update_child pre n (find_char (CHR ''/'') (drop (length pre) (te_name e)) \<noteq> None) e"
    have "list_all (child_ok pre) (map_update n ?f m)"
      using Cons.prems(2) map_update_values [of _ _ n ?f m]
      by (fastforce simp: list_all_iff child_ok_def update_child_def)
    with Some Cons.prems show ?thesis
      using sorted_map_update keys_map_update by (auto simp: add_child_eq)
  qed
  with Cons.IH [of "add_child pre m e"] show ?case by auto
qed simp

interpretation children: comparator directory_first
  by unfold_locales (auto simp: directory_first_def)

section \<open>Properties\<close>





text \<open>Without that proviso it need not end: on the pax data \<open>6 a=b\<close>, \<open>-6 c=d\<close> (one record per
  line) the loop of \<open>parsePax\<close> runs for ever, whatever the fuel, because \<open>std::stoul\<close> reads
  \<open>-6\<close> as \<open>2^64 - 6\<close> and the position wraps back to 0.\<close>

theorem parsePax_can_diverge: "parsePax_loop n looping_pax 0 out = None"
  using looping_pax_diverges by blast

text \<open>A listing shows exactly the first segments below the prefix, each once and under its
  full path, directories before files.\<close>

theorem listChildren_correct:
  "set (map ch_name (listChildren entries pre)) = {n. \<exists>e\<in>set entries. child_of pre e = Some n} \<and>
   distinct (map ch_name (listChildren entries pre)) \<and>
   list_all (\<lambda>c. ch_path c = pre @ ch_name c) (listChildren entries pre) \<and>
   sorted_wrt (\<lambda>a b. \<not> (ch_isDirectory b \<and> \<not> ch_isDirectory a)) (listChildren entries pre)"
proof -
  let ?m = "foldl (add_child pre) [] entries"
  have m: "sorted_wrt (<) (map fst ?m)" "list_all (child_ok pre) ?m"
    "set (map fst ?m) = {n. \<exists>e\<in>set entries. child_of pre e = Some n}"
    using child_fold [of "[]" pre entries] by auto
  have names: "map ch_name (map snd ?m) = map fst ?m"
    using m(2) by (auto simp: list_all_iff child_ok_def)
  have set: "set (listChildren entries pre) = set (map snd ?m)" by (simp add: listChildren_def)
  have "mset (map ch_name (listChildren entries pre)) = mset (map fst ?m)"
    unfolding listChildren_def names [symmetric] mset_map mset_sort_by ..
  then have "set (map ch_name (listChildren entries pre)) = set (map fst ?m)"
    "distinct (map ch_name (listChildren entries pre)) = distinct (map fst ?m)"
    by (metis set_mset_mset, metis mset_eq_imp_distinct_iff)
  moreover have "distinct (map fst ?m)"
    using m(1) by (simp add: strict_sorted_iff)
  moreover have "list_all (\<lambda>c. ch_path c = pre @ ch_name c) (listChildren entries pre)"
    using m(2) unfolding list_all_iff set by (auto simp: child_ok_def)
  moreover have "sorted_wrt (\<lambda>a b. \<not> (ch_isDirectory b \<and> \<not> ch_isDirectory a)) (listChildren entries pre)"
    using children.sort_by_sorted unfolding listChildren_def directory_first_def .
  ultimately show ?thesis using m(3) by simp
qed

end
