(* ===== verification/Device.thy ===== *)
theory Device
  imports Prelude
begin

text \<open>
  The plain data of \<open>include/abp/Device.h\<close>, \<open>Package.h\<close> and \<open>BackupOptions.h\<close>: the device record
  and how root is reached, a listed package, and the options of a backup and of a restore.  Record
  fields carry a prefix because several structures share field names.
\<close>

datatype RootMethod = RootNone | SuBinary | AdbdRoot

fun describeRootMethod :: "RootMethod \<Rightarrow> string" where
  "describeRootMethod AdbdRoot = ''adbd already running as root''"
| "describeRootMethod SuBinary = ''su binary available''"
| "describeRootMethod RootNone = ''none''"

definition root_available :: "RootMethod \<Rightarrow> bool" where
  "root_available m \<longleftrightarrow> m \<noteq> RootNone"

record DeviceInfo =
  dev_serial :: string
  dev_state :: string
  dev_model :: string
  dev_manufacturer :: string
  dev_androidRelease :: string
  dev_sdkInt :: int
  dev_root :: RootMethod

definition default_device :: DeviceInfo where
  "default_device =
     \<lparr>dev_serial = [], dev_state = ''device'', dev_model = [], dev_manufacturer = [],
      dev_androidRelease = [], dev_sdkInt = 0, dev_root = RootNone\<rparr>"

definition isRooted :: "DeviceInfo \<Rightarrow> bool" where
  "isRooted d \<longleftrightarrow> root_available (dev_root d)"

definition isReady :: "DeviceInfo \<Rightarrow> bool" where
  "isReady d \<longleftrightarrow> dev_state d = ''device''"

record PackageInfo =
  pi_name :: string
  pi_apkPaths :: "string list"
  pi_isSystemApp :: bool
  pi_hasData :: bool

datatype BackupMode = ModeAuto | ModeRoot | ModeStandard

record BackupOptions =
  bo_serial :: string
  bo_outputDir :: string
  bo_includeApks :: bool
  bo_includeAppData :: bool
  bo_includeSharedStorage :: bool
  bo_includeSystemApps :: bool
  bo_onlyPackages :: "string list"
  bo_excludePackages :: "string list"
  bo_filesystemPaths :: "string list"
  bo_exportPersonalData :: bool
  bo_mode :: BackupMode
  bo_assumeYes :: bool

definition default_backup_options :: BackupOptions where
  "default_backup_options =
     \<lparr>bo_serial = [], bo_outputDir = [], bo_includeApks = True, bo_includeAppData = True,
      bo_includeSharedStorage = True, bo_includeSystemApps = False, bo_onlyPackages = [],
      bo_excludePackages = [], bo_filesystemPaths = [], bo_exportPersonalData = True,
      bo_mode = ModeAuto, bo_assumeYes = False\<rparr>"

record RestoreOptions =
  ro_serial :: string
  ro_inputDir :: string
  ro_includeApks :: bool
  ro_includeAppData :: bool
  ro_includeSharedStorage :: bool
  ro_includePersonalData :: bool
  ro_onlyPackages :: "string list"
  ro_excludePackages :: "string list"
  ro_assumeYes :: bool

definition default_restore_options :: RestoreOptions where
  "default_restore_options =
     \<lparr>ro_serial = [], ro_inputDir = [], ro_includeApks = True, ro_includeAppData = True,
      ro_includeSharedStorage = True, ro_includePersonalData = True, ro_onlyPackages = [],
      ro_excludePackages = [], ro_assumeYes = False\<rparr>"

end
