(* ===== verification/AdbClient.thy ===== *)
theory AdbClient
  imports DevicePaths Device Host
begin

text \<open>
  \<open>include/abp/AdbClient.h\<close> and \<open>src/src/adb/AdbClient.cpp\<close>: every use of the \<open>adb\<close> program.
  \<open>adb\<close> itself is the host's \<open>h_exec\<close>; this theory holds the argument vectors and device command
  strings abp hands to it and the parsing of what comes back.  A client is the adb path (a static
  of the class) and the pinned serial.
\<close>

record AdbClient =
  ac_path :: string
  ac_serial :: string

definition kMaxShellScriptBytes :: nat where
  "kMaxShellScriptBytes = 3500"

section \<open>Reading streams\<close>

definition newline :: char where
  "newline = CHR 0x0A"

text \<open>The lines \<open>std::getline\<close> yields, and the fields \<open>operator>>\<close> yields.\<close>

definition getlines :: "string \<Rightarrow> string list" where
  "getlines content =
     (let ps = split content newline in if last ps = [] then butlast ps else ps)"

fun fields_loop :: "string \<Rightarrow> string \<Rightarrow> string list" where
  "fields_loop cur [] = (if cur = [] then [] else [cur])"
| "fields_loop cur (c # cs) =
     (if is_space c then (if cur = [] then fields_loop [] cs else cur # fields_loop [] cs)
      else fields_loop (cur @ [c]) cs)"

definition fields_of :: "string \<Rightarrow> string list" where
  "fields_of content = fields_loop [] content"

section \<open>The client\<close>

definition explainDeviceState :: "DeviceInfo \<Rightarrow> string" where
  "explainDeviceState d =
     (let serial = dev_serial d; state = dev_state d
      in if state = ''unauthorized'' then
           ''Device '' @ serial @ '' is unauthorized: unlock it and accept the '' @ [CHR 0x27] @
           ''Allow USB debugging?'' @ [CHR 0x27] @ '' prompt, then try again.''
         else if state = ''offline'' then
           ''Device '' @ serial @ '' is offline: reconnect the USB cable (or run '' @ [CHR 0x27] @
           ''adb reconnect'' @ [CHR 0x27] @ '') and try again.''
         else if state = ''no permissions'' then
           ''adb has no permission to open device '' @ serial @
           '' (on Linux this usually means a missing udev rule for it).''
         else if state = ''authorizing'' \<or> state = ''connecting'' then
           ''Device '' @ serial @ '' is still '' @ state @ ''; wait a moment and try again.''
         else ''Device '' @ serial @ '' is in '' @ [CHR 0x27] @ state @ [CHR 0x27] @
           '' state, not booted into Android with USB debugging.'')"

definition baseArgs :: "AdbClient \<Rightarrow> string list" where
  "baseArgs c = [ac_path c] @ (if ac_serial c \<noteq> [] then [''-s'', ac_serial c] else [])"

definition isAdbAvailable :: "'w host \<Rightarrow> string \<Rightarrow> 'w sys \<Rightarrow> bool \<times> 'w sys" where
  "isAdbAvailable h path s =
     (let (r, s1) = Process_run h [path, ''version''] s in (\<not> spawnFailed r \<and> exitCode r = 0, s1))"

definition isDeviceState :: "string \<Rightarrow> bool" where
  "isDeviceState state \<longleftrightarrow>
     state \<in> {''device'', ''offline'', ''unauthorized'', ''bootloader'', ''recovery'', ''sideload'',
       ''rescue'', ''connecting'', ''authorizing'', ''host'', ''no''}"

definition apply_field :: "DeviceInfo \<Rightarrow> string \<Rightarrow> DeviceInfo" where
  "apply_field info kv =
     (case find_char (CHR '':'') kv of
        None \<Rightarrow> info
      | Some pos \<Rightarrow>
          if take pos kv = ''model'' then
            info\<lparr>dev_model := map (\<lambda>c. if c = CHR ''_'' then CHR '' '' else c) (drop (pos + 1) kv)\<rparr>
          else info)"

text \<open>One line of \<open>adb devices -l\<close>; \<^term>\<open>None\<close> is \<open>continue\<close>.\<close>

definition parse_device_line :: "string \<Rightarrow> DeviceInfo option" where
  "parse_device_line line =
     (let trimmed = trim line
      in if trimmed = [] \<or> startsWith trimmed ''*'' \<or> startsWith trimmed ''List of devices'' \<or>
            startsWith trimmed ''adb:'' then None
         else case fields_of trimmed of
           serial # state # rest \<Rightarrow>
             if \<not> isDeviceState state then None
             else Some (foldl apply_field
               (default_device\<lparr>dev_serial := serial,
                  dev_state := (if state = ''no'' then ''no permissions'' else state)\<rparr>) rest)
         | _ \<Rightarrow> None)"

definition parse_devices :: "string \<Rightarrow> DeviceInfo list" where
  "parse_devices content = List.map_filter parse_device_line (getlines content)"

definition listConnectedDevices :: "'w host \<Rightarrow> string \<Rightarrow> 'w sys \<Rightarrow> DeviceInfo list \<times> 'w sys" where
  "listConnectedDevices h path s =
     (let (r, s1) = Process_run h [path, ''devices'', ''-l''] s
      in (if spawnFailed r then [] else parse_devices (stdOut r), s1))"

text \<open>The decision of \<open>connectionProblem\<close> on the devices listed.\<close>

definition problem_with :: "string \<Rightarrow> DeviceInfo list \<Rightarrow> string" where
  "problem_with serial devices =
     (if serial \<noteq> [] then
        (case find (\<lambda>d. dev_serial d = serial) devices of
           Some d \<Rightarrow> if isReady d then [] else explainDeviceState d
         | None \<Rightarrow> ''No device with serial '' @ [CHR 0x27] @ serial @ [CHR 0x27] @ '' is connected. Run '' @
             [CHR 0x27] @ ''abp devices'' @ [CHR 0x27] @ '' to see what adb can reach.'')
      else
        (let ready = map dev_serial (filter isReady devices)
         in if length ready = 1 then []
            else if 1 < length ready then
              nat_to_string (length ready) @ '' devices are connected ('' @ join ready '', '' @
              ''); choose one with -s/--serial.''
            else if devices \<noteq> [] then explainDeviceState (hd devices)
            else ''No device found. Connect it over USB, enable USB debugging in Developer options, and accept the '' @
              [CHR 0x27] @ ''Allow USB debugging?'' @ [CHR 0x27] @ '' prompt.''))"

definition connectionProblem :: "'w host \<Rightarrow> AdbClient \<Rightarrow> 'w sys \<Rightarrow> string \<times> 'w sys" where
  "connectionProblem h c s =
     (let (devices, s1) = listConnectedDevices h (ac_path c) s in (problem_with (ac_serial c) devices, s1))"

definition isConnected :: "'w host \<Rightarrow> AdbClient \<Rightarrow> 'w sys \<Rightarrow> bool \<times> 'w sys" where
  "isConnected h c s = (let (p, s1) = connectionProblem h c s in (p = [], s1))"

definition pinned :: "'w host \<Rightarrow> AdbClient \<Rightarrow> 'w sys \<Rightarrow> AdbClient \<times> 'w sys" where
  "pinned h c s =
     (if ac_serial c \<noteq> [] then (c, s)
      else let (devices, s1) = listConnectedDevices h (ac_path c) s
           in case find isReady devices of
                Some d \<Rightarrow> (c\<lparr>ac_serial := dev_serial d\<rparr>, s1)
              | None \<Rightarrow> (c, s1))"

section \<open>Commands\<close>

definition shell :: "'w host \<Rightarrow> AdbClient \<Rightarrow> string \<Rightarrow> 'w sys \<Rightarrow> ProcessResult \<times> 'w sys" where
  "shell h c command = Process_run h (baseArgs c @ [''shell'', command])"

definition shellText :: "'w host \<Rightarrow> AdbClient \<Rightarrow> string \<Rightarrow> 'w sys \<Rightarrow> (string \<times> bool) \<times> 'w sys" where
  "shellText h c command s =
     (let (r, s1) = shell h c command s in ((trim (stdOut r), result_ok r), s1))"

definition push :: "'w host \<Rightarrow> AdbClient \<Rightarrow> string \<Rightarrow> string \<Rightarrow> 'w sys \<Rightarrow> bool \<times> 'w sys" where
  "push h c localPath remotePath s =
     (let (r, s1) = Process_run h (baseArgs c @ [''push'', localPath, remotePath]) s in (result_ok r, s1))"

definition pull :: "'w host \<Rightarrow> AdbClient \<Rightarrow> string \<Rightarrow> string \<Rightarrow> 'w sys \<Rightarrow> bool \<times> 'w sys" where
  "pull h c remotePath localPath s =
     (let (r, s1) = Process_run h (baseArgs c @ [''pull'', remotePath, localPath]) s in (result_ok r, s1))"

definition saw_pull_errors :: "string \<Rightarrow> bool" where
  "saw_pull_errors err \<longleftrightarrow>
     contains_sub ''Permission denied'' err \<or> contains_sub ''permission denied'' err \<or>
     contains_sub ''failed to copy'' err \<or> contains_sub (''couldn'' @ [CHR 0x27] @ ''t read'') err \<or>
     contains_sub ''skipping'' err"

text \<open>The result is success, whether errors were seen, and adb's trimmed stderr.\<close>

definition pullTree ::
    "'w host \<Rightarrow> AdbClient \<Rightarrow> string \<Rightarrow> string \<Rightarrow> 'w sys \<Rightarrow> (bool \<times> bool \<times> string) \<times> 'w sys" where
  "pullTree h c remotePath localPath s =
     (let (r, s1) = Process_run h (baseArgs c @ [''pull'', ''-a'', remotePath, localPath]) s
      in ((result_ok r, saw_pull_errors (stdErr r), trim (stdErr r)), s1))"

definition installApks :: "'w host \<Rightarrow> AdbClient \<Rightarrow> string list \<Rightarrow> bool \<Rightarrow> 'w sys \<Rightarrow> bool \<times> 'w sys" where
  "installApks h c apks reinstall s =
     (if apks = [] then (False, s)
      else
        let r_flag = (if reinstall then [''-r''] else []);
            args = (if length apks = 1 then baseArgs c @ [''install''] @ r_flag @ [hd apks]
                    else baseArgs c @ [''install-multiple''] @ r_flag @ apks);
            (r, s1) = Process_run h args s
        in if \<not> result_ok r then (False, s1)
           else
             let sawSuccess = (contains_sub ''Success'' (stdOut r) \<or> contains_sub ''Success'' (stdErr r));
                 sawFailure = (contains_sub ''Failure'' (stdOut r) \<or> contains_sub ''Failure'' (stdErr r) \<or>
                   contains_sub ''Error:'' (stdOut r) \<or> contains_sub ''Error:'' (stdErr r))
             in (sawSuccess \<and> \<not> sawFailure, s1))"

definition execOutToFile :: "'w host \<Rightarrow> AdbClient \<Rightarrow> string \<Rightarrow> string \<Rightarrow> 'w sys \<Rightarrow> bool \<times> 'w sys" where
  "execOutToFile h c command localFilePath s =
     (let (r, s1) = Process_runToFile h (baseArgs c @ [''exec-out'', command]) localFilePath s
      in (result_ok r, s1))"

definition shellFromFile :: "'w host \<Rightarrow> AdbClient \<Rightarrow> string \<Rightarrow> string \<Rightarrow> 'w sys \<Rightarrow> bool \<times> 'w sys" where
  "shellFromFile h c command localFilePath s =
     (let (r, s1) = Process_runFromFile h (baseArgs c @ [''shell'', command]) localFilePath s
      in (result_ok r, s1))"

definition backupToFile ::
    "'w host \<Rightarrow> AdbClient \<Rightarrow> string \<Rightarrow> string list \<Rightarrow> bool \<Rightarrow> bool \<Rightarrow> 'w sys \<Rightarrow> bool \<times> 'w sys" where
  "backupToFile h c outputFile packages includeApk includeShared s =
     (let args = baseArgs c @ [''backup'', ''-f'', outputFile,
                 if includeApk then ''-apk'' else ''-noapk'',
                 if includeShared then ''-shared'' else ''-noshared''] @
                 (if packages \<noteq> [] then packages else [''-all'', ''-nosystem'']);
          (r, s1) = Process_run h args s
      in (result_ok r \<and> 0 < fileSize h outputFile s1, s1))"

definition restoreFromFile :: "'w host \<Rightarrow> AdbClient \<Rightarrow> string \<Rightarrow> 'w sys \<Rightarrow> bool \<times> 'w sys" where
  "restoreFromFile h c inputFile s =
     (let (r, s1) = Process_run h (baseArgs c @ [''restore'', inputFile]) s in (result_ok r, s1))"

section \<open>Device queries\<close>

definition detectRoot :: "'w host \<Rightarrow> AdbClient \<Rightarrow> 'w sys \<Rightarrow> RootMethod \<times> 'w sys" where
  "detectRoot h c s =
     (let ((uid, ok), s1) = shellText h c ''id -u'' s
      in if ok \<and> uid = ''0'' then (AdbdRoot, s1)
         else
           let ((which, ok2), s2) = shellText h c ''command -v su 2>/dev/null || which su 2>/dev/null'' s1
           in if \<not> ok2 \<or> which = [] then (RootNone, s2)
              else
                let ((suUid, suOk), s3) = shellText h c (''su -c '' @ shellQuote ''id -u'' @ '' 2>/dev/null'') s2
                in (if suOk \<and> trim suUid = ''0'' then SuBinary else RootNone, s3))"

definition queryDeviceInfo :: "'w host \<Rightarrow> AdbClient \<Rightarrow> 'w sys \<Rightarrow> DeviceInfo \<times> 'w sys" where
  "queryDeviceInfo h c s =
     (let (listed, s1) = listConnectedDevices h (ac_path c) s;
          info0 = default_device\<lparr>dev_serial := ac_serial c\<rparr>;
          info1 = (case find (\<lambda>d. if ac_serial c = [] then isReady d else dev_serial d = ac_serial c) listed of
                     Some d \<Rightarrow> info0\<lparr>dev_serial := dev_serial d, dev_state := dev_state d\<rparr>
                   | None \<Rightarrow> info0);
          ((model, _), s2) = shellText h c ''getprop ro.product.model'' s1;
          ((manufacturer, _), s3) = shellText h c ''getprop ro.product.manufacturer'' s2;
          ((release, _), s4) = shellText h c ''getprop ro.build.version.release'' s3;
          ((sdk, _), s5) = shellText h c ''getprop ro.build.version.sdk'' s4;
          (access, s6) = detectRoot h c s5
      in (info1\<lparr>dev_model := model, dev_manufacturer := manufacturer, dev_androidRelease := release,
            dev_sdkInt := (if sdk = [] then 0 else case cxx_stoi sdk of Some (n, _) \<Rightarrow> n | None \<Rightarrow> 0),
            dev_root := access\<rparr>, s6))"

definition system_apk :: "string \<Rightarrow> bool" where
  "system_apk apkPath \<longleftrightarrow>
     startsWith apkPath ''/system/'' \<or> startsWith apkPath ''/product/'' \<or> startsWith apkPath ''/vendor/'' \<or>
     startsWith apkPath ''/apex/'' \<or> startsWith apkPath ''/system_ext/''"

definition parse_package_line :: "string \<Rightarrow> PackageInfo option" where
  "parse_package_line rawLine =
     (let line = trim rawLine
      in if \<not> startsWith line ''package:'' then None
         else let rest = drop 8 line
              in case rfind_char (CHR ''='') rest of
                   None \<Rightarrow> None
                 | Some eq \<Rightarrow>
                     let apkPath = take eq rest; pkgName = drop (eq + 1) rest
                     in if \<not> isValidPackageName pkgName then None
                        else Some \<lparr>pi_name = pkgName,
                                   pi_apkPaths = (if apkPath \<noteq> [] then [apkPath] else []),
                                   pi_isSystemApp = system_apk apkPath,
                                   pi_hasData = True\<rparr>)"

definition listPackages :: "'w host \<Rightarrow> AdbClient \<Rightarrow> bool \<Rightarrow> 'w sys \<Rightarrow> PackageInfo list \<times> 'w sys" where
  "listPackages h c includeSystemApps s =
     (let cmd = (if includeSystemApps then ''pm list packages -f'' else ''pm list packages -f -3'');
          ((output, ok), s1) = shellText h c cmd s
      in (if \<not> ok then [] else List.map_filter parse_package_line (split output newline), s1))"

definition add_volume :: "string list \<Rightarrow> string \<Rightarrow> string list" where
  "add_volume roots uuid =
     (if uuid = [] \<or> 36 < length uuid then roots
      else if \<not> list_all (\<lambda>c. is_xdigit c \<or> c = CHR ''-'') uuid then roots
      else push_unique roots (''/storage/'' @ uuid))"

definition volume_of_line :: "string list \<Rightarrow> string \<Rightarrow> string list" where
  "volume_of_line roots rawLine =
     (case fields_of (trim rawLine) of
        vid # state # uuid # _ \<Rightarrow>
          if startsWith vid ''public:'' \<and> state = ''mounted'' then add_volume roots uuid else roots
      | _ \<Rightarrow> roots)"

definition volume_of_listing :: "string list \<Rightarrow> string \<Rightarrow> string list" where
  "volume_of_listing roots rawLine =
     (let name = trim rawLine
      in if length name = 9 \<and> name ! 4 = CHR ''-'' then add_volume roots name else roots)"

definition removableStorageRoots :: "'w host \<Rightarrow> AdbClient \<Rightarrow> 'w sys \<Rightarrow> string list \<times> 'w sys" where
  "removableStorageRoots h c s =
     (let ((volumes, ok), s1) = shellText h c ''sm list-volumes public 2>/dev/null'' s
      in if ok then (foldl volume_of_line [] (split volumes newline), s1)
         else let ((listing, _), s2) = shellText h c ''ls /storage 2>/dev/null'' s1
              in (foldl volume_of_listing [] (split listing newline), s2))"

definition asPackage :: "string \<Rightarrow> string \<Rightarrow> string" where
  "asPackage packageName command = ''run-as '' @ shellQuote packageName @ '' '' @ command"

section \<open>Batched scripts\<close>

text \<open>\<open>flush\<close> and the loop of \<open>runShellBatches\<close>, with \<open>output\<close> and \<open>script\<close> as accumulators.\<close>

definition flush_script :: "'w host \<Rightarrow> AdbClient \<Rightarrow> string \<Rightarrow> string \<Rightarrow> 'w sys \<Rightarrow> string \<times> 'w sys" where
  "flush_script h c output script s =
     (if script = [] then (output, s)
      else let (r, s1) = shell h c script s;
               out = output @ stdOut r
           in (if out \<noteq> [] \<and> last out \<noteq> newline then out @ [newline] else out, s1))"

fun batch_loop :: "'w host \<Rightarrow> AdbClient \<Rightarrow> string list \<Rightarrow> string \<Rightarrow> string \<Rightarrow> 'w sys \<Rightarrow> string \<times> 'w sys" where
  "batch_loop h c [] output script s = flush_script h c output script s"
| "batch_loop h c (snippet # rest) output script s =
     (if script \<noteq> [] \<and> kMaxShellScriptBytes < length script + length snippet
      then (let (out, s1) = flush_script h c output script s in batch_loop h c rest out snippet s1)
      else batch_loop h c rest output (script @ snippet) s)"

definition runShellBatches :: "'w host \<Rightarrow> AdbClient \<Rightarrow> string list \<Rightarrow> 'w sys \<Rightarrow> string \<times> 'w sys" where
  "runShellBatches h c snippets s = batch_loop h c snippets [] [] s"

definition runas_marker :: string where
  "runas_marker = ''@@abp-runas:''"

definition runas_snippet :: "string \<Rightarrow> string" where
  "runas_snippet name =
     ''run-as '' @ shellQuote name @ '' id -u >/dev/null 2>&1 && echo '' @
     shellQuote (runas_marker @ name) @ ''; ''"

definition runas_answer :: "string list \<Rightarrow> string \<Rightarrow> string option" where
  "runas_answer packageNames rawLine =
     (let line = trim rawLine
      in if \<not> startsWith line runas_marker then None
         else let name = drop (length runas_marker) line
              in if name \<in> set packageNames then Some name else None)"

definition packagesSupportingRunAs :: "'w host \<Rightarrow> AdbClient \<Rightarrow> string list \<Rightarrow> 'w sys \<Rightarrow> string list \<times> 'w sys" where
  "packagesSupportingRunAs h c packageNames s =
     (if packageNames = [] then ([], s)
      else let snippets = map runas_snippet (filter isValidPackageName packageNames)
           in if snippets = [] then ([], s)
              else let (output, s1) = runShellBatches h c snippets s
                   in (List.map_filter (runas_answer packageNames) (split output newline), s1))"

definition path_marker :: string where
  "path_marker = ''@@abp:''"

definition path_snippet :: "string \<Rightarrow> string" where
  "path_snippet name =
     ''echo '' @ shellQuote (path_marker @ name) @ ''; pm path '' @ shellQuote name @ '' 2>/dev/null; ''"

text \<open>\<open>found\<close>, most recent package last.\<close>

definition path_line :: "(string \<times> string list) list \<Rightarrow> string \<Rightarrow> (string \<times> string list) list" where
  "path_line found rawLine =
     (let line = trim rawLine
      in if startsWith line path_marker then found @ [(drop (length path_marker) line, [])]
         else if found \<noteq> [] \<and> startsWith line ''package:'' then
           butlast found @ [(fst (last found), snd (last found) @ [drop 8 line])]
         else found)"

definition apply_paths :: "(string \<times> string list) list \<Rightarrow> PackageInfo \<Rightarrow> PackageInfo" where
  "apply_paths found pkg =
     (case find (\<lambda>(n, ps). n = pi_name pkg \<and> ps \<noteq> []) found of
        Some (_, ps) \<Rightarrow> pkg\<lparr>pi_apkPaths := ps\<rparr>
      | None \<Rightarrow> pkg)"

definition resolveApkPaths :: "'w host \<Rightarrow> AdbClient \<Rightarrow> PackageInfo list \<Rightarrow> 'w sys \<Rightarrow> PackageInfo list \<times> 'w sys" where
  "resolveApkPaths h c packages s =
     (if packages = [] then (packages, s)
      else let snippets = map (path_snippet \<circ> pi_name) (filter (isValidPackageName \<circ> pi_name) packages)
           in if snippets = [] then (packages, s)
              else let (output, s1) = runShellBatches h c snippets s;
                       found = foldl path_line [] (split output newline)
                   in (map (apply_paths found) packages, s1))"

section \<open>What is run\<close>

lemma baseArgs_not_Nil [simp]: "baseArgs c \<noteq> []"
  by (simp add: baseArgs_def)

text \<open>A shell command of the client \<open>c\<close> whose command string satisfies \<open>P\<close>.\<close>

definition shell_call :: "AdbClient \<Rightarrow> (string \<Rightarrow> bool) \<Rightarrow> proc_io \<Rightarrow> string list \<Rightarrow> bool" where
  "shell_call c P io args \<longleftrightarrow> (\<exists>cmd. P cmd \<and> args = baseArgs c @ [''shell'', cmd])"

lemma extends_shell: "P cmd \<Longrightarrow> extends (execs_only (shell_call c P)) s (snd (shell h c cmd s))"
  unfolding shell_def Process_run_def by (rule extends_process) (auto simp: shell_call_def)

lemma extends_flush_script:
  "P script \<Longrightarrow> extends (execs_only (shell_call c P)) s (snd (flush_script h c out script s))"
  using extends_shell [of P script c s h]
  by (cases "shell h c script s") (simp add: flush_script_def Let_def)

text \<open>The scripts a list of snippets is cut into.\<close>

fun batches :: "string list \<Rightarrow> string \<Rightarrow> string list" where
  "batches [] script = (if script = [] then [] else [script])"
| "batches (x # xs) script =
     (if script \<noteq> [] \<and> kMaxShellScriptBytes < length script + length x
      then script # batches xs x else batches xs (script @ x))"

lemma concat_batches: "concat (batches xs script) = script @ concat xs"
  by (induction xs script rule: batches.induct) auto

text \<open>Every script is a group of whole snippets, and is within the limit unless it is a single one.\<close>

lemma batches_groups:
  "script = concat gs \<Longrightarrow> b \<in> set (batches xs script) \<Longrightarrow>
   \<exists>ys. b = concat ys \<and> set ys \<subseteq> set gs \<union> set xs"
proof (induction xs script arbitrary: gs rule: batches.induct)
  case (1 script)
  then show ?case by (auto split: if_splits)
next
  case (2 x xs script)
  show ?case
  proof (cases "script \<noteq> [] \<and> kMaxShellScriptBytes < length script + length x")
    case True
    with "2.prems"(2) consider "b = script" | "b \<in> set (batches xs x)" by auto
    then show ?thesis
    proof cases
      case 1
      with "2.prems"(1) show ?thesis by auto
    next
      case 2
      with "2.IH"(1) [OF True, of "[x]"] show ?thesis by fastforce
    qed
  next
    case False
    then have "b \<in> set (batches xs (script @ x))" using "2.prems"(2) by (simp only: batches.simps if_False)
    with "2.IH"(2) [OF False, of "gs @ [x]"] "2.prems"(1) show ?thesis by fastforce
  qed
qed

lemma batches_size:
  "length script \<le> kMaxShellScriptBytes \<or> script \<in> set ys \<Longrightarrow> b \<in> set (batches xs script) \<Longrightarrow>
   length b \<le> kMaxShellScriptBytes \<or> b \<in> set ys \<union> set xs"
proof (induction xs script arbitrary: ys rule: batches.induct)
  case (1 script)
  then show ?case by (auto split: if_splits)
next
  case (2 x xs script)
  show ?case
  proof (cases "script \<noteq> [] \<and> kMaxShellScriptBytes < length script + length x")
    case True
    with "2.prems" "2.IH"(1) [OF True, of "x # ys"] show ?thesis by auto
  next
    case False
    then have b: "b \<in> set (batches xs (script @ x))" using "2.prems"(2) by (simp only: batches.simps if_False)
    have "length (script @ x) \<le> kMaxShellScriptBytes \<or> script @ x \<in> set (x # ys)"
      using False by auto
    with "2.IH"(2) [OF False _ b, of "x # ys"] show ?thesis by auto
  qed
qed

lemma extends_batch_loop:
  "list_all P (batches xs script) \<Longrightarrow>
   extends (execs_only (shell_call c P)) s (snd (batch_loop h c xs out script s))"
proof (induction xs arbitrary: out script s)
  case Nil
  show ?case
  proof (cases "script = []")
    case True
    then show ?thesis by (simp add: flush_script_def)
  next
    case False
    with Nil extends_flush_script show ?thesis by simp
  qed
next
  case (Cons x xs)
  show ?case
  proof (cases "script \<noteq> [] \<and> kMaxShellScriptBytes < length script + length x")
    case True
    obtain o1 s1 where f: "flush_script h c out script s = (o1, s1)" by force
    have "extends (execs_only (shell_call c P)) s s1"
      using extends_flush_script [of P script c s h out] Cons.prems True f by simp
    moreover have "extends (execs_only (shell_call c P)) s1 (snd (batch_loop h c xs o1 x s1))"
      using Cons.IH Cons.prems True by simp
    ultimately show ?thesis using True f extends_trans by fastforce
  next
    case False
    then have "list_all P (batches xs (script @ x))" using Cons.prems by (simp only: batches.simps if_False)
    from Cons.IH [OF this] False show ?thesis by (simp only: batch_loop.simps if_False)
  qed
qed

lemma extends_runShellBatches:
  "list_all P (batches snippets []) \<Longrightarrow>
   extends (execs_only (shell_call c P)) s (snd (runShellBatches h c snippets s))"
  unfolding runShellBatches_def by (rule extends_batch_loop)

text \<open>Without a cancel, the scripts are sent one after the other.\<close>

lemma trace_shell:
  "\<not> fst (cancelRequested h s) \<Longrightarrow>
   trace (snd (shell h c cmd s)) = trace s @ [EvExec (Capture None) (baseArgs c @ [''shell'', cmd])]"
  by (auto simp: shell_def Process_run_def process_def cancelRequested_def Let_def split: prod.splits bool.splits)

lemma trace_flush_script:
  "\<forall>s. \<not> fst (cancelRequested h s) \<Longrightarrow>
   trace (snd (flush_script h c out script s)) = trace s @
     (if script = [] then [] else [EvExec (Capture None) (baseArgs c @ [''shell'', script])])"
  using trace_shell [of h s c script]
  by (cases "shell h c script s") (simp add: flush_script_def Let_def)

lemma trace_batch_loop:
  "\<forall>s. \<not> fst (cancelRequested h s) \<Longrightarrow>
   trace (snd (batch_loop h c xs out script s)) =
     trace s @ map (\<lambda>sc. EvExec (Capture None) (baseArgs c @ [''shell'', sc])) (batches xs script)"
proof (induction xs arbitrary: out script s)
  case Nil
  then show ?case by (simp add: trace_flush_script)
next
  case (Cons x xs)
  show ?case
  proof (cases "script \<noteq> [] \<and> kMaxShellScriptBytes < length script + length x")
    case True
    obtain o1 s1 where f: "flush_script h c out script s = (o1, s1)" by force
    have "trace s1 = trace s @ [EvExec (Capture None) (baseArgs c @ [''shell'', script])]"
      using trace_flush_script [OF Cons.prems, of c out script s] True f by simp
    with True f Cons.IH [OF Cons.prems, of o1 x s1] show ?thesis by simp
  next
    case False
    with Cons.IH [OF Cons.prems, of out "script @ x" s] show ?thesis
      by (simp only: batch_loop.simps batches.simps if_False)
  qed
qed

section \<open>Probe scripts\<close>

text \<open>
  A probe: one self-contained shell fragment per package name, which a POSIX shell reads as a fixed
  sequence of words and operators around that name.  The client is the batching: whatever the names
  and however they are grouped, a script is read as the probes of its names and nothing else.
\<close>

lemma list_of_image:
  assumes "set ys \<subseteq> f ` A"
  obtains xs where "set xs \<subseteq> A" "ys = map f xs"
proof
  let ?g = "\<lambda>y. SOME x. x \<in> A \<and> f x = y"
  have g: "?g y \<in> A \<and> f (?g y) = y" if "y \<in> set ys" for y
    by (rule someI_ex) (use assms that in auto)
  then show "set (map ?g ys) \<subseteq> A" by auto
  show "ys = map f (map ?g ys)"
    using g by (intro nth_equalityI) auto
qed

locale probe =
  fixes snippet :: "string \<Rightarrow> string" and tokens :: "string \<Rightarrow> sh_token list"
  assumes snippet_tokens: "sh_run (between ts) (snippet n) = between (ts @ tokens n)"
begin

lemma run_concat: "sh_run (between ts) (concat (map snippet ns)) = between (ts @ concat (map tokens ns))"
proof (induction ns arbitrary: ts)
  case (Cons n ns)
  then show ?case by (simp add: snippet_tokens)
qed simp

theorem script_words:
  assumes "b \<in> set (batches (map snippet ns) [])"
  shows "\<exists>ms. set ms \<subseteq> set ns \<and> sh_words b = Some (concat (map tokens ms))"
proof -
  obtain ys where ys: "b = concat ys" "set ys \<subseteq> snippet ` set ns"
    using batches_groups [of "[]" "[]" b "map snippet ns"] assms by auto
  from list_of_image [OF ys(2)] obtain ms where ms: "set ms \<subseteq> set ns" "ys = map snippet ms" .
  have "sh_run sh_start b = between (concat (map tokens ms))"
    using run_concat [of "[]" ms] ys(1) ms(2) by (simp add: sh_start_between)
  then have "sh_words b = Some (concat (map tokens ms))" by (rule sh_words_between)
  with ms(1) show ?thesis by blast
qed

end

definition runas_tokens :: "string \<Rightarrow> sh_token list" where
  "runas_tokens n =
     [Word ''run-as'', Word n, Word ''id'', Word ''-u'', Oper (CHR ''>''), Word ''/dev/null'',
      Word ''2'', Oper (CHR ''>''), Oper (CHR ''&''), Word ''1'', Oper (CHR ''&''), Oper (CHR ''&''),
      Word ''echo'', Word (runas_marker @ n), Oper (CHR '';'')]"

definition path_tokens :: "string \<Rightarrow> sh_token list" where
  "path_tokens n =
     [Word ''echo'', Word (path_marker @ n), Oper (CHR '';''), Word ''pm'', Word ''path'', Word n,
      Word ''2'', Oper (CHR ''>''), Word ''/dev/null'', Oper (CHR '';'')]"

lemma ordinary_char [simp]: "c \<in> set ''runasidechopmtvl-/012'' \<Longrightarrow> is_ordinary c"
  by (auto simp: is_ordinary_def is_blank_def is_oper_def)

lemmas sh_walk = sh_step_ordinary sh_step_blank sh_step_oper

lemma oper_chars [simp]: "is_oper (CHR ''>'')" "is_oper (CHR ''&'')" "is_oper (CHR '';'')" "is_blank (CHR '' '')"
  by (simp_all add: is_oper_def is_blank_def)

interpretation runas_probe: probe runas_snippet runas_tokens
  by unfold_locales (simp add: runas_snippet_def runas_tokens_def sh_walk)

interpretation path_probe: probe path_snippet path_tokens
  by unfold_locales (simp add: path_snippet_def path_tokens_def sh_walk)

section \<open>Properties\<close>

lemma set_map_filter: "y \<in> set (List.map_filter f xs) \<longleftrightarrow> (\<exists>x\<in>set xs. f x = Some y)"
  by (induction xs) (auto simp: List.map_filter_simps split: option.splits)

text \<open>A batch of snippets is run whole: while no cancel is requested the scripts sent are,
  put together, exactly the snippets in order, and each is at most 3500 bytes long or a single
  snippet, so no snippet is cut and none is lost.\<close>

theorem runShellBatches_complete:
  assumes "\<forall>s. \<not> fst (cancelRequested h s)"
  shows "\<exists>scripts.
    trace (snd (runShellBatches h c snippets s)) =
      trace s @ map (\<lambda>sc. EvExec (Capture None) (baseArgs c @ [''shell'', sc])) scripts \<and>
    concat scripts = concat snippets \<and>
    list_all (\<lambda>sc. length sc \<le> 3500 \<or> sc \<in> set snippets) scripts"
proof (intro exI conjI)
  show "trace (snd (runShellBatches h c snippets s)) =
      trace s @ map (\<lambda>sc. EvExec (Capture None) (baseArgs c @ [''shell'', sc])) (batches snippets [])"
    unfolding runShellBatches_def by (rule trace_batch_loop [OF assms])
  show "concat (batches snippets []) = concat snippets" by (simp add: concat_batches)
  show "list_all (\<lambda>sc. length sc \<le> 3500 \<or> sc \<in> set snippets) (batches snippets [])"
    using batches_size [of "[]" "[]" _ snippets] by (auto simp: list_all_iff kMaxShellScriptBytes_def)
qed

theorem runShellBatches_complete_witness:
  "\<exists>scripts. concat scripts = ''echo a;echo b;'' \<and>
     trace (snd (runShellBatches quiet_host \<lparr>ac_path = ''adb'', ac_serial = []\<rparr> [''echo a;'', ''echo b;''] quiet_sys)) =
       map (\<lambda>sc. EvExec (Capture None) [''adb'', ''shell'', sc]) scripts"
proof -
  have "\<forall>s. \<not> fst (cancelRequested quiet_host s)"
    by (simp add: cancelRequested_def quiet_host_def)
  from runShellBatches_complete [OF this, of "\<lparr>ac_path = ''adb'', ac_serial = []\<rparr>" "[''echo a;'', ''echo b;'']" quiet_sys]
  show ?thesis by (auto simp: quiet_sys_def baseArgs_def)
qed

lemma batches_words:
  assumes "probe snippet tokens"
  shows "list_all (\<lambda>b. \<exists>ms. set ms \<subseteq> set ns \<and> sh_words b = Some (concat (map tokens ms))) (batches (map snippet ns) [])"
  using probe.script_words [OF assms] by (simp add: list_all_iff)

text \<open>Asking which packages answer \<open>run-as\<close> is safe for any list of names: only requested
  packages are reported, and every command sent to the device is a script that its shell reads as
  the \<open>run-as\<close> probes of valid requested names and nothing else.\<close>

theorem packagesSupportingRunAs_safe:
  "set (fst (packagesSupportingRunAs h c names s)) \<subseteq> set names \<and>
   extends
     (execs_only (shell_call c (\<lambda>script. \<exists>ms. set ms \<subseteq> set (filter isValidPackageName names) \<and>
        sh_words script = Some (concat (map runas_tokens ms)))))
     s (snd (packagesSupportingRunAs h c names s))"
proof -
  let ?sn = "map runas_snippet (filter isValidPackageName names)"
  obtain out s1 where r: "runShellBatches h c ?sn s = (out, s1)" by force
  have "probe runas_snippet runas_tokens" by unfold_locales
  from extends_runShellBatches [OF batches_words [OF this, where ns = "filter isValidPackageName names"], where c = c and s = s and h = h] r
  show ?thesis
    by (auto simp: packagesSupportingRunAs_def set_map_filter runas_answer_def Let_def split: if_splits)
qed

text \<open>Resolving APK paths keeps the list of packages, touching nothing but their APK paths,
  and sends only scripts that the device's shell reads as the \<open>pm path\<close> probes of valid names.\<close>

theorem resolveApkPaths_safe:
  "map (\<lambda>p. p\<lparr>pi_apkPaths := []\<rparr>) (fst (resolveApkPaths h c packages s)) =
     map (\<lambda>p. p\<lparr>pi_apkPaths := []\<rparr>) packages \<and>
   extends
     (execs_only (shell_call c (\<lambda>script. \<exists>ms. set ms \<subseteq> set (filter isValidPackageName (map pi_name packages)) \<and>
        sh_words script = Some (concat (map path_tokens ms)))))
     s (snd (resolveApkPaths h c packages s))"
proof -
  let ?ns = "filter isValidPackageName (map pi_name packages)"
  have sn: "map (path_snippet \<circ> pi_name) (filter (isValidPackageName \<circ> pi_name) packages) = map path_snippet ?ns"
    by (simp add: filter_map)
  obtain out s1 where r: "runShellBatches h c (map path_snippet ?ns) s = (out, s1)" by force
  have "probe path_snippet path_tokens" by unfold_locales
  from extends_runShellBatches [OF batches_words [OF this, where ns = ?ns], where c = c and s = s and h = h] r
  have ext: "extends (execs_only (shell_call c (\<lambda>script. \<exists>ms. set ms \<subseteq> set ?ns \<and>
      sh_words script = Some (concat (map path_tokens ms))))) s s1" by simp
  have names: "(apply_paths found p)\<lparr>pi_apkPaths := []\<rparr> = p\<lparr>pi_apkPaths := []\<rparr>" for found p
    by (auto simp: apply_paths_def split: option.splits)
  show ?thesis
    unfolding resolveApkPaths_def sn Let_def using ext r by (auto simp: names o_def)
qed

text \<open>A client is allowed to go on exactly when its commands will reach one ready device: the
  first listed device with the pinned serial is ready, or no serial is pinned and exactly one
  device is ready.\<close>

theorem connectionProblem_empty_iff:
  "problem_with serial devices = [] \<longleftrightarrow>
     (if serial \<noteq> [] then
        (case find (\<lambda>d. dev_serial d = serial) devices of Some d \<Rightarrow> isReady d | None \<Rightarrow> False)
      else length (filter isReady devices) = 1)"
  by (auto simp: problem_with_def explainDeviceState_def Let_def split: option.splits)

definition volume_roots :: "string list \<Rightarrow> bool" where
  "volume_roots roots \<longleftrightarrow> distinct roots \<and>
     (\<forall>r\<in>set roots. \<exists>uuid. r = ''/storage/'' @ uuid \<and> uuid \<noteq> [] \<and>
        list_all (\<lambda>c. is_xdigit c \<or> c = CHR ''-'') uuid)"

lemma volume_roots_add: "volume_roots roots \<Longrightarrow> volume_roots (add_volume roots u)"
  by (auto simp: volume_roots_def add_volume_def)

lemma volume_roots_lines:
  "volume_roots roots \<Longrightarrow> volume_roots (foldl volume_of_line roots ls)"
  "volume_roots roots \<Longrightarrow> volume_roots (foldl volume_of_listing roots ls)"
proof -
  have step: "volume_roots rs \<Longrightarrow> volume_roots (volume_of_line rs l)"
    "volume_roots rs \<Longrightarrow> volume_roots (volume_of_listing rs l)" for rs l
    by (auto simp: volume_of_line_def volume_of_listing_def Let_def volume_roots_add split: list.splits)
  show "volume_roots roots \<Longrightarrow> volume_roots (foldl volume_of_line roots ls)"
    by (induction ls arbitrary: roots) (simp_all add: step)
  show "volume_roots roots \<Longrightarrow> volume_roots (foldl volume_of_listing roots ls)"
    by (induction ls arbitrary: roots) (simp_all add: step)
qed

lemma volume_name_chars:
  "is_xdigit c \<or> c = CHR ''-'' \<Longrightarrow> \<not> is_space c \<and> c \<noteq> CHR ''/'' \<and> c \<noteq> CHR ''.'' \<and> c \<noteq> CHR ''s''"
  by (auto simp: char_class_defs)

lemma pseudo_storage:
  "u \<noteq> ''self'' \<Longrightarrow> q \<in> set pseudoFilesystems \<Longrightarrow> \<not> prefix (segments q) [''storage'', u]"
  by (auto simp: pseudoFilesystems_def segments_def split_Cons)

lemma isPullable_volume:
  assumes "u \<noteq> []" "list_all (\<lambda>c. is_xdigit c \<or> c = CHR ''-'') u"
  shows "isPullable (''/storage/'' @ u)"
proof -
  have sp: "\<not> is_space c \<and> c \<noteq> CHR ''/'' \<and> c \<noteq> CHR ''.'' \<and> c \<noteq> CHR ''s''" if "c \<in> set u" for c
    using assms(2) that volume_name_chars by (simp add: list_all_iff)
  have trim: "trim (''/storage/'' @ u) = ''/storage/'' @ u"
    using assms(1) sp by (intro trim_no_space) (simp add: is_space_def)
  have "CHR ''/'' \<notin> set u" using sp by blast
  then have seg: "segments (''/storage/'' @ u) = [''storage'', u]"
    using assms(1) by (simp add: segments_def split_Cons split_no_delimiter)
  have "u \<noteq> ''self''" using sp [of "CHR ''s''"] by auto
  moreover have "''..'' \<noteq> u" using sp [of "CHR ''.''"] by auto
  moreover have "absolute (''/storage/'' @ u)" by (simp add: absolute_def)
  ultimately show ?thesis
    unfolding isPullable_def classify_Ok trim seg using pseudo_storage [of u] by fastforce
qed

text \<open>Whatever the device prints, a removable volume is a directory directly under
  \<open>/storage\<close> named by hexadecimal digits and dashes, listed once, and every such root is a path
  abp is willing to pull.\<close>

theorem removableStorageRoots_safe:
  "distinct (fst (removableStorageRoots h c s)) \<and>
   list_all (\<lambda>r. isPullable r \<and> (\<exists>uuid. r = ''/storage/'' @ uuid \<and>
     list_all (\<lambda>c. is_xdigit c \<or> c = CHR ''-'') uuid)) (fst (removableStorageRoots h c s))"
proof -
  have "volume_roots []" by (simp add: volume_roots_def)
  then have "volume_roots (fst (removableStorageRoots h c s))"
    by (auto simp: removableStorageRoots_def volume_roots_lines split: prod.splits)
  then show ?thesis
    unfolding volume_roots_def list_all_iff using isPullable_volume by (fastforce simp: list_all_iff)
qed

end
