(* ===== verification/Sha256.thy ===== *)
theory Sha256
  imports Host
begin

text \<open>
  \<open>include/abp/Sha256.h\<close> and \<open>src/src/util/Sha256.cpp\<close>: the streaming hash on 32-bit words, and
  the chunked hashing of a file.  The specification is the one-shot hash: the message padded as a
  whole and folded block by block.  The locale \<open>stream_hash\<close> states what a streaming hasher
  promises; the loop that feeds a file to it in chunks is its client.
\<close>

unbundle bit_operations_syntax

type_synonym uint32 = "32 word"
type_synonym uint8 = "8 word"

section \<open>Definitions\<close>

definition kRoundConstants :: "uint32 list" where
  "kRoundConstants =
     [0x428a2f98, 0x71374491, 0xb5c0fbcf, 0xe9b5dba5, 0x3956c25b, 0x59f111f1, 0x923f82a4, 0xab1c5ed5] @
     [0xd807aa98, 0x12835b01, 0x243185be, 0x550c7dc3, 0x72be5d74, 0x80deb1fe, 0x9bdc06a7, 0xc19bf174] @
     [0xe49b69c1, 0xefbe4786, 0x0fc19dc6, 0x240ca1cc, 0x2de92c6f, 0x4a7484aa, 0x5cb0a9dc, 0x76f988da] @
     [0x983e5152, 0xa831c66d, 0xb00327c8, 0xbf597fc7, 0xc6e00bf3, 0xd5a79147, 0x06ca6351, 0x14292967] @
     [0x27b70a85, 0x2e1b2138, 0x4d2c6dfc, 0x53380d13, 0x650a7354, 0x766a0abb, 0x81c2c92e, 0x92722c85] @
     [0xa2bfe8a1, 0xa81a664b, 0xc24b8b70, 0xc76c51a3, 0xd192e819, 0xd6990624, 0xf40e3585, 0x106aa070] @
     [0x19a4c116, 0x1e376c08, 0x2748774c, 0x34b0bcb5, 0x391c0cb3, 0x4ed8aa4a, 0x5b9cca4f, 0x682e6ff3] @
     [0x748f82ee, 0x78a5636f, 0x84c87814, 0x8cc70208, 0x90befffa, 0xa4506ceb, 0xbef9a3f7, 0xc67178f2]"

definition rotr :: "uint32 \<Rightarrow> nat \<Rightarrow> uint32" where
  "rotr x n = drop_bit n x OR push_bit (32 - n) x"

record sha_vars =
  va :: uint32
  vb :: uint32
  vc :: uint32
  vd :: uint32
  ve :: uint32
  vf :: uint32
  vg :: uint32
  vh :: uint32

definition initial_state :: sha_vars where
  "initial_state =
     \<lparr>va = 0x6a09e667, vb = 0xbb67ae85, vc = 0x3c6ef372, vd = 0xa54ff53a,
      ve = 0x510e527f, vf = 0x9b05688c, vg = 0x1f83d9ab, vh = 0x5be0cd19\<rparr>"

definition block_word :: "uint8 list \<Rightarrow> nat \<Rightarrow> uint32" where
  "block_word block i =
     push_bit 24 (ucast (block ! (i * 4))) OR push_bit 16 (ucast (block ! (i * 4 + 1))) OR
     push_bit 8 (ucast (block ! (i * 4 + 2))) OR ucast (block ! (i * 4 + 3))"

definition schedule_word :: "uint32 list \<Rightarrow> nat \<Rightarrow> uint32" where
  "schedule_word w i =
     (let s0 = rotr (w ! (i - 15)) 7 XOR rotr (w ! (i - 15)) 18 XOR drop_bit 3 (w ! (i - 15));
          s1 = rotr (w ! (i - 2)) 17 XOR rotr (w ! (i - 2)) 19 XOR drop_bit 10 (w ! (i - 2))
      in w ! (i - 16) + s0 + w ! (i - 7) + s1)"

definition message_schedule :: "uint8 list \<Rightarrow> uint32 list" where
  "message_schedule block =
     foldl (\<lambda>w i. w @ [schedule_word w i]) (map (block_word block) [0..<16]) [16..<64]"

definition sha_round :: "uint32 list \<Rightarrow> sha_vars \<Rightarrow> nat \<Rightarrow> sha_vars" where
  "sha_round w v i =
     (let e = ve v; a = va v;
          s1 = rotr e 6 XOR rotr e 11 XOR rotr e 25;
          ch = (e AND vf v) XOR (NOT e AND vg v);
          temp1 = vh v + s1 + ch + kRoundConstants ! i + w ! i;
          s0 = rotr a 2 XOR rotr a 13 XOR rotr a 22;
          maj = (a AND vb v) XOR (a AND vc v) XOR (vb v AND vc v);
          temp2 = s0 + maj
      in \<lparr>va = temp1 + temp2, vb = a, vc = vb v, vd = vc v,
          ve = vd v + temp1, vf = e, vg = vf v, vh = vg v\<rparr>)"

definition processBlock :: "sha_vars \<Rightarrow> uint8 list \<Rightarrow> sha_vars" where
  "processBlock st block =
     (let v = foldl (sha_round (message_schedule block)) st [0..<64]
      in \<lparr>va = va st + va v, vb = vb st + vb v, vc = vc st + vc v, vd = vd st + vd v,
          ve = ve st + ve v, vf = vf st + vf v, vg = vg st + vg v, vh = vh st + vh v\<rparr>)"

text \<open>
  The object: \<open>buffer_\<close> with \<open>bufferLength_\<close> is the list of the bytes in use; the bytes beyond are
  never read before they are written.
\<close>

record Sha256 =
  sha_state :: sha_vars
  totalLength :: "64 word"
  sha_buffer :: "uint8 list"
  digest :: string

definition new_Sha256 :: Sha256 where
  "new_Sha256 = \<lparr>sha_state = initial_state, totalLength = 0, sha_buffer = [], digest = []\<rparr>"

definition flush_full :: "Sha256 \<Rightarrow> Sha256" where
  "flush_full h =
     (if length (sha_buffer h) = 64
      then h\<lparr>sha_state := processBlock (sha_state h) (sha_buffer h), sha_buffer := []\<rparr>
      else h)"

definition appendByte :: "Sha256 \<Rightarrow> uint8 \<Rightarrow> Sha256" where
  "appendByte h byte = flush_full (h\<lparr>sha_buffer := sha_buffer h @ [byte]\<rparr>)"

text \<open>
  The loop of \<open>update\<close>.  A full buffer never enters it (it is flushed as soon as it fills), so every
  round takes at least one byte; the guard makes the recursion total on unreachable states too.
\<close>

function update_loop :: "Sha256 \<Rightarrow> uint8 list \<Rightarrow> Sha256" where
  "update_loop h bytes =
     (if bytes = [] \<or> 64 \<le> length (sha_buffer h) then h
      else let n = min (length bytes) (64 - length (sha_buffer h))
           in update_loop (flush_full (h\<lparr>sha_buffer := sha_buffer h @ take n bytes\<rparr>)) (drop n bytes))"
  by auto
termination by (relation "measure (\<lambda>(h, bytes). length bytes)") auto

declare update_loop.simps [simp del]

definition update :: "Sha256 \<Rightarrow> uint8 list \<Rightarrow> Sha256" where
  "update h bytes =
     (if digest h \<noteq> [] then h
      else update_loop (h\<lparr>totalLength := totalLength h + of_nat (length bytes)\<rparr>) bytes)"

text \<open>\<open>while (bufferLength_ != 56) appendByte(0x00)\<close>, with the number of rounds still allowed.\<close>

fun pad_loop :: "nat \<Rightarrow> Sha256 \<Rightarrow> Sha256 option" where
  "pad_loop 0 h = (if length (sha_buffer h) = 56 then Some h else None)"
| "pad_loop (Suc n) h = (if length (sha_buffer h) = 56 then Some h else pad_loop n (appendByte h 0))"

definition length_bytes :: "64 word \<Rightarrow> uint8 list" where
  "length_bytes n = map (\<lambda>i. ucast (drop_bit (56 - i * 8) n)) [0..<8]"

definition hex_state :: "sha_vars \<Rightarrow> string" where
  "hex_state v =
     concat (map (\<lambda>x. hex_digits 8 (unat x)) [va v, vb v, vc v, vd v, ve v, vf v, vg v, vh v])"

text \<open>Sixty-four rounds of padding are more than the loop can take; \<open>None\<close> would be a loop that goes on.\<close>

definition hexDigest :: "Sha256 \<Rightarrow> (string \<times> Sha256) option" where
  "hexDigest h =
     (if digest h \<noteq> [] then Some (digest h, h)
      else let bitLength = totalLength h * 8
           in case pad_loop 64 (appendByte h 0x80) of
                None \<Rightarrow> None
              | Some p \<Rightarrow>
                  (let st = processBlock (sha_state p) (take 56 (sha_buffer p) @ length_bytes bitLength);
                       d = hex_state st
                   in Some (d, p\<lparr>sha_state := st, digest := d\<rparr>)))"

definition bytes_of :: "string \<Rightarrow> uint8 list" where
  "bytes_of s = map (\<lambda>c. of_nat (byte_val c)) s"

definition digest_of :: "Sha256 \<Rightarrow> string" where
  "digest_of h = (case hexDigest h of Some (d, _) \<Rightarrow> d | None \<Rightarrow> [])"

definition sha256Hex :: "string \<Rightarrow> string" where
  "sha256Hex content = digest_of (update new_Sha256 (bytes_of content))"

text \<open>The read loop of \<open>sha256HexFile\<close>: chunks of \<open>1 << 16\<close> bytes, each fed to the hasher.\<close>

definition chunk_size :: nat where
  "chunk_size = 65536"

function feed_chunks :: "('h \<Rightarrow> 'b list \<Rightarrow> 'h) \<Rightarrow> nat \<Rightarrow> 'h \<Rightarrow> 'b list \<Rightarrow> 'h" where
  "feed_chunks upd k h content =
     (if content = [] \<or> k = 0 then h
      else feed_chunks upd k (upd h (take k content)) (drop k content))"
  by auto
termination by (relation "measure (\<lambda>(upd, k, h, content). length content)") auto

declare feed_chunks.simps [simp del]

text \<open>\<open>file.bad() || !file.eof()\<close> after the loop is the host's second component being \<^term>\<open>False\<close>.\<close>

definition sha256HexFile :: "'w host \<Rightarrow> string \<Rightarrow> 'w sys \<Rightarrow> string result" where
  "sha256HexFile h path s =
     (case h_read h path (world s) of
        None \<Rightarrow> Inl (''sha256HexFile: cannot open file: '' @ path)
      | Some (content, eof) \<Rightarrow>
          (let hasher = feed_chunks update chunk_size new_Sha256 (bytes_of content)
           in if \<not> eof then Inl (''sha256HexFile: read error: '' @ path)
              else Inr (digest_of hasher)))"

section \<open>The one-shot specification\<close>

text \<open>FIPS 180-4: a single one bit, zeros up to 56 modulo 64, the length in bits as 64 bits.\<close>

definition sha_padding :: "nat \<Rightarrow> uint8 list" where
  "sha_padding n =
     0x80 # replicate ((119 - n mod 64) mod 64) 0 @ length_bytes (of_nat n * 8)"

function blocks :: "'b list \<Rightarrow> 'b list list" where
  "blocks bs = (if length bs < 64 then [] else take 64 bs # blocks (drop 64 bs))"
  by auto
termination by (relation "measure length") auto

declare blocks.simps [simp del]

definition sha256_spec :: "uint8 list \<Rightarrow> string" where
  "sha256_spec message =
     hex_state (foldl processBlock initial_state (blocks (message @ sha_padding (length message))))"

section \<open>Blocks and the rest\<close>

definition block_rest :: "'b list \<Rightarrow> 'b list" where
  "block_rest m = drop (64 * (length m div 64)) m"

lemma block_rest_less: "length (block_rest m) < 64"
  by (simp add: block_rest_def minus_mult_div_eq_mod)

lemma block_split: "\<exists>a. m = a @ block_rest m \<and> 64 dvd length a"
proof (intro exI conjI)
  show "m = take (64 * (length m div 64)) m @ block_rest m" by (simp add: block_rest_def)
  have "64 * (length m div 64) \<le> length m" by simp
  then show "64 dvd length (take (64 * (length m div 64)) m)" by simp
qed

lemma block_rest_append: "64 dvd length a \<Longrightarrow> length t < 64 \<Longrightarrow> block_rest (a @ t) = t"
  by (auto simp: block_rest_def dvd_def)

lemma blocks_short: "length t < 64 \<Longrightarrow> blocks t = []"
  by (simp add: blocks.simps)

lemma blocks_one: "length t = 64 \<Longrightarrow> blocks t = [t]"
  by (subst blocks.simps) (simp add: blocks_short)

lemma blocks_append: "64 dvd length a \<Longrightarrow> blocks (a @ b) = blocks a @ blocks b"
proof (induction a rule: blocks.induct)
  case (1 a)
  show ?case
  proof (cases "length a < 64")
    case True
    then have "a = []" using "1.prems" by (auto dest: dvd_imp_le)
    then show ?thesis by (simp add: blocks_short)
  next
    case False
    then have "64 dvd length (drop 64 a)" using "1.prems" by simp
    then have "blocks (drop 64 a @ b) = blocks (drop 64 a) @ blocks b" using "1.IH" False by simp
    with False show ?thesis by (simp add: blocks.simps [of "a @ b"] blocks.simps [of a])
  qed
qed

text \<open>\<open>absorbed h m\<close>: the compression state and the buffer of \<open>h\<close> are those after the bytes \<open>m\<close>.\<close>

definition absorbed :: "Sha256 \<Rightarrow> uint8 list \<Rightarrow> bool" where
  "absorbed h m \<longleftrightarrow>
     sha_state h = foldl processBlock initial_state (blocks m) \<and> sha_buffer h = block_rest m"

lemma absorbed_flush:
  assumes "absorbed h m" "length (sha_buffer h) + length x \<le> 64"
  shows "absorbed (flush_full (h\<lparr>sha_buffer := sha_buffer h @ x\<rparr>)) (m @ x)"
proof -
  obtain a where a: "m = a @ block_rest m" "64 dvd length a" using block_split by blast
  have mx: "m @ x = a @ (block_rest m @ x)" by (metis a(1) append.assoc)
  have st: "blocks m = blocks a"
    by (subst a(1)) (simp only: blocks_append [OF a(2)] blocks_short [OF block_rest_less] append_Nil2)
  show ?thesis
  proof (cases "length (block_rest m @ x) = 64")
    case True
    have "blocks (m @ x) = blocks a @ [block_rest m @ x]"
      by (simp only: mx blocks_append [OF a(2)] blocks_one [OF True])
    moreover have "block_rest (m @ x) = []"
      using True a(2) block_rest_append [of "a @ block_rest m @ x" "[]"] by (simp add: mx)
    ultimately show ?thesis using assms(1) True st by (simp add: absorbed_def flush_full_def)
  next
    case False
    with assms have less: "length (block_rest m @ x) < 64" by (simp add: absorbed_def)
    have "blocks (m @ x) = blocks a"
      by (simp only: mx blocks_append [OF a(2)] blocks_short [OF less] append_Nil2)
    moreover have "block_rest (m @ x) = block_rest m @ x"
      using block_rest_append [OF a(2) less] by (simp add: mx)
    ultimately show ?thesis using assms(1) False st by (auto simp: absorbed_def flush_full_def)
  qed
qed

lemma flush_full_frame [frame_simps]:
  "totalLength (flush_full h) = totalLength h" "digest (flush_full h) = digest h"
  by (simp_all add: flush_full_def)

lemma absorbed_update_loop:
  "absorbed h m \<Longrightarrow> absorbed (update_loop h x) (m @ x) \<and>
     totalLength (update_loop h x) = totalLength h \<and> digest (update_loop h x) = digest h"
proof (induction h x arbitrary: m rule: update_loop.induct)
  case (1 h x)
  have buf: "length (sha_buffer h) < 64"
    using "1.prems" block_rest_less by (simp add: absorbed_def)
  show ?case
  proof (cases "x = []")
    case True
    then have "update_loop h x = h" by (subst update_loop.simps) simp
    with True "1.prems" show ?thesis by simp
  next
    case False
    let ?n = "min (length x) (64 - length (sha_buffer h))"
    let ?h = "flush_full (h\<lparr>sha_buffer := sha_buffer h @ take ?n x\<rparr>)"
    have step: "absorbed ?h (m @ take ?n x)"
      using "1.prems" buf by (intro absorbed_flush) auto
    have "\<not> (x = [] \<or> 64 \<le> length (sha_buffer h))" using False buf by simp
    from "1.IH" [OF this refl step] have "absorbed (update_loop ?h (drop ?n x)) ((m @ take ?n x) @ drop ?n x) \<and>
        totalLength (update_loop ?h (drop ?n x)) = totalLength ?h \<and>
        digest (update_loop ?h (drop ?n x)) = digest ?h"
      .
    moreover have "update_loop h x = update_loop ?h (drop ?n x)"
      using False buf by (subst update_loop.simps) (simp add: Let_def)
    moreover have "totalLength ?h = totalLength h" "digest ?h = digest h"
      by (simp_all add: frame_simps)
    ultimately show ?thesis by (simp only: append.assoc append_take_drop_id)
  qed
qed

section \<open>The padding loop\<close>

lemma absorbed_appendByte: "absorbed h m \<Longrightarrow> absorbed (appendByte h b) (m @ [b])"
  unfolding appendByte_def using block_rest_less [of m]
  by (intro absorbed_flush) (auto simp: absorbed_def)

lemma appendByte_frame [frame_simps]:
  "totalLength (appendByte h b) = totalLength h" "digest (appendByte h b) = digest h"
  by (simp_all add: appendByte_def frame_simps)

lemma length_block_rest: "length (block_rest m) = length m mod 64"
  by (simp add: block_rest_def minus_mult_div_eq_mod)

definition pad_zeros :: "nat \<Rightarrow> nat" where
  "pad_zeros r = (if r \<le> 56 then 56 - r else 120 - r)"

lemma pad_zeros_step: "r < 64 \<Longrightarrow> r \<noteq> 56 \<Longrightarrow> pad_zeros r = Suc (pad_zeros (Suc r mod 64))"
  by (cases "r = 63") (auto simp: pad_zeros_def)

lemma pad_zeros_mod: "r < 64 \<Longrightarrow> (119 - r) mod 64 = pad_zeros (Suc r mod 64)"
proof (cases "r \<le> 55")
  case True
  then have "(119 - r) mod 64 = (64 + (55 - r)) mod 64" by simp
  also have "\<dots> = 55 - r" using True by (simp only: mod_add_self1) simp
  finally show ?thesis using True by (simp add: pad_zeros_def)
next
  case False
  assume "r < 64"
  with False show ?thesis by (cases "r = 63") (auto simp: pad_zeros_def)
qed

lemma pad_loop_absorbed:
  "absorbed h m \<Longrightarrow> pad_zeros (length m mod 64) \<le> n \<Longrightarrow>
   \<exists>p. pad_loop n h = Some p \<and> absorbed p (m @ replicate (pad_zeros (length m mod 64)) 0) \<and>
     totalLength p = totalLength h \<and> digest p = digest h"
proof (induction n arbitrary: h m)
  case 0
  have "length m mod 64 < 64" by simp
  with 0 have "length m mod 64 = 56" by (auto simp: pad_zeros_def split: if_splits)
  with 0 show ?case by (simp add: absorbed_def length_block_rest)
next
  case (Suc n)
  have buf: "length (sha_buffer h) = length m mod 64"
    using Suc.prems(1) by (simp add: absorbed_def length_block_rest)
  show ?case
  proof (cases "length m mod 64 = 56")
    case True
    with Suc.prems buf show ?thesis by (simp add: pad_zeros_def)
  next
    case False
    have "Suc (length m mod 64) mod 64 = length (m @ [0]) mod 64" by (simp add: mod_Suc_eq)
    then have z: "pad_zeros (length m mod 64) = Suc (pad_zeros (length (m @ [0]) mod 64))"
      using pad_zeros_step [OF _ False] by (metis mod_less_divisor zero_less_numeral)
    then have "pad_zeros (length (m @ [0]) mod 64) \<le> n" using Suc.prems(2) by linarith
    from Suc.IH [OF absorbed_appendByte [OF Suc.prems(1)] this] obtain p where
      "pad_loop n (appendByte h 0) = Some p"
      "absorbed p ((m @ [0]) @ replicate (pad_zeros (length (m @ [0]) mod 64)) 0)"
      "totalLength p = totalLength (appendByte h 0)" "digest p = digest (appendByte h 0)"
      by blast
    with False buf show ?thesis unfolding z by (simp add: frame_simps)
  qed
qed

section \<open>The digest\<close>

text \<open>\<open>represents h m\<close>: an open hasher that has been given exactly \<open>m\<close>.\<close>

definition represents :: "Sha256 \<Rightarrow> uint8 list \<Rightarrow> bool" where
  "represents h m \<longleftrightarrow> absorbed h m \<and> totalLength h = of_nat (length m) \<and> digest h = []"

lemma represents_new: "represents new_Sha256 []"
  by (simp add: represents_def absorbed_def new_Sha256_def blocks_short block_rest_def)

lemma represents_update: "represents h m \<Longrightarrow> represents (update h x) (m @ x)"
proof -
  assume rep: "represents h m"
  let ?h = "h\<lparr>totalLength := totalLength h + of_nat (length x)\<rparr>"
  have "absorbed ?h m" using rep by (simp add: represents_def absorbed_def)
  from absorbed_update_loop [OF this, of x] rep show ?thesis
    by (simp add: represents_def update_def)
qed

lemma length_hex_state: "length (hex_state v) = 64"
  by (simp add: hex_state_def)

lemma length_length_bytes: "length (length_bytes n) = 8"
  by (simp add: length_bytes_def)

lemma hexDigest_represents:
  assumes rep: "represents h m"
  shows "\<exists>h'. hexDigest h = Some (sha256_spec m, h') \<and> digest h' = sha256_spec m"
proof -
  let ?m = "m @ [0x80]" and ?z = "pad_zeros (length (m @ [0x80 :: uint8]) mod 64)"
  have h: "absorbed (appendByte h 0x80) ?m"
    using rep by (intro absorbed_appendByte) (simp add: represents_def)
  have "pad_zeros r \<le> 64" for r by (auto simp: pad_zeros_def)
  then have "?z \<le> 64" by blast
  from pad_loop_absorbed [OF h this] obtain p where
    p: "pad_loop 64 (appendByte h 0x80) = Some p" "absorbed p (?m @ replicate ?z 0)"
    by blast
  let ?n = "?m @ replicate ?z 0" and ?l = "length_bytes (of_nat (length m) * 8)"
  have pad: "sha_padding (length m) = 0x80 # replicate ?z 0 @ ?l"
    using pad_zeros_mod [of "length m mod 64"] by (simp add: sha_padding_def mod_Suc_eq)
  have "length ?n mod 64 = 56"
  proof -
    let ?r = "Suc (length m mod 64) mod 64"
    have "length ?n mod 64 = (?r + pad_zeros ?r) mod 64" by (simp add: mod_Suc_eq mod_add_left_eq)
    moreover have "?r < 64" by simp
    then have "(?r + pad_zeros ?r) mod 64 = 56" by (auto simp: pad_zeros_def)
    ultimately show ?thesis by simp
  qed
  then have rest: "length (block_rest ?n) = 56" by (simp only: length_block_rest)
  obtain a where a: "?n = a @ block_rest ?n" "64 dvd length a" using block_split by blast
  have "blocks (?n @ ?l) = blocks (a @ (block_rest ?n @ ?l))" using a(1) by (metis append.assoc)
  also have "\<dots> = blocks a @ [block_rest ?n @ ?l]"
    using rest by (simp add: blocks_append [OF a(2)] blocks_one length_length_bytes)
  also have "blocks a = blocks (a @ block_rest ?n)"
    by (simp only: blocks_append [OF a(2)] blocks_short [OF block_rest_less] append_Nil2)
  also have "\<dots> = blocks ?n" by (rule arg_cong [OF a(1) [symmetric]])
  finally have st: "foldl processBlock initial_state (blocks (m @ sha_padding (length m))) =
      processBlock (sha_state p) (take 56 (sha_buffer p) @ ?l)"
    using p(2) rest by (simp add: absorbed_def pad)
  show ?thesis
    using rep p(1) st by (auto simp: represents_def hexDigest_def Let_def sha256_spec_def)
qed

lemma digest_of_represents: "represents h m \<Longrightarrow> digest_of h = sha256_spec m"
  using hexDigest_represents [of h m] by (auto simp: digest_of_def)

lemma hexDigest_final: "hexDigest h = Some (d, h') \<Longrightarrow> d \<noteq> [] \<and> digest h' = d"
proof -
  have "hex_state v \<noteq> []" for v using length_hex_state [of v] by auto
  then show "hexDigest h = Some (d, h') \<Longrightarrow> d \<noteq> [] \<and> digest h' = d"
    by (auto simp: hexDigest_def Let_def split: if_splits option.splits)
qed

section \<open>Streaming\<close>

text \<open>
  A streaming hasher: a fresh one has absorbed nothing, an update appends, and its digest is the
  hash of what it absorbed.  Feeding data in chunks of any size hashes the whole.
\<close>

locale stream_hash =
  fixes init :: 'h and upd :: "'h \<Rightarrow> 'b list \<Rightarrow> 'h" and out :: "'h \<Rightarrow> string"
    and rep :: "'h \<Rightarrow> 'b list \<Rightarrow> bool" and spec :: "'b list \<Rightarrow> string"
  assumes rep_init: "rep init []"
    and rep_upd: "rep h m \<Longrightarrow> rep (upd h x) (m @ x)"
    and out_rep: "rep h m \<Longrightarrow> out h = spec m"
begin

lemma rep_foldl: "rep h m \<Longrightarrow> rep (foldl upd h xs) (m @ concat xs)"
proof (induction xs arbitrary: h m)
  case (Cons x xs)
  from Cons.IH [OF rep_upd [OF Cons.prems]] show ?case by simp
qed simp

theorem stream_spec: "out (foldl upd init xs) = spec (concat xs)"
  using rep_foldl [OF rep_init, of xs] by (simp add: out_rep)

lemma rep_feed_chunks: "0 < k \<Longrightarrow> rep h m \<Longrightarrow> rep (feed_chunks upd k h content) (m @ content)"
proof (induction upd' \<equiv> upd k h content arbitrary: m rule: feed_chunks.induct)
  case (1 k h content)
  show ?case
  proof (cases "content = []")
    case True
    then have "feed_chunks upd k h content = h" by (subst feed_chunks.simps) simp
    with True "1.prems" show ?thesis by simp
  next
    case False
    then have "rep (feed_chunks upd k (upd h (take k content)) (drop k content))
        ((m @ take k content) @ drop k content)"
      using "1.prems" by (intro "1.hyps" rep_upd) auto
    moreover have "feed_chunks upd k h content =
        feed_chunks upd k (upd h (take k content)) (drop k content)"
      using False "1.prems" by (subst feed_chunks.simps) simp
    ultimately show ?thesis by simp
  qed
qed

theorem feed_chunks_spec: "0 < k \<Longrightarrow> out (feed_chunks upd k init content) = spec content"
  using rep_feed_chunks [OF _ rep_init, of k content] by (simp add: out_rep)

end

interpretation sha: stream_hash new_Sha256 update digest_of represents sha256_spec
  by unfold_locales (auto simp: represents_new represents_update digest_of_represents)

section \<open>Properties\<close>

text \<open>C38: the streaming hasher computes SHA-256: however the data is cut into updates, the digest
  is that of the whole message padded and compressed at once.\<close>

theorem sha256_streaming: "digest_of (foldl update new_Sha256 chunks) = sha256_spec (concat chunks)"
  by (rule sha.stream_spec)

text \<open>The padding loop ends for every hasher the interface can produce, and once a digest has
  been taken the hasher is final: asking again gives the same digest, and updates are ignored.\<close>

theorem hexDigest_total_and_final:
  "\<exists>h'. hexDigest (foldl update new_Sha256 chunks) = Some (sha256_spec (concat chunks), h') \<and>
     hexDigest (update h' extra) = Some (sha256_spec (concat chunks), h')"
proof -
  obtain h' where h': "hexDigest (foldl update new_Sha256 chunks) = Some (sha256_spec (concat chunks), h')"
    using hexDigest_represents [OF sha.rep_foldl [OF sha.rep_init], of chunks] by auto
  from hexDigest_final [OF h'] have "digest h' \<noteq> []" "digest h' = sha256_spec (concat chunks)" by auto
  then have "hexDigest (update h' extra) = Some (sha256_spec (concat chunks), h')"
    by (simp add: hexDigest_def update_def)
  with h' show ?thesis by blast
qed

text \<open>Hashing a file in chunks of 64 KiB gives the hash of its contents, and a file that
  cannot be opened or read to its end is an error, never the hash of a part.\<close>

theorem sha256HexFile_correct:
  "sha256HexFile h path s =
     (case h_read h path (world s) of
        None \<Rightarrow> Inl (''sha256HexFile: cannot open file: '' @ path)
      | Some (content, False) \<Rightarrow> Inl (''sha256HexFile: read error: '' @ path)
      | Some (content, True) \<Rightarrow> Inr (sha256_spec (bytes_of content)))"
proof -
  have "digest_of (feed_chunks update chunk_size new_Sha256 x) = sha256_spec x" for x
    by (rule sha.feed_chunks_spec) (simp add: chunk_size_def)
  then show ?thesis
    by (simp add: sha256HexFile_def split: option.splits prod.splits bool.splits)
qed

end
