(* ===== verification/ArchiveIntegrity.thy ===== *)
theory ArchiveIntegrity
  imports Sha256
begin

text \<open>
  \<open>src/src/backup/ArchiveIntegrity.cpp\<close>: the two faces of a checksum.  Recording one is best
  effort, verifying one fails closed.
\<close>

definition checksumOrEmpty :: "'w host \<Rightarrow> string \<Rightarrow> 'w sys \<Rightarrow> string \<times> 'w sys" where
  "checksumOrEmpty h path s =
     (case sha256HexFile h path s of
        Inr d \<Rightarrow> (d, s)
      | Inl e \<Rightarrow> ([], log_warn h (''Could not checksum '' @ path @ '': '' @ e) s))"

definition checksumMatches :: "'w host \<Rightarrow> string \<Rightarrow> string \<Rightarrow> 'w sys \<Rightarrow> bool" where
  "checksumMatches h path expected s =
     (if expected = [] then True
      else case sha256HexFile h path s of
        Inr d \<Rightarrow> d = expected
      | Inl _ \<Rightarrow> False)"

lemma extends_checksumOrEmpty [trace_intros]: "extends local_event s (snd (checksumOrEmpty h p s))"
  by (auto simp: checksumOrEmpty_def intro: trace_intros split: sum.splits)

lemma world_log [simp]:
  "world (log_debug h m s) = world s" "world (log_info h m s) = world s"
  "world (log_warn h m s) = world s" "world (log_error h m s) = world s"
  "world (progress st i n it s) = world s"
  by (simp_all add: log_debug_def log_info_def log_warn_def log_error_def log_def progress_def)

lemma world_checksumOrEmpty [simp]: "world (snd (checksumOrEmpty h p s)) = world s"
  by (simp add: checksumOrEmpty_def split: sum.splits)

lemma sha256_spec_not_Nil: "sha256_spec m \<noteq> []"
  using length_hex_state by (metis length_0_conv sha256_spec_def zero_neq_numeral)

text \<open>A recorded checksum is verified against the whole file: the answer is yes exactly
  when nothing is expected or the file can be read to its end and its SHA-256 is the expected one, and a checksum recorded from the same contents always verifies.\<close>

theorem checksumMatches_iff:
  "(checksumMatches h path expected s \<longleftrightarrow>
      expected = [] \<or>
      (\<exists>content. h_read h path (world s) = Some (content, True) \<and> expected = sha256_spec (bytes_of content))) \<and>
   checksumMatches h path (fst (checksumOrEmpty h path s)) s"
proof -
  have "sha256HexFile h path s =
     (case h_read h path (world s) of
        None \<Rightarrow> Inl (''sha256HexFile: cannot open file: '' @ path)
      | Some (content, False) \<Rightarrow> Inl (''sha256HexFile: read error: '' @ path)
      | Some (content, True) \<Rightarrow> Inr (sha256_spec (bytes_of content)))"
    unfolding sha256HexFile_def
    using sha.feed_chunks_spec [of chunk_size] by (auto simp: chunk_size_def split: option.splits bool.splits)
  then show ?thesis
    by (auto simp: checksumMatches_def checksumOrEmpty_def split: option.splits bool.splits sum.splits)
qed

end
