(* ===== verification/DeviceCalls.thy ===== *)
theory DeviceCalls
  imports AdbClient ArchiveIntegrity
begin

text \<open>
  How the operations built on \<^theory_text>\<open>AdbClient\<close> change the system, in the form the backends and the
  manager use: from any state reached from \<open>s0\<close> by allowed events, every operation reaches another
  such state, provided the processes it starts are allowed.  The second half is the same for the
  files of the host: what only a process writing to a file, or abp itself, changes.
\<close>

named_theorems chain \<open>operations lead from an allowed state to an allowed state\<close>
named_theorems keep \<open>operations that leave the host's files alone\<close>

section \<open>Allowed processes\<close>

lemma chain_emit [chain]: "extends Q s0 s \<Longrightarrow> Q e \<Longrightarrow> extends Q s0 (emit e s)"
  by (rule extends_emit)

lemma chain_local:
  "extends (execs_only P) s0 s \<Longrightarrow> extends local_event s t \<Longrightarrow> extends (execs_only P) s0 t"
  using extends_trans extends_local_execs by blast

lemma chain_local_ops [chain]:
  assumes "extends (execs_only P) s0 s"
  shows "extends (execs_only P) s0 (log_debug h m s)" "extends (execs_only P) s0 (log_info h m s)"
    "extends (execs_only P) s0 (log_warn h m s)" "extends (execs_only P) s0 (log_error h m s)"
    "extends (execs_only P) s0 (progress st d n i s)"
    "extends (execs_only P) s0 (fs_remove h p s)" "extends (execs_only P) s0 (fs_remove_all h p s)"
    "extends (execs_only P) s0 (fs_owner_only h p s)" "extends (execs_only P) s0 (snd (time_now h s))"
    "extends (execs_only P) s0 (snd (utcTimestamp h s))"
    "extends (execs_only P) s0 (snd (ensureDirectory h p s))"
    "extends (execs_only P) s0 (snd (writeTextFile h p c s))"
    "extends (execs_only P) s0 (snd (checksumOrEmpty h p s))"
    "extends (execs_only P) s0 (snd (cancelRequested h s))"
  using assms extends_cancelRequested [of local_event]
  by (auto intro: chain_local trace_intros)

lemma chain_process:
  "extends (execs_only P) s0 s \<Longrightarrow> P io args \<Longrightarrow> extends (execs_only P) s0 (snd (process h io args s))"
  using extends_trans extends_process by metis

lemma chain_client [chain]:
  assumes "extends (execs_only P) s0 s"
  shows
    "P (Capture None) [path, ''devices'', ''-l''] \<Longrightarrow>
     extends (execs_only P) s0 (snd (listConnectedDevices h path s))"
    "P (Capture None) (baseArgs c @ [''shell'', cmd]) \<Longrightarrow> extends (execs_only P) s0 (snd (shell h c cmd s))"
    "P (Capture None) (baseArgs c @ [''shell'', cmd]) \<Longrightarrow> extends (execs_only P) s0 (snd (shellText h c cmd s))"
    "P (Capture None) (baseArgs c @ [''push'', lp, rp]) \<Longrightarrow> extends (execs_only P) s0 (snd (push h c lp rp s))"
    "P (Capture None) (baseArgs c @ [''pull'', rp, lp]) \<Longrightarrow> extends (execs_only P) s0 (snd (pull h c rp lp s))"
    "P (Capture None) (baseArgs c @ [''pull'', ''-a'', rp, lp]) \<Longrightarrow>
     extends (execs_only P) s0 (snd (pullTree h c rp lp s))"
    "P (ToFile lp) (baseArgs c @ [''exec-out'', cmd]) \<Longrightarrow>
     extends (execs_only P) s0 (snd (execOutToFile h c cmd lp s))"
    "P (FromFile lp) (baseArgs c @ [''shell'', cmd]) \<Longrightarrow>
     extends (execs_only P) s0 (snd (shellFromFile h c cmd lp s))"
    "P (Capture None) (baseArgs c @ [''restore'', lp]) \<Longrightarrow>
     extends (execs_only P) s0 (snd (restoreFromFile h c lp s))"
  using assms
  by (auto simp: listConnectedDevices_def shell_def shellText_def push_def pull_def pullTree_def
      execOutToFile_def shellFromFile_def restoreFromFile_def Process_run_def Process_runToFile_def
      Process_runFromFile_def split_beta Let_def intro: chain_process)

lemma chain_connect [chain]:
  assumes "extends (execs_only P) s0 s" "P (Capture None) [ac_path c, ''devices'', ''-l'']"
  shows "extends (execs_only P) s0 (snd (connectionProblem h c s))"
    "extends (execs_only P) s0 (snd (pinned h c s))"
  using assms
  by (auto simp: connectionProblem_def pinned_def split_beta Let_def intro!: chain split: option.splits)

text \<open>The calls that go to one device: the client's path and serial come first.\<close>

definition to_device :: "AdbClient \<Rightarrow> proc_io \<Rightarrow> string list \<Rightarrow> bool" where
  "to_device c io args \<longleftrightarrow> (\<exists>rest. rest \<noteq> [] \<and> args = baseArgs c @ rest)"

lemma to_device_append [simp]: "to_device c io (baseArgs c @ x # xs)"
  by (auto simp: to_device_def)

lemma chain_backup_install [chain]:
  assumes "extends (execs_only (to_device c)) s0 s"
  shows "extends (execs_only (to_device c)) s0 (snd (backupToFile h c out ps a sh s))"
    "extends (execs_only (to_device c)) s0 (snd (installApks h c apks re s))"
  using assms
  by (auto simp: backupToFile_def installApks_def Process_run_def split_beta Let_def intro!: chain chain_process)

lemma chain_batches [chain]:
  assumes "extends (execs_only (to_device c)) s0 s"
  shows "extends (execs_only (to_device c)) s0 (snd (packagesSupportingRunAs h c names s))"
    "extends (execs_only (to_device c)) s0 (snd (resolveApkPaths h c pkgs s))"
proof -
  have "extends (execs_only (shell_call c (\<lambda>_. True))) t (snd (runShellBatches h c sn t))" for sn t
    by (rule extends_runShellBatches) (simp add: list_all_iff)
  then have "extends (execs_only (to_device c)) t (snd (runShellBatches h c sn t))" for sn t
    by (rule extends_mono) (auto simp: shell_call_def elim!: execs_only.elims)
  then have "extends (execs_only (to_device c)) s0 (snd (runShellBatches h c sn s))" for sn
    using assms extends_trans by blast
  with assms show "extends (execs_only (to_device c)) s0 (snd (packagesSupportingRunAs h c names s))"
    "extends (execs_only (to_device c)) s0 (snd (resolveApkPaths h c pkgs s))"
    by (auto simp: packagesSupportingRunAs_def resolveApkPaths_def split_beta Let_def)
qed

lemma chain_queries [chain]:
  assumes "extends (execs_only (to_device c)) s0 s"
  shows "extends (execs_only (to_device c)) s0 (snd (detectRoot h c s))"
    "extends (execs_only (to_device c)) s0 (snd (listPackages h c sys s))"
    "extends (execs_only (to_device c)) s0 (snd (removableStorageRoots h c s))"
  using assms
  by (auto simp: detectRoot_def listPackages_def removableStorageRoots_def split_beta Let_def
      intro!: chain split: option.splits)

section \<open>Files left alone\<close>

text \<open>
  What is assumed of the host where a statement needs the files to stay as they are: a child
  process whose output is not redirected to a file, and the passing of time, change no file that
  abp reads.
\<close>

definition files_kept :: "'w host \<Rightarrow> bool" where
  "files_kept h \<longleftrightarrow>
     (\<forall>io args w p. (\<forall>f. io \<noteq> ToFile f) \<longrightarrow> h_read h p (snd (h_exec h io args w)) = h_read h p w) \<and>
     (\<forall>w p. h_read h p (snd (h_cancelRequested h w)) = h_read h p w)"

definition same_files :: "'w host \<Rightarrow> 'w sys \<Rightarrow> 'w sys \<Rightarrow> bool" where
  "same_files h s0 s \<longleftrightarrow> (\<forall>p. h_read h p (world s) = h_read h p (world s0))"

lemma same_files_refl [simp, intro]: "same_files h s s"
  by (simp add: same_files_def)

lemma checksumMatches_same_files:
  "same_files h s0 s \<Longrightarrow> checksumMatches h p e s \<longleftrightarrow> checksumMatches h p e s0"
  by (simp add: checksumMatches_def sha256HexFile_def same_files_def)

lemma keep_local [keep]:
  assumes "same_files h s0 s"
  shows "same_files h s0 (log_debug h m s)" "same_files h s0 (log_info h m s)"
    "same_files h s0 (log_warn h m s)" "same_files h s0 (log_error h m s)"
    "same_files h s0 (progress st d n i s)"
  using assms by (simp_all add: same_files_def)

lemma keep_cancel [keep]:
  "files_kept h \<Longrightarrow> same_files h s0 s \<Longrightarrow> same_files h s0 (snd (cancelRequested h s))"
  by (simp add: same_files_def files_kept_def cancelRequested_def split_beta Let_def)

lemma keep_process:
  "files_kept h \<Longrightarrow> (\<And>f. io \<noteq> ToFile f) \<Longrightarrow> same_files h s0 s \<Longrightarrow> same_files h s0 (snd (process h io args s))"
  using keep_cancel [of h s0 s]
  by (auto simp: process_def files_kept_def same_files_def split_beta Let_def split: prod.splits bool.splits)

lemma keep_client [keep]:
  assumes "files_kept h" "same_files h s0 s"
  shows "same_files h s0 (snd (shell h c cmd s))" "same_files h s0 (snd (shellText h c cmd s))"
    "same_files h s0 (snd (push h c lp rp s))" "same_files h s0 (snd (restoreFromFile h c lp s))"
    "same_files h s0 (snd (shellFromFile h c cmd lp s))"
  using assms
  by (auto simp: shell_def shellText_def push_def restoreFromFile_def shellFromFile_def Process_run_def
      Process_runFromFile_def split_beta Let_def intro!: keep_process)

section \<open>Reading a command line\<close>

text \<open>The redirection most device commands end in, and the rules that walk a shell through a command.\<close>

definition dev_null :: "sh_token list" where
  "dev_null = [Word ''2'', Oper (CHR ''>''), Word ''/dev/null'']"

lemma ordinary_letters [simp]:
  "c \<in> set ''abcdefghijklmnopqrstuvwxyzACRT-/:.,_02@'' \<Longrightarrow> is_ordinary c"
  by (auto simp: is_ordinary_def is_blank_def is_oper_def)

lemma oper_brackets [simp]: "is_oper (CHR ''['')" "is_oper (CHR '']'')" "is_oper (CHR ''|'')"
  by (simp_all add: is_oper_def)

lemma sh_words_walk: "sh_run (between []) s = inside w ts \<Longrightarrow> ts @ [Word w] = toks \<Longrightarrow> sh_words s = Some toks"
  using sh_words_inside [of s w ts] by (simp add: sh_start_between)

end
