(* ===== verification/Json.thy ===== *)
theory Json
  imports CxxDouble
begin

text \<open>
  \<open>include/abp/Json.h\<close> and \<open>src/src/util/Json.cpp\<close>: the document type with its accessors, the
  recursive-descent parser and the pretty printer.  The parser's state is the unread suffix of the
  text; an error carries the message and the number of bytes left, from which \<open>json_parse\<close>
  computes the offset the code reports.  The mutually recursive methods take fuel, and
  \<open>parseValue_fuel\<close> shows that three units per byte are always enough.
\<close>

section \<open>Documents\<close>

datatype json =
    JNull
  | JBool bool
  | JNumber double
  | JString string
  | JArray "json list"
  | JObject "(string \<times> json) list"

text \<open>\<open>JsonValue(long long)\<close>, \<open>JsonValue(int)\<close> and \<open>JsonValue(unsigned long long)\<close>.\<close>

definition JInt :: "int \<Rightarrow> json" where
  "JInt i = JNumber (double_from_int i)"

fun isNull :: "json \<Rightarrow> bool" where "isNull JNull = True" | "isNull _ = False"
fun isObject :: "json \<Rightarrow> bool" where "isObject (JObject _) = True" | "isObject _ = False"
fun isArray :: "json \<Rightarrow> bool" where "isArray (JArray _) = True" | "isArray _ = False"
fun isString :: "json \<Rightarrow> bool" where "isString (JString _) = True" | "isString _ = False"

fun asBool :: "json \<Rightarrow> bool \<Rightarrow> bool" where
  "asBool (JBool b) def = b"
| "asBool _ def = def"

fun asDouble :: "json \<Rightarrow> double \<Rightarrow> double" where
  "asDouble (JNumber x) def = x"
| "asDouble _ def = def"

fun asInt :: "json \<Rightarrow> int \<Rightarrow> int" where
  "asInt (JNumber x) def = ll_from_double x"
| "asInt _ def = def"

fun asString :: "json \<Rightarrow> string \<Rightarrow> string" where
  "asString (JString s) def = s"
| "asString _ def = def"

fun items :: "json \<Rightarrow> json list" where
  "items (JArray xs) = xs"
| "items _ = []"

fun members :: "json \<Rightarrow> (string \<times> json) list" where
  "members (JObject ms) = ms"
| "members _ = []"

fun json_push_back :: "json \<Rightarrow> json \<Rightarrow> json" where
  "json_push_back j v = JArray (items j @ [v])"

fun members_set :: "(string \<times> json) list \<Rightarrow> string \<Rightarrow> json \<Rightarrow> (string \<times> json) list" where
  "members_set [] key v = [(key, v)]"
| "members_set ((k, w) # ms) key v = (if k = key then (k, v) # ms else (k, w) # members_set ms key v)"

definition json_set :: "json \<Rightarrow> string \<Rightarrow> json \<Rightarrow> json" where
  "json_set j key v = JObject (members_set (members j) key v)"

fun members_get :: "(string \<times> json) list \<Rightarrow> string \<Rightarrow> json \<Rightarrow> json" where
  "members_get [] key def = def"
| "members_get ((k, w) # ms) key def = (if k = key then w else members_get ms key def)"

definition json_get :: "json \<Rightarrow> string \<Rightarrow> json" where
  "json_get j key = members_get (members j) key JNull"

definition json_has :: "json \<Rightarrow> string \<Rightarrow> bool" where
  "json_has j key \<longleftrightarrow> list_ex (\<lambda>(k, _). k = key) (members j)"

fun members_at :: "(string \<times> json) list \<Rightarrow> string \<Rightarrow> json result" where
  "members_at [] key = Inl (''JsonValue: no such key: '' @ key)"
| "members_at ((k, w) # ms) key = (if k = key then Inr w else members_at ms key)"

definition json_at :: "json \<Rightarrow> string \<Rightarrow> json result" where
  "json_at j key = members_at (members j) key"

section \<open>Parsing\<close>

text \<open>A failure with the bytes left, a value with the unread rest, or no fuel.\<close>

datatype 'a presult = PFail string nat | POk 'a string | PFuel

fun pbind :: "'a presult \<Rightarrow> ('a \<Rightarrow> string \<Rightarrow> 'b presult) \<Rightarrow> 'b presult" where
  "pbind (PFail m k) f = PFail m k"
| "pbind (POk x r) f = f x r"
| "pbind PFuel f = PFuel"

definition kMaxDepth :: nat where
  "kMaxDepth = 200"

definition quote_mark :: char where
  "quote_mark = CHR 0x22"

definition backslash :: char where
  "backslash = CHR 0x5C"

definition is_json_space :: "char \<Rightarrow> bool" where
  "is_json_space c \<longleftrightarrow> c = CHR '' '' \<or> c = CHR 0x09 \<or> c = CHR 0x0A \<or> c = CHR 0x0D"

definition skipWhitespace :: "string \<Rightarrow> string" where
  "skipWhitespace s = dropWhile is_json_space s"

definition unexpected_end :: "'a presult" where
  "unexpected_end = PFail ''unexpected end of input'' 0"

fun consume :: "char \<Rightarrow> string \<Rightarrow> string option" where
  "consume e [] = None"
| "consume e (c # r) = (if c = e then Some r else None)"

definition expect :: "char \<Rightarrow> string \<Rightarrow> unit presult" where
  "expect e s = (case consume e s of
     Some r \<Rightarrow> POk () r
   | None \<Rightarrow> PFail (''expected '' @ [CHR 0x27, e, CHR 0x27]) (length s))"

definition matchLiteral :: "string \<Rightarrow> string \<Rightarrow> string option" where
  "matchLiteral literal s =
     (if length s < length literal then None
      else if take (length literal) s = literal then Some (drop (length literal) s)
      else None)"

definition parseLiteral :: "string \<Rightarrow> json \<Rightarrow> string \<Rightarrow> json presult" where
  "parseLiteral literal v s = (case matchLiteral literal s of
     Some r \<Rightarrow> POk v r
   | None \<Rightarrow> PFail ''invalid literal'' (length s))"

type_synonym uint = "32 word"

definition hex_digit_value :: "char \<Rightarrow> uint option" where
  "hex_digit_value c =
     (if is_digit c then Some (of_nat (byte_val c - 48))
      else if 97 \<le> byte_val c \<and> byte_val c \<le> 102 then Some (of_nat (byte_val c - 97 + 10))
      else if 65 \<le> byte_val c \<and> byte_val c \<le> 70 then Some (of_nat (byte_val c - 65 + 10))
      else None)"

unbundle bit_operations_syntax

text \<open>The loop of \<open>parseHex4\<close> with the number of digits still to read.\<close>

fun hex4_loop :: "nat \<Rightarrow> uint \<Rightarrow> string \<Rightarrow> uint presult" where
  "hex4_loop 0 val s = POk val s"
| "hex4_loop (Suc n) val s =
     (case s of
        [] \<Rightarrow> unexpected_end
      | c # r \<Rightarrow>
          (case hex_digit_value c of
             None \<Rightarrow> PFail ''invalid unicode escape'' (length r)
           | Some d \<Rightarrow> hex4_loop n (push_bit 4 val OR d) r))"

definition parseHex4 :: "string \<Rightarrow> uint presult" where
  "parseHex4 s = hex4_loop 4 0 s"

definition char_of_uint :: "uint \<Rightarrow> char" where
  "char_of_uint w = char_of (unat w)"

definition appendUtf8 :: "string \<Rightarrow> uint \<Rightarrow> string" where
  "appendUtf8 out cp0 =
     (let cp = (if 0xD800 \<le> cp0 \<and> cp0 \<le> 0xDFFF then 0xFFFD else cp0)
      in if cp \<le> 0x7F then out @ [char_of_uint cp]
         else if cp \<le> 0x7FF then
           out @ [char_of_uint (0xC0 OR drop_bit 6 cp), char_of_uint (0x80 OR (cp AND 0x3F))]
         else if cp \<le> 0xFFFF then
           out @ [char_of_uint (0xE0 OR drop_bit 12 cp),
                  char_of_uint (0x80 OR (drop_bit 6 cp AND 0x3F)),
                  char_of_uint (0x80 OR (cp AND 0x3F))]
         else
           out @ [char_of_uint (0xF0 OR drop_bit 18 cp),
                  char_of_uint (0x80 OR (drop_bit 12 cp AND 0x3F)),
                  char_of_uint (0x80 OR (drop_bit 6 cp AND 0x3F)),
                  char_of_uint (0x80 OR (cp AND 0x3F))])"

text \<open>The \<open>\u\<close> case: a high surrogate followed by another \<open>\u\<close> escape is combined with it when that
  is a low surrogate, and otherwise the second escape is left for the next round.\<close>

definition unicodeEscape :: "string \<Rightarrow> string \<Rightarrow> string presult" where
  "unicodeEscape res s =
     pbind (parseHex4 s) (\<lambda>cp r.
       if 0xD800 \<le> cp \<and> cp \<le> 0xDBFF \<and> take 2 r = [backslash, CHR ''u''] then
         pbind (parseHex4 (drop 2 r)) (\<lambda>low r2.
           if 0xDC00 \<le> low \<and> low \<le> 0xDFFF then
             POk (appendUtf8 res (0x10000 + push_bit 10 (cp - 0xD800) + (low - 0xDC00))) r2
           else POk (appendUtf8 res cp) r)
       else POk (appendUtf8 res cp) r)"

definition simple_escape :: "char \<Rightarrow> char option" where
  "simple_escape e =
     (if e = quote_mark \<or> e = backslash \<or> e = CHR ''/'' then Some e
      else if e = CHR ''b'' then Some (CHR 0x08)
      else if e = CHR ''f'' then Some (CHR 0x0C)
      else if e = CHR ''n'' then Some (CHR 0x0A)
      else if e = CHR ''r'' then Some (CHR 0x0D)
      else if e = CHR ''t'' then Some (CHR 0x09)
      else None)"

lemma pbind_POk: "pbind x f = POk w r \<longleftrightarrow> (\<exists>y s. x = POk y s \<and> f y s = POk w r)"
  by (cases x) auto

lemma pbind_PFuel: "pbind x f = PFuel \<longleftrightarrow> x = PFuel \<or> (\<exists>y s. x = POk y s \<and> f y s = PFuel)"
  by (cases x) auto

lemma pbind_PFail:
  "pbind x f = PFail m k \<longleftrightarrow> x = PFail m k \<or> (\<exists>y s. x = POk y s \<and> f y s = PFail m k)"
  by (cases x) auto

lemma hex4_loop_length: "hex4_loop n val s = POk w r \<Longrightarrow> length r + n = length s"
  by (induction n val s rule: hex4_loop.induct) (auto simp: unexpected_end_def split: option.splits list.splits)

lemma parseHex4_length: "parseHex4 s = POk w r \<Longrightarrow> length r + 4 = length s"
  by (simp add: parseHex4_def hex4_loop_length)

lemma unicodeEscape_length: "unicodeEscape res s = POk w r \<Longrightarrow> length r < length s"
  by (auto simp: unicodeEscape_def pbind_POk dest!: parseHex4_length split: if_splits)

text \<open>The loop of \<open>parseString\<close>, after the opening quotation mark.\<close>

function (sequential) string_loop :: "string \<Rightarrow> string \<Rightarrow> string presult" where
  "string_loop res [] = unexpected_end"
| "string_loop res (c # r) =
     (if c = quote_mark then POk res r
      else if c = backslash then
        (case r of
           [] \<Rightarrow> unexpected_end
         | e # r2 \<Rightarrow>
             (case simple_escape e of
                Some x \<Rightarrow> string_loop (res @ [x]) r2
              | None \<Rightarrow>
                  if e = CHR ''u'' then
                    (case unicodeEscape res r2 of
                       POk res2 r3 \<Rightarrow> string_loop res2 r3
                     | PFail m k \<Rightarrow> PFail m k
                     | PFuel \<Rightarrow> PFuel)
                  else PFail ''invalid escape sequence'' (length r2)))
      else string_loop (res @ [c]) r)"
  by pat_completeness auto
termination
  by (relation "measure (\<lambda>(res, s). length s)") (auto dest!: unicodeEscape_length)

definition parseString :: "string \<Rightarrow> string presult" where
  "parseString s = pbind (expect quote_mark s) (\<lambda>_ r. string_loop [] r)"

text \<open>The number token of \<open>parseNumber\<close>: its text and the unread rest.\<close>

definition skip_digits :: "string \<Rightarrow> string" where
  "skip_digits s = dropWhile is_digit s"

definition skip_fraction :: "string \<Rightarrow> string" where
  "skip_fraction s = (if take 1 s = ''.'' then skip_digits (drop 1 s) else s)"

definition skip_exponent :: "string \<Rightarrow> string" where
  "skip_exponent s =
     (if take 1 s = ''e'' \<or> take 1 s = ''E'' then
        (let r = drop 1 s
         in skip_digits (if take 1 r = ''+'' \<or> take 1 r = ''-'' then drop 1 r else r))
      else s)"

definition parseNumber :: "string \<Rightarrow> json presult" where
  "parseNumber s =
     (let s1 = (if take 1 s = ''-'' then drop 1 s else s)
      in if s1 = [] \<or> \<not> is_digit (hd s1) then PFail ''invalid number'' (length s1)
         else
           (let rest = skip_exponent (skip_fraction (skip_digits s1));
                numberText = take (length s - length rest) s
            in case cxx_stod numberText of
                 Some x \<Rightarrow> POk (JNumber x) rest
               | None \<Rightarrow> PFail (''invalid number literal: '' @ numberText) (length rest)))"

text \<open>
  The recursive methods.  The first argument is the fuel, the second the parser's \<open>depth_\<close> on
  entry; \<open>DepthGuard\<close> raises it for the body of an object or array.
\<close>

function (sequential) parseValue :: "nat \<Rightarrow> nat \<Rightarrow> string \<Rightarrow> json presult"
and parseObject :: "nat \<Rightarrow> nat \<Rightarrow> string \<Rightarrow> json presult"
and object_loop :: "nat \<Rightarrow> nat \<Rightarrow> json \<Rightarrow> string \<Rightarrow> json presult"
and parseArray :: "nat \<Rightarrow> nat \<Rightarrow> string \<Rightarrow> json presult"
and array_loop :: "nat \<Rightarrow> nat \<Rightarrow> json \<Rightarrow> string \<Rightarrow> json presult" where
  "parseValue 0 d s = PFuel"
| "parseValue (Suc n) d s =
     (let s1 = skipWhitespace s
      in if s1 = [] then unexpected_end
         else let c = hd s1
              in if c = CHR 0x7B then parseObject n d s1
                 else if c = CHR ''['' then parseArray n d s1
                 else if c = quote_mark then pbind (parseString s1) (\<lambda>x r. POk (JString x) r)
                 else if c = CHR ''t'' then parseLiteral ''true'' (JBool True) s1
                 else if c = CHR ''f'' then parseLiteral ''false'' (JBool False) s1
                 else if c = CHR ''n'' then parseLiteral ''null'' JNull s1
                 else parseNumber s1)"
| "parseObject 0 d s = PFuel"
| "parseObject (Suc n) d s =
     (if kMaxDepth < Suc d then PFail ''maximum nesting depth exceeded'' (length s)
      else pbind (expect (CHR 0x7B) s) (\<lambda>_ r.
        let r1 = skipWhitespace r
        in case consume (CHR 0x7D) r1 of
             Some r2 \<Rightarrow> POk (JObject []) r2
           | None \<Rightarrow> object_loop n (Suc d) (JObject []) r1))"
| "object_loop 0 d obj s = PFuel"
| "object_loop (Suc n) d obj s =
     (let s1 = skipWhitespace s
      in if s1 = [] then unexpected_end
         else if hd s1 \<noteq> quote_mark then PFail ''expected string key'' (length s1)
         else pbind (parseString s1) (\<lambda>key r1.
           pbind (expect (CHR '':'') (skipWhitespace r1)) (\<lambda>_ r2.
           pbind (parseValue n d r2) (\<lambda>v r3.
             let obj2 = json_set obj key v; r4 = skipWhitespace r3
             in case consume (CHR '','') r4 of
                  Some r5 \<Rightarrow> object_loop n d obj2 r5
                | None \<Rightarrow> pbind (expect (CHR 0x7D) r4) (\<lambda>_ r5. POk obj2 r5)))))"
| "parseArray 0 d s = PFuel"
| "parseArray (Suc n) d s =
     (if kMaxDepth < Suc d then PFail ''maximum nesting depth exceeded'' (length s)
      else pbind (expect (CHR ''['') s) (\<lambda>_ r.
        let r1 = skipWhitespace r
        in case consume (CHR '']'') r1 of
             Some r2 \<Rightarrow> POk (JArray []) r2
           | None \<Rightarrow> array_loop n (Suc d) (JArray []) r1))"
| "array_loop 0 d arr s = PFuel"
| "array_loop (Suc n) d arr s =
     pbind (parseValue n d s) (\<lambda>v r.
       let arr2 = json_push_back arr v; r1 = skipWhitespace r
       in case consume (CHR '','') r1 of
            Some r2 \<Rightarrow> array_loop n d arr2 r2
          | None \<Rightarrow> pbind (expect (CHR '']'') r1) (\<lambda>_ r2. POk arr2 r2))"
  by pat_completeness auto
termination
  by (relation "measure (\<lambda>x. case x of
      Inl (Inl (n, _)) \<Rightarrow> n | Inl (Inr (n, _)) \<Rightarrow> n
    | Inr (Inl (n, _)) \<Rightarrow> n | Inr (Inr (Inl (n, _))) \<Rightarrow> n | Inr (Inr (Inr (n, _))) \<Rightarrow> n)")
    simp_all

declare parseValue.simps [simp del] parseObject.simps [simp del] object_loop.simps [simp del]
  parseArray.simps [simp del] array_loop.simps [simp del] string_loop.simps [simp del]

definition parseDocument :: "string \<Rightarrow> json presult" where
  "parseDocument text =
     pbind (parseValue (3 * length text + 4) 0 (skipWhitespace text)) (\<lambda>v r.
       let r1 = skipWhitespace r
       in if r1 \<noteq> [] then PFail ''trailing data after JSON document'' (length r1) else POk v r1)"

definition json_parse :: "string \<Rightarrow> json result" where
  "json_parse text =
     (case parseDocument text of
        POk v _ \<Rightarrow> Inr v
      | PFail m k \<Rightarrow>
          Inl (''JSON parse error at offset '' @ nat_to_string (length text - k) @ '': '' @ m)
      | PFuel \<Rightarrow> Inl ''JSON parser out of fuel'')"

section \<open>Printing\<close>

definition escape_char :: "char \<Rightarrow> string" where
  "escape_char c =
     (if c = quote_mark then [backslash, quote_mark]
      else if c = backslash then [backslash, backslash]
      else if c = CHR 0x08 then backslash # ''b''
      else if c = CHR 0x0C then backslash # ''f''
      else if c = CHR 0x0A then backslash # ''n''
      else if c = CHR 0x0D then backslash # ''r''
      else if c = CHR 0x09 then backslash # ''t''
      else if byte_val c < 32 then backslash # ''u'' @ hex_digits 4 (byte_val c)
      else [c])"

definition escapedString :: "string \<Rightarrow> string" where
  "escapedString s = quote_mark # concat (map escape_char s) @ [quote_mark]"

definition formatNumber :: "double \<Rightarrow> string" where
  "formatNumber v =
     (if v = of_int \<lfloor>v\<rfloor> \<and> \<bar>v\<bar> < 10 ^ 15 then int_to_string (ll_from_double v) else format_g17 v)"

definition writeIndent :: "nat \<Rightarrow> nat \<Rightarrow> string" where
  "writeIndent indent level =
     (if 0 < indent then CHR 0x0A # replicate (indent * level) (CHR '' '') else [])"

fun dumpTo :: "nat \<Rightarrow> nat \<Rightarrow> json \<Rightarrow> string"
and dump_items :: "nat \<Rightarrow> nat \<Rightarrow> bool \<Rightarrow> json list \<Rightarrow> string"
and dump_members :: "nat \<Rightarrow> nat \<Rightarrow> bool \<Rightarrow> (string \<times> json) list \<Rightarrow> string" where
  "dumpTo indent depth JNull = ''null''"
| "dumpTo indent depth (JBool b) = (if b then ''true'' else ''false'')"
| "dumpTo indent depth (JNumber x) = formatNumber x"
| "dumpTo indent depth (JString s) = escapedString s"
| "dumpTo indent depth (JArray xs) =
     (if xs = [] then ''[]''
      else ''['' @ dump_items indent depth True xs @ writeIndent indent depth @ '']'')"
| "dumpTo indent depth (JObject ms) =
     (if ms = [] then [CHR 0x7B, CHR 0x7D]
      else [CHR 0x7B] @ dump_members indent depth True ms @ writeIndent indent depth @ [CHR 0x7D])"
| "dump_items indent depth first [] = []"
| "dump_items indent depth first (x # xs) =
     (if first then [] else '','') @ writeIndent indent (Suc depth) @ dumpTo indent (Suc depth) x @
     dump_items indent depth False xs"
| "dump_members indent depth first [] = []"
| "dump_members indent depth first ((k, v) # ms) =
     (if first then [] else '','') @ writeIndent indent (Suc depth) @ escapedString k @
     (if 0 < indent then '': '' else '':'') @ dumpTo indent (Suc depth) v @
     dump_members indent depth False ms"

definition json_dump :: "json \<Rightarrow> nat \<Rightarrow> string" where
  "json_dump v indent = dumpTo indent 0 v"

section \<open>Termination and error offsets\<close>

text \<open>\<open>good k p\<close>: not out of fuel, some of the \<open>k\<close> bytes used on success, a failure within them.\<close>

fun good :: "nat \<Rightarrow> 'a presult \<Rightarrow> bool" where
  "good k (POk v r) = (length r < k)"
| "good k (PFail m j) = (j \<le> k)"
| "good k PFuel = False"

lemma good_mono: "good k p \<Longrightarrow> k \<le> l \<Longrightarrow> good l p"
  by (cases p) auto

lemma good_pbind:
  assumes "good k p" "\<And>x r. length r < k \<Longrightarrow> good k (f x r)"
  shows "good k (pbind p f)"
  using assms by (cases p) auto

lemma good_unexpected_end [simp]: "good k unexpected_end"
  by (simp add: unexpected_end_def)

lemma length_skipWhitespace: "length (skipWhitespace s) \<le> length s"
  by (simp add: skipWhitespace_def length_dropWhile_le)

lemma consume_length: "consume e s = Some r \<Longrightarrow> length r < length s"
  by (cases s) (auto split: if_splits)

lemma good_expect: "length s \<le> k \<Longrightarrow> good k (expect e s)"
  by (auto simp: expect_def dest: consume_length split: option.splits)

lemma good_hex4_loop: "good (length s + 1) (hex4_loop n val s)"
proof (induction n val s rule: hex4_loop.induct)
  case (2 n val s)
  have "good (length (c # r) + 1) (hex4_loop n (push_bit 4 val OR d) r)"
    if "s = c # r" "hex_digit_value c = Some d" for c r d
    using "2.IH" [OF that] by (rule good_mono) simp
  then show ?case by (auto split: list.splits option.splits)
qed simp

lemma good_parseHex4: "good (length s) (parseHex4 s)"
proof (cases "parseHex4 s")
  case (POk w r)
  then show ?thesis using parseHex4_length by fastforce
next
  case (PFail m k)
  have "k \<le> length s" if "hex4_loop n val s = PFail m k" for n val
    using that
  proof (induction n val s rule: hex4_loop.induct)
    case (2 n val s)
    then show ?case by (auto simp: unexpected_end_def split: list.splits option.splits intro: le_SucI)
  qed simp
  with PFail show ?thesis by (simp add: parseHex4_def)
next
  case PFuel
  then show ?thesis using good_hex4_loop [of s 4 0] by (simp add: parseHex4_def)
qed

lemma good_unicodeEscape: "good (length s) (unicodeEscape res s)"
proof -
  have "good (length s) (if 0xD800 \<le> cp \<and> cp \<le> 0xDBFF \<and> take 2 r = [backslash, CHR ''u''] then
         pbind (parseHex4 (drop 2 r)) (\<lambda>low r2.
           if 0xDC00 \<le> low \<and> low \<le> 0xDFFF then
             POk (appendUtf8 res (0x10000 + push_bit 10 (cp - 0xD800) + (low - 0xDC00))) r2
           else POk (appendUtf8 res cp) r)
       else POk (appendUtf8 res cp) r)" if "length r < length s" for cp r
    using that by (auto intro!: good_pbind good_mono [OF good_parseHex4])
  then show ?thesis unfolding unicodeEscape_def by (intro good_pbind good_parseHex4)
qed

lemma good_string_loop: "good (length s) (string_loop res s)"
proof (induction res s rule: string_loop.induct)
  case (1 res)
  then show ?case by (simp add: string_loop.simps)
next
  case (2 res c r)
  show ?case
  proof (cases "c = quote_mark \<or> c \<noteq> backslash")
    case True
    then show ?thesis
    proof (cases "c = quote_mark")
      case False
      with True have "good (length r) (string_loop (res @ [c]) r)" using "2.IH"(3) by blast
      then have "good (length (c # r)) (string_loop (res @ [c]) r)" by (rule good_mono) simp
      with True False show ?thesis by (simp add: string_loop.simps(2))
    qed (simp add: string_loop.simps(2))
  next
    case False
    then have c: "c \<noteq> quote_mark" "c = backslash" by auto
    show ?thesis
    proof (cases r)
      case Nil
      with c show ?thesis by (simp add: string_loop.simps quote_mark_def backslash_def)
    next
      case (Cons e r2)
      have u: "good (length r2) (unicodeEscape res r2)" by (rule good_unicodeEscape)
      show ?thesis
      proof (cases "simple_escape e")
        case (Some x)
        have "good (length r2) (string_loop (res @ [x]) r2)" using "2.IH"(2) [OF c Cons Some] .
        then have "good (length (c # r)) (string_loop (res @ [x]) r2)" using Cons by (auto intro: good_mono)
        with Some c Cons show ?thesis by (simp add: string_loop.simps(2))
      next
        case None
        show ?thesis
        proof (cases "e = CHR ''u''")
          case True
          show ?thesis
          proof (cases "unicodeEscape res r2")
            case (POk res2 r3)
            have "good (length r3) (string_loop res2 r3)"
              using "2.IH"(1) [OF c Cons None True POk] .
            then have "good (length (c # r)) (string_loop res2 r3)"
              using Cons u POk by (auto intro: good_mono)
            with None True POk c Cons show ?thesis by (simp add: string_loop.simps(2))
          qed (use u None True c Cons in \<open>auto simp: string_loop.simps(2)\<close>)
        qed (use None c Cons in \<open>simp add: string_loop.simps(2)\<close>)
      qed
    qed
  qed
qed

lemma good_parseString: "good (length s) (parseString s)"
  unfolding parseString_def
  by (intro good_pbind good_expect order_refl) (auto intro: good_mono [OF good_string_loop])

lemma good_parseLiteral: "literal \<noteq> [] \<Longrightarrow> good (length s) (parseLiteral literal v s)"
  by (cases literal) (auto simp: parseLiteral_def matchLiteral_def split: option.splits if_splits)

lemma length_skip_digits: "length (skip_digits s) \<le> length s"
  by (simp add: skip_digits_def length_dropWhile_le)

lemma length_skip_fraction: "length (skip_fraction s) \<le> length s"
  using length_skip_digits [of "drop 1 s"] by (auto simp: skip_fraction_def)

lemma length_skip_exponent: "length (skip_exponent s) \<le> length s"
proof -
  have "length (skip_digits (drop k s)) \<le> length s" for k
    using length_skip_digits [of "drop k s"] by simp
  then show ?thesis by (auto simp: skip_exponent_def Let_def)
qed

lemma good_parseNumber: "s \<noteq> [] \<Longrightarrow> good (length s) (parseNumber s)"
proof -
  assume "s \<noteq> []"
  define s1 where "s1 = (if take 1 s = ''-'' then drop 1 s else s)"
  have s1: "length s1 \<le> length s" by (simp add: s1_def)
  show ?thesis
  proof (cases "s1 = [] \<or> \<not> is_digit (hd s1)")
    case True
    with s1 show ?thesis unfolding parseNumber_def s1_def [symmetric] Let_def by simp
  next
    case False
    then have "length (skip_digits s1) < length s1"
      by (cases s1) (auto simp: skip_digits_def less_Suc_eq_le length_dropWhile_le)
    then have "length (skip_exponent (skip_fraction (skip_digits s1))) < length s"
      using s1 length_skip_exponent [of "skip_fraction (skip_digits s1)"]
        length_skip_fraction [of "skip_digits s1"] by linarith
    with False show ?thesis
      unfolding parseNumber_def s1_def [symmetric] Let_def by (simp split: option.splits)
  qed
qed

lemma parser_good:
  "(3 * length s + 3 \<le> n \<longrightarrow> good (length s) (parseValue n d s)) \<and>
   (3 * length s + 2 \<le> n \<longrightarrow> good (length s) (parseObject n d s)) \<and>
   (3 * length s + 4 \<le> n \<longrightarrow> good (length s) (object_loop n d obj s)) \<and>
   (3 * length s + 2 \<le> n \<longrightarrow> good (length s) (parseArray n d s)) \<and>
   (3 * length s + 4 \<le> n \<longrightarrow> good (length s) (array_loop n d obj s))"
proof (induction n arbitrary: d obj s)
  case 0
  show ?case by simp
next
  case (Suc n)
  have V: "3 * length t + 3 \<le> n \<Longrightarrow> length t \<le> k \<Longrightarrow> good k (parseValue n d t)" for t d k
    using Suc.IH [of t d] good_mono by blast
  have Ol: "3 * length t + 4 \<le> n \<Longrightarrow> length t \<le> k \<Longrightarrow> good k (object_loop n d x t)" for t d k x
    using Suc.IH [of t d x] good_mono by blast
  have Al: "3 * length t + 4 \<le> n \<Longrightarrow> length t \<le> k \<Longrightarrow> good k (array_loop n d x t)" for t d k x
    using Suc.IH [of t d x] good_mono by blast
  show ?case
  proof (intro conjI impI)
    assume n: "3 * length s + 3 \<le> Suc n"
    let ?s = "skipWhitespace s"
    have len: "length ?s \<le> length s" by (rule length_skipWhitespace)
    have "good (length ?s) (parseObject n d ?s)" "good (length ?s) (parseArray n d ?s)"
      using Suc.IH [of ?s d] n len by simp_all
    moreover have "good (length ?s) (pbind (parseString ?s) (\<lambda>x r. POk (JString x) r))"
      by (intro good_pbind good_parseString) simp
    ultimately have "?s \<noteq> [] \<Longrightarrow> good (length ?s) (parseValue (Suc n) d s)"
      by (simp add: parseValue.simps Let_def good_parseLiteral good_parseNumber)
    then show "good (length s) (parseValue (Suc n) d s)"
      using good_mono [OF _ len] by (cases "?s = []") (auto simp: parseValue.simps)
  next
    assume n: "3 * length s + 2 \<le> Suc n"
    have "good (length s) (let r1 = skipWhitespace r
        in case consume (CHR 0x7D) r1 of
             Some r2 \<Rightarrow> POk (JObject []) r2
           | None \<Rightarrow> object_loop n (Suc d) (JObject []) r1)" if "length r < length s" for r
      using that n length_skipWhitespace [of r]
      by (auto simp: Let_def split: option.splits intro: Ol dest: consume_length)
    then show "good (length s) (parseObject (Suc n) d s)"
      by (auto simp: parseObject.simps intro!: good_pbind good_expect)
  next
    assume n: "3 * length s + 2 \<le> Suc n"
    have "good (length s) (let r1 = skipWhitespace r
        in case consume (CHR '']'') r1 of
             Some r2 \<Rightarrow> POk (JArray []) r2
           | None \<Rightarrow> array_loop n (Suc d) (JArray []) r1)" if "length r < length s" for r
      using that n length_skipWhitespace [of r]
      by (auto simp: Let_def split: option.splits intro: Al dest: consume_length)
    then show "good (length s) (parseArray (Suc n) d s)"
      by (auto simp: parseArray.simps intro!: good_pbind good_expect)
  next
    assume n: "3 * length s + 4 \<le> Suc n"
    have "good (length s) (let arr2 = json_push_back obj v; r1 = skipWhitespace r
       in case consume (CHR '','') r1 of
            Some r2 \<Rightarrow> array_loop n d arr2 r2
          | None \<Rightarrow> pbind (expect (CHR '']'') r1) (\<lambda>_ r2. POk arr2 r2))"
      if "length r < length s" for v r
      using that n length_skipWhitespace [of r]
      by (auto simp: Let_def split: option.splits intro!: Al good_pbind good_expect dest: consume_length)
    then show "good (length s) (array_loop (Suc n) d obj s)"
      unfolding array_loop.simps using n by (intro good_pbind V) auto
  next
    assume n: "3 * length s + 4 \<le> Suc n"
    let ?s = "skipWhitespace s"
    have len: "length ?s \<le> length s" by (rule length_skipWhitespace)
    have last: "good (length s) (let obj2 = json_set obj key v; r4 = skipWhitespace r3
             in case consume (CHR '','') r4 of
                  Some r5 \<Rightarrow> object_loop n d obj2 r5
                | None \<Rightarrow> pbind (expect (CHR 0x7D) r4) (\<lambda>_ r5. POk obj2 r5))"
      if "length r3 < length s" for key v r3
      using that n length_skipWhitespace [of r3]
      by (auto simp: Let_def split: option.splits intro!: Ol good_pbind good_expect dest: consume_length)
    have "good (length s) (pbind (expect (CHR '':'') (skipWhitespace r1)) (\<lambda>_ r2.
           pbind (parseValue n d r2) (\<lambda>v r3. let obj2 = json_set obj key v; r4 = skipWhitespace r3
             in case consume (CHR '','') r4 of
                  Some r5 \<Rightarrow> object_loop n d obj2 r5
                | None \<Rightarrow> pbind (expect (CHR 0x7D) r4) (\<lambda>_ r5. POk obj2 r5))))"
      if "length r1 < length s" for key r1
      using that n length_skipWhitespace [of r1]
      by (intro good_pbind good_expect V last) auto
    then have "good (length s) (pbind (parseString ?s) (\<lambda>key r1.
        pbind (expect (CHR '':'') (skipWhitespace r1)) (\<lambda>_ r2.
           pbind (parseValue n d r2) (\<lambda>v r3. let obj2 = json_set obj key v; r4 = skipWhitespace r3
             in case consume (CHR '','') r4 of
                  Some r5 \<Rightarrow> object_loop n d obj2 r5
                | None \<Rightarrow> pbind (expect (CHR 0x7D) r4) (\<lambda>_ r5. POk obj2 r5)))))"
      by (rule good_pbind [OF good_mono [OF good_parseString len]])
    with len show "good (length s) (object_loop (Suc n) d obj s)"
      by (simp add: object_loop.simps Let_def)
  qed
qed

lemma good_parseDocument: "good (length text) (parseDocument text)"
proof -
  let ?s = "skipWhitespace text"
  have len: "length ?s \<le> length text" by (rule length_skipWhitespace)
  then have "good (length ?s) (parseValue (3 * length text + 4) 0 ?s)"
    using parser_good [of ?s "3 * length text + 4" 0] by simp
  then have "good (length text) (parseValue (3 * length text + 4) 0 ?s)"
    using len good_mono by blast
  then show ?thesis
    unfolding parseDocument_def using length_skipWhitespace
    by (intro good_pbind) (auto simp: Let_def intro: le_trans less_imp_le order.strict_trans1)
qed

section \<open>Nesting and duplicate keys\<close>

fun json_depth :: "json \<Rightarrow> nat" where
  "json_depth (JArray xs) = Suc (foldr (\<lambda>x m. max (json_depth x) m) xs 0)"
| "json_depth (JObject ms) = Suc (foldr (\<lambda>kv m. max (json_depth (snd kv)) m) ms 0)"
| "json_depth _ = 0"

fun distinct_keys :: "json \<Rightarrow> bool" where
  "distinct_keys (JArray xs) = list_all distinct_keys xs"
| "distinct_keys (JObject ms) = (distinct (map fst ms) \<and> list_all (\<lambda>kv. distinct_keys (snd kv)) ms)"
| "distinct_keys _ = True"

lemma foldr_max_le: "foldr (\<lambda>x m. max (f x) m) xs 0 \<le> b \<longleftrightarrow> (\<forall>x\<in>set xs. f x \<le> (b::nat))"
  by (induction xs) auto

lemma keys_members_set: "set (map fst (members_set ms key v)) = insert key (set (map fst ms))"
  by (induction ms key v rule: members_set.induct) auto

lemma distinct_members_set: "distinct (map fst ms) \<Longrightarrow> distinct (map fst (members_set ms key v))"
proof (induction ms key v rule: members_set.induct)
  case (2 k w ms key v)
  then show ?case using keys_members_set [of ms key v] by (auto simp: image_iff)
qed simp

lemma set_members_set: "set (members_set ms key v) \<subseteq> insert (key, v) (set ms)"
  by (induction ms key v rule: members_set.induct) auto

text \<open>\<open>fits b v\<close>: nested at most \<open>b\<close> deep, every object without repeated keys.\<close>

definition fits :: "nat \<Rightarrow> json \<Rightarrow> bool" where
  "fits b v \<longleftrightarrow> json_depth v \<le> b \<and> distinct_keys v"

lemma fits_leaf [simp]:
  "fits b JNull" "fits b (JBool x)" "fits b (JNumber y)" "fits b (JString s)"
  by (simp_all add: fits_def)

lemma fits_array [simp]: "fits b (JArray xs) \<longleftrightarrow> 0 < b \<and> (\<forall>x\<in>set xs. fits (b - 1) x)"
  by (cases b) (auto simp: fits_def foldr_max_le list_all_iff)

lemma fits_object [simp]:
  "fits b (JObject ms) \<longleftrightarrow>
     0 < b \<and> distinct (map fst ms) \<and> (\<forall>kv\<in>set ms. fits (b - 1) (snd kv))"
  by (cases b) (auto simp: fits_def foldr_max_le list_all_iff)

fun result_fits :: "nat \<Rightarrow> json presult \<Rightarrow> bool" where
  "result_fits b (POk v r) = fits b v"
| "result_fits b _ = True"

lemma result_fits_pbind:
  "(\<And>x r. p = POk x r \<Longrightarrow> result_fits b (f x r)) \<Longrightarrow> result_fits b (pbind p f)"
  by (cases p) auto

lemma parser_fits:
  "result_fits (kMaxDepth - d) (parseValue n d s) \<and>
   result_fits (kMaxDepth - d) (parseObject n d s) \<and>
   (fits (Suc (kMaxDepth - d)) obj \<longrightarrow> isObject obj \<longrightarrow> result_fits (Suc (kMaxDepth - d)) (object_loop n d obj s)) \<and>
   result_fits (kMaxDepth - d) (parseArray n d s) \<and>
   (fits (Suc (kMaxDepth - d)) obj \<longrightarrow> isArray obj \<longrightarrow> result_fits (Suc (kMaxDepth - d)) (array_loop n d obj s))"
proof (induction n arbitrary: d obj s)
  case 0
  show ?case
    by (simp add: parseValue.simps parseObject.simps object_loop.simps parseArray.simps array_loop.simps)
next
  case (Suc n)
  have deeper: "Suc (kMaxDepth - Suc d) = kMaxDepth - d" if "\<not> kMaxDepth < Suc d"
    using that by simp
  show ?case
  proof (intro conjI impI)
    have leaf: "result_fits b (parseNumber t)" "result_fits b (parseLiteral l JNull t)"
      "result_fits b (parseLiteral l (JBool x) t)" for b t l x
      by (simp_all add: parseNumber_def parseLiteral_def Let_def split: option.splits)
    have "result_fits b (pbind (parseString t) (\<lambda>x r. POk (JString x) r))" for b t
      by (rule result_fits_pbind) simp
    with leaf Suc show "result_fits (kMaxDepth - d) (parseValue (Suc n) d s)"
      by (simp add: parseValue.simps Let_def unexpected_end_def)
  next
    show "result_fits (kMaxDepth - d) (parseObject (Suc n) d s)"
      using Suc [of "Suc d"] deeper
      by (auto simp: parseObject.simps Let_def split: option.splits intro!: result_fits_pbind)
  next
    show "result_fits (kMaxDepth - d) (parseArray (Suc n) d s)"
      using Suc [of "Suc d"] deeper
      by (auto simp: parseArray.simps Let_def split: option.splits intro!: result_fits_pbind)
  next
    assume obj: "fits (Suc (kMaxDepth - d)) obj" "isArray obj"
    have "fits (Suc (kMaxDepth - d)) (json_push_back obj v)" if "fits (kMaxDepth - d) v" for v
      using obj that by (cases obj) auto
    then have "result_fits (Suc (kMaxDepth - d)) (let arr2 = json_push_back obj v; r1 = skipWhitespace r
       in case consume (CHR '','') r1 of
            Some r2 \<Rightarrow> array_loop n d arr2 r2
          | None \<Rightarrow> pbind (expect (CHR '']'') r1) (\<lambda>_ r2. POk arr2 r2))"
      if "fits (kMaxDepth - d) v" for v r
      using that Suc [of d _ "json_push_back obj v"]
      by (auto simp: Let_def split: option.splits intro!: result_fits_pbind)
    moreover have "fits (kMaxDepth - d) v" if "parseValue n d s = POk v r" for v r
      using Suc [of d] that by (metis result_fits.simps(1))
    ultimately show "result_fits (Suc (kMaxDepth - d)) (array_loop (Suc n) d obj s)"
      unfolding array_loop.simps by (intro result_fits_pbind) blast
  next
    assume obj: "fits (Suc (kMaxDepth - d)) obj" "isObject obj"
    have set: "fits (Suc (kMaxDepth - d)) (json_set obj key v)" if v: "fits (kMaxDepth - d) v" for key v
      using obj v set_members_set [of "members obj" key v]
      by (cases obj) (auto simp: json_set_def distinct_members_set)
    have "result_fits (Suc (kMaxDepth - d)) (let obj2 = json_set obj key v; r4 = skipWhitespace r3
             in case consume (CHR '','') r4 of
                  Some r5 \<Rightarrow> object_loop n d obj2 r5
                | None \<Rightarrow> pbind (expect (CHR 0x7D) r4) (\<lambda>_ r5. POk obj2 r5))"
      if "fits (kMaxDepth - d) v" for key v r3
      using set [OF that] Suc [of d _ "json_set obj key v"]
      by (auto simp: Let_def json_set_def split: option.splits intro!: result_fits_pbind)
    moreover have "fits (kMaxDepth - d) v" if "parseValue n d t = POk v r" for t v r
      using Suc [of d] that by (metis result_fits.simps(1))
    ultimately show "result_fits (Suc (kMaxDepth - d)) (object_loop (Suc n) d obj s)"
      unfolding object_loop.simps Let_def unexpected_end_def
      by (auto intro!: result_fits_pbind)
  qed
qed

lemma parseDocument_fits: "parseDocument text = POk v r \<Longrightarrow> fits kMaxDepth v"
proof -
  assume "parseDocument text = POk v r"
  then obtain n s r' where "parseValue n 0 s = POk v r'"
    by (auto simp: parseDocument_def pbind_POk Let_def split: if_splits)
  then show ?thesis using parser_fits [of 0 n s] by simp
qed

section \<open>Round trip\<close>

text \<open>Documents whose numbers are integers below \<open>10^15\<close>: those \<open>formatNumber\<close> prints exactly.\<close>

fun integral_numbers :: "json \<Rightarrow> bool" where
  "integral_numbers (JNumber x) = (x = of_int \<lfloor>x\<rfloor> \<and> \<bar>x\<bar> < 10 ^ 15)"
| "integral_numbers (JArray xs) = list_all integral_numbers xs"
| "integral_numbers (JObject ms) = list_all (\<lambda>kv. integral_numbers (snd kv)) ms"
| "integral_numbers _ = True"

lemma unat_of_nat_small: "n < 256 \<Longrightarrow> unat (of_nat n :: 32 word) = n"
  by (simp add: unat_of_nat)

lemma hex_digit_value_char: "d < 16 \<Longrightarrow> hex_digit_value (hex_char d) = Some (of_nat d)"
  by (drule hex_cases) (auto simp: hex_char_def hex_digit_value_def is_digit_def)

lemma or_sixteen: "d < 16 \<Longrightarrow> (16 :: 32 word) OR of_nat d = of_nat (16 + d)"
  by (drule hex_cases) auto

lemma parseHex4_digits:
  assumes "a < 16" "b < 16" "c < 16" "e < 16"
  shows "parseHex4 (hex_char a # hex_char b # hex_char c # hex_char e # t) =
    POk (push_bit 4 (push_bit 4 (push_bit 4 (of_nat a) OR of_nat b) OR of_nat c) OR of_nat e) t"
proof -
  have "(4::nat) = Suc (Suc (Suc (Suc 0)))" by simp
  then show ?thesis using assms
    by (simp only: parseHex4_def hex4_loop.simps hex_digit_value_char option.case list.case
        push_bit_of_0 or.left_neutral)
qed

lemma parseHex4_control:
  assumes "n < 32"
  shows "parseHex4 (hex_digits 4 n @ t) = POk (of_nat n) t"
proof -
  have "hex_digits 4 n = [hex_char 0, hex_char 0, hex_char (n div 16), hex_char (n mod 16)]"
  proof -
    have "(4::nat) = Suc (Suc (Suc (Suc 0)))" by simp
    then show ?thesis using assms by (simp only: hex_digits.simps) (simp add: div_mult2_eq [symmetric])
  qed
  moreover have "n div 16 < 2" using assms by simp
  then have "n div 16 = 0 \<or> n div 16 = 1" by linarith
  then have "push_bit 4 (of_nat (n div 16)) OR of_nat (n mod 16) = (of_nat n :: 32 word)"
  proof
    assume "n div 16 = 0"
    then show ?thesis by simp
  next
    assume q: "n div 16 = 1"
    then have "n = 16 + n mod 16" by presburger
    moreover have "(16::32 word) OR of_nat (n mod 16) = of_nat (16 + n mod 16)" by (rule or_sixteen) simp
    ultimately show ?thesis using q by simp
  qed
  ultimately show ?thesis
    using \<open>n div 16 < 2\<close> by (simp add: parseHex4_digits)
qed
lemma appendUtf8_ascii: "n < 128 \<Longrightarrow> appendUtf8 res (of_nat n) = res @ [char_of n]"
proof -
  assume "n < 128"
  then have u: "unat (of_nat n :: 32 word) = n" by (simp add: unat_of_nat_small)
  with \<open>n < 128\<close> have "(of_nat n :: 32 word) \<le> 0x7F" "\<not> (0xD800 :: 32 word) \<le> of_nat n"
    by (simp_all add: word_le_nat_alt)
  with u show ?thesis by (simp add: appendUtf8_def char_of_uint_def)
qed

lemma unicodeEscape_control:
  "n < 32 \<Longrightarrow> unicodeEscape res (hex_digits 4 n @ t) = POk (res @ [char_of n]) t"
proof -
  assume n: "n < 32"
  then have "\<not> (0xD800 :: 32 word) \<le> of_nat n"
    by (simp add: word_le_nat_alt unat_of_nat_small)
  with n show ?thesis by (simp add: unicodeEscape_def parseHex4_control appendUtf8_ascii)
qed
definition short_escapes :: "char set" where
  "short_escapes = {quote_mark, backslash, CHR 0x08, CHR 0x0C, CHR 0x0A, CHR 0x0D, CHR 0x09}"

lemma escape_char_short:
  "c \<in> short_escapes \<Longrightarrow> \<exists>e. escape_char c = [backslash, e] \<and> simple_escape e = Some c"
  by (auto simp: short_escapes_def escape_char_def simple_escape_def quote_mark_def backslash_def)

lemma escape_char_other:
  "c \<notin> short_escapes \<Longrightarrow>
   escape_char c = (if byte_val c < 32 then backslash # ''u'' @ hex_digits 4 (byte_val c) else [c])"
  unfolding escape_char_def short_escapes_def insert_iff de_Morgan_disj by (simp only: if_False simp_thms)

lemma backslash_not_quote: "backslash \<noteq> quote_mark"
  by (simp add: quote_mark_def backslash_def)

lemma string_loop_escape: "string_loop res (escape_char c @ t) = string_loop (res @ [c]) t"
proof (cases "c \<in> short_escapes")
  case True
  then obtain e where "escape_char c = [backslash, e]" "simple_escape e = Some c"
    using escape_char_short by blast
  then show ?thesis by (simp add: string_loop.simps backslash_not_quote)
next
  case False
  show ?thesis
  proof (cases "byte_val c < 32")
    case True
    then have "unicodeEscape res (hex_digits 4 (byte_val c) @ t) = POk (res @ [c]) t"
      by (simp add: unicodeEscape_control)
    moreover have "simple_escape (CHR ''u'') = None"
      by (simp add: simple_escape_def quote_mark_def backslash_def)
    moreover have "escape_char c = backslash # CHR ''u'' # hex_digits 4 (byte_val c)"
      using escape_char_other [OF False] True by simp
    ultimately show ?thesis by (simp add: string_loop.simps backslash_not_quote)
  next
    case no: False
    then have "escape_char c = [c]" using escape_char_other [OF False] by simp
    with False show ?thesis by (simp add: string_loop.simps short_escapes_def)
  qed
qed

lemma string_loop_escapes:
  "string_loop res (concat (map escape_char s) @ quote_mark # t) = POk (res @ s) t"
  by (induction s arbitrary: res) (auto simp: string_loop_escape string_loop.simps)

lemma parseString_escaped [simp]: "parseString (escapedString s @ t) = POk s t"
  by (simp add: parseString_def escapedString_def expect_def string_loop_escapes)

text \<open>A number ends at a byte that cannot continue it.\<close>

definition ends_number :: "string \<Rightarrow> bool" where
  "ends_number t \<longleftrightarrow> t = [] \<or> \<not> is_digit (hd t) \<and> hd t \<notin> set ''.eE''"

lemma skip_digits_append:
  "\<forall>c\<in>set ds. is_digit c \<Longrightarrow> ends_number t \<Longrightarrow> skip_digits (ds @ t) = t"
  by (cases t) (auto simp: skip_digits_def ends_number_def dropWhile_append)

lemma skip_rest: "ends_number t \<Longrightarrow> skip_exponent (skip_fraction t) = t"
  by (cases t) (auto simp: skip_exponent_def skip_fraction_def ends_number_def)

lemma parseNumber_int:
  assumes "\<bar>n\<bar> < 2 ^ 53" "ends_number t"
  shows "parseNumber (int_to_string n @ t) = POk (JNumber (of_int n)) t"
proof -
  define ds where "ds = nat_to_string (nat \<bar>n\<bar>)"
  have ds: "\<forall>c\<in>set ds. is_digit c" "ds \<noteq> []" by (simp_all add: ds_def nat_to_string_digits)
  then have hd: "is_digit (hd ds)" "take 1 (ds @ t) \<noteq> ''-''"
    using is_digit_not_sign by (cases ds; auto)+
  have form: "int_to_string n = (if n < 0 then ''-'' else []) @ ds"
    by (simp add: int_to_string_def ds_def)
  have rest: "skip_exponent (skip_fraction (skip_digits (ds @ t))) = t"
    using ds assms by (simp add: skip_digits_append skip_rest)
  define s1 where "s1 = (if take 1 (int_to_string n @ t) = ''-'' then drop 1 (int_to_string n @ t)
     else int_to_string n @ t)"
  have s1: "s1 = ds @ t" using hd(2) by (auto simp: s1_def form)
  have "take (length (int_to_string n @ t) - length t) (int_to_string n @ t) = int_to_string n"
    by simp
  then show ?thesis
    unfolding parseNumber_def s1_def [symmetric] Let_def s1 rest
    using ds(2) hd(1) cxx_stod_int_to_string [OF assms(1)] by simp
qed

lemma formatNumber_int:
  assumes "x = of_int \<lfloor>x\<rfloor>" "\<bar>x\<bar> < 10 ^ 15"
  shows "formatNumber x = int_to_string \<lfloor>x\<rfloor>" "\<bar>\<lfloor>x\<rfloor>\<bar> < 2 ^ 53"
proof -
  obtain n where n: "x = of_int n" using assms(1) by blast
  then have "\<bar>of_int n\<bar> < (of_int (10 ^ 15) :: rat)" using assms(2) by simp
  then have b: "\<bar>n\<bar> < 10 ^ 15" by (simp only: of_int_less_iff of_int_abs [symmetric])
  then show "\<bar>\<lfloor>x\<rfloor>\<bar> < 2 ^ 53" using n by simp
  show "formatNumber x = int_to_string \<lfloor>x\<rfloor>"
    using n b assms by (simp add: formatNumber_def ll_from_double_of_int)
qed

lemma skipWhitespace_append: "list_all is_json_space w \<Longrightarrow> skipWhitespace (w @ t) = skipWhitespace t"
  by (induction w) (auto simp: skipWhitespace_def)

lemma skipWhitespace_solid: "t \<noteq> [] \<Longrightarrow> \<not> is_json_space (hd t) \<Longrightarrow> skipWhitespace t = t"
  by (cases t) (auto simp: skipWhitespace_def)

lemma skipWhitespace_idem [simp]: "skipWhitespace (skipWhitespace t) = skipWhitespace t"
  by (simp add: skipWhitespace_def)

lemma writeIndent_space: "list_all is_json_space (writeIndent i l)"
  by (auto simp: writeIndent_def list_all_iff is_json_space_def)

lemma parseValue_skip: "skipWhitespace t = skipWhitespace u \<Longrightarrow> parseValue n d t = parseValue n d u"
  by (cases n) (simp_all add: parseValue.simps)

lemma object_loop_skip: "object_loop n d obj (skipWhitespace t) = object_loop n d obj t"
  by (cases n) (simp_all add: object_loop.simps)

lemma array_loop_skip: "array_loop n d arr (skipWhitespace t) = array_loop n d arr t"
proof (cases n)
  case (Suc m)
  have "parseValue m d (skipWhitespace t) = parseValue m d t" by (rule parseValue_skip) simp
  with Suc show ?thesis by (simp add: array_loop.simps)
qed (simp add: array_loop.simps)

lemma int_to_string_hd:
  "is_digit (hd (int_to_string n)) \<or> hd (int_to_string n) = CHR ''-''"
  using nat_to_string_digits [of "nat n"] by (cases "nat_to_string (nat n)") (auto simp: int_to_string_def)

text \<open>The first byte of a printed value decides the branch of \<open>parseValue\<close>.\<close>

lemma dumpTo_hd:
  assumes "integral_numbers v"
  shows "dumpTo i l v \<noteq> [] \<and> \<not> is_json_space (hd (dumpTo i l v)) \<and>
    hd (dumpTo i l v) \<noteq> CHR '']''"
proof (cases v)
  case (JNumber x)
  then have "dumpTo i l v = int_to_string \<lfloor>x\<rfloor>"
    using formatNumber_int(1) [of x] assms by simp
  then show ?thesis
    using int_to_string_hd [of "\<lfloor>x\<rfloor>"] by (auto simp: is_json_space_def is_digit_def)
qed (auto simp: is_json_space_def escapedString_def quote_mark_def)

lemma ends_number_simps [simp]:
  "ends_number (CHR '','' # t)" "ends_number (CHR '']'' # t)" "ends_number (CHR 0x7D # t)" "ends_number []"
  by (simp_all add: ends_number_def is_digit_def)

lemma ends_number_indent: "ends_number t \<Longrightarrow> ends_number (writeIndent i l @ t)"
  by (auto simp: writeIndent_def ends_number_def is_digit_def)

lemma skip_append_solid:
  "list_all is_json_space w \<Longrightarrow> \<not> is_json_space c \<Longrightarrow> skipWhitespace (w @ c # t) = c # t"
  by (simp add: skipWhitespace_append skipWhitespace_solid)

lemma space_simps [simp]:
  "\<not> is_json_space (CHR '','')" "\<not> is_json_space (CHR '']'')" "\<not> is_json_space (CHR 0x7D)"
  "\<not> is_json_space (CHR '':'')" "\<not> is_json_space quote_mark" "is_json_space (CHR '' '')"
  by (simp_all add: is_json_space_def quote_mark_def)

lemma members_set_fresh: "key \<notin> set (map fst ms) \<Longrightarrow> members_set ms key v = ms @ [(key, v)]"
  by (induction ms key v rule: members_set.induct) auto

lemma parse_leaf:
  assumes "ends_number t"
  shows "parseValue (Suc n) d (dumpTo i l JNull @ t) = POk JNull t"
    "parseValue (Suc n) d (dumpTo i l (JBool b) @ t) = POk (JBool b) t"
    "parseValue (Suc n) d (dumpTo i l (JString s) @ t) = POk (JString s) t"
    "integral_numbers (JNumber x) \<Longrightarrow> parseValue (Suc n) d (dumpTo i l (JNumber x) @ t) = POk (JNumber x) t"
proof -
  have solid: "skipWhitespace (c # u) = c # u" if "\<not> is_json_space c" for c u
    using that by (simp add: skipWhitespace_solid)
  show "parseValue (Suc n) d (dumpTo i l JNull @ t) = POk JNull t"
    "parseValue (Suc n) d (dumpTo i l (JBool b) @ t) = POk (JBool b) t"
    by (simp_all add: parseValue.simps solid is_json_space_def Let_def quote_mark_def parseLiteral_def matchLiteral_def)
  have "hd (escapedString s @ t) = quote_mark" "escapedString s \<noteq> []"
    by (simp_all add: escapedString_def)
  moreover have "skipWhitespace (escapedString s @ t) = escapedString s @ t"
    by (simp add: escapedString_def solid)
  ultimately show "parseValue (Suc n) d (dumpTo i l (JString s) @ t) = POk (JString s) t"
    by (simp add: parseValue.simps Let_def quote_mark_def)
  assume int: "integral_numbers (JNumber x)"
  then have f: "formatNumber x = int_to_string \<lfloor>x\<rfloor>" "\<bar>\<lfloor>x\<rfloor>\<bar> < 2 ^ 53" "x = of_int \<lfloor>x\<rfloor>"
    using formatNumber_int by auto
  let ?s = "int_to_string \<lfloor>x\<rfloor> @ t"
  have hd: "is_digit (hd ?s) \<or> hd ?s = CHR ''-''" "?s \<noteq> []" using int_to_string_hd by auto
  then have "skipWhitespace ?s = ?s"
    by (intro skipWhitespace_solid) (auto simp: is_json_space_def is_digit_def)
  moreover have "hd ?s \<notin> {CHR 0x7B, CHR ''['', quote_mark, CHR ''t'', CHR ''f'', CHR ''n''}"
    using hd(1) by (auto simp: is_digit_def quote_mark_def)
  moreover have "parseNumber ?s = POk (JNumber x) t"
    using parseNumber_int [OF f(2) assms] f(3) by simp
  ultimately show "parseValue (Suc n) d (dumpTo i l (JNumber x) @ t) = POk (JNumber x) t"
    using hd(2) f(1) by (simp add: parseValue.simps Let_def)
qed

text \<open>The three parts of the induction: a value, the items of an array, the members of an object.\<close>

definition value_back :: "nat \<Rightarrow> nat \<Rightarrow> json \<Rightarrow> bool" where
  "value_back i l v \<longleftrightarrow> (\<forall>n d t. integral_numbers v \<longrightarrow> fits (kMaxDepth - d) v \<longrightarrow> ends_number t \<longrightarrow>
     3 * length (dumpTo i l v @ t) + 3 \<le> n \<longrightarrow> parseValue n d (dumpTo i l v @ t) = POk v t)"

definition items_back :: "nat \<Rightarrow> nat \<Rightarrow> json list \<Rightarrow> bool" where
  "items_back i l xs \<longleftrightarrow> (\<forall>n d acc t. xs \<noteq> [] \<longrightarrow> list_all integral_numbers xs \<longrightarrow>
     list_all (fits (kMaxDepth - d)) xs \<longrightarrow>
     3 * length (dump_items i l True xs @ writeIndent i l @ CHR '']'' # t) + 4 \<le> n \<longrightarrow>
     array_loop n d (JArray acc) (dump_items i l True xs @ writeIndent i l @ CHR '']'' # t) =
       POk (JArray (acc @ xs)) t)"

definition members_back :: "nat \<Rightarrow> nat \<Rightarrow> (string \<times> json) list \<Rightarrow> bool" where
  "members_back i l ms \<longleftrightarrow> (\<forall>n d acc t. ms \<noteq> [] \<longrightarrow> list_all (\<lambda>kv. integral_numbers (snd kv)) ms \<longrightarrow>
     list_all (\<lambda>kv. fits (kMaxDepth - d) (snd kv)) ms \<longrightarrow> distinct (map fst (acc @ ms)) \<longrightarrow>
     3 * length (dump_members i l True ms @ writeIndent i l @ CHR 0x7D # t) + 4 \<le> n \<longrightarrow>
     object_loop n d (JObject acc) (dump_members i l True ms @ writeIndent i l @ CHR 0x7D # t) =
       POk (JObject (acc @ ms)) t)"

lemma parseValue_indent: "list_all is_json_space w \<Longrightarrow> parseValue n d (w @ t) = parseValue n d t"
  by (rule parseValue_skip) (rule skipWhitespace_append)

lemma dump_items_False: "xs \<noteq> [] \<Longrightarrow> dump_items i l False xs = CHR '','' # dump_items i l True xs"
  by (cases xs) auto

lemma dump_members_False: "ms \<noteq> [] \<Longrightarrow> dump_members i l False ms = CHR '','' # dump_members i l True ms"
  by (cases ms) auto

lemma items_back_Cons:
  assumes x: "value_back i (Suc l) x" and xs: "items_back i l xs"
  shows "items_back i l (x # xs)"
  unfolding items_back_def
proof (intro allI impI)
  fix n d acc t
  assume int: "list_all integral_numbers (x # xs)" and fit: "list_all (fits (kMaxDepth - d)) (x # xs)"
    and fuel: "3 * length (dump_items i l True (x # xs) @ writeIndent i l @ CHR '']'' # t) + 4 \<le> n"
  let ?rest = "dump_items i l False xs @ writeIndent i l @ CHR '']'' # t"
  obtain m where n: "n = Suc m" using fuel by (cases n) auto
  have "ends_number ?rest"
    by (cases "xs = []") (simp_all add: dump_items_False ends_number_indent)
  then have "parseValue m d (dumpTo i (Suc l) x @ ?rest) = POk x ?rest"
    using x int fit fuel n by (simp add: value_back_def)
  then have v: "parseValue m d (dump_items i l True (x # xs) @ writeIndent i l @ CHR '']'' # t) = POk x ?rest"
    by (simp add: parseValue_indent writeIndent_space)
  show "array_loop n d (JArray acc) (dump_items i l True (x # xs) @ writeIndent i l @ CHR '']'' # t) =
      POk (JArray (acc @ x # xs)) t"
  proof (cases "xs = []")
    case True
    with v show ?thesis
      by (simp add: n array_loop.simps Let_def skip_append_solid writeIndent_space expect_def)
  next
    case False
    have "array_loop m d (JArray (acc @ [x])) (dump_items i l True xs @ writeIndent i l @ CHR '']'' # t) =
        POk (JArray ((acc @ [x]) @ xs)) t"
      using xs False int fit fuel n by (simp add: items_back_def dump_items_False)
    with v False show ?thesis
      by (simp add: n array_loop.simps Let_def dump_items_False skipWhitespace_solid)
  qed
qed

lemma object_loop_member:
  assumes s: "skipWhitespace s = escapedString k @ CHR '':'' # u" and v: "parseValue m d u = POk v rest"
  shows "object_loop (Suc m) d obj s =
    (case consume (CHR '','') (skipWhitespace rest) of
       Some r5 \<Rightarrow> object_loop m d (json_set obj k v) r5
     | None \<Rightarrow> pbind (expect (CHR 0x7D) (skipWhitespace rest)) (\<lambda>_ r5. POk (json_set obj k v) r5))"
proof -
  have "escapedString k \<noteq> []" "hd (escapedString k @ CHR '':'' # u) = quote_mark"
    by (simp_all add: escapedString_def)
  moreover have "skipWhitespace (CHR '':'' # u) = CHR '':'' # u"
    by (simp add: skipWhitespace_solid)
  ultimately show ?thesis
    unfolding object_loop.simps Let_def s by (simp add: expect_def v)
qed

lemma members_back_Cons:
  assumes v: "value_back i (Suc l) v" and ms: "members_back i l ms"
  shows "members_back i l ((k, v) # ms)"
  unfolding members_back_def
proof (intro allI impI)
  fix n d acc t
  assume int: "list_all (\<lambda>kv. integral_numbers (snd kv)) ((k, v) # ms)"
    and fit: "list_all (\<lambda>kv. fits (kMaxDepth - d) (snd kv)) ((k, v) # ms)"
    and dist: "distinct (map fst (acc @ (k, v) # ms))"
    and fuel: "3 * length (dump_members i l True ((k, v) # ms) @ writeIndent i l @ CHR 0x7D # t) + 4 \<le> n"
  let ?all = "dump_members i l True ((k, v) # ms) @ writeIndent i l @ CHR 0x7D # t"
  let ?rest = "dump_members i l False ms @ writeIndent i l @ CHR 0x7D # t"
  let ?sep = "if 0 < i then '' '' else []"
  obtain m where n: "n = Suc m" using fuel by (cases n) auto
  have s: "skipWhitespace ?all = escapedString k @ CHR '':'' # ?sep @ dumpTo i (Suc l) v @ ?rest"
    by (simp add: skipWhitespace_append writeIndent_space skipWhitespace_solid escapedString_def)
  have "ends_number ?rest"
    by (cases "ms = []") (simp_all add: dump_members_False ends_number_indent)
  then have "parseValue m d (dumpTo i (Suc l) v @ ?rest) = POk v ?rest"
    using v int fit fuel n by (simp add: value_back_def split: if_splits)
  then have v: "parseValue m d (?sep @ dumpTo i (Suc l) v @ ?rest) = POk v ?rest"
    by (subst parseValue_indent) auto
  have set: "json_set (JObject acc) k v = JObject (acc @ [(k, v)])"
    using dist members_set_fresh [of k acc v] by (simp add: json_set_def)
  note step = object_loop_member [OF s v, of "JObject acc", unfolded set, folded n]
  show "object_loop n d (JObject acc) ?all = POk (JObject (acc @ (k, v) # ms)) t"
  proof (cases "ms = []")
    case True
    then show ?thesis unfolding step
      by (simp add: skip_append_solid writeIndent_space expect_def)
  next
    case False
    have "object_loop m d (JObject (acc @ [(k, v)])) (dump_members i l True ms @ writeIndent i l @ CHR 0x7D # t) =
        POk (JObject ((acc @ [(k, v)]) @ ms)) t"
      using ms False int fit dist fuel n
      by (simp add: members_back_def dump_members_False split: if_splits)
    with False show ?thesis unfolding step
      by (simp add: dump_members_False skipWhitespace_solid)
  qed
qed


lemma array_back:
  assumes "xs \<noteq> [] \<Longrightarrow> items_back i l xs"
  shows "value_back i l (JArray xs)"
  unfolding value_back_def
proof (intro allI impI)
  fix n d t
  assume int: "integral_numbers (JArray xs)" and fit: "fits (kMaxDepth - d) (JArray xs)"
    and fuel: "3 * length (dumpTo i l (JArray xs) @ t) + 3 \<le> n"
  obtain m where n: "n = Suc (Suc m)" using fuel by (cases n; cases "n - 1") auto
  have depth: "\<not> kMaxDepth < Suc d" using fit by simp
  have open_bracket: "skipWhitespace (CHR ''['' # u) = CHR ''['' # u" for u
    by (simp add: skipWhitespace_solid is_json_space_def)
  show "parseValue n d (dumpTo i l (JArray xs) @ t) = POk (JArray xs) t"
  proof (cases xs)
    case Nil
    with depth show ?thesis
      by (simp add: n parseValue.simps parseArray.simps Let_def open_bracket expect_def
          skipWhitespace_solid quote_mark_def)
  next
    case (Cons y ys)
    let ?body = "dump_items i l True xs @ writeIndent i l @ CHR '']'' # t"
    have fits: "list_all (fits (kMaxDepth - Suc d)) xs"
      using fit by (auto simp: list_all_iff)
    have loop: "array_loop m (Suc d) (JArray []) ?body = POk (JArray xs) t"
      using assms Cons int fits fuel n by (simp add: items_back_def)
    have y: "dumpTo i (Suc l) y \<noteq> []" "\<not> is_json_space (hd (dumpTo i (Suc l) y))"
      "hd (dumpTo i (Suc l) y) \<noteq> CHR '']''"
      using dumpTo_hd [of y i "Suc l"] int Cons by auto
    then have "skipWhitespace (dumpTo i (Suc l) y @ u) = dumpTo i (Suc l) y @ u" for u
      by (intro skipWhitespace_solid) auto
    then have "consume (CHR '']'') (skipWhitespace ?body) = None"
      using Cons y by (cases "dumpTo i (Suc l) y") (auto simp: skipWhitespace_append writeIndent_space)
    with depth loop show ?thesis
      by (simp add: n Cons [symmetric] parseValue.simps parseArray.simps Let_def open_bracket expect_def
          quote_mark_def array_loop_skip) (simp add: Cons)
  qed
qed

lemma object_back:
  assumes "ms \<noteq> [] \<Longrightarrow> members_back i l ms"
  shows "value_back i l (JObject ms)"
  unfolding value_back_def
proof (intro allI impI)
  fix n d t
  assume int: "integral_numbers (JObject ms)" and fit: "fits (kMaxDepth - d) (JObject ms)"
    and fuel: "3 * length (dumpTo i l (JObject ms) @ t) + 3 \<le> n"
  obtain m where n: "n = Suc (Suc m)" using fuel by (cases n; cases "n - 1") auto
  have depth: "\<not> kMaxDepth < Suc d" using fit by simp
  have open_brace: "skipWhitespace (CHR 0x7B # u) = CHR 0x7B # u" for u
    by (simp add: skipWhitespace_solid is_json_space_def)
  show "parseValue n d (dumpTo i l (JObject ms) @ t) = POk (JObject ms) t"
  proof (cases ms)
    case Nil
    with depth show ?thesis
      by (simp add: n parseValue.simps parseObject.simps Let_def open_brace expect_def
          skipWhitespace_solid)
  next
    case (Cons y ys)
    let ?body = "dump_members i l True ms @ writeIndent i l @ CHR 0x7D # t"
    have fits: "list_all (\<lambda>kv. fits (kMaxDepth - Suc d) (snd kv)) ms"
      using fit by (auto simp: list_all_iff)
    have loop: "object_loop m (Suc d) (JObject []) ?body = POk (JObject ms) t"
      using assms Cons int fits fit fuel n by (simp add: members_back_def)
    have "consume (CHR 0x7D) (skipWhitespace ?body) = None"
      using Cons by (cases y)
        (simp add: skipWhitespace_append writeIndent_space skipWhitespace_solid escapedString_def
          is_json_space_def quote_mark_def)
    with depth loop show ?thesis
      by (simp add: n Cons [symmetric] parseValue.simps parseObject.simps Let_def open_brace expect_def
          object_loop_skip) (simp add: Cons)
  qed
qed

lemma value_back_leaf:
  assumes "\<And>n d t. ends_number t \<Longrightarrow> integral_numbers v \<Longrightarrow> parseValue (Suc n) d (dumpTo i l v @ t) = POk v t"
  shows "value_back i l v"
  unfolding value_back_def
proof (intro allI impI)
  fix n d t
  assume "integral_numbers v" "ends_number t" "3 * length (dumpTo i l v @ t) + 3 \<le> n"
  with assms [of t "n - 1" d] show "parseValue n d (dumpTo i l v @ t) = POk v t"
    by (cases n) auto
qed

lemma value_back_all:
  fixes f :: bool
  shows "value_back i l v"
  "xs \<noteq> [] \<Longrightarrow> items_back i l xs"
  "ms \<noteq> [] \<Longrightarrow> members_back i l ms"
proof (induction i l v and i l f xs and i l f ms rule: dumpTo_dump_items_dump_members.induct)
  case (1 i l)
  show ?case by (rule value_back_leaf) (rule parse_leaf(1))
next
  case (2 i l b)
  show ?case by (rule value_back_leaf) (rule parse_leaf(2))
next
  case (3 i l x)
  show ?case by (rule value_back_leaf) (rule parse_leaf(4))
next
  case (4 i l s)
  show ?case by (rule value_back_leaf) (rule parse_leaf(3))
next
  case (5 i l xs)
  then show ?case by (intro array_back) blast
next
  case (6 i l ms)
  then show ?case by (intro object_back) blast
next
  case (8 i l f x xs)
  show ?case
  proof (cases "xs = []")
    case True
    then have "items_back i l xs" by (simp add: items_back_def)
    with 8 show ?thesis by (intro items_back_Cons) auto
  next
    case False
    with 8 show ?thesis by (intro items_back_Cons) auto
  qed
next
  case (10 i l f k v ms)
  show ?case
  proof (cases "ms = []")
    case True
    then have "members_back i l ms" by (simp add: members_back_def)
    with 10 show ?thesis by (intro members_back_Cons) auto
  next
    case False
    with 10 show ?thesis by (intro members_back_Cons) auto
  qed
qed auto

lemma parse_dump:
  assumes "fits kMaxDepth v" "integral_numbers v"
  shows "json_parse (json_dump v indent) = Inr v"
proof -
  let ?t = "dumpTo indent 0 v"
  have t: "skipWhitespace ?t = ?t" "?t \<noteq> []"
    using dumpTo_hd [OF assms(2), of indent 0] by (auto intro: skipWhitespace_solid)
  have "parseValue (3 * length ?t + 4) 0 (?t @ []) = POk v []"
    using value_back_all(1) [of indent 0 v] assms unfolding value_back_def
    by (elim allE [of _ "3 * length ?t + 4"] allE [of _ 0] allE [of _ "[]"]) simp
  then have "parseDocument ?t = POk v []"
    using t by (simp add: parseDocument_def skipWhitespace_def)
  then show ?thesis by (simp add: json_parse_def json_dump_def)
qed

section \<open>Properties\<close>

text \<open>C37: parsing what was dumped, at any indentation, gives the document back: for documents
  nested at most 200 deep, without repeated keys, whose numbers are integers below \<open>10^15\<close>,
  with arbitrary bytes in keys and strings.\<close>

theorem json_roundtrip:
  "fits kMaxDepth v \<Longrightarrow> integral_numbers v \<Longrightarrow> json_parse (json_dump v indent) = Inr v"
  by (rule parse_dump)

theorem json_roundtrip_witness:
  "json_parse (json_dump (JObject [(''a'', JArray [JNumber (- 7), JBool True, JNull]),
     ([quote_mark, CHR 0x01], JString [backslash])]) 2) =
   Inr (JObject [(''a'', JArray [JNumber (- 7), JBool True, JNull]),
     ([quote_mark, CHR 0x01], JString [backslash])])"
  by (rule json_roundtrip) (simp_all add: kMaxDepth_def)

text \<open>The recursive parser terminates on every input: the fuel, three units per byte, never
  runs out; and an error is reported at an offset inside the text.\<close>

theorem json_parser_total:
  "case parseDocument doc of
     POk v rest \<Rightarrow> json_parse doc = Inr v
   | PFail m k \<Rightarrow> k \<le> length doc \<and> is_ok (json_parse doc) = False
   | PFuel \<Rightarrow> False"
  using good_parseDocument [of doc]
  by (cases "parseDocument doc") (auto simp: json_parse_def)

text \<open>Whatever text is parsed, the document is nested at most 200 deep, so hostile input
  cannot exhaust the stack, and no object has a key twice.\<close>

theorem json_parse_bounded:
  "json_parse doc = Inr v \<Longrightarrow> json_depth v \<le> 200 \<and> distinct_keys v"
  using parseDocument_fits [of doc v]
  by (auto simp: json_parse_def fits_def kMaxDepth_def split: presult.splits)

theorem json_parse_bounded_witness:
  "json_depth (JArray [JArray []]) \<le> 200"
  using json_parse_bounded [of "json_dump (JArray [JArray []]) 0" "JArray [JArray []]"]
    parse_dump [of "JArray [JArray []]" 0] by (simp add: kMaxDepth_def)

end
