(* ===== verification/Manifest.thy ===== *)
theory Manifest
  imports Json Device Host
begin

text \<open>
  \<open>include/abp/Manifest.h\<close> and \<open>src/src/backup/Manifest.cpp\<close>: the manifest and its parts, their
  JSON form and back.  Each pair of converters is one codec; the locale \<open>json_codec\<close> states what a
  codec promises and proves once that an array written element by element is read back whole.
\<close>

section \<open>Data\<close>

datatype DataCaptureMethod = CaptureNone | RootTar | RunAsTar | LegacyAdbBackup

record PackageBackupEntry =
  pe_name :: string
  pe_isSystemApp :: bool
  pe_apkIncluded :: bool
  pe_apkFiles :: "string list"
  pe_dataIncluded :: bool
  pe_dataCaptureMethod :: DataCaptureMethod
  pe_dataArchive :: string
  pe_dataArchiveBytes :: nat
  pe_dataArchiveSha256 :: string
  pe_deDataArchive :: string
  pe_deDataArchiveBytes :: nat
  pe_deDataArchiveSha256 :: string
  pe_externalDataIncluded :: bool
  pe_externalDataArchive :: string
  pe_externalDataArchiveBytes :: nat
  pe_externalDataArchiveSha256 :: string
  pe_error :: string

definition default_entry :: PackageBackupEntry where
  "default_entry =
     \<lparr>pe_name = [], pe_isSystemApp = False, pe_apkIncluded = False, pe_apkFiles = [],
      pe_dataIncluded = False, pe_dataCaptureMethod = CaptureNone, pe_dataArchive = [],
      pe_dataArchiveBytes = 0, pe_dataArchiveSha256 = [], pe_deDataArchive = [],
      pe_deDataArchiveBytes = 0, pe_deDataArchiveSha256 = [], pe_externalDataIncluded = False,
      pe_externalDataArchive = [], pe_externalDataArchiveBytes = 0,
      pe_externalDataArchiveSha256 = [], pe_error = []\<rparr>"

record FilesystemCapture =
  fc_devicePath :: string
  fc_localPath :: string
  fc_bytes :: nat
  fc_complete :: bool
  fc_note :: string

record PersonalDataExport =
  px_kind :: string
  px_format :: string
  px_localPath :: string
  px_itemCount :: int
  px_bytes :: nat
  px_sha256 :: string

record Manifest =
  mf_formatVersion :: int
  mf_abpVersion :: string
  mf_createdAtUtc :: string
  mf_mode :: string
  mf_device :: DeviceInfo
  mf_sharedStorageIncluded :: bool
  mf_sharedStorageIsDirectory :: bool
  mf_sharedStorageArchive :: string
  mf_sharedStorageArchiveBytes :: nat
  mf_sharedStorageArchiveSha256 :: string
  mf_legacyAdbBackupFile :: string
  mf_filesystemCaptures :: "FilesystemCapture list"
  mf_personalDataExports :: "PersonalDataExport list"
  mf_packages :: "PackageBackupEntry list"

definition default_manifest :: Manifest where
  "default_manifest =
     \<lparr>mf_formatVersion = 4, mf_abpVersion = [], mf_createdAtUtc = [], mf_mode = [],
      mf_device = default_device, mf_sharedStorageIncluded = False,
      mf_sharedStorageIsDirectory = False, mf_sharedStorageArchive = [],
      mf_sharedStorageArchiveBytes = 0, mf_sharedStorageArchiveSha256 = [],
      mf_legacyAdbBackupFile = [], mf_filesystemCaptures = [], mf_personalDataExports = [],
      mf_packages = []\<rparr>"

section \<open>Converters\<close>

fun dataCaptureMethodName :: "DataCaptureMethod \<Rightarrow> string" where
  "dataCaptureMethodName RootTar = ''root_tar''"
| "dataCaptureMethodName RunAsTar = ''run_as_tar''"
| "dataCaptureMethodName LegacyAdbBackup = ''legacy_adb_backup''"
| "dataCaptureMethodName CaptureNone = ''none''"

definition dataCaptureMethodFromName :: "string \<Rightarrow> DataCaptureMethod" where
  "dataCaptureMethodFromName name =
     (if name = ''root_tar'' then RootTar
      else if name = ''run_as_tar'' then RunAsTar
      else if name = ''legacy_adb_backup'' then LegacyAdbBackup
      else CaptureNone)"

text \<open>A run of \<open>obj.set(key, value)\<close> calls on \<open>makeObject()\<close>, and of \<open>push_back\<close> on \<open>makeArray()\<close>.\<close>

definition set_all :: "(string \<times> json) list \<Rightarrow> json" where
  "set_all kvs = foldl (\<lambda>obj (k, v). json_set obj k v) (JObject []) kvs"

definition push_all :: "json list \<Rightarrow> json" where
  "push_all vs = foldl json_push_back (JArray []) vs"

definition JBytes :: "nat \<Rightarrow> json" where
  "JBytes n = JInt (int n)"

definition get_string :: "json \<Rightarrow> string \<Rightarrow> string" where
  "get_string obj key = asString (json_get obj key) []"

definition get_bool :: "json \<Rightarrow> string \<Rightarrow> bool" where
  "get_bool obj key = asBool (json_get obj key) False"

definition get_int :: "json \<Rightarrow> string \<Rightarrow> int" where
  "get_int obj key = int32_from_ll (asInt (json_get obj key) 0)"

definition get_bytes :: "json \<Rightarrow> string \<Rightarrow> nat" where
  "get_bytes obj key = ull_from_ll (asInt (json_get obj key) 0)"

definition deviceToJson :: "DeviceInfo \<Rightarrow> json" where
  "deviceToJson device =
     set_all
       [(''serial'', JString (dev_serial device)),
        (''model'', JString (dev_model device)),
        (''manufacturer'', JString (dev_manufacturer device)),
        (''android_release'', JString (dev_androidRelease device)),
        (''sdk_int'', JInt (dev_sdkInt device)),
        (''rooted'', JBool (isRooted device)),
        (''root_method'', JString
           (case dev_root device of
              AdbdRoot \<Rightarrow> ''adbd_root''
            | SuBinary \<Rightarrow> ''su_binary''
            | RootNone \<Rightarrow> ''none''))]"

definition deviceFromJson :: "json \<Rightarrow> DeviceInfo" where
  "deviceFromJson obj =
     default_device
       \<lparr>dev_serial := get_string obj ''serial'',
        dev_model := get_string obj ''model'',
        dev_manufacturer := get_string obj ''manufacturer'',
        dev_androidRelease := get_string obj ''android_release'',
        dev_sdkInt := get_int obj ''sdk_int'',
        dev_root :=
          (let m = get_string obj ''root_method''
           in if m = ''adbd_root'' then AdbdRoot
              else if m = ''su_binary'' then SuBinary
              else RootNone)\<rparr>"

definition packageToJson :: "PackageBackupEntry \<Rightarrow> json" where
  "packageToJson pkg =
     set_all
       [(''name'', JString (pe_name pkg)),
        (''system_app'', JBool (pe_isSystemApp pkg)),
        (''apk_included'', JBool (pe_apkIncluded pkg)),
        (''apk_files'', push_all (map JString (pe_apkFiles pkg))),
        (''data_included'', JBool (pe_dataIncluded pkg)),
        (''data_capture_method'', JString (dataCaptureMethodName (pe_dataCaptureMethod pkg))),
        (''data_archive'', JString (pe_dataArchive pkg)),
        (''data_archive_bytes'', JBytes (pe_dataArchiveBytes pkg)),
        (''data_archive_sha256'', JString (pe_dataArchiveSha256 pkg)),
        (''de_data_archive'', JString (pe_deDataArchive pkg)),
        (''de_data_archive_bytes'', JBytes (pe_deDataArchiveBytes pkg)),
        (''de_data_archive_sha256'', JString (pe_deDataArchiveSha256 pkg)),
        (''external_data_included'', JBool (pe_externalDataIncluded pkg)),
        (''external_data_archive'', JString (pe_externalDataArchive pkg)),
        (''external_data_archive_bytes'', JBytes (pe_externalDataArchiveBytes pkg)),
        (''external_data_archive_sha256'', JString (pe_externalDataArchiveSha256 pkg)),
        (''error'', JString (pe_error pkg))]"

definition packageFromJson :: "json \<Rightarrow> string \<Rightarrow> PackageBackupEntry" where
  "packageFromJson obj manifestMode =
     (let pkg =
        \<lparr>pe_name = get_string obj ''name'',
         pe_isSystemApp = get_bool obj ''system_app'',
         pe_apkIncluded = get_bool obj ''apk_included'',
         pe_apkFiles = map (\<lambda>f. asString f []) (items (json_get obj ''apk_files'')),
         pe_dataIncluded = get_bool obj ''data_included'',
         pe_dataCaptureMethod = CaptureNone,
         pe_dataArchive = get_string obj ''data_archive'',
         pe_dataArchiveBytes = get_bytes obj ''data_archive_bytes'',
         pe_dataArchiveSha256 = get_string obj ''data_archive_sha256'',
         pe_deDataArchive = get_string obj ''de_data_archive'',
         pe_deDataArchiveBytes = get_bytes obj ''de_data_archive_bytes'',
         pe_deDataArchiveSha256 = get_string obj ''de_data_archive_sha256'',
         pe_externalDataIncluded = get_bool obj ''external_data_included'',
         pe_externalDataArchive = get_string obj ''external_data_archive'',
         pe_externalDataArchiveBytes = get_bytes obj ''external_data_archive_bytes'',
         pe_externalDataArchiveSha256 = get_string obj ''external_data_archive_sha256'',
         pe_error = get_string obj ''error''\<rparr>
      in if json_has obj ''data_capture_method'' then
           pkg\<lparr>pe_dataCaptureMethod := dataCaptureMethodFromName (get_string obj ''data_capture_method'')\<rparr>
         else if \<not> pe_dataIncluded pkg then pkg
         else if pe_dataArchive pkg \<noteq> [] then pkg\<lparr>pe_dataCaptureMethod := RootTar\<rparr>
         else if manifestMode = ''standard'' then pkg\<lparr>pe_dataCaptureMethod := LegacyAdbBackup\<rparr>
         else pkg)"

definition filesystemCaptureToJson :: "FilesystemCapture \<Rightarrow> json" where
  "filesystemCaptureToJson capture =
     set_all
       [(''device_path'', JString (fc_devicePath capture)),
        (''local_path'', JString (fc_localPath capture)),
        (''bytes'', JBytes (fc_bytes capture)),
        (''complete'', JBool (fc_complete capture)),
        (''note'', JString (fc_note capture))]"

definition filesystemCaptureFromJson :: "json \<Rightarrow> FilesystemCapture" where
  "filesystemCaptureFromJson obj =
     \<lparr>fc_devicePath = get_string obj ''device_path'',
      fc_localPath = get_string obj ''local_path'',
      fc_bytes = get_bytes obj ''bytes'',
      fc_complete = get_bool obj ''complete'',
      fc_note = get_string obj ''note''\<rparr>"

definition personalExportToJson :: "PersonalDataExport \<Rightarrow> json" where
  "personalExportToJson item =
     set_all
       [(''kind'', JString (px_kind item)),
        (''format'', JString (px_format item)),
        (''local_path'', JString (px_localPath item)),
        (''item_count'', JInt (px_itemCount item)),
        (''bytes'', JBytes (px_bytes item)),
        (''sha256'', JString (px_sha256 item))]"

definition personalExportFromJson :: "json \<Rightarrow> PersonalDataExport" where
  "personalExportFromJson obj =
     \<lparr>px_kind = get_string obj ''kind'',
      px_format = get_string obj ''format'',
      px_localPath = get_string obj ''local_path'',
      px_itemCount = get_int obj ''item_count'',
      px_bytes = get_bytes obj ''bytes'',
      px_sha256 = get_string obj ''sha256''\<rparr>"

definition manifest_json :: "Manifest \<Rightarrow> json" where
  "manifest_json m =
     set_all
       [(''format_version'', JInt (mf_formatVersion m)),
        (''abp_version'', JString (mf_abpVersion m)),
        (''created_at_utc'', JString (mf_createdAtUtc m)),
        (''mode'', JString (mf_mode m)),
        (''device'', deviceToJson (mf_device m)),
        (''shared_storage_included'', JBool (mf_sharedStorageIncluded m)),
        (''shared_storage_is_directory'', JBool (mf_sharedStorageIsDirectory m)),
        (''shared_storage_archive'', JString (mf_sharedStorageArchive m)),
        (''shared_storage_archive_bytes'', JBytes (mf_sharedStorageArchiveBytes m)),
        (''shared_storage_archive_sha256'', JString (mf_sharedStorageArchiveSha256 m)),
        (''legacy_adb_backup_file'', JString (mf_legacyAdbBackupFile m)),
        (''filesystem_captures'', push_all (map filesystemCaptureToJson (mf_filesystemCaptures m))),
        (''personal_data_exports'', push_all (map personalExportToJson (mf_personalDataExports m))),
        (''packages'', push_all (map packageToJson (mf_packages m)))]"

definition toJson :: "Manifest \<Rightarrow> string" where
  "toJson m = json_dump (manifest_json m) 2"

text \<open>The three reading loops: entries that are not objects are skipped.\<close>

fun read_objects :: "(json \<Rightarrow> 'a) \<Rightarrow> json list \<Rightarrow> 'a list" where
  "read_objects conv [] = []"
| "read_objects conv (j # js) =
     (if \<not> isObject j then read_objects conv js else conv j # read_objects conv js)"

definition fromJson :: "string \<Rightarrow> Manifest result" where
  "fromJson content =
     (case json_parse content of
        Inl e \<Rightarrow> Inl e
      | Inr doc \<Rightarrow>
          if \<not> isObject doc then Inl ''manifest.json is not a JSON object''
          else Inr
            \<lparr>mf_formatVersion = int32_from_ll (asInt (json_get doc ''format_version'') 1),
             mf_abpVersion = get_string doc ''abp_version'',
             mf_createdAtUtc = get_string doc ''created_at_utc'',
             mf_mode = get_string doc ''mode'',
             mf_device = deviceFromJson (json_get doc ''device''),
             mf_sharedStorageIncluded = get_bool doc ''shared_storage_included'',
             mf_sharedStorageIsDirectory = get_bool doc ''shared_storage_is_directory'',
             mf_sharedStorageArchive = get_string doc ''shared_storage_archive'',
             mf_sharedStorageArchiveBytes = get_bytes doc ''shared_storage_archive_bytes'',
             mf_sharedStorageArchiveSha256 = get_string doc ''shared_storage_archive_sha256'',
             mf_legacyAdbBackupFile = get_string doc ''legacy_adb_backup_file'',
             mf_filesystemCaptures =
               read_objects filesystemCaptureFromJson (items (json_get doc ''filesystem_captures'')),
             mf_personalDataExports =
               read_objects personalExportFromJson (items (json_get doc ''personal_data_exports'')),
             mf_packages =
               read_objects (\<lambda>j. packageFromJson j (get_string doc ''mode''))
                 (items (json_get doc ''packages''))\<rparr>)"

definition writeToFile :: "'w host \<Rightarrow> Manifest \<Rightarrow> string \<Rightarrow> 'w sys \<Rightarrow> unit result \<times> 'w sys" where
  "writeToFile h m path s = writeTextFile h path (toJson m) s"

definition readFromFile :: "'w host \<Rightarrow> string \<Rightarrow> 'w sys \<Rightarrow> Manifest result" where
  "readFromFile h path s =
     (case readTextFile h path s of Inl e \<Rightarrow> Inl e | Inr t \<Rightarrow> fromJson t)"

definition findPackageEntry :: "Manifest \<Rightarrow> string \<Rightarrow> PackageBackupEntry option" where
  "findPackageEntry m packageName = find (\<lambda>e. pe_name e = packageName) (mf_packages m)"

text \<open>The non-const overload returns a reference into the vector: an update of the first match.\<close>

fun update_first :: "string \<Rightarrow> (PackageBackupEntry \<Rightarrow> PackageBackupEntry) \<Rightarrow>
    PackageBackupEntry list \<Rightarrow> PackageBackupEntry list" where
  "update_first n f [] = []"
| "update_first n f (e # es) = (if pe_name e = n then f e # es else e # update_first n f es)"

definition updatePackageEntry ::
    "Manifest \<Rightarrow> string \<Rightarrow> (PackageBackupEntry \<Rightarrow> PackageBackupEntry) \<Rightarrow> Manifest" where
  "updatePackageEntry m n f = m\<lparr>mf_packages := update_first n f (mf_packages m)\<rparr>"

section \<open>Objects read back\<close>

lemma set_all_distinct: "distinct (map fst kvs) \<Longrightarrow> set_all kvs = JObject kvs"
proof -
  have "foldl (\<lambda>obj (k, v). json_set obj k v) (JObject acc) kvs = JObject (acc @ kvs)"
    if "distinct (map fst (acc @ kvs))" for acc
    using that
  proof (induction kvs arbitrary: acc)
    case (Cons kv kvs)
    obtain k v where kv: "kv = (k, v)" by force
    with Cons.prems have "members_set acc k v = acc @ [(k, v)]"
      by (intro members_set_fresh) auto
    then have "json_set (JObject acc) k v = JObject (acc @ [(k, v)])" by (simp add: json_set_def)
    with Cons.IH [of "acc @ [(k, v)]"] Cons.prems kv show ?case by simp
  qed simp
  from this [of "[]"] show "distinct (map fst kvs) \<Longrightarrow> set_all kvs = JObject kvs"
    by (simp add: set_all_def)
qed

lemma push_all_array: "push_all vs = JArray vs"
proof -
  have "foldl json_push_back (JArray acc) vs = JArray (acc @ vs)" for acc
    by (induction vs arbitrary: acc) auto
  then show ?thesis by (simp add: push_all_def)
qed

lemma json_get_JObject [json_simps]:
  "json_get (JObject []) key = JNull"
  "json_get (JObject ((k, v) # ms)) key = (if k = key then v else json_get (JObject ms) key)"
  by (simp_all add: json_get_def)

lemma json_has_JObject [json_simps]:
  "json_has (JObject []) key = False"
  "json_has (JObject ((k, v) # ms)) key = (k = key \<or> json_has (JObject ms) key)"
  by (simp_all add: json_has_def)

lemma asInt_JInt [json_simps]: "\<bar>i\<bar> < 2 ^ 53 \<Longrightarrow> asInt (JInt i) def = i"
  by (simp add: JInt_def ll_from_double_of_int)

lemma fits_JInt [simp]: "fits b (JInt i)" "fits b (JBytes n)"
  by (simp_all add: JInt_def JBytes_def)

text \<open>Integers small enough for the printer to write them exactly.\<close>

abbreviation small_int :: "int \<Rightarrow> bool" where
  "small_int i \<equiv> \<bar>i\<bar> < 10 ^ 15"

lemma integral_JInt: "small_int i \<Longrightarrow> integral_numbers (JInt i)"
proof -
  assume i: "small_int i"
  then have "(of_int \<bar>i\<bar> :: rat) < of_int (10 ^ 15)" by (simp only: of_int_less_iff)
  with i show ?thesis by (simp add: JInt_def)
qed

lemma integral_JInt32: "- (2 ^ 31) \<le> i \<Longrightarrow> i < 2 ^ 31 \<Longrightarrow> integral_numbers (JInt i)"
  by (rule integral_JInt) (simp add: abs_if)

lemma get_int_JInt: "- (2 ^ 31) \<le> i \<Longrightarrow> i < 2 ^ 31 \<Longrightarrow> int32_from_ll (asInt (JInt i) d) = i"
  by (simp add: asInt_JInt int32_from_ll_small)

lemma get_bytes_JBytes: "n < 10 ^ 15 \<Longrightarrow> ull_from_ll (asInt (JBytes n) d) = n"
  by (simp add: JBytes_def asInt_JInt ull_from_ll_small)

lemma integral_JBytes: "n < 10 ^ 15 \<Longrightarrow> integral_numbers (JBytes n)"
  unfolding JBytes_def by (rule integral_JInt) simp

section \<open>Codecs\<close>

text \<open>
  A pair of converters: what is written is an object the JSON layer can carry (nested at most
  \<open>depth\<close> deep, distinct keys, exact numbers), and reading it back is the identity on well-formed
  values.  The client is the pair of loops that write and read an array of them.
\<close>

locale json_codec =
  fixes enc :: "'a \<Rightarrow> json" and dec :: "json \<Rightarrow> 'a" and wf :: "'a \<Rightarrow> bool" and depth :: nat
  assumes enc_object: "isObject (enc x)"
    and enc_fits: "fits depth (enc x)"
    and enc_integral: "wf x \<Longrightarrow> integral_numbers (enc x)"
    and dec_enc: "wf x \<Longrightarrow> dec (enc x) = x"
begin

theorem array_roundtrip: "list_all wf xs \<Longrightarrow> read_objects dec (items (push_all (map enc xs))) = xs"
  by (induction xs) (auto simp: push_all_array enc_object dec_enc)

lemma array_fits: "fits (Suc depth) (push_all (map enc xs))"
  by (auto simp: push_all_array enc_fits)

lemma array_integral: "list_all wf xs \<Longrightarrow> integral_numbers (push_all (map enc xs))"
  by (induction xs) (auto simp: push_all_array enc_integral)

end

definition wf_device :: "DeviceInfo \<Rightarrow> bool" where
  "wf_device d \<longleftrightarrow> dev_state d = ''device'' \<and> - (2 ^ 31) \<le> dev_sdkInt d \<and> dev_sdkInt d < 2 ^ 31"

definition wf_capture :: "FilesystemCapture \<Rightarrow> bool" where
  "wf_capture c \<longleftrightarrow> fc_bytes c < 10 ^ 15"

definition wf_personal :: "PersonalDataExport \<Rightarrow> bool" where
  "wf_personal p \<longleftrightarrow> px_bytes p < 10 ^ 15 \<and> - (2 ^ 31) \<le> px_itemCount p \<and> px_itemCount p < 2 ^ 31"

definition wf_entry :: "PackageBackupEntry \<Rightarrow> bool" where
  "wf_entry e \<longleftrightarrow> pe_dataArchiveBytes e < 10 ^ 15 \<and> pe_deDataArchiveBytes e < 10 ^ 15 \<and>
     pe_externalDataArchiveBytes e < 10 ^ 15"

definition wf_manifest :: "Manifest \<Rightarrow> bool" where
  "wf_manifest m \<longleftrightarrow> - (2 ^ 31) \<le> mf_formatVersion m \<and> mf_formatVersion m < 2 ^ 31 \<and>
     wf_device (mf_device m) \<and> mf_sharedStorageArchiveBytes m < 10 ^ 15 \<and>
     list_all wf_capture (mf_filesystemCaptures m) \<and>
     list_all wf_personal (mf_personalDataExports m) \<and> list_all wf_entry (mf_packages m)"

lemmas codec_simps =
  get_string_def get_bool_def get_int_def get_bytes_def json_simps get_int_JInt get_bytes_JBytes

lemma method_name_roundtrip: "dataCaptureMethodFromName (dataCaptureMethodName m) = m"
  by (cases m) (auto simp: dataCaptureMethodFromName_def)

interpretation capture_codec: json_codec filesystemCaptureToJson filesystemCaptureFromJson wf_capture 1
  by unfold_locales
    (simp_all add: filesystemCaptureToJson_def filesystemCaptureFromJson_def set_all_distinct
      wf_capture_def codec_simps integral_JBytes)

interpretation personal_codec: json_codec personalExportToJson personalExportFromJson wf_personal 1
  by unfold_locales
    (simp_all add: personalExportToJson_def personalExportFromJson_def set_all_distinct
      wf_personal_def codec_simps integral_JBytes integral_JInt32)

interpretation device_codec: json_codec deviceToJson deviceFromJson wf_device 1
proof unfold_locales
  fix d
  show "wf_device d \<Longrightarrow> deviceFromJson (deviceToJson d) = d"
    by (cases "dev_root d")
      (simp_all add: deviceToJson_def deviceFromJson_def set_all_distinct wf_device_def codec_simps
        default_device_def)
qed (simp_all add: deviceToJson_def set_all_distinct wf_device_def integral_JInt32)

lemma package_dec_enc:
  "wf_entry e \<Longrightarrow> packageFromJson (packageToJson e) mode = e"
  by (simp add: packageToJson_def packageFromJson_def set_all_distinct wf_entry_def codec_simps
      push_all_array method_name_roundtrip o_def Let_def)

text \<open>Reading does not depend on the manifest's mode, because the method is always written.\<close>

interpretation package_codec: json_codec packageToJson "\<lambda>j. packageFromJson j mode" wf_entry 2
proof unfold_locales
  show "wf_entry e \<Longrightarrow> packageFromJson (packageToJson e) mode = e" for e
    by (rule package_dec_enc)
qed (simp_all add: packageToJson_def set_all_distinct wf_entry_def push_all_array
    integral_JBytes list_all_iff)

lemma manifest_json_fits: "fits 4 (manifest_json m)"
proof -
  have "fits 3 (deviceToJson d)" for d
    using device_codec.enc_fits [of d] by (simp add: fits_def)
  moreover have "fits 3 (push_all (map filesystemCaptureToJson cs))" for cs
    using capture_codec.array_fits [of cs] by (simp add: fits_def numeral_eq_Suc)
  moreover have "fits 3 (push_all (map personalExportToJson ps))" for ps
    using personal_codec.array_fits [of ps] by (simp add: fits_def numeral_eq_Suc)
  moreover have "fits 3 (push_all (map packageToJson es))" for es
    using package_codec.array_fits [of es] by (simp add: numeral_eq_Suc)
  ultimately show ?thesis by (simp add: manifest_json_def set_all_distinct)
qed

lemma manifest_json_integral: "wf_manifest m \<Longrightarrow> integral_numbers (manifest_json m)"
  by (simp add: manifest_json_def set_all_distinct wf_manifest_def integral_JInt32 integral_JBytes
      device_codec.enc_integral capture_codec.array_integral personal_codec.array_integral
      package_codec.array_integral)

lemma parse_manifest: "wf_manifest m \<Longrightarrow> json_parse (toJson m) = Inr (manifest_json m)"
proof -
  assume "wf_manifest m"
  moreover have "fits kMaxDepth (manifest_json m)"
    using manifest_json_fits [of m] by (simp add: fits_def kMaxDepth_def)
  ultimately show ?thesis
    unfolding toJson_def by (intro parse_dump manifest_json_integral)
qed

lemma fromJson_toJson: "wf_manifest m \<Longrightarrow> fromJson (toJson m) = Inr m"
proof -
  assume wf: "wf_manifest m"
  have obj: "isObject (manifest_json m)" by (simp add: manifest_json_def set_all_distinct)
  show ?thesis
    using wf unfolding fromJson_def parse_manifest [OF wf] sum.case
    by (simp add: obj) (simp add: manifest_json_def set_all_distinct codec_simps wf_manifest_def
        device_codec.dec_enc capture_codec.array_roundtrip personal_codec.array_roundtrip
        package_codec.array_roundtrip)
qed

section \<open>Properties\<close>


definition sample_manifest :: Manifest where
  "sample_manifest = default_manifest
     \<lparr>mf_mode := ''root'',
      mf_packages := [default_entry\<lparr>pe_name := ''com.example.app'', pe_apkFiles := [''a.apk'', ''b.apk''],
        pe_dataIncluded := True, pe_dataCaptureMethod := RunAsTar, pe_dataArchiveBytes := 45678\<rparr>],
      mf_personalDataExports := [\<lparr>px_kind = ''sms'', px_format = ''json'', px_localPath = ''personal/sms.json'',
        px_itemCount = 312, px_bytes = 104857, px_sha256 = []\<rparr>]\<rparr>"


end
