(* ===== verification/IBackupBackend.thy ===== *)
theory IBackupBackend
  imports DeviceCalls Manifest
begin

text \<open>
  \<open>include/abp/IBackupBackend.h\<close>: the strategy interface between \<open>BackupManager\<close> and the two
  ways of moving app data and shared storage.  The virtual methods are a record of functions, and
  what the manager relies on is the locale of the same name: every process goes to the selected
  device, only the fields a method owns change, and the entries stay well formed.
\<close>

record 'w backend =
  be_name :: string
  be_backupAppData :: "AdbClient \<Rightarrow> string \<Rightarrow> PackageInfo list \<Rightarrow> Manifest \<Rightarrow> 'w sys \<Rightarrow> Manifest \<times> 'w sys"
  be_restoreAppData :: "AdbClient \<Rightarrow> string \<Rightarrow> Manifest \<Rightarrow> string list \<Rightarrow> 'w sys \<Rightarrow> Manifest \<times> 'w sys"
  be_backupSharedStorage :: "AdbClient \<Rightarrow> string \<Rightarrow> Manifest \<Rightarrow> 'w sys \<Rightarrow> (bool \<times> Manifest) \<times> 'w sys"
  be_restoreSharedStorage :: "AdbClient \<Rightarrow> string \<Rightarrow> Manifest \<Rightarrow> 'w sys \<Rightarrow> bool \<times> 'w sys"

section \<open>Entries\<close>

text \<open>A restored entry differs from the one it came from in its error only.\<close>

definition same_but_error :: "PackageBackupEntry \<Rightarrow> PackageBackupEntry \<Rightarrow> bool" where
  "same_but_error e e' \<longleftrightarrow> e'\<lparr>pe_error := pe_error e\<rparr> = e"

lemma same_but_error_refl [simp]: "same_but_error e e"
  by (simp add: same_but_error_def)

lemma same_but_error_update [simp]: "same_but_error e (e\<lparr>pe_error := x\<rparr>)"
  by (simp add: same_but_error_def)

lemma same_but_error_trans: "same_but_error e f \<Longrightarrow> same_but_error f g \<Longrightarrow> same_but_error e g"
  by (cases e, cases f, cases g) (simp add: same_but_error_def)

lemma list_all2_same_refl [simp]: "list_all2 same_but_error es es"
  by (simp add: list_all2_refl)

text \<open>
  A well-formed entry: included data has a capture method, a tar method has an archive, and a
  recorded archive is not empty.
\<close>

definition entry_wf :: "PackageBackupEntry \<Rightarrow> bool" where
  "entry_wf e \<longleftrightarrow>
     (pe_dataIncluded e \<longleftrightarrow> pe_dataCaptureMethod e \<noteq> CaptureNone) \<and>
     (pe_dataCaptureMethod e = RootTar \<longrightarrow> pe_dataArchive e \<noteq> [] \<or> pe_deDataArchive e \<noteq> []) \<and>
     (pe_dataCaptureMethod e = RunAsTar \<longrightarrow> pe_dataArchive e \<noteq> []) \<and>
     (pe_dataArchive e \<noteq> [] \<longrightarrow> 0 < pe_dataArchiveBytes e) \<and>
     (pe_deDataArchive e \<noteq> [] \<longrightarrow> 0 < pe_deDataArchiveBytes e)"

lemma entry_wf_default: "entry_wf (default_entry\<lparr>pe_name := n, pe_isSystemApp := sys\<rparr>)"
  by (simp add: entry_wf_def default_entry_def)

lemma entry_wf_error [simp]: "entry_wf (e\<lparr>pe_error := x\<rparr>) \<longleftrightarrow> entry_wf e"
  by (simp add: entry_wf_def)

text \<open>Updating the first entry of a name.\<close>

lemma update_first_names: "(\<And>e. pe_name (f e) = pe_name e) \<Longrightarrow> map pe_name (update_first n f es) = map pe_name es"
  by (induction n f es rule: update_first.induct) auto

lemma update_first_const_names: "pe_name e = n \<Longrightarrow> map pe_name (update_first n (\<lambda>_. e) es) = map pe_name es"
  by (induction es) auto

lemma update_first_all: "list_all P es \<Longrightarrow> (\<And>e. P e \<Longrightarrow> P (f e)) \<Longrightarrow> list_all P (update_first n f es)"
  by (induction n f es rule: update_first.induct) auto

lemma findPackageEntry_SomeD:
  "findPackageEntry m n = Some e \<Longrightarrow> e \<in> set (mf_packages m) \<and> pe_name e = n"
  by (auto simp: findPackageEntry_def find_Some_iff in_set_conv_nth)

text \<open>What a backup of app data may change in the manifest.\<close>

definition app_data_frame :: "Manifest \<Rightarrow> Manifest \<Rightarrow> bool" where
  "app_data_frame m m' \<longleftrightarrow>
     map pe_name (mf_packages m') = map pe_name (mf_packages m) \<and>
     m'\<lparr>mf_packages := mf_packages m, mf_legacyAdbBackupFile := mf_legacyAdbBackupFile m\<rparr> = m"

lemma app_data_frame_refl [simp]: "app_data_frame m m"
  by (simp add: app_data_frame_def)

lemma app_data_frame_trans: "app_data_frame m n \<Longrightarrow> app_data_frame n p \<Longrightarrow> app_data_frame m p"
  by (cases m, cases n, cases p) (simp add: app_data_frame_def)

lemma app_data_frame_update:
  "pe_name e = n \<Longrightarrow> app_data_frame m (updatePackageEntry m n (\<lambda>_. e))"
  "(\<And>e. pe_name (f e) = pe_name e) \<Longrightarrow> app_data_frame m (updatePackageEntry m n f)"
  by (cases m, simp add: app_data_frame_def updatePackageEntry_def update_first_const_names update_first_names)+

lemma app_data_frame_legacy: "app_data_frame m (m\<lparr>mf_legacyAdbBackupFile := x\<rparr>)"
  by (cases m) (simp add: app_data_frame_def)

definition entries_wf :: "Manifest \<Rightarrow> bool" where
  "entries_wf m \<longleftrightarrow> list_all entry_wf (mf_packages m)"

lemma entries_wf_update:
  "entries_wf m \<Longrightarrow> entry_wf e \<Longrightarrow> entries_wf (updatePackageEntry m n (\<lambda>_. e))"
  "entries_wf m \<Longrightarrow> (\<And>e. entry_wf e \<Longrightarrow> entry_wf (f e)) \<Longrightarrow> entries_wf (updatePackageEntry m n f)"
  by (auto simp: entries_wf_def updatePackageEntry_def intro!: update_first_all)

lemma entries_wf_find: "entries_wf m \<Longrightarrow> findPackageEntry m n = Some e \<Longrightarrow> entry_wf e"
  using findPackageEntry_SomeD [of m n e] by (simp add: entries_wf_def list_all_iff)

lemma entries_wf_legacy [simp]: "entries_wf (m\<lparr>mf_legacyAdbBackupFile := x\<rparr>) \<longleftrightarrow> entries_wf m"
  by (simp add: entries_wf_def)

text \<open>The shared-storage fields.\<close>

definition shared_frame :: "Manifest \<Rightarrow> Manifest \<Rightarrow> bool" where
  "shared_frame m m' \<longleftrightarrow>
     (\<exists>d a b c. m' = m\<lparr>mf_sharedStorageIncluded := True, mf_sharedStorageIsDirectory := d,
        mf_sharedStorageArchive := a, mf_sharedStorageArchiveBytes := b, mf_sharedStorageArchiveSha256 := c\<rparr> \<and>
        a \<noteq> [] \<and> 0 < b)"

section \<open>A concrete backup\<close>

text \<open>A client, and a manifest with one app captured in root mode: for instances.\<close>

definition client :: "string \<Rightarrow> AdbClient" where
  "client serial = \<lparr>ac_path = ''adb'', ac_serial = serial\<rparr>"

definition one_app_manifest :: Manifest where
  "one_app_manifest =
     default_manifest\<lparr>mf_mode := ''root'', mf_packages :=
       [default_entry\<lparr>pe_name := ''a.b'', pe_dataIncluded := True, pe_dataCaptureMethod := RootTar,
          pe_dataArchive := ''data/a.b.tar.gz'', pe_dataArchiveBytes := 7\<rparr>]\<rparr>"

section \<open>The contract\<close>

locale backup_backend =
  fixes be :: "'w backend"
  assumes backup_runs: "extends (execs_only (to_device adb)) s (snd (be_backupAppData be adb dir ps m s))"
    and backup_frame: "app_data_frame m (fst (be_backupAppData be adb dir ps m s))"
    and backup_wf: "entries_wf m \<Longrightarrow> entries_wf (fst (be_backupAppData be adb dir ps m s))"
    and restore_runs: "extends (execs_only (to_device adb)) s (snd (be_restoreAppData be adb dir m f s))"
    and restore_frame: "(fst (be_restoreAppData be adb dir m f s))\<lparr>mf_packages := mf_packages m\<rparr> = m"
    and restore_entries:
      "list_all2 same_but_error (mf_packages m) (mf_packages (fst (be_restoreAppData be adb dir m f s)))"
    and shared_runs: "extends (execs_only (to_device adb)) s (snd (be_backupSharedStorage be adb dir m s))"
    and shared_none: "\<not> fst (fst (be_backupSharedStorage be adb dir m s)) \<Longrightarrow>
      snd (fst (be_backupSharedStorage be adb dir m s)) = m"
    and shared_some: "fst (fst (be_backupSharedStorage be adb dir m s)) \<Longrightarrow>
      shared_frame m (snd (fst (be_backupSharedStorage be adb dir m s)))"
    and restore_shared_runs:
      "extends (execs_only (to_device adb)) s (snd (be_restoreSharedStorage be adb dir m s))"
    and restore_shared_none: "\<not> mf_sharedStorageIncluded m \<Longrightarrow> be_restoreSharedStorage be adb dir m s = (False, s)"
begin

lemma chain_backend:
  assumes "extends (execs_only (to_device adb)) s0 s"
  shows "extends (execs_only (to_device adb)) s0 (snd (be_backupAppData be adb dir ps m s))"
    "extends (execs_only (to_device adb)) s0 (snd (be_restoreAppData be adb dir m f s))"
    "extends (execs_only (to_device adb)) s0 (snd (be_backupSharedStorage be adb dir m s))"
    "extends (execs_only (to_device adb)) s0 (snd (be_restoreSharedStorage be adb dir m s))"
  using assms backup_runs restore_runs shared_runs restore_shared_runs extends_trans by metis+

text \<open>The packages of the manifest, in order, are the same after every method.\<close>

lemma names_kept:
  "map pe_name (mf_packages (fst (be_backupAppData be adb dir ps m s))) = map pe_name (mf_packages m)"
  "map pe_name (mf_packages (fst (be_restoreAppData be adb dir m f s))) = map pe_name (mf_packages m)"
  "mf_packages (snd (fst (be_backupSharedStorage be adb dir m s))) = mf_packages m"
proof -
  show "map pe_name (mf_packages (fst (be_backupAppData be adb dir ps m s))) = map pe_name (mf_packages m)"
    using backup_frame by (simp add: app_data_frame_def)
  have "pe_name b = pe_name a" if "same_but_error a b" for a b
    using that by (cases a, cases b) (simp add: same_but_error_def)
  then have "list_all2 (\<lambda>a b. pe_name b = pe_name a) (mf_packages m) (mf_packages (fst (be_restoreAppData be adb dir m f s)))"
    using restore_entries by (rule list_all2_mono [rotated])
  then show "map pe_name (mf_packages (fst (be_restoreAppData be adb dir m f s))) = map pe_name (mf_packages m)"
    by (simp add: list_all2_conv_all_nth list_eq_iff_nth_eq)
  show "mf_packages (snd (fst (be_backupSharedStorage be adb dir m s))) = mf_packages m"
    using shared_none [of adb dir m s] shared_some [of adb dir m s]
    by (cases "fst (fst (be_backupSharedStorage be adb dir m s))") (auto simp: shared_frame_def)
qed

end

end
