(* ===== verification/StandardBackend.thy ===== *)
theory StandardBackend
  imports IBackupBackend
begin

text \<open>
  \<open>include/abp/StandardBackend.h\<close> and \<open>src/src/backup/StandardBackend.cpp\<close>: what can be had without
  root, debuggable apps through \<open>run-as\<close>, everything else through one legacy \<open>adb backup\<close> archive,
  and shared storage with \<open>adb pull\<close> and \<open>adb push\<close>.
\<close>

section \<open>Capturing\<close>

definition runas_tar_cmd :: "string \<Rightarrow> string" where
  "runas_tar_cmd packageName =
     asPackage packageName (''tar -czf - -C /data/data '' @ shellQuote packageName) @ '' 2>/dev/null''"

definition captureViaRunAs ::
    "'w host \<Rightarrow> AdbClient \<Rightarrow> string \<Rightarrow> string \<Rightarrow> PackageBackupEntry \<Rightarrow> 'w sys \<Rightarrow>
     (bool \<times> PackageBackupEntry) \<times> 'w sys" where
  "captureViaRunAs h adb dataDir packageName entry s =
     (let fileName = sanitizeForFilename packageName @ ''.tar.gz'';
          localPath = path_join dataDir fileName;
          (ok, s1) = execOutToFile h adb (runas_tar_cmd packageName) localPath s
      in if \<not> ok then ((False, entry), fs_remove h localPath s1)
         else let size = fileSize h localPath s1
              in if size = 0 then ((False, entry), fs_remove h localPath s1)
                 else let (sum, s2) = checksumOrEmpty h localPath s1
                      in ((True, entry\<lparr>pe_dataIncluded := True, pe_dataCaptureMethod := RunAsTar,
                             pe_dataArchive := path_join ''data'' fileName, pe_dataArchiveBytes := size,
                             pe_dataArchiveSha256 := sum\<rparr>), s2))"

text \<open>The first loop: the manifest, \<open>remaining\<close>, and whether a cancel stopped it.\<close>

fun Standard_backup_loop ::
    "'w host \<Rightarrow> AdbClient \<Rightarrow> string \<Rightarrow> string list \<Rightarrow> nat \<Rightarrow> nat \<Rightarrow> PackageInfo list \<Rightarrow> Manifest \<Rightarrow> string list \<Rightarrow>
     'w sys \<Rightarrow> (Manifest \<times> string list \<times> bool) \<times> 'w sys" where
  "Standard_backup_loop h adb dataDir runAsNames n i [] manifest remaining s =
     ((manifest, remaining, False), progress ''Backing up app data'' n n [] s)"
| "Standard_backup_loop h adb dataDir runAsNames n i (pkg # rest) manifest remaining s =
     (let (stop, s1) = cancelRequested h s
      in if stop then ((manifest, remaining, True), s1)
         else
           let s2 = progress ''Backing up app data'' i n (pi_name pkg) s1
           in case findPackageEntry manifest (pi_name pkg) of
                None \<Rightarrow> Standard_backup_loop h adb dataDir runAsNames n (i + 1) rest manifest remaining s2
              | Some entry \<Rightarrow>
                  if pi_name pkg \<in> set runAsNames \<and> isValidPackageName (pi_name pkg) then
                    let ((captured, e), s3) = captureViaRunAs h adb dataDir (pi_name pkg) entry s2
                    in if captured
                       then Standard_backup_loop h adb dataDir runAsNames n (i + 1) rest
                              (updatePackageEntry manifest (pi_name pkg) (\<lambda>_. e)) remaining s3
                       else Standard_backup_loop h adb dataDir runAsNames n (i + 1) rest manifest
                              (remaining @ [pi_name pkg]) s3
                  else Standard_backup_loop h adb dataDir runAsNames n (i + 1) rest manifest
                         (remaining @ [pi_name pkg]) s2)"

definition set_error :: "string \<Rightarrow> PackageBackupEntry \<Rightarrow> PackageBackupEntry" where
  "set_error msg e = e\<lparr>pe_error := msg\<rparr>"

definition mark_legacy :: "PackageBackupEntry \<Rightarrow> PackageBackupEntry" where
  "mark_legacy e = e\<lparr>pe_dataIncluded := True, pe_dataCaptureMethod := LegacyAdbBackup\<rparr>"

text \<open>\<open>if (auto* entry = findPackageEntry(...))\<close> for each name in turn.\<close>

definition update_entries :: "(PackageBackupEntry \<Rightarrow> PackageBackupEntry) \<Rightarrow> string list \<Rightarrow> Manifest \<Rightarrow> Manifest" where
  "update_entries f names manifest = foldl (\<lambda>m n. updatePackageEntry m n f) manifest names"

definition no_archive_error :: string where
  "no_archive_error =
     ''not debuggable (no '' @ apostrophe @ ''run-as'' @ apostrophe @ '' access) and adb backup produced no archive '' @
     ''(declined on-device, or unsupported on this Android version)''"

definition announce_legacy :: "'w host \<Rightarrow> string list \<Rightarrow> 'w sys \<Rightarrow> 'w sys" where
  "announce_legacy h remaining s =
     log_warn h (''Legacy '' @ apostrophe @ ''adb backup'' @ apostrophe @
         '' skips apps with android:allowBackup='' @ [CHR 0x22] @ ''false'' @ [CHR 0x22] @
         '', and on Android 12 and later it also skips app data unless the app explicitly opts in. '' @
         ''Expect gaps -- see the coverage table in README.md.'')
       (log_info h (''If your device shows a '' @ apostrophe @ ''Back up my data'' @ apostrophe @
           '' confirmation, unlock it and confirm now.'')
         (log_info h (''Requesting a legacy '' @ apostrophe @ ''adb backup'' @ apostrophe @
             '' for the remaining '' @ nat_to_string (length remaining) @ '' package(s).'') s))"

definition legacy_step ::
    "'w host \<Rightarrow> AdbClient \<Rightarrow> string \<Rightarrow> string list \<Rightarrow> Manifest \<Rightarrow> 'w sys \<Rightarrow> Manifest \<times> 'w sys" where
  "legacy_step h adb outDir remaining manifest s =
     (let abPath = path_join outDir ''legacy_backup.ab'';
          (success, s1) = backupToFile h adb abPath remaining False False (announce_legacy h remaining s)
      in if \<not> success then
           (update_entries (set_error no_archive_error) remaining manifest, fs_remove h abPath s1)
         else
           (update_entries mark_legacy remaining (manifest\<lparr>mf_legacyAdbBackupFile := ''legacy_backup.ab''\<rparr>), s1))"

text \<open>Step 1 up to the loop: who answers \<open>run-as\<close>, and the directory their archives go to.\<close>

definition find_runas ::
    "'w host \<Rightarrow> AdbClient \<Rightarrow> string \<Rightarrow> PackageInfo list \<Rightarrow> 'w sys \<Rightarrow> string list \<times> 'w sys" where
  "find_runas h adb outDir packages s =
     (let s1 = log_info h (''Checking which packages are reachable via '' @ apostrophe @ ''run-as'' @ apostrophe @ ''...'') s;
          (runAsNames, s2) = packagesSupportingRunAs h adb (map pi_name packages) s1
      in (runAsNames,
          if runAsNames \<noteq> [] then
            snd (ensureDirectory h (path_join outDir ''data'')
              (log_info h (''Capturing '' @ nat_to_string (length runAsNames) @
                 '' debuggable package(s) directly via '' @ apostrophe @ ''run-as'' @ apostrophe @ ''.'') s2))
          else s2))"

definition Standard_backupAppData ::
    "'w host \<Rightarrow> AdbClient \<Rightarrow> string \<Rightarrow> PackageInfo list \<Rightarrow> Manifest \<Rightarrow> 'w sys \<Rightarrow> Manifest \<times> 'w sys" where
  "Standard_backupAppData h adb outDir packages manifest s =
     (if packages = [] then (manifest, s)
      else
        let (runAsNames, s1) = find_runas h adb outDir packages s;
            ((m1, remaining, stopped), s2) =
              Standard_backup_loop h adb (path_join outDir ''data'') runAsNames (length packages) 0 packages manifest [] s1
        in if stopped then (m1, s2)
           else if remaining = [] then
             (m1, log_info h (''Every selected package was captured via '' @ apostrophe @ ''run-as'' @ apostrophe @
                    ''; no legacy '' @ apostrophe @ ''adb backup'' @ apostrophe @ '' needed.'') s2)
           else legacy_step h adb outDir remaining m1 s2)"

section \<open>Restoring\<close>

definition selected :: "string list \<Rightarrow> string \<Rightarrow> bool" where
  "selected packageFilter name \<longleftrightarrow> packageFilter = [] \<or> name \<in> set packageFilter"

definition runas_extract_cmd :: "string \<Rightarrow> string" where
  "runas_extract_cmd name = asPackage name ''tar -xzf - -C /data/data'' @ '' 2>/dev/null''"

definition stop_cmd :: "string \<Rightarrow> string" where
  "stop_cmd name = ''am force-stop '' @ shellQuote name @ '' 2>/dev/null''"

text \<open>One \<open>run-as\<close> entry, after the capture method was looked at; the flag is \<open>++runAsRestored\<close>.\<close>

definition restoreViaRunAs ::
    "'w host \<Rightarrow> AdbClient \<Rightarrow> string \<Rightarrow> PackageBackupEntry \<Rightarrow> 'w sys \<Rightarrow> (PackageBackupEntry \<times> bool) \<times> 'w sys" where
  "restoreViaRunAs h adb backupDir entry s =
     (if \<not> isValidPackageName (pe_name entry) then
        ((set_error ''invalid package name, skipped restore'' entry, False), s)
      else
        let archivePath = path_join backupDir (pe_dataArchive entry)
        in if \<not> h_exists h archivePath (world s) then
             ((set_error (''data archive missing on disk: '' @ pe_dataArchive entry) entry, False), s)
           else if \<not> checksumMatches h archivePath (pe_dataArchiveSha256 entry) s then
             ((set_error ''checksum mismatch for data archive, refusing to restore'' entry, False), s)
           else
             let (_, s1) = shell h adb (stop_cmd (pe_name entry)) s;
                 (ok, s2) = shellFromFile h adb (runas_extract_cmd (pe_name entry)) archivePath s1
             in if \<not> ok then
                  ((set_error (''failed to extract app data archive via '' @ apostrophe @ ''run-as'' @ apostrophe @
                      '' (is the app still debuggable?)'') entry, False), s2)
                else ((entry, True), s2))"

record standard_restore =
  sr_entries :: "PackageBackupEntry list"
  sr_restored :: nat
  sr_anyLegacy :: bool
  sr_stopped :: bool

text \<open>The first loop of \<open>restoreAppData\<close>; a cancel keeps the entries not reached as they are.\<close>

fun Standard_restore_loop ::
    "'w host \<Rightarrow> AdbClient \<Rightarrow> string \<Rightarrow> string list \<Rightarrow> PackageBackupEntry list \<Rightarrow> 'w sys \<Rightarrow> standard_restore \<times> 'w sys" where
  "Standard_restore_loop h adb backupDir packageFilter [] s =
     (\<lparr>sr_entries = [], sr_restored = 0, sr_anyLegacy = False, sr_stopped = False\<rparr>, s)"
| "Standard_restore_loop h adb backupDir packageFilter (entry # rest) s =
     (if \<not> pe_dataIncluded entry \<or> \<not> selected packageFilter (pe_name entry) then
        let (r, s1) = Standard_restore_loop h adb backupDir packageFilter rest s
        in (r\<lparr>sr_entries := entry # sr_entries r\<rparr>, s1)
      else
        let (stop, s1) = cancelRequested h s
        in if stop then
             (\<lparr>sr_entries = entry # rest, sr_restored = 0, sr_anyLegacy = False, sr_stopped = True\<rparr>, s1)
           else if pe_dataCaptureMethod entry = LegacyAdbBackup then
             let (r, s2) = Standard_restore_loop h adb backupDir packageFilter rest s1
             in (r\<lparr>sr_entries := entry # sr_entries r, sr_anyLegacy := True\<rparr>, s2)
           else if pe_dataCaptureMethod entry \<noteq> RunAsTar \<or> pe_dataArchive entry = [] then
             let (r, s2) = Standard_restore_loop h adb backupDir packageFilter rest s1
             in (r\<lparr>sr_entries := entry # sr_entries r\<rparr>, s2)
           else
             let ((e, done1), s2) = restoreViaRunAs h adb backupDir entry s1;
                 (r, s3) = Standard_restore_loop h adb backupDir packageFilter rest s2
             in (r\<lparr>sr_entries := e # sr_entries r,
                   sr_restored := (if done1 then 1 else 0) + sr_restored r\<rparr>, s3))"

definition fail_legacy :: "string list \<Rightarrow> string \<Rightarrow> PackageBackupEntry \<Rightarrow> PackageBackupEntry" where
  "fail_legacy packageFilter msg e =
     (if pe_dataCaptureMethod e = LegacyAdbBackup \<and> selected packageFilter (pe_name e) then set_error msg e else e)"

definition announce_restore :: "'w host \<Rightarrow> string list \<Rightarrow> Manifest \<Rightarrow> 'w sys \<Rightarrow> 'w sys" where
  "announce_restore h packageFilter manifest s =
     (let anyLegacyDeselected = list_ex (\<lambda>e. pe_dataCaptureMethod e = LegacyAdbBackup \<and>
            \<not> selected packageFilter (pe_name e)) (mf_packages manifest);
          s1 = (if anyLegacyDeselected then
                  log_warn h (''Some deselected packages share the legacy '' @ apostrophe @ ''adb backup'' @ apostrophe @
                    '' archive, which '' @ apostrophe @ ''adb restore'' @ apostrophe @
                    '' can only restore as a whole -- their data will come back too. Only packages captured via '' @
                    apostrophe @ ''run-as'' @ apostrophe @ '' can be restored selectively.'') s
                else s)
      in log_info h (''Requesting a legacy '' @ apostrophe @ ''adb restore'' @ apostrophe @
           ''. Unlock the device and confirm '' @ apostrophe @ ''Restore my data'' @ apostrophe @ '' now.'') s1)"

definition legacy_restore ::
    "'w host \<Rightarrow> AdbClient \<Rightarrow> string \<Rightarrow> string list \<Rightarrow> Manifest \<Rightarrow> 'w sys \<Rightarrow> Manifest \<times> 'w sys" where
  "legacy_restore h adb backupDir packageFilter manifest s =
     (let abPath = path_join backupDir (mf_legacyAdbBackupFile manifest)
      in if \<not> h_exists h abPath (world s) then
           (manifest\<lparr>mf_packages := map (fail_legacy packageFilter
              (''legacy backup archive missing: '' @ mf_legacyAdbBackupFile manifest)) (mf_packages manifest)\<rparr>,
            log_error h (''Legacy backup archive missing: '' @ abPath) s)
         else
           let (ok, s3) = restoreFromFile h adb abPath (announce_restore h packageFilter manifest s)
           in if ok then (manifest, s3)
              else (manifest\<lparr>mf_packages := map (fail_legacy packageFilter
                      ''adb restore failed, or was declined on the device'') (mf_packages manifest)\<rparr>,
                    log_error h ''adb restore failed, or was declined on the device.'' s3))"

definition Standard_restoreAppData ::
    "'w host \<Rightarrow> AdbClient \<Rightarrow> string \<Rightarrow> Manifest \<Rightarrow> string list \<Rightarrow> 'w sys \<Rightarrow> Manifest \<times> 'w sys" where
  "Standard_restoreAppData h adb backupDir manifest packageFilter s =
     (let (r, s1) = Standard_restore_loop h adb backupDir packageFilter (mf_packages manifest) s;
          m1 = manifest\<lparr>mf_packages := sr_entries r\<rparr>
      in if sr_stopped r then (m1, s1)
         else
           let s2 = (if 0 < sr_restored r then
                       log_info h (''Restored '' @ nat_to_string (sr_restored r) @ '' package(s) directly via '' @
                         apostrophe @ ''run-as'' @ apostrophe @ ''.'') s1
                     else s1)
           in if mf_legacyAdbBackupFile manifest = [] \<or> \<not> sr_anyLegacy r then (m1, s2)
              else legacy_restore h adb backupDir packageFilter m1 s2)"

section \<open>Shared storage\<close>

definition Standard_backupSharedStorage ::
    "'w host \<Rightarrow> AdbClient \<Rightarrow> string \<Rightarrow> Manifest \<Rightarrow> 'w sys \<Rightarrow> (bool \<times> Manifest) \<times> 'w sys" where
  "Standard_backupSharedStorage h adb outDir manifest s =
     (let localDir = path_join outDir ''shared_storage'';
          s1 = fs_remove_all h localDir s;
          s2 = log_info h ''Pulling shared storage from /sdcard (this can take a while for large media libraries).'' s1;
          ((ok, sawErrors, errorText), s3) = pullTree h adb ''/sdcard'' localDir s2;
          size = directorySize h localDir s3
      in if size = 0 then
           ((False, manifest),
            fs_remove_all h localDir
              (if errorText \<noteq> [] then log_warn h (''adb pull /sdcard failed: '' @ take 500 errorText) s3 else s3))
         else
           ((True, manifest\<lparr>mf_sharedStorageIncluded := True, mf_sharedStorageIsDirectory := True,
                mf_sharedStorageArchive := ''shared_storage'', mf_sharedStorageArchiveBytes := size,
                mf_sharedStorageArchiveSha256 := []\<rparr>),
            if \<not> ok \<or> sawErrors then
              log_warn h (''Shared storage was only partly readable; '' @ formatBytes size @ '' were captured.'' @
                (if errorText = [] then [] else '' adb said: '' @ take 500 errorText)) s3
            else s3))"

text \<open>
  The push loop: \<open>allOk\<close> and \<open>pushed\<close>.  An error while listing makes the iterator the end iterator
  (\<open>directory_iterator::increment\<close>), so the loop just ends and the \<open>if (ec)\<close> in its body never runs.
  The system's error text, appended to the message of a listing that cannot start, is left out.
\<close>

fun push_loop :: "'w host \<Rightarrow> AdbClient \<Rightarrow> dirent list \<Rightarrow> bool \<Rightarrow> nat \<Rightarrow> 'w sys \<Rightarrow> (bool \<times> nat) \<times> 'w sys" where
  "push_loop h adb [] allOk pushed s = ((allOk, pushed), s)"
| "push_loop h adb (e # es) allOk pushed s =
     (let (ok, s1) = push h adb (de_path e) ''/sdcard'' s
      in if \<not> ok then push_loop h adb es False pushed (log_error h (''Failed to push '' @ de_path e @ '' to /sdcard'') s1)
         else push_loop h adb es allOk (pushed + 1) s1)"

definition Standard_restoreSharedStorage ::
    "'w host \<Rightarrow> AdbClient \<Rightarrow> string \<Rightarrow> Manifest \<Rightarrow> 'w sys \<Rightarrow> bool \<times> 'w sys" where
  "Standard_restoreSharedStorage h adb backupDir manifest s =
     (if \<not> mf_sharedStorageIncluded manifest then (False, s)
      else if \<not> mf_sharedStorageIsDirectory manifest then
        (False, log_error h (''This backup'' @ apostrophe @ ''s shared storage is a tar archive captured in root mode; '' @
           ''it cannot be restored through the standard backend.'') s)
      else
        let localDir = path_join backupDir (mf_sharedStorageArchive manifest)
        in if \<not> h_exists h localDir (world s) \<or> \<not> h_is_directory h localDir (world s) then (False, s)
           else
             let s1 = log_info h ''Pushing shared storage back to /sdcard.'' s
             in case h_list h localDir (world s1) of
                  None \<Rightarrow> (False, log_error h (''Could not read '' @ localDir) s1)
                | Some entries \<Rightarrow>
                    let ((allOk, pushed), s2) = push_loop h adb entries True 0 s1
                    in if pushed = 0 then
                         (False, log_warn h (''Shared storage directory '' @ localDir @
                            '' is empty; nothing was pushed.'') s2)
                       else (allOk, s2))"

definition standard_backend :: "'w host \<Rightarrow> 'w backend" where
  "standard_backend h =
     \<lparr>be_name = ''standard'', be_backupAppData = Standard_backupAppData h,
      be_restoreAppData = Standard_restoreAppData h, be_backupSharedStorage = Standard_backupSharedStorage h,
      be_restoreSharedStorage = Standard_restoreSharedStorage h\<rparr>"

section \<open>The backend contract\<close>

lemma chain_captureViaRunAs [chain]:
  "extends (execs_only (to_device adb)) s0 s \<Longrightarrow>
   extends (execs_only (to_device adb)) s0 (snd (captureViaRunAs h adb dataDir name e s))"
  by (auto simp: captureViaRunAs_def split_beta Let_def intro!: chain)

lemma captureViaRunAs_entry:
  "pe_name (snd (fst (captureViaRunAs h adb dataDir name e s))) = pe_name e"
  "entry_wf e \<Longrightarrow> fst (fst (captureViaRunAs h adb dataDir name e s)) \<Longrightarrow>
   entry_wf (snd (fst (captureViaRunAs h adb dataDir name e s)))"
  "fst (fst (captureViaRunAs h adb dataDir name e s)) \<Longrightarrow>
   pe_dataIncluded (snd (fst (captureViaRunAs h adb dataDir name e s)))"
  by (auto simp: captureViaRunAs_def split_beta Let_def entry_wf_def path_join_def split: if_splits)

lemma chain_Standard_backup_loop [chain]:
  "extends (execs_only (to_device adb)) s0 s \<Longrightarrow>
   extends (execs_only (to_device adb)) s0 (snd (Standard_backup_loop h adb dataDir names n i ps mf rem s))"
proof (induction ps arbitrary: i mf rem s)
  case Nil
  then show ?case by (auto intro: chain)
next
  case (Cons p ps)
  then show ?case by (auto simp: split_beta Let_def intro!: Cons.IH chain split: option.split)
qed

lemma Standard_backup_loop_frame:
  "app_data_frame mf (fst (fst (Standard_backup_loop h adb dataDir names n i ps mf rem s)))"
proof (induction ps arbitrary: i mf rem s)
  case (Cons p ps)
  let ?s2 = "progress ''Backing up app data'' i n (pi_name p) (snd (cancelRequested h s))"
  show ?case
  proof (cases "findPackageEntry mf (pi_name p)")
    case (Some e)
    then have "app_data_frame mf (updatePackageEntry mf (pi_name p)
        (\<lambda>_. snd (fst (captureViaRunAs h adb dataDir (pi_name p) e ?s2))))"
      using findPackageEntry_SomeD by (intro app_data_frame_update) (simp add: captureViaRunAs_entry)
    then show ?thesis
      using Some Cons.IH app_data_frame_trans by (auto simp: split_beta Let_def)
  qed (use Cons.IH in \<open>simp add: split_beta Let_def\<close>)
qed simp

lemma Standard_backup_loop_wf:
  "entries_wf mf \<Longrightarrow> entries_wf (fst (fst (Standard_backup_loop h adb dataDir names n i ps mf rem s)))"
proof (induction ps arbitrary: i mf rem s)
  case (Cons p ps)
  then show ?case
    by (auto simp: split_beta Let_def captureViaRunAs_entry dest: entries_wf_find
        intro!: Cons.IH entries_wf_update split: option.split)
qed simp

lemma update_entries_induct:
  assumes "P mf" "\<And>m n. P m \<Longrightarrow> P (updatePackageEntry m n f)"
  shows "P (update_entries f names mf)"
  using assms(1) unfolding update_entries_def by (induction names arbitrary: mf) (auto intro: assms(2))

lemma update_entries_frame:
  "(\<And>e. pe_name (f e) = pe_name e) \<Longrightarrow> app_data_frame mf (update_entries f names mf)"
  by (rule update_entries_induct) (auto intro: app_data_frame_trans [OF _ app_data_frame_update(2)])

lemma update_entries_wf:
  "entries_wf mf \<Longrightarrow> (\<And>e. entry_wf e \<Longrightarrow> entry_wf (f e)) \<Longrightarrow> entries_wf (update_entries f names mf)"
  by (rule update_entries_induct) (auto intro: entries_wf_update)

lemma chain_announce_legacy [chain]:
  "extends (execs_only P) s0 s \<Longrightarrow> extends (execs_only P) s0 (announce_legacy h rem s)"
  unfolding announce_legacy_def by (intro chain)

lemma legacy_step_contract:
  "extends (execs_only (to_device adb)) s0 s \<Longrightarrow>
   extends (execs_only (to_device adb)) s0 (snd (legacy_step h adb outDir rem mf s))"
  "app_data_frame mf (fst (legacy_step h adb outDir rem mf s))"
  "entries_wf mf \<Longrightarrow> entries_wf (fst (legacy_step h adb outDir rem mf s))"
proof -
  show "extends (execs_only (to_device adb)) s0 s \<Longrightarrow>
      extends (execs_only (to_device adb)) s0 (snd (legacy_step h adb outDir rem mf s))"
    unfolding legacy_step_def Let_def split_beta by (simp split: if_split) (intro conjI impI chain; assumption)
  show "app_data_frame mf (fst (legacy_step h adb outDir rem mf s))"
  proof -
    have err: "app_data_frame mf (update_entries (set_error x) rem mf)" for x
      by (rule update_entries_frame) (simp add: set_error_def)
    have "app_data_frame (mf\<lparr>mf_legacyAdbBackupFile := x\<rparr>)
        (update_entries mark_legacy rem (mf\<lparr>mf_legacyAdbBackupFile := x\<rparr>))" for x
      by (rule update_entries_frame) (simp add: mark_legacy_def)
    then have "app_data_frame mf (update_entries mark_legacy rem (mf\<lparr>mf_legacyAdbBackupFile := x\<rparr>))" for x
      by (rule app_data_frame_trans [OF app_data_frame_legacy])
    with err show ?thesis by (simp add: legacy_step_def split_beta Let_def)
  qed
  show "entries_wf mf \<Longrightarrow> entries_wf (fst (legacy_step h adb outDir rem mf s))"
    by (auto simp: legacy_step_def split_beta Let_def set_error_def mark_legacy_def entry_wf_def
        intro!: update_entries_wf)
qed

lemma restoreViaRunAs_entry: "same_but_error e (fst (fst (restoreViaRunAs h adb dir e s)))"
  by (simp add: restoreViaRunAs_def split_beta Let_def set_error_def)

lemma chain_restoreViaRunAs [chain]:
  "extends (execs_only (to_device adb)) s0 s \<Longrightarrow>
   extends (execs_only (to_device adb)) s0 (snd (restoreViaRunAs h adb dir e s))"
  by (auto simp: restoreViaRunAs_def split_beta Let_def intro!: chain)

lemma chain_Standard_restore_loop [chain]:
  "extends (execs_only (to_device adb)) s0 s \<Longrightarrow>
   extends (execs_only (to_device adb)) s0 (snd (Standard_restore_loop h adb dir flt es s))"
proof (induction es arbitrary: s)
  case (Cons e es)
  then show ?case by (auto simp: split_beta Let_def intro!: Cons.IH chain)
qed simp

lemma Standard_restore_loop_entries:
  "list_all2 same_but_error es (sr_entries (fst (Standard_restore_loop h adb dir flt es s)))"
proof (induction es arbitrary: s)
  case (Cons e es)
  then show ?case by (auto simp: split_beta Let_def restoreViaRunAs_entry)
qed simp

lemma fail_legacy_entry: "same_but_error e (fail_legacy flt msg e)"
  by (simp add: fail_legacy_def set_error_def)

lemma list_all2_fail_legacy:
  "list_all2 same_but_error es fs \<Longrightarrow> list_all2 same_but_error es (map (fail_legacy flt msg) fs)"
  by (auto simp: list_all2_conv_all_nth intro: same_but_error_trans [OF _ fail_legacy_entry])

lemma chain_announce_restore [chain]:
  "extends (execs_only P) s0 s \<Longrightarrow> extends (execs_only P) s0 (announce_restore h flt mf s)"
  unfolding announce_restore_def Let_def by (intro chain) (auto intro: chain)

lemma legacy_restore_contract:
  "extends (execs_only (to_device adb)) s0 s \<Longrightarrow>
   extends (execs_only (to_device adb)) s0 (snd (legacy_restore h adb dir flt mf s))"
  "(fst (legacy_restore h adb dir flt mf s))\<lparr>mf_packages := x\<rparr> = mf\<lparr>mf_packages := x\<rparr>"
  "list_all2 same_but_error es (mf_packages mf) \<Longrightarrow>
   list_all2 same_but_error es (mf_packages (fst (legacy_restore h adb dir flt mf s)))"
  by (auto simp: legacy_restore_def split_beta Let_def list_all2_fail_legacy intro!: chain)

lemma chain_push_loop [chain]:
  "extends (execs_only (to_device adb)) s0 s \<Longrightarrow>
   extends (execs_only (to_device adb)) s0 (snd (push_loop h adb es ok k s))"
proof (induction es arbitrary: ok k s)
  case (Cons e es)
  then show ?case by (auto simp: split_beta Let_def intro!: Cons.IH chain)
qed simp

lemma chain_find_runas [chain]:
  "extends (execs_only (to_device adb)) s0 s \<Longrightarrow>
   extends (execs_only (to_device adb)) s0 (snd (find_runas h adb outDir ps s))"
  by (auto simp: find_runas_def split_beta Let_def intro!: chain)

interpretation standard: backup_backend "standard_backend h" for h
proof
  fix adb s dir ps f mf
  show "extends (execs_only (to_device adb)) s (snd (be_backupAppData (standard_backend h) adb dir ps mf s))"
    by (auto simp: standard_backend_def Standard_backupAppData_def split_beta Let_def
        intro!: chain legacy_step_contract(1))
  show "app_data_frame mf (fst (be_backupAppData (standard_backend h) adb dir ps mf s))"
    by (auto simp: standard_backend_def Standard_backupAppData_def split_beta Let_def
        intro: Standard_backup_loop_frame app_data_frame_trans [OF Standard_backup_loop_frame legacy_step_contract(2)])
  show "entries_wf (fst (be_backupAppData (standard_backend h) adb dir ps mf s))" if "entries_wf mf"
    using that by (auto simp: standard_backend_def Standard_backupAppData_def split_beta Let_def
        intro!: legacy_step_contract(3) Standard_backup_loop_wf)
  show "extends (execs_only (to_device adb)) s (snd (be_restoreAppData (standard_backend h) adb dir mf f s))"
    by (auto simp: standard_backend_def Standard_restoreAppData_def split_beta Let_def
        intro!: chain legacy_restore_contract(1))
  show "(fst (be_restoreAppData (standard_backend h) adb dir mf f s))\<lparr>mf_packages := mf_packages mf\<rparr> = mf"
    by (cases mf) (simp add: standard_backend_def Standard_restoreAppData_def split_beta Let_def legacy_restore_contract(2))
  show "list_all2 same_but_error (mf_packages mf)
      (mf_packages (fst (be_restoreAppData (standard_backend h) adb dir mf f s)))"
    using Standard_restore_loop_entries
    by (auto simp: standard_backend_def Standard_restoreAppData_def split_beta Let_def
        intro!: legacy_restore_contract(3))
  show "extends (execs_only (to_device adb)) s (snd (be_backupSharedStorage (standard_backend h) adb dir mf s))"
    by (auto simp: standard_backend_def Standard_backupSharedStorage_def split_beta Let_def intro!: chain)
  show "snd (fst (be_backupSharedStorage (standard_backend h) adb dir mf s)) = mf"
    if "\<not> fst (fst (be_backupSharedStorage (standard_backend h) adb dir mf s))"
    using that by (auto simp: standard_backend_def Standard_backupSharedStorage_def split_beta Let_def split: if_splits)
  show "shared_frame mf (snd (fst (be_backupSharedStorage (standard_backend h) adb dir mf s)))"
    if "fst (fst (be_backupSharedStorage (standard_backend h) adb dir mf s))"
    using that by (auto simp: standard_backend_def Standard_backupSharedStorage_def split_beta Let_def shared_frame_def
        split: if_splits)
  show "extends (execs_only (to_device adb)) s (snd (be_restoreSharedStorage (standard_backend h) adb dir mf s))"
    by (auto simp: standard_backend_def Standard_restoreSharedStorage_def split_beta Let_def
        intro!: chain split: option.split)
  show "be_restoreSharedStorage (standard_backend h) adb dir mf s = (False, s)" if "\<not> mf_sharedStorageIncluded mf"
    using that by (simp add: standard_backend_def Standard_restoreSharedStorage_def)
qed

section \<open>Every package is accounted for\<close>

lemma find_update:
  assumes "\<And>e. pe_name e = k \<Longrightarrow> pe_name (f e) = k"
  shows "findPackageEntry (updatePackageEntry m k f) n =
    (if n = k then map_option f (findPackageEntry m n) else findPackageEntry m n)"
proof -
  have "find (\<lambda>e. pe_name e = n) (update_first k f es) =
      (if n = k then map_option f (find (\<lambda>e. pe_name e = n) es) else find (\<lambda>e. pe_name e = n) es)" for es
    by (induction es) (auto simp: assms)
  then show ?thesis by (simp add: findPackageEntry_def updatePackageEntry_def)
qed

lemma find_update_entries:
  assumes "\<And>e. pe_name (f e) = pe_name e" "\<And>e. P (f e)"
  shows "findPackageEntry (update_entries f names m) n = Some e \<Longrightarrow>
    (findPackageEntry m n = Some e \<and> n \<notin> set names) \<or> P e"
proof (induction names arbitrary: m)
  case (Cons k names)
  then have "(findPackageEntry (updatePackageEntry m k f) n = Some e \<and> n \<notin> set names) \<or> P e"
    by (simp add: update_entries_def)
  with assms show ?case by (auto simp: find_update split: if_splits)
qed (simp add: update_entries_def)

definition accounted :: "Manifest \<Rightarrow> string list \<Rightarrow> string \<Rightarrow> bool" where
  "accounted m remaining n \<longleftrightarrow> (\<forall>e. findPackageEntry m n = Some e \<longrightarrow> pe_dataIncluded e \<or> n \<in> set remaining)"

lemma Standard_backup_loop_accounts:
  assumes "\<forall>s. \<not> fst (cancelRequested h s)"
  shows "\<forall>n\<in>S. accounted mf rem n \<Longrightarrow>
    (\<forall>n\<in>S \<union> pi_name ` set ps.
       accounted (fst (fst (Standard_backup_loop h adb dataDir names k i ps mf rem s)))
         (fst (snd (fst (Standard_backup_loop h adb dataDir names k i ps mf rem s)))) n) \<and>
    \<not> snd (snd (fst (Standard_backup_loop h adb dataDir names k i ps mf rem s)))"
proof (induction ps arbitrary: i mf rem s S)
  case (Cons p ps)
  let ?n = "pi_name p"
  let ?s2 = "progress ''Backing up app data'' i k ?n (snd (cancelRequested h s))"
  have more_rem: "\<forall>n\<in>insert ?n S. accounted mf (rem @ [?n]) n"
    using Cons.prems by (auto simp: accounted_def)
  show ?case
  proof (cases "findPackageEntry mf ?n")
    case None
    then have "\<forall>n\<in>insert ?n S. accounted mf rem n" using Cons.prems by (auto simp: accounted_def)
    from Cons.IH [OF this] None assms show ?thesis by (simp add: split_beta Let_def)
  next
    case (Some e)
    let ?c = "captureViaRunAs h adb dataDir ?n e ?s2"
    show ?thesis
    proof (cases "?n \<in> set names \<and> isValidPackageName ?n \<and> fst (fst ?c)")
      case True
      have "pe_name (snd (fst ?c)) = ?n" using findPackageEntry_SomeD [OF Some] by (simp add: captureViaRunAs_entry)
      then have "\<forall>n\<in>insert ?n S. accounted (updatePackageEntry mf ?n (\<lambda>_. snd (fst ?c))) rem n"
        using Cons.prems captureViaRunAs_entry(3) True by (auto simp: accounted_def find_update)
      from Cons.IH [OF this] Some True assms show ?thesis by (simp add: split_beta Let_def)
    next
      case False
      from Cons.IH [OF more_rem] Some False assms show ?thesis by (auto simp: split_beta Let_def)
    qed
  qed
qed simp

text \<open>C34: a standard-mode backup that is not cancelled leaves no package unexplained: for every
  package given that has an entry, the entry afterwards either says its data is included or carries
  an error saying why it is not.\<close>

theorem standard_backup_accounts:
  assumes "\<forall>s. \<not> fst (cancelRequested h s)" and "p \<in> set packages"
    and "findPackageEntry (fst (Standard_backupAppData h adb outDir packages manifest s)) (pi_name p) = Some e"
  shows "pe_dataIncluded e \<or> pe_error e \<noteq> []"
proof -
  obtain names s3 where f: "find_runas h adb outDir packages s = (names, s3)" by (metis surj_pair)
  obtain m1 rem stopped s4 where l: "Standard_backup_loop h adb (path_join outDir ''data'') names (length packages) 0
      packages manifest [] s3 = ((m1, rem, stopped), s4)" by (metis surj_pair)
  have acc: "accounted m1 rem (pi_name p)" "\<not> stopped"
    using Standard_backup_loop_accounts [OF assms(1), of "{}" manifest "[]" packages adb "path_join outDir ''data''"
        names "length packages" 0 s3] l assms(2) by auto
  have r: "fst (Standard_backupAppData h adb outDir packages manifest s) =
      (if rem = [] then m1 else fst (legacy_step h adb outDir rem m1 s4))"
    using assms(2) f l acc(2) by (auto simp: Standard_backupAppData_def)
  show ?thesis
  proof (cases "rem = []")
    case True
    with r acc assms(3) show ?thesis by (simp add: accounted_def)
  next
    case False
    then have e: "findPackageEntry (fst (legacy_step h adb outDir rem m1 s4)) (pi_name p) = Some e"
      using r assms(3) by simp
    have err: "no_archive_error \<noteq> []" by (simp add: no_archive_error_def)
    have "pe_dataIncluded e \<or> pe_error e \<noteq> []"
      if "findPackageEntry (update_entries (set_error no_archive_error) rem m1) (pi_name p) = Some e"
      using find_update_entries [OF _ _ that, of "\<lambda>e. pe_error e \<noteq> []"] acc(1) err
      by (auto simp: set_error_def accounted_def)
    moreover have "pe_dataIncluded e"
      if "findPackageEntry (update_entries mark_legacy rem (m1\<lparr>mf_legacyAdbBackupFile := x\<rparr>)) (pi_name p) = Some e" for x
      using find_update_entries [OF _ _ that, of pe_dataIncluded] acc(1)
      by (auto simp: mark_legacy_def accounted_def findPackageEntry_def)
    ultimately show ?thesis using e by (auto simp: legacy_step_def split_beta Let_def split: if_splits)
  qed
qed

text \<open>One installed app, nothing reachable through \<open>run-as\<close>.\<close>

definition one_package :: PackageInfo where
  "one_package = \<lparr>pi_name = ''a.b'', pi_apkPaths = [], pi_isSystemApp = False, pi_hasData = True\<rparr>"

theorem standard_backup_accounts_witness:
  "\<exists>e. findPackageEntry (fst (Standard_backupAppData quiet_host (client ''X'') ''b'' [one_package]
        (default_manifest\<lparr>mf_packages := [default_entry\<lparr>pe_name := ''a.b''\<rparr>]\<rparr>) quiet_sys)) (pi_name one_package) = Some e \<and>
     (pe_dataIncluded e \<or> pe_error e \<noteq> [])"
proof -
  let ?m = "fst (Standard_backupAppData quiet_host (client ''X'') ''b'' [one_package]
    (default_manifest\<lparr>mf_packages := [default_entry\<lparr>pe_name := ''a.b''\<rparr>]\<rparr>) quiet_sys)"
  have "\<forall>s. \<not> fst (cancelRequested quiet_host s)" by (simp add: cancelRequested_def quiet_host_def)
  moreover have "findPackageEntry ?m (pi_name one_package) \<noteq> None" by code_simp
  ultimately show ?thesis using standard_backup_accounts [of quiet_host one_package "[one_package]"] by auto
qed

section \<open>What a restore may run\<close>

definition runas_extract_tokens :: "string \<Rightarrow> sh_token list" where
  "runas_extract_tokens n =
     [Word ''run-as'', Word n, Word ''tar'', Word ''-xzf'', Word ''-'', Word ''-C'', Word ''/data/data''] @ dev_null"

definition stop_tokens :: "string \<Rightarrow> sh_token list" where
  "stop_tokens n = [Word ''am'', Word ''force-stop'', Word n] @ dev_null"

lemma standard_commands [simp]:
  "sh_words (runas_extract_cmd n) = Some (runas_extract_tokens n)"
  "sh_words (stop_cmd n) = Some (stop_tokens n)"
  by (rule sh_words_walk, simp add: runas_extract_cmd_def stop_cmd_def asPackage_def sh_walk,
      simp add: runas_extract_tokens_def stop_tokens_def dev_null_def)+

text \<open>
  The calls a restore may make: for an entry captured through \<open>run-as\<close>, stopping its app and
  extracting its own archive, if that matches its checksum on the files of \<open>s0\<close>; and one
  \<open>adb restore\<close> of the legacy archive.
\<close>

definition runas_call :: "'w host \<Rightarrow> AdbClient \<Rightarrow> string \<Rightarrow> 'w sys \<Rightarrow> PackageBackupEntry \<Rightarrow> proc_io \<Rightarrow> string list \<Rightarrow> bool" where
  "runas_call h adb dir s0 e io args \<longleftrightarrow>
     isValidPackageName (pe_name e) \<and>
     (\<exists>cmd. args = baseArgs adb @ [''shell'', cmd] \<and>
        (io = Capture None \<and> sh_words cmd = Some (stop_tokens (pe_name e)) \<or>
         io = FromFile (path_join dir (pe_dataArchive e)) \<and> sh_words cmd = Some (runas_extract_tokens (pe_name e)) \<and>
         checksumMatches h (path_join dir (pe_dataArchive e)) (pe_dataArchiveSha256 e) s0))"

definition standard_restore_call ::
    "'w host \<Rightarrow> AdbClient \<Rightarrow> string \<Rightarrow> 'w sys \<Rightarrow> string list \<Rightarrow> Manifest \<Rightarrow> proc_io \<Rightarrow> string list \<Rightarrow> bool" where
  "standard_restore_call h adb dir s0 flt m io args \<longleftrightarrow>
     (\<exists>e\<in>set (mf_packages m). pe_dataIncluded e \<and> pe_dataCaptureMethod e = RunAsTar \<and> selected flt (pe_name e) \<and>
        runas_call h adb dir s0 e io args) \<or>
     (mf_legacyAdbBackupFile m \<noteq> [] \<and>
      (\<exists>e\<in>set (mf_packages m). pe_dataCaptureMethod e = LegacyAdbBackup \<and> selected flt (pe_name e)) \<and>
      io = Capture None \<and> args = baseArgs adb @ [''restore'', path_join dir (mf_legacyAdbBackupFile m)])"

lemma chain_restoreViaRunAs_call:
  assumes "extends (execs_only P) t s" "same_files h s0 s" "\<And>io args. runas_call h adb dir s0 e io args \<Longrightarrow> P io args"
  shows "extends (execs_only P) t (snd (restoreViaRunAs h adb dir e s))"
proof (cases "isValidPackageName (pe_name e) \<and> checksumMatches h (path_join dir (pe_dataArchive e)) (pe_dataArchiveSha256 e) s")
  case False
  with assms(1) show ?thesis by (auto simp: restoreViaRunAs_def split_beta Let_def)
next
  case True
  then have "runas_call h adb dir s0 e (Capture None) (baseArgs adb @ [''shell'', stop_cmd (pe_name e)])"
    "runas_call h adb dir s0 e (FromFile (path_join dir (pe_dataArchive e)))
      (baseArgs adb @ [''shell'', runas_extract_cmd (pe_name e)])"
    using checksumMatches_same_files [OF assms(2)] by (auto simp: runas_call_def)
  with assms(1,3) show ?thesis
    unfolding restoreViaRunAs_def Let_def split_beta by (auto intro!: chain)
qed

lemma keep_restoreViaRunAs [keep]:
  "files_kept h \<Longrightarrow> same_files h s0 s \<Longrightarrow> same_files h s0 (snd (restoreViaRunAs h adb dir e s))"
  by (auto simp: restoreViaRunAs_def split_beta Let_def intro!: keep)

lemma restore_loop_calls:
  assumes "files_kept h"
    and P: "\<And>e io args. e \<in> set es \<Longrightarrow> pe_dataIncluded e \<Longrightarrow> pe_dataCaptureMethod e = RunAsTar \<Longrightarrow>
      selected flt (pe_name e) \<Longrightarrow> runas_call h adb dir s0 e io args \<Longrightarrow> P io args"
  shows "extends (execs_only P) t s \<Longrightarrow> same_files h s0 s \<Longrightarrow>
    extends (execs_only P) t (snd (Standard_restore_loop h adb dir flt es s))"
  using P
proof (induction es arbitrary: s)
  case (Cons e es)
  have c: "extends (execs_only P) t (snd (cancelRequested h s))" "same_files h s0 (snd (cancelRequested h s))"
    using Cons.prems(1,2) assms(1) by (auto intro: chain keep)
  have tail: "extends (execs_only P) t u \<Longrightarrow> same_files h s0 u \<Longrightarrow>
      extends (execs_only P) t (snd (Standard_restore_loop h adb dir flt es u))" for u
    using Cons.IH Cons.prems(3) by auto
  show ?case
  proof (cases "pe_dataIncluded e \<and> selected flt (pe_name e) \<and> pe_dataCaptureMethod e = RunAsTar")
    case True
    let ?u = "snd (restoreViaRunAs h adb dir e (snd (cancelRequested h s)))"
    have "extends (execs_only P) t ?u"
      by (rule chain_restoreViaRunAs_call [OF c]) (use True Cons.prems(3) in auto)
    moreover have "same_files h s0 ?u" by (rule keep_restoreViaRunAs [OF assms(1) c(2)])
    ultimately show ?thesis using True c tail by (auto simp: split_beta Let_def)
  next
    case False
    with c Cons.prems(1,2) tail show ?thesis by (auto simp: split_beta Let_def)
  qed
qed simp

lemma sr_anyLegacy_entry:
  "sr_anyLegacy (fst (Standard_restore_loop h adb dir flt es s)) \<Longrightarrow>
   \<exists>e\<in>set es. pe_dataCaptureMethod e = LegacyAdbBackup \<and> selected flt (pe_name e)"
proof (induction es arbitrary: s)
  case (Cons e es)
  then show ?case by (fastforce simp: split_beta Let_def split: if_splits)
qed simp

text \<open>C33: a standard-mode restore of app data streams only verified archives: as long as child processes
  leave the backup's files alone, each command belongs to a selected \<open>run-as\<close> entry with a valid name,
  stops that app or extracts, as that app, its own archive whose checksum matches; the only other call is
  the legacy \<open>adb restore\<close>, made only when some selected package was captured that way.\<close>

theorem standard_restore_verified:
  assumes "files_kept h"
  shows "extends (execs_only (standard_restore_call h adb dir s flt manifest)) s
    (snd (Standard_restoreAppData h adb dir manifest flt s))"
proof -
  let ?P = "standard_restore_call h adb dir s flt manifest"
  have loop: "extends (execs_only ?P) s (snd (Standard_restore_loop h adb dir flt (mf_packages manifest) s))"
    by (rule restore_loop_calls [OF assms]) (auto simp: standard_restore_call_def)
  have legacy: "extends (execs_only ?P) s (snd (legacy_restore h adb dir flt m1 u))"
    if "extends (execs_only ?P) s u" "mf_legacyAdbBackupFile m1 = mf_legacyAdbBackupFile manifest"
      "sr_anyLegacy (fst (Standard_restore_loop h adb dir flt (mf_packages manifest) s))"
      "mf_legacyAdbBackupFile manifest \<noteq> []" for m1 u
  proof -
    have "?P (Capture None) (baseArgs adb @ [''restore'', path_join dir (mf_legacyAdbBackupFile m1)])"
      using that(2,4) sr_anyLegacy_entry [OF that(3)] by (auto simp: standard_restore_call_def)
    with that(1) show ?thesis unfolding legacy_restore_def Let_def split_beta by (auto intro!: chain)
  qed
  show ?thesis
    unfolding Standard_restoreAppData_def Let_def split_beta using loop by (auto intro!: legacy chain)
qed

theorem standard_restore_verified_witness:
  "extends (execs_only (standard_restore_call quiet_host (client ''X'') ''b'' quiet_sys [] one_app_manifest)) quiet_sys
    (snd (Standard_restoreAppData quiet_host (client ''X'') ''b'' one_app_manifest [] quiet_sys))"
  by (rule standard_restore_verified) (simp add: files_kept_def quiet_host_def)

lemma push_ok:
  "fst (push h c lp rp s) \<Longrightarrow>
   EvExec (Capture None) (baseArgs c @ [''push'', lp, rp]) \<in> set (trace (snd (push h c lp rp s)))"
  by (auto simp: push_def Process_run_def process_def split_beta Let_def result_ok_def cancelledResult_def
      split: bool.splits)

lemma push_loop_all:
  assumes "fst (fst (push_loop h adb es ok k s))"
  shows "ok \<and> (\<forall>e\<in>set es. EvExec (Capture None) (baseArgs adb @ [''push'', de_path e, ''/sdcard''])
    \<in> set (trace (snd (push_loop h adb es ok k s))))"
  using assms
proof (induction es arbitrary: ok k s)
  case (Cons e es)
  let ?p = "push h adb (de_path e) ''/sdcard'' s"
  have good: "fst ?p"
    using Cons.prems Cons.IH [of False k "log_error h (''Failed to push '' @ de_path e @ '' to /sdcard'') (snd ?p)"]
    by (cases "fst ?p") (simp_all add: split_beta Let_def)
  let ?r = "push_loop h adb es ok (k + 1) (snd ?p)"
  have "extends (execs_only (to_device adb)) (snd ?p) (snd ?r)" by (intro chain extends_refl)
  then have "set (trace (snd ?p)) \<subseteq> set (trace (snd ?r))" by (auto simp: extends_def)
  with push_ok [OF good] Cons.IH [of ok "k + 1" "snd ?p"] Cons.prems good show ?case
    by (auto simp: split_beta Let_def)
qed simp

text \<open>Restoring shared storage reports success only when every top-level entry the listing of the
  captured directory delivered was pushed, and each was pushed to \<open>/sdcard\<close> itself, never to
  \<open>/sdcard/<name>\<close>, so that \<open>adb push\<close> merges it.\<close>

theorem standard_restore_shared_complete:
  assumes "fst (Standard_restoreSharedStorage h adb dir manifest s)"
  shows "\<exists>es. h_list h (path_join dir (mf_sharedStorageArchive manifest)) (world s) = Some es \<and> es \<noteq> [] \<and>
    (\<forall>e\<in>set es. EvExec (Capture None) (baseArgs adb @ [''push'', de_path e, ''/sdcard''])
      \<in> set (trace (snd (Standard_restoreSharedStorage h adb dir manifest s))))"
proof -
  let ?d = "path_join dir (mf_sharedStorageArchive manifest)"
  let ?s1 = "log_info h ''Pushing shared storage back to /sdcard.'' s"
  obtain es where l: "h_list h ?d (world s) = Some es"
    using assms by (auto simp: Standard_restoreSharedStorage_def Let_def split: if_splits option.splits)
  obtain allOk k s2 where r: "push_loop h adb es True 0 ?s1 = ((allOk, k), s2)" by (metis surj_pair)
  have "allOk \<and> k \<noteq> 0 \<and> Standard_restoreSharedStorage h adb dir manifest s = (allOk, s2)"
    using assms l r by (auto simp: Standard_restoreSharedStorage_def Let_def split: if_splits)
  moreover from this have "es \<noteq> []" using r by auto
  ultimately show ?thesis
    using push_loop_all [of h adb es True 0 ?s1] l r by auto
qed

text \<open>A host with one captured directory.\<close>

definition album_host :: "unit host" where
  "album_host = quiet_host\<lparr>h_exists := (\<lambda>p w. True), h_is_directory := (\<lambda>p w. True),
     h_list := (\<lambda>p w. Some [\<lparr>de_path = ''b/shared_storage/DCIM'', de_is_directory = True, de_is_regular = False\<rparr>])\<rparr>"

theorem standard_restore_shared_complete_witness:
  "\<exists>es. h_list album_host (path_join ''b'' ''shared_storage'') () = Some es \<and> es \<noteq> [] \<and>
    (\<forall>e\<in>set es. EvExec (Capture None) ([''adb'', ''-s'', ''X''] @ [''push'', de_path e, ''/sdcard''])
      \<in> set (trace (snd (Standard_restoreSharedStorage album_host (client ''X'') ''b''
        (default_manifest\<lparr>mf_sharedStorageIncluded := True, mf_sharedStorageIsDirectory := True,
           mf_sharedStorageArchive := ''shared_storage''\<rparr>) quiet_sys))))"
proof -
  have "fst (Standard_restoreSharedStorage album_host (client ''X'') ''b''
      (default_manifest\<lparr>mf_sharedStorageIncluded := True, mf_sharedStorageIsDirectory := True,
         mf_sharedStorageArchive := ''shared_storage''\<rparr>) quiet_sys)"
    by code_simp
  from standard_restore_shared_complete [OF this] show ?thesis
    by (simp add: quiet_sys_def baseArgs_def client_def)
qed

end
