(* ===== verification/RootBackend.thy ===== *)
theory RootBackend
  imports IBackupBackend
begin

text \<open>
  \<open>include/abp/RootBackend.h\<close> and \<open>src/src/backup/RootBackend.cpp\<close>: app data and shared storage as
  tar streams through a root shell.  The backend's state is the root method detected; the manifest
  the code mutates through a reference is taken and returned.
\<close>

definition asRoot :: "RootMethod \<Rightarrow> string \<Rightarrow> string" where
  "asRoot m command = (if m = SuBinary then ''su -c '' @ shellQuote command else command)"

definition kCeRoot :: string where
  "kCeRoot = ''/data/data''"

definition kDeRoot :: string where
  "kDeRoot = ''/data/user_de/0''"

section \<open>Capturing\<close>

definition exists_cmd :: "string \<Rightarrow> string \<Rightarrow> string" where
  "exists_cmd parent packageName =
     ''[ -d '' @ shellQuote (parent @ ''/'' @ packageName) @ '' ] && echo yes || echo no''"

definition tar_cmd :: "string \<Rightarrow> string \<Rightarrow> string" where
  "tar_cmd parent packageName =
     ''tar -czf - -C '' @ shellQuote parent @ '' '' @ shellQuote packageName @ '' 2>/dev/null''"

text \<open>The result is whether an archive was written, and \<open>*failed\<close>.\<close>

definition captureTree ::
    "'w host \<Rightarrow> RootMethod \<Rightarrow> AdbClient \<Rightarrow> string \<Rightarrow> string \<Rightarrow> string \<Rightarrow> 'w sys \<Rightarrow> (bool \<times> bool) \<times> 'w sys" where
  "captureTree h m adb parent packageName localPath s =
     (let ((found, checkOk), s1) = shellText h adb (asRoot m (exists_cmd parent packageName)) s
      in if \<not> checkOk \<or> found \<noteq> ''yes'' then ((False, False), s1)
         else
           let (ok, s2) = execOutToFile h adb (asRoot m (tar_cmd parent packageName)) localPath s1
           in if \<not> ok then ((False, True), fs_remove h localPath s2)
              else if fileSize h localPath s2 = 0 then ((False, False), fs_remove h localPath s2)
              else ((True, False), s2))"

definition capture_ce ::
    "'w host \<Rightarrow> RootMethod \<Rightarrow> AdbClient \<Rightarrow> string \<Rightarrow> string \<Rightarrow> PackageBackupEntry \<Rightarrow> 'w sys \<Rightarrow>
     (PackageBackupEntry \<times> bool) \<times> 'w sys" where
  "capture_ce h m adb dataDir name entry s =
     (let ceName = sanitizeForFilename name @ ''.tar.gz'';
          path = path_join dataDir ceName;
          ((captured, failed), s1) = captureTree h m adb kCeRoot name path s
      in if captured then
           let (sum, s2) = checksumOrEmpty h path s1
           in ((entry\<lparr>pe_dataArchive := path_join ''data'' ceName,
                      pe_dataArchiveBytes := fileSize h path s1,
                      pe_dataArchiveSha256 := sum\<rparr>, failed), s2)
         else ((entry, failed), s1))"

definition capture_de ::
    "'w host \<Rightarrow> RootMethod \<Rightarrow> AdbClient \<Rightarrow> string \<Rightarrow> string \<Rightarrow> PackageBackupEntry \<Rightarrow> 'w sys \<Rightarrow>
     (PackageBackupEntry \<times> bool) \<times> 'w sys" where
  "capture_de h m adb dataDir name entry s =
     (let deName = sanitizeForFilename name @ ''.de.tar.gz'';
          path = path_join dataDir deName;
          ((captured, failed), s1) = captureTree h m adb kDeRoot name path s
      in if captured then
           let (sum, s2) = checksumOrEmpty h path s1
           in ((entry\<lparr>pe_deDataArchive := path_join ''data'' deName,
                      pe_deDataArchiveBytes := fileSize h path s1,
                      pe_deDataArchiveSha256 := sum\<rparr>, failed), s2)
         else ((entry, failed), s1))"

definition finish_capture :: "bool \<Rightarrow> bool \<Rightarrow> PackageBackupEntry \<Rightarrow> PackageBackupEntry" where
  "finish_capture ceFailed deFailed entry =
     (let e1 = (if ceFailed \<or> deFailed then
                  entry\<lparr>pe_error := ''failed to capture '' @
                    (if ceFailed \<and> deFailed then ''app data''
                     else if ceFailed then ''app data (/data/data)''
                     else ''device-protected data (/data/user_de)'') @ '' via tar''\<rparr>
                else entry)
      in if pe_dataArchive e1 \<noteq> [] \<or> pe_deDataArchive e1 \<noteq> []
         then e1\<lparr>pe_dataIncluded := True, pe_dataCaptureMethod := RootTar\<rparr> else e1)"

text \<open>One round of the loop of \<open>backupAppData\<close>, on the entry of the package.\<close>

definition Root_backupPackage ::
    "'w host \<Rightarrow> RootMethod \<Rightarrow> AdbClient \<Rightarrow> string \<Rightarrow> string \<Rightarrow> PackageBackupEntry \<Rightarrow> 'w sys \<Rightarrow>
     PackageBackupEntry \<times> 'w sys" where
  "Root_backupPackage h m adb dataDir name entry s =
     (if \<not> isValidPackageName name then (entry\<lparr>pe_error := ''invalid package name, skipped''\<rparr>, s)
      else
        let ((e1, ceFailed), s1) = capture_ce h m adb dataDir name entry s;
            ((e2, deFailed), s2) = capture_de h m adb dataDir name e1 s1
        in (finish_capture ceFailed deFailed e2, s2))"

fun Root_backup_loop ::
    "'w host \<Rightarrow> RootMethod \<Rightarrow> AdbClient \<Rightarrow> string \<Rightarrow> nat \<Rightarrow> nat \<Rightarrow> PackageInfo list \<Rightarrow> Manifest \<Rightarrow> 'w sys \<Rightarrow>
     Manifest \<times> 'w sys" where
  "Root_backup_loop h m adb dataDir n i [] manifest s =
     (manifest, progress ''Backing up app data'' n n [] s)"
| "Root_backup_loop h m adb dataDir n i (pkg # rest) manifest s =
     (let (stop, s1) = cancelRequested h s
      in if stop then (manifest, s1)
         else
           let s2 = progress ''Backing up app data'' i n (pi_name pkg) s1
           in case findPackageEntry manifest (pi_name pkg) of
                None \<Rightarrow> Root_backup_loop h m adb dataDir n (i + 1) rest manifest s2
              | Some entry \<Rightarrow>
                  let (e, s3) = Root_backupPackage h m adb dataDir (pi_name pkg) entry s2
                  in Root_backup_loop h m adb dataDir n (i + 1) rest
                       (updatePackageEntry manifest (pi_name pkg) (\<lambda>_. e)) s3)"

definition Root_backupAppData ::
    "'w host \<Rightarrow> RootMethod \<Rightarrow> AdbClient \<Rightarrow> string \<Rightarrow> PackageInfo list \<Rightarrow> Manifest \<Rightarrow> 'w sys \<Rightarrow> Manifest \<times> 'w sys" where
  "Root_backupAppData h m adb outDir packages manifest s =
     (let dataDir = path_join outDir ''data'';
          (_, s1) = ensureDirectory h dataDir s
      in Root_backup_loop h m adb dataDir (length packages) 0 packages manifest s1)"

section \<open>Restoring\<close>

definition stat_cmd :: "string \<Rightarrow> string" where
  "stat_cmd dir = ''stat -c '' @ apostrophe @ ''%u:%g'' @ apostrophe @ '' '' @ shellQuote dir @ '' 2>/dev/null''"

definition extract_cmd :: "string \<Rightarrow> string" where
  "extract_cmd parent = ''tar -xzf - -C '' @ shellQuote parent @ '' 2>/dev/null''"

definition chown_cmd :: "string \<Rightarrow> string \<Rightarrow> string" where
  "chown_cmd owner dir = ''chown -R '' @ shellQuote owner @ '' '' @ shellQuote dir @ '' 2>/dev/null''"

definition restorecon_cmd :: "string \<Rightarrow> string" where
  "restorecon_cmd dir = ''restorecon -R '' @ shellQuote dir @ '' 2>/dev/null''"

definition force_stop_cmd :: "string \<Rightarrow> string" where
  "force_stop_cmd name = ''am force-stop '' @ shellQuote name @ '' 2>/dev/null''"

datatype restore_failure = Restored | Missing | Extract

definition restoreTree ::
    "'w host \<Rightarrow> RootMethod \<Rightarrow> AdbClient \<Rightarrow> string \<Rightarrow> string \<Rightarrow> string \<Rightarrow> 'w sys \<Rightarrow> restore_failure \<times> 'w sys" where
  "restoreTree h m adb parent packageName archivePath s =
     (let dir = parent @ ''/'' @ packageName;
          ((owner, statOk), s1) = shellText h adb (asRoot m (stat_cmd dir)) s
      in if \<not> statOk \<or> owner = [] \<or> find_char (CHR '':'') owner = None then (Missing, s1)
         else
           let (ok, s2) = shellFromFile h adb (asRoot m (extract_cmd parent)) archivePath s1
           in if \<not> ok then (Extract, s2)
              else
                let (_, s3) = shell h adb (asRoot m (chown_cmd owner dir)) s2;
                    (_, s4) = shell h adb (asRoot m (restorecon_cmd dir)) s3
                in (Restored, s4))"

text \<open>The archives of an entry with the checksum each is verified against, in the code's order.\<close>

definition entry_archives :: "PackageBackupEntry \<Rightarrow> (string \<times> string) list" where
  "entry_archives entry =
     [(pe_dataArchive entry, pe_dataArchiveSha256 entry), (pe_deDataArchive entry, pe_deDataArchiveSha256 entry)]"

text \<open>The verification loop: the error it would record, \<^term>\<open>None\<close> when every archive verifies.\<close>

fun verify_archives :: "'w host \<Rightarrow> string \<Rightarrow> (string \<times> string) list \<Rightarrow> 'w sys \<Rightarrow> string option" where
  "verify_archives h backupDir [] s = None"
| "verify_archives h backupDir ((archive, expected) # rest) s =
     (if archive = [] then verify_archives h backupDir rest s
      else if \<not> h_exists h (path_join backupDir archive) (world s) then
        Some (''data archive missing on disk: '' @ archive)
      else if \<not> checksumMatches h (path_join backupDir archive) expected s then
        Some (''checksum mismatch for '' @ archive @ '', refusing to restore'')
      else verify_archives h backupDir rest s)"

definition not_installed_error :: string where
  "not_installed_error =
     ''app is not installed on the device, so its data cannot be restored '' @
     ''(restore its APK too, or install it first)''"

text \<open>The round of the restore loop after the guards; the flag is whether it ran to its end.\<close>

definition restore_ce ::
    "'w host \<Rightarrow> RootMethod \<Rightarrow> AdbClient \<Rightarrow> string \<Rightarrow> PackageBackupEntry \<Rightarrow> 'w sys \<Rightarrow>
     (PackageBackupEntry \<times> bool) \<times> 'w sys" where
  "restore_ce h m adb backupDir entry s =
     (if pe_dataArchive entry = [] then ((entry, True), s)
      else
        let (failure, s1) = restoreTree h m adb kCeRoot (pe_name entry) (path_join backupDir (pe_dataArchive entry)) s
        in case failure of
             Missing \<Rightarrow> ((entry\<lparr>pe_error := not_installed_error\<rparr>, False), s1)
           | Extract \<Rightarrow> ((entry\<lparr>pe_error := ''failed to extract app data archive on device''\<rparr>, False), s1)
           | Restored \<Rightarrow> ((entry, True), s1))"

definition restore_de ::
    "'w host \<Rightarrow> RootMethod \<Rightarrow> AdbClient \<Rightarrow> string \<Rightarrow> PackageBackupEntry \<Rightarrow> 'w sys \<Rightarrow>
     (PackageBackupEntry \<times> bool) \<times> 'w sys" where
  "restore_de h m adb backupDir entry s =
     (if pe_deDataArchive entry = [] then ((entry, True), s)
      else
        let (failure, s1) = restoreTree h m adb kDeRoot (pe_name entry) (path_join backupDir (pe_deDataArchive entry)) s
        in case failure of
             Missing \<Rightarrow>
               ((entry\<lparr>pe_error :=
                   if pe_dataArchive entry = [] then not_installed_error
                   else ''device-protected data not restored: '' @ kDeRoot @ ''/'' @ pe_name entry @
                     '' does not exist on the device''\<rparr>, False), s1)
           | Extract \<Rightarrow>
               ((entry\<lparr>pe_error := ''failed to extract device-protected data archive on device''\<rparr>, False), s1)
           | Restored \<Rightarrow> ((entry, True), s1))"

definition Root_restoreEntry ::
    "'w host \<Rightarrow> RootMethod \<Rightarrow> AdbClient \<Rightarrow> string \<Rightarrow> PackageBackupEntry \<Rightarrow> 'w sys \<Rightarrow>
     (PackageBackupEntry \<times> bool) \<times> 'w sys" where
  "Root_restoreEntry h m adb backupDir entry s =
     (if \<not> isValidPackageName (pe_name entry) then
        ((entry\<lparr>pe_error := ''invalid package name, skipped restore''\<rparr>, False), s)
      else case verify_archives h backupDir (entry_archives entry) s of
        Some e \<Rightarrow> ((entry\<lparr>pe_error := e\<rparr>, False), s)
      | None \<Rightarrow>
          let (_, s1) = shell h adb (asRoot m (force_stop_cmd (pe_name entry))) s;
              ((e1, ok1), s2) = restore_ce h m adb backupDir entry s1
          in if \<not> ok1 then ((e1, False), s2) else restore_de h m adb backupDir e1 s2)"

text \<open>The entries restored and the flag \<open>restoredSystemApp\<close>; a cancel leaves the rest untouched.\<close>

fun Root_restore_loop ::
    "'w host \<Rightarrow> RootMethod \<Rightarrow> AdbClient \<Rightarrow> string \<Rightarrow> string list \<Rightarrow> nat \<Rightarrow> bool \<Rightarrow> PackageBackupEntry list \<Rightarrow> 'w sys \<Rightarrow>
     (PackageBackupEntry list \<times> bool) \<times> 'w sys" where
  "Root_restore_loop h m adb backupDir packageFilter i sysApp [] s = (([], sysApp), s)"
| "Root_restore_loop h m adb backupDir packageFilter i sysApp (entry # rest) s =
     (if \<not> pe_dataIncluded entry \<or> (pe_dataArchive entry = [] \<and> pe_deDataArchive entry = []) \<or>
         (packageFilter \<noteq> [] \<and> pe_name entry \<notin> set packageFilter) then
        let ((es, b), s1) = Root_restore_loop h m adb backupDir packageFilter i sysApp rest s
        in ((entry # es, b), s1)
      else
        let (stop, s1) = cancelRequested h s
        in if stop then ((entry # rest, sysApp), s1)
           else
             let s2 = progress ''Restoring app data'' i (length packageFilter) (pe_name entry) s1;
                 ((e, whole), s3) = Root_restoreEntry h m adb backupDir entry s2;
                 ((es, b), s4) = Root_restore_loop h m adb backupDir packageFilter (i + 1)
                   (sysApp \<or> (whole \<and> pe_isSystemApp e)) rest s3
             in ((e # es, b), s4))"

definition Root_restoreAppData ::
    "'w host \<Rightarrow> RootMethod \<Rightarrow> AdbClient \<Rightarrow> string \<Rightarrow> Manifest \<Rightarrow> string list \<Rightarrow> 'w sys \<Rightarrow> Manifest \<times> 'w sys" where
  "Root_restoreAppData h m adb backupDir manifest packageFilter s =
     (let ((es, sysApp), s1) = Root_restore_loop h m adb backupDir packageFilter 0 False (mf_packages manifest) s;
          s2 = progress ''Restoring app data'' (length packageFilter) (length packageFilter) [] s1
      in (manifest\<lparr>mf_packages := es\<rparr>,
          if sysApp then
            log_warn h (''Data of system apps was restored. Reboot the device (adb reboot) before using it, so '' @
              ''system services such as contacts and SMS reload their databases.'') s2
          else s2))"

section \<open>Shared storage\<close>

definition Root_backupSharedStorage ::
    "'w host \<Rightarrow> RootMethod \<Rightarrow> AdbClient \<Rightarrow> string \<Rightarrow> Manifest \<Rightarrow> 'w sys \<Rightarrow> (bool \<times> Manifest) \<times> 'w sys" where
  "Root_backupSharedStorage h m adb outDir manifest s =
     (let localPath = path_join outDir ''shared_storage.tar'';
          (ok, s1) = execOutToFile h adb (asRoot m ''tar -cf - -C /sdcard . 2>/dev/null'') localPath s
      in if \<not> ok then ((False, manifest), fs_remove h localPath s1)
         else let size = fileSize h localPath s1
              in if size = 0 then ((False, manifest), fs_remove h localPath s1)
                 else let (sum, s2) = checksumOrEmpty h localPath s1
                      in ((True, manifest\<lparr>mf_sharedStorageIncluded := True,
                             mf_sharedStorageIsDirectory := False,
                             mf_sharedStorageArchive := ''shared_storage.tar'',
                             mf_sharedStorageArchiveBytes := size,
                             mf_sharedStorageArchiveSha256 := sum\<rparr>), s2))"

definition Root_restoreSharedStorage ::
    "'w host \<Rightarrow> RootMethod \<Rightarrow> AdbClient \<Rightarrow> string \<Rightarrow> Manifest \<Rightarrow> 'w sys \<Rightarrow> bool \<times> 'w sys" where
  "Root_restoreSharedStorage h m adb backupDir manifest s =
     (if \<not> mf_sharedStorageIncluded manifest then (False, s)
      else if mf_sharedStorageIsDirectory manifest then
        (False, log_error h (''This backup'' @ apostrophe @ ''s shared storage is a pulled directory tree, not a tar archive; '' @
           ''it cannot be restored through the root backend.'') s)
      else let archivePath = path_join backupDir (mf_sharedStorageArchive manifest)
           in if \<not> h_exists h archivePath (world s) then (False, s)
              else if \<not> checksumMatches h archivePath (mf_sharedStorageArchiveSha256 manifest) s then
                (False, log_error h ''Checksum mismatch for shared storage archive, refusing to restore.'' s)
              else shellFromFile h adb (asRoot m ''tar -xf - -C /sdcard 2>/dev/null'') archivePath s)"

section \<open>What the device's shell reads\<close>

text \<open>A command as the root shell reads it: directly, or as the one argument of \<open>su -c\<close>.\<close>

definition root_reads :: "RootMethod \<Rightarrow> string \<Rightarrow> sh_token list \<Rightarrow> bool" where
  "root_reads m cmd toks \<longleftrightarrow>
     (if m = SuBinary then
        \<exists>inner. sh_words cmd = Some [Word ''su'', Word ''-c'', Word inner] \<and> sh_words inner = Some toks
      else sh_words cmd = Some toks)"

definition exists_tokens :: "string \<Rightarrow> sh_token list" where
  "exists_tokens dir =
     [Oper (CHR ''[''), Word ''-d'', Word dir, Oper (CHR '']''), Oper (CHR ''&''), Oper (CHR ''&''), Word ''echo'',
      Word ''yes'', Oper (CHR ''|''), Oper (CHR ''|''), Word ''echo'', Word ''no'']"

definition tar_tokens :: "string \<Rightarrow> string \<Rightarrow> sh_token list" where
  "tar_tokens parent name =
     [Word ''tar'', Word ''-czf'', Word ''-'', Word ''-C'', Word parent, Word name] @ dev_null"

definition stat_tokens :: "string \<Rightarrow> sh_token list" where
  "stat_tokens dir = [Word ''stat'', Word ''-c'', Word ''%u:%g'', Word dir] @ dev_null"

definition extract_tokens :: "string \<Rightarrow> sh_token list" where
  "extract_tokens parent = [Word ''tar'', Word ''-xzf'', Word ''-'', Word ''-C'', Word parent] @ dev_null"

definition chown_tokens :: "string \<Rightarrow> string \<Rightarrow> sh_token list" where
  "chown_tokens owner dir = [Word ''chown'', Word ''-R'', Word owner, Word dir] @ dev_null"

definition restorecon_tokens :: "string \<Rightarrow> sh_token list" where
  "restorecon_tokens dir = [Word ''restorecon'', Word ''-R'', Word dir] @ dev_null"

definition force_stop_tokens :: "string \<Rightarrow> sh_token list" where
  "force_stop_tokens name = [Word ''am'', Word ''force-stop'', Word name] @ dev_null"

lemmas token_defs = exists_tokens_def tar_tokens_def stat_tokens_def extract_tokens_def chown_tokens_def
  restorecon_tokens_def force_stop_tokens_def dev_null_def

lemma percent_quoted: "apostrophe @ ''%u:%g'' @ apostrophe = shellQuote ''%u:%g''"
  by (simp add: apostrophe_def shellQuote_def quote_char_def)

lemma root_commands [simp]:
  "sh_words (exists_cmd parent name) = Some (exists_tokens (parent @ ''/'' @ name))"
  "sh_words (tar_cmd parent name) = Some (tar_tokens parent name)"
  "sh_words (extract_cmd parent) = Some (extract_tokens parent)"
  "sh_words (chown_cmd owner dir) = Some (chown_tokens owner dir)"
  "sh_words (restorecon_cmd dir) = Some (restorecon_tokens dir)"
  "sh_words (force_stop_cmd name) = Some (force_stop_tokens name)"
  by (rule sh_words_walk, simp add: exists_cmd_def tar_cmd_def extract_cmd_def chown_cmd_def
      restorecon_cmd_def force_stop_cmd_def sh_walk, simp add: token_defs)+

lemma stat_command [simp]: "sh_words (stat_cmd dir) = Some (stat_tokens dir)"
proof -
  have "stat_cmd dir = ''stat -c '' @ shellQuote ''%u:%g'' @ '' '' @ shellQuote dir @ '' 2>/dev/null''"
    unfolding stat_cmd_def using percent_quoted by (metis append.assoc)
  then have "sh_run (between []) (stat_cmd dir) =
      sh_run (between []) (''stat -c '' @ shellQuote ''%u:%g'' @ '' '' @ shellQuote dir @ '' 2>/dev/null'')"
    by (rule arg_cong)
  also have "\<dots> = inside ''/dev/null'' (butlast (stat_tokens dir))"
    by (simp add: sh_walk token_defs)
  finally show ?thesis by (rule sh_words_walk) (simp add: token_defs)
qed

lemma asRoot_reads: "sh_words cmd = Some toks \<Longrightarrow> root_reads m (asRoot m cmd) toks"
  unfolding root_reads_def asRoot_def
  by (auto intro!: exI [of _ cmd] sh_words_walk simp: sh_walk)

section \<open>What a restore may run\<close>

text \<open>
  The calls a restore of the entry \<open>e\<close> may make: its own package is stopped, its own two data
  directories are inspected and relabelled, and the only thing streamed to the device is an archive
  of \<open>e\<close> that verifies (on the files of \<open>s0\<close>) against its recorded checksum.
\<close>

definition entry_dirs :: "PackageBackupEntry \<Rightarrow> string list" where
  "entry_dirs e = [kCeRoot @ ''/'' @ pe_name e, kDeRoot @ ''/'' @ pe_name e]"

definition relabel_tokens :: "string \<Rightarrow> sh_token list \<Rightarrow> bool" where
  "relabel_tokens dir toks \<longleftrightarrow>
     toks = stat_tokens dir \<or> (\<exists>owner. toks = chown_tokens owner dir) \<or> toks = restorecon_tokens dir"

definition verified_archive :: "'w host \<Rightarrow> string \<Rightarrow> 'w sys \<Rightarrow> PackageBackupEntry \<Rightarrow> string \<Rightarrow> bool" where
  "verified_archive h backupDir s0 e p \<longleftrightarrow>
     (\<exists>(a, sum)\<in>set (entry_archives e). a \<noteq> [] \<and> p = path_join backupDir a \<and> checksumMatches h p sum s0)"

fun restore_tokens :: "'w host \<Rightarrow> string \<Rightarrow> 'w sys \<Rightarrow> PackageBackupEntry \<Rightarrow> proc_io \<Rightarrow> sh_token list \<Rightarrow> bool" where
  "restore_tokens h backupDir s0 e (FromFile p) toks \<longleftrightarrow>
     verified_archive h backupDir s0 e p \<and> (\<exists>parent\<in>{kCeRoot, kDeRoot}. toks = extract_tokens parent)"
| "restore_tokens h backupDir s0 e (Capture i) toks \<longleftrightarrow>
     toks = force_stop_tokens (pe_name e) \<or> (\<exists>dir\<in>set (entry_dirs e). relabel_tokens dir toks)"
| "restore_tokens h backupDir s0 e (ToFile p) toks \<longleftrightarrow> False"

definition restore_call ::
    "'w host \<Rightarrow> RootMethod \<Rightarrow> AdbClient \<Rightarrow> string \<Rightarrow> 'w sys \<Rightarrow> PackageBackupEntry \<Rightarrow> proc_io \<Rightarrow> string list \<Rightarrow> bool" where
  "restore_call h m adb backupDir s0 e io args \<longleftrightarrow>
     (\<exists>cmd toks. args = baseArgs adb @ [''shell'', cmd] \<and> root_reads m cmd toks \<and>
        restore_tokens h backupDir s0 e io toks)"

lemma restore_callI:
  "sh_words cmd = Some toks \<Longrightarrow> restore_tokens h backupDir s0 e io toks \<Longrightarrow>
   restore_call h m adb backupDir s0 e io (baseArgs adb @ [''shell'', asRoot m cmd])"
  unfolding restore_call_def using asRoot_reads by blast

lemma keep_restoreTree [keep]:
  "files_kept h \<Longrightarrow> same_files h s0 s \<Longrightarrow> same_files h s0 (snd (restoreTree h m adb parent name p s))"
  by (auto simp: restoreTree_def split_beta Let_def intro!: keep)

lemma keep_restore_parts [keep]:
  assumes "files_kept h" "same_files h s0 s"
  shows "same_files h s0 (snd (restore_ce h m adb backupDir e s))"
    "same_files h s0 (snd (restore_de h m adb backupDir e s))"
  using assms by (auto simp: restore_ce_def restore_de_def split_beta Let_def intro!: keep split: restore_failure.splits)

lemma keep_restoreEntry [keep]:
  "files_kept h \<Longrightarrow> same_files h s0 s \<Longrightarrow> same_files h s0 (snd (Root_restoreEntry h m adb backupDir e s))"
  by (auto simp: Root_restoreEntry_def split_beta Let_def intro!: keep split: option.splits)

lemma relabel_tokens_refl [simp]:
  "relabel_tokens dir (stat_tokens dir)" "relabel_tokens dir (restorecon_tokens dir)"
  "relabel_tokens dir (chown_tokens owner dir)"
  by (auto simp: relabel_tokens_def)

lemma restore_call_dir:
  "dir \<in> set (entry_dirs e) \<Longrightarrow> sh_words cmd = Some toks \<Longrightarrow> relabel_tokens dir toks \<Longrightarrow>
   restore_call h m adb backupDir s0 e (Capture i) (baseArgs adb @ [''shell'', asRoot m cmd])"
  by (erule restore_callI) auto

lemma chain_restoreTree:
  assumes "extends (execs_only (restore_call h m adb backupDir s0 e)) t s"
    and "verified_archive h backupDir s0 e p" and "parent \<in> {kCeRoot, kDeRoot}" and "name = pe_name e"
  shows "extends (execs_only (restore_call h m adb backupDir s0 e)) t (snd (restoreTree h m adb parent name p s))"
proof -
  have dir: "parent @ ''/'' @ name \<in> set (entry_dirs e)" using assms(3,4) by (auto simp: entry_dirs_def)
  let ?d = "parent @ ''/'' @ name"
  have call: "restore_call h m adb backupDir s0 e (Capture None) (baseArgs adb @ [''shell'', asRoot m (stat_cmd ?d)])"
    "restore_call h m adb backupDir s0 e (Capture None) (baseArgs adb @ [''shell'', asRoot m (restorecon_cmd ?d)])"
    "restore_call h m adb backupDir s0 e (Capture None) (baseArgs adb @ [''shell'', asRoot m (chown_cmd owner ?d)])"
    for owner
    by (simp_all only: root_commands stat_command relabel_tokens_refl restore_call_dir [OF dir])
  have "restore_call h m adb backupDir s0 e (FromFile p) (baseArgs adb @ [''shell'', asRoot m (extract_cmd parent)])"
    using assms(2,3) by (intro restore_callI) auto
  with assms(1) call show ?thesis
    unfolding restoreTree_def Let_def split_beta by (auto intro!: chain simp del: append.simps)
qed

lemma verify_archives_None:
  "verify_archives h backupDir archives s = None \<Longrightarrow> (a, ck) \<in> set archives \<Longrightarrow> a \<noteq> [] \<Longrightarrow>
   h_exists h (path_join backupDir a) (world s) \<and> checksumMatches h (path_join backupDir a) ck s"
  by (induction h backupDir archives s rule: verify_archives.induct) (auto split: if_splits)

lemma restore_ce_entry: "same_but_error e (fst (fst (restore_ce h m adb backupDir e s)))"
  by (auto simp: restore_ce_def split_beta Let_def same_but_error_def split: restore_failure.splits)

lemma restore_de_entry: "same_but_error e (fst (fst (restore_de h m adb backupDir e s)))"
  by (auto simp: restore_de_def split_beta Let_def same_but_error_def split: restore_failure.splits)

lemma restore_ce_cases:
  obtains t where "restore_ce h m adb backupDir e s = ((e, True), t)"
  | x t where "restore_ce h m adb backupDir e s = ((e\<lparr>pe_error := x\<rparr>, False), t)"
proof (cases "restoreTree h m adb kCeRoot (pe_name e) (path_join backupDir (pe_dataArchive e)) s")
  case (Pair f t)
  then show ?thesis
    by (cases f; cases "pe_dataArchive e = []") (auto simp: restore_ce_def intro: that)
qed

lemma restore_ce_ok: "snd (fst (restore_ce h m adb backupDir e s)) \<Longrightarrow> fst (fst (restore_ce h m adb backupDir e s)) = e"
  by (rule restore_ce_cases [of h m adb backupDir e s]) (simp_all only: fst_conv snd_conv simp_thms)

lemma Root_restoreEntry_same: "same_but_error e (fst (fst (Root_restoreEntry h m adb backupDir e s)))"
proof (cases "isValidPackageName (pe_name e) \<and> verify_archives h backupDir (entry_archives e) s = None")
  case False
  then show ?thesis by (auto simp: Root_restoreEntry_def)
next
  case True
  let ?s1 = "snd (shell h adb (asRoot m (force_stop_cmd (pe_name e))) s)"
  obtain e1 ok1 s2 where ce: "restore_ce h m adb backupDir e ?s1 = ((e1, ok1), s2)" by (metis surj_pair)
  then have e1: "same_but_error e e1" "ok1 \<Longrightarrow> e1 = e"
    using restore_ce_entry [of e h m adb backupDir ?s1] restore_ce_ok [of h m adb backupDir e ?s1] by simp_all
  have "fst (Root_restoreEntry h m adb backupDir e s) =
      (if ok1 then fst (restore_de h m adb backupDir e1 s2) else (e1, False))"
    using True ce by (simp add: Root_restoreEntry_def split_beta Let_def)
  then show ?thesis using e1 restore_de_entry by (cases ok1) simp_all
qed

lemma extends_restoreEntry:
  assumes "files_kept h" "same_files h s0 s"
  shows "extends (execs_only (restore_call h m adb backupDir s0 e)) s (snd (Root_restoreEntry h m adb backupDir e s))"
proof (cases "isValidPackageName (pe_name e) \<and> verify_archives h backupDir (entry_archives e) s = None")
  case False
  then show ?thesis by (auto simp: Root_restoreEntry_def)
next
  case True
  let ?P = "execs_only (restore_call h m adb backupDir s0 e)"
  have arch: "verified_archive h backupDir s0 e (path_join backupDir a)"
    if "(a, ck) \<in> set (entry_archives e)" "a \<noteq> []" for a ck
    using verify_archives_None [of h backupDir "entry_archives e" s a ck] True that
      checksumMatches_same_files [OF assms(2)] by (auto simp: verified_archive_def)
  have ce: "extends ?P s t \<Longrightarrow> extends ?P s (snd (restore_ce h m adb backupDir e t))"
    and de: "extends ?P s t \<Longrightarrow> extends ?P s (snd (restore_de h m adb backupDir e t))" for t
    using arch by (auto simp: restore_ce_def restore_de_def split_beta Let_def entry_archives_def
        intro!: chain_restoreTree split: restore_failure.splits)
  have "restore_call h m adb backupDir s0 e (Capture None)
      (baseArgs adb @ [''shell'', asRoot m (force_stop_cmd (pe_name e))])"
    by (rule restore_callI) auto
  then have stop: "extends ?P s (snd (shell h adb (asRoot m (force_stop_cmd (pe_name e))) s))"
    by (intro chain) auto
  show ?thesis
    using True ce [OF stop] de [OF ce [OF stop]]
    by (simp add: Root_restoreEntry_def split_beta Let_def restore_ce_ok)
qed

lemma restore_loop_entries:
  "list_all2 same_but_error es (fst (fst (Root_restore_loop h m adb backupDir flt i sysApp es s)))"
proof (induction es arbitrary: i sysApp s)
  case (Cons e es)
  then show ?case
    by (auto simp: split_beta Let_def Root_restoreEntry_same)
qed simp

definition selected_call ::
    "'w host \<Rightarrow> RootMethod \<Rightarrow> AdbClient \<Rightarrow> string \<Rightarrow> 'w sys \<Rightarrow> string list \<Rightarrow> PackageBackupEntry list \<Rightarrow>
     proc_io \<Rightarrow> string list \<Rightarrow> bool" where
  "selected_call h m adb backupDir s0 flt es io args \<longleftrightarrow>
     (\<exists>e\<in>set es. isValidPackageName (pe_name e) \<and> pe_dataIncluded e \<and> (flt \<noteq> [] \<longrightarrow> pe_name e \<in> set flt) \<and>
        restore_call h m adb backupDir s0 e io args)"

lemma Root_restoreEntry_invalid:
  "\<not> isValidPackageName (pe_name e) \<Longrightarrow> snd (Root_restoreEntry h m adb backupDir e s) = s"
  by (simp add: Root_restoreEntry_def)

lemma extends_restore_loop:
  assumes "files_kept h" "same_files h s0 s"
  shows "extends (execs_only (selected_call h m adb backupDir s0 flt es)) s
    (snd (Root_restore_loop h m adb backupDir flt i sysApp es s))"
  using assms(2)
proof (induction es arbitrary: i sysApp s)
  case (Cons e es)
  let ?P = "execs_only (selected_call h m adb backupDir s0 flt (e # es))"
  have tail: "extends ?P t (snd (Root_restore_loop h m adb backupDir flt j b es t))" if "same_files h s0 t" for j b t
    using Cons.IH [OF that] by (rule extends_mono) (auto simp: selected_call_def elim!: execs_only.elims)
  show ?case
  proof (cases "\<not> pe_dataIncluded e \<or> (pe_dataArchive e = [] \<and> pe_deDataArchive e = []) \<or>
      (flt \<noteq> [] \<and> pe_name e \<notin> set flt)")
    case True
    then show ?thesis using tail [OF Cons.prems] by (simp add: split_beta Let_def)
  next
    case False
    obtain c s1 where c: "cancelRequested h s = (c, s1)" by force
    let ?s2 = "progress ''Restoring app data'' i (length flt) (pe_name e) s1"
    have s1: "same_files h s0 s1" "extends ?P s s1"
      using keep_cancel [OF assms(1) Cons.prems] extends_cancelRequested [of ?P s h] c by simp_all
    have s2: "same_files h s0 ?s2" "extends ?P s ?s2" using s1 by (auto intro: keep chain)
    obtain r s3 where r: "Root_restoreEntry h m adb backupDir e ?s2 = (r, s3)" by (metis surj_pair)
    have s3: "same_files h s0 s3" using keep_restoreEntry [OF assms(1) s2(1)] r by (metis snd_conv)
    have "extends ?P ?s2 s3"
    proof (cases "isValidPackageName (pe_name e)")
      case True
      have "extends (execs_only (restore_call h m adb backupDir s0 e)) ?s2 s3"
        using extends_restoreEntry [OF assms(1) s2(1)] r by (metis snd_conv)
      then show ?thesis
        by (rule extends_mono) (use True False in \<open>auto simp: selected_call_def elim!: execs_only.elims\<close>)
    next
      case False
      then show ?thesis using Root_restoreEntry_invalid [OF False, of h m adb backupDir ?s2] r by simp
    qed
    with s2(2) have "extends ?P s s3" by (rule extends_trans)
    with tail [OF s3] s1(2) False c r show ?thesis
      by (cases r) (auto simp: split_beta Let_def intro: extends_trans)
  qed
qed simp

section \<open>The backend contract\<close>

lemma chain_captureTree [chain]:
  "extends (execs_only (to_device adb)) s0 s \<Longrightarrow>
   extends (execs_only (to_device adb)) s0 (snd (captureTree h m adb parent name p s))"
  by (auto simp: captureTree_def split_beta Let_def intro!: chain)

lemma chain_capture_parts [chain]:
  assumes "extends (execs_only (to_device adb)) s0 s"
  shows "extends (execs_only (to_device adb)) s0 (snd (capture_ce h m adb dataDir name e s))"
    "extends (execs_only (to_device adb)) s0 (snd (capture_de h m adb dataDir name e s))"
  using assms by (auto simp: capture_ce_def capture_de_def split_beta Let_def intro!: chain)

lemma chain_Root_backupPackage [chain]:
  "extends (execs_only (to_device adb)) s0 s \<Longrightarrow>
   extends (execs_only (to_device adb)) s0 (snd (Root_backupPackage h m adb dataDir name e s))"
  by (auto simp: Root_backupPackage_def split_beta Let_def intro!: chain)

text \<open>A captured archive is not empty: its size is the one that was found non-zero.\<close>

lemma captureTree_size:
  "fst (fst (captureTree h m adb parent name p s)) \<Longrightarrow> 0 < fileSize h p (snd (captureTree h m adb parent name p s))"
  by (auto simp: captureTree_def split_beta Let_def split: if_splits)

lemma capture_ce_entry:
  "pe_name (fst (fst (capture_ce h m adb dataDir name e s))) = pe_name e"
  "pe_dataIncluded (fst (fst (capture_ce h m adb dataDir name e s))) = pe_dataIncluded e"
  "entry_wf e \<Longrightarrow> entry_wf (fst (fst (capture_ce h m adb dataDir name e s)))"
  using captureTree_size [of h m adb kCeRoot name "path_join dataDir (sanitizeForFilename name @ ''.tar.gz'')" s]
  by (auto simp: capture_ce_def split_beta Let_def entry_wf_def path_join_def)

lemma capture_de_entry:
  "pe_name (fst (fst (capture_de h m adb dataDir name e s))) = pe_name e"
  "pe_dataIncluded (fst (fst (capture_de h m adb dataDir name e s))) = pe_dataIncluded e"
  "entry_wf e \<Longrightarrow> entry_wf (fst (fst (capture_de h m adb dataDir name e s)))"
  using captureTree_size [of h m adb kDeRoot name "path_join dataDir (sanitizeForFilename name @ ''.de.tar.gz'')" s]
  by (auto simp: capture_de_def split_beta Let_def entry_wf_def path_join_def)

lemma finish_capture_entry:
  "pe_name (finish_capture c d e) = pe_name e"
  "entry_wf e \<Longrightarrow> entry_wf (finish_capture c d e)"
  by (auto simp: finish_capture_def Let_def entry_wf_def)

lemma Root_backupPackage_entry:
  "pe_name (fst (Root_backupPackage h m adb dataDir name e s)) = pe_name e"
  "entry_wf e \<Longrightarrow> entry_wf (fst (Root_backupPackage h m adb dataDir name e s))"
  by (simp_all add: Root_backupPackage_def split_beta Let_def capture_ce_entry capture_de_entry finish_capture_entry)

lemma chain_Root_backup_loop [chain]:
  "extends (execs_only (to_device adb)) s0 s \<Longrightarrow>
   extends (execs_only (to_device adb)) s0 (snd (Root_backup_loop h m adb dataDir n i ps mf s))"
proof (induction ps arbitrary: i mf s)
  case Nil
  then show ?case by (auto intro: chain)
next
  case (Cons p ps)
  then show ?case by (auto simp: split_beta Let_def intro!: Cons.IH chain split: option.split)
qed

lemma Root_backup_loop_frame: "app_data_frame mf (fst (Root_backup_loop h m adb dataDir n i ps mf s))"
proof (induction ps arbitrary: i mf s)
  case (Cons p ps)
  let ?s2 = "progress ''Backing up app data'' i n (pi_name p) (snd (cancelRequested h s))"
  show ?case
  proof (cases "findPackageEntry mf (pi_name p)")
    case (Some e)
    then have "app_data_frame mf (updatePackageEntry mf (pi_name p)
        (\<lambda>_. fst (Root_backupPackage h m adb dataDir (pi_name p) e ?s2)))"
      using findPackageEntry_SomeD by (intro app_data_frame_update) (simp add: Root_backupPackage_entry)
    then show ?thesis
      using Some Cons.IH app_data_frame_trans by (auto simp: split_beta Let_def)
  qed (use Cons.IH in \<open>simp add: split_beta Let_def\<close>)
qed simp

lemma Root_backup_loop_wf:
  "entries_wf mf \<Longrightarrow> entries_wf (fst (Root_backup_loop h m adb dataDir n i ps mf s))"
proof (induction ps arbitrary: i mf s)
  case (Cons p ps)
  then show ?case
    by (auto simp: split_beta Let_def Root_backupPackage_entry dest: entries_wf_find
        intro!: Cons.IH entries_wf_update split: option.split)
qed simp

definition root_backend :: "'w host \<Rightarrow> RootMethod \<Rightarrow> 'w backend" where
  "root_backend h m =
     \<lparr>be_name = ''root'', be_backupAppData = Root_backupAppData h m, be_restoreAppData = Root_restoreAppData h m,
      be_backupSharedStorage = Root_backupSharedStorage h m, be_restoreSharedStorage = Root_restoreSharedStorage h m\<rparr>"

lemma chain_restoreTree_device [chain]:
  "extends (execs_only (to_device adb)) s0 s \<Longrightarrow>
   extends (execs_only (to_device adb)) s0 (snd (restoreTree h m adb parent name p s))"
  by (auto simp: restoreTree_def split_beta Let_def intro!: chain)

lemma chain_restore_parts [chain]:
  assumes "extends (execs_only (to_device adb)) s0 s"
  shows "extends (execs_only (to_device adb)) s0 (snd (restore_ce h m adb backupDir e s))"
    "extends (execs_only (to_device adb)) s0 (snd (restore_de h m adb backupDir e s))"
  using assms by (auto simp: restore_ce_def restore_de_def split_beta Let_def intro!: chain split: restore_failure.split)

lemma chain_Root_restoreEntry [chain]:
  "extends (execs_only (to_device adb)) s0 s \<Longrightarrow>
   extends (execs_only (to_device adb)) s0 (snd (Root_restoreEntry h m adb backupDir e s))"
  by (auto simp: Root_restoreEntry_def split_beta Let_def intro!: chain split: option.split)

lemma chain_Root_restore_loop [chain]:
  "extends (execs_only (to_device adb)) s0 s \<Longrightarrow>
   extends (execs_only (to_device adb)) s0 (snd (Root_restore_loop h m adb backupDir flt i b es s))"
proof (induction es arbitrary: i b s)
  case (Cons e es)
  then show ?case by (auto simp: split_beta Let_def intro!: Cons.IH chain)
qed simp

interpretation root: backup_backend "root_backend h m" for h m
proof
  fix adb s dir ps f mf
  show "extends (execs_only (to_device adb)) s (snd (be_backupAppData (root_backend h m) adb dir ps mf s))"
    by (auto simp: root_backend_def Root_backupAppData_def split_beta Let_def intro!: chain)
  show "app_data_frame mf (fst (be_backupAppData (root_backend h m) adb dir ps mf s))"
    by (simp add: root_backend_def Root_backupAppData_def split_beta Let_def Root_backup_loop_frame)
  show "entries_wf (fst (be_backupAppData (root_backend h m) adb dir ps mf s))" if "entries_wf mf"
    using that by (simp add: root_backend_def Root_backupAppData_def split_beta Let_def Root_backup_loop_wf)
  show "extends (execs_only (to_device adb)) s (snd (be_restoreAppData (root_backend h m) adb dir mf f s))"
    by (auto simp: root_backend_def Root_restoreAppData_def split_beta Let_def intro!: chain)
  show "(fst (be_restoreAppData (root_backend h m) adb dir mf f s))\<lparr>mf_packages := mf_packages mf\<rparr> = mf"
    by (cases mf) (simp add: root_backend_def Root_restoreAppData_def split_beta Let_def)
  show "list_all2 same_but_error (mf_packages mf)
      (mf_packages (fst (be_restoreAppData (root_backend h m) adb dir mf f s)))"
    by (simp add: root_backend_def Root_restoreAppData_def split_beta Let_def restore_loop_entries)
  show "extends (execs_only (to_device adb)) s (snd (be_backupSharedStorage (root_backend h m) adb dir mf s))"
    by (auto simp: root_backend_def Root_backupSharedStorage_def split_beta Let_def intro!: chain)
  show "snd (fst (be_backupSharedStorage (root_backend h m) adb dir mf s)) = mf"
    if "\<not> fst (fst (be_backupSharedStorage (root_backend h m) adb dir mf s))"
    using that by (auto simp: root_backend_def Root_backupSharedStorage_def split_beta Let_def split: if_splits)
  show "shared_frame mf (snd (fst (be_backupSharedStorage (root_backend h m) adb dir mf s)))"
    if "fst (fst (be_backupSharedStorage (root_backend h m) adb dir mf s))"
    using that by (auto simp: root_backend_def Root_backupSharedStorage_def split_beta Let_def shared_frame_def
        split: if_splits)
  show "extends (execs_only (to_device adb)) s (snd (be_restoreSharedStorage (root_backend h m) adb dir mf s))"
    by (auto simp: root_backend_def Root_restoreSharedStorage_def split_beta Let_def intro!: chain)
  show "be_restoreSharedStorage (root_backend h m) adb dir mf s = (False, s)" if "\<not> mf_sharedStorageIncluded mf"
    using that by (simp add: root_backend_def Root_restoreSharedStorage_def)
qed

section \<open>Properties\<close>

text \<open>C31: what a root-mode restore of app data does to the device.  As long as child processes leave
  the backup's files alone, every command it sends belongs to one selected entry with data and a valid
  package name and is read by the root shell as the intended command line: the app itself is stopped,
  only its own data directories are inspected and relabelled, and only an archive of that entry whose
  recorded checksum it matches is ever streamed into \<open>tar\<close>.\<close>

theorem root_restore_verified:
  assumes "files_kept h"
  shows "extends (execs_only (selected_call h m adb backupDir s packageFilter (mf_packages manifest))) s
    (snd (Root_restoreAppData h m adb backupDir manifest packageFilter s))"
  using extends_restore_loop [OF assms same_files_refl, where es = "mf_packages manifest"]
  by (auto simp: Root_restoreAppData_def split_beta Let_def intro!: chain)

lemma files_kept_quiet: "files_kept quiet_host"
  by (simp add: files_kept_def quiet_host_def)

theorem root_restore_verified_witness:
  "extends (execs_only (selected_call quiet_host SuBinary (client ''X'') ''b'' quiet_sys [] (mf_packages one_app_manifest)))
    quiet_sys (snd (Root_restoreAppData quiet_host SuBinary (client ''X'') ''b'' one_app_manifest [] quiet_sys))"
  by (rule root_restore_verified [OF files_kept_quiet])

lemma shellFromFile_ok:
  "fst (shellFromFile h c cmd f s) \<Longrightarrow>
   EvExec (FromFile f) (baseArgs c @ [''shell'', cmd]) \<in> set (trace (snd (shellFromFile h c cmd f s)))"
  by (auto simp: shellFromFile_def Process_runFromFile_def process_def split_beta Let_def result_ok_def
      cancelledResult_def split: bool.splits)

lemma extends_trace_subset: "extends Q s t \<Longrightarrow> set (trace s) \<subseteq> set (trace t)"
  by (auto simp: extends_def)

lemma restoreTree_Restored:
  assumes "fst (restoreTree h m adb parent name p s) = Restored"
  shows "EvExec (FromFile p) (baseArgs adb @ [''shell'', asRoot m (extract_cmd parent)])
    \<in> set (trace (snd (restoreTree h m adb parent name p s)))"
proof -
  let ?d = "parent @ ''/'' @ name"
  obtain t owner where ok: "fst (shellFromFile h adb (asRoot m (extract_cmd parent)) p t)"
    and r: "snd (restoreTree h m adb parent name p s) =
      snd (shell h adb (asRoot m (restorecon_cmd ?d)) (snd (shell h adb (asRoot m (chown_cmd owner ?d))
        (snd (shellFromFile h adb (asRoot m (extract_cmd parent)) p t)))))"
    using assms by (auto simp: restoreTree_def split_beta Let_def split: if_splits)
  let ?u = "snd (shellFromFile h adb (asRoot m (extract_cmd parent)) p t)"
  have "extends (execs_only (to_device adb)) ?u (snd (restoreTree h m adb parent name p s))"
    unfolding r by (intro chain extends_refl to_device_append)
  with shellFromFile_ok [OF ok] show ?thesis using extends_trace_subset by blast
qed

lemma restore_ce_done:
  assumes "pe_dataArchive e \<noteq> []" "snd (fst (restore_ce h m adb backupDir e s))"
  shows "\<exists>args. EvExec (FromFile (path_join backupDir (pe_dataArchive e))) args
    \<in> set (trace (snd (restore_ce h m adb backupDir e s)))"
  using assms restoreTree_Restored [of h m adb kCeRoot "pe_name e" "path_join backupDir (pe_dataArchive e)" s]
  by (cases "restoreTree h m adb kCeRoot (pe_name e) (path_join backupDir (pe_dataArchive e)) s")
    (auto simp: restore_ce_def split: restore_failure.splits)

lemma restore_de_done:
  assumes "pe_deDataArchive e \<noteq> []" "snd (fst (restore_de h m adb backupDir e s))"
  shows "\<exists>args. EvExec (FromFile (path_join backupDir (pe_deDataArchive e))) args
    \<in> set (trace (snd (restore_de h m adb backupDir e s)))"
  using assms restoreTree_Restored [of h m adb kDeRoot "pe_name e" "path_join backupDir (pe_deDataArchive e)" s]
  by (cases "restoreTree h m adb kDeRoot (pe_name e) (path_join backupDir (pe_deDataArchive e)) s")
    (auto simp: restore_de_def split: restore_failure.splits)

lemma restore_ce_flag:
  "\<not> snd (fst (restore_ce h m adb backupDir e s)) \<Longrightarrow> pe_error (fst (fst (restore_ce h m adb backupDir e s))) \<noteq> []"
  by (cases "restoreTree h m adb kCeRoot (pe_name e) (path_join backupDir (pe_dataArchive e)) s")
    (auto simp: restore_ce_def not_installed_error_def split: restore_failure.splits if_splits)

lemma restore_de_flag:
  "\<not> snd (fst (restore_de h m adb backupDir e s)) \<Longrightarrow> pe_error (fst (fst (restore_de h m adb backupDir e s))) \<noteq> []"
  by (cases "restoreTree h m adb kDeRoot (pe_name e) (path_join backupDir (pe_deDataArchive e)) s")
    (auto simp: restore_de_def not_installed_error_def split: restore_failure.splits if_splits)

lemma verify_archives_error: "verify_archives h backupDir as s = Some x \<Longrightarrow> x \<noteq> []"
  by (induction h backupDir as s rule: verify_archives.induct) (auto split: if_splits)


text \<open>The calls of a backup of the packages \<open>names\<close>: probing one of the two data directories of one of
  them, and streaming that directory into an archive named after the package.\<close>

fun backup_tokens :: "string \<Rightarrow> string \<Rightarrow> proc_io \<Rightarrow> sh_token list \<Rightarrow> bool" where
  "backup_tokens dataDir n (Capture i) toks \<longleftrightarrow>
     (\<exists>parent\<in>{kCeRoot, kDeRoot}. toks = exists_tokens (parent @ ''/'' @ n))"
| "backup_tokens dataDir n (ToFile p) toks \<longleftrightarrow>
     (\<exists>parent\<in>{kCeRoot, kDeRoot}. toks = tar_tokens parent n) \<and>
     (\<exists>ext\<in>{''.tar.gz'', ''.de.tar.gz''}. p = path_join dataDir (sanitizeForFilename n @ ext))"
| "backup_tokens dataDir n (FromFile p) toks \<longleftrightarrow> False"

definition backup_call :: "RootMethod \<Rightarrow> AdbClient \<Rightarrow> string \<Rightarrow> string list \<Rightarrow> proc_io \<Rightarrow> string list \<Rightarrow> bool" where
  "backup_call m adb dataDir names io args \<longleftrightarrow>
     (\<exists>n\<in>set names. isValidPackageName n \<and>
        (\<exists>cmd toks verb. args = baseArgs adb @ [verb, cmd] \<and> root_reads m cmd toks \<and> backup_tokens dataDir n io toks))"

lemma backup_callI:
  "n \<in> set names \<Longrightarrow> isValidPackageName n \<Longrightarrow> sh_words cmd = Some toks \<Longrightarrow> backup_tokens dataDir n io toks \<Longrightarrow>
   backup_call m adb dataDir names io (baseArgs adb @ [verb, asRoot m cmd])"
  unfolding backup_call_def using asRoot_reads by blast

lemma chain_captureTree_backup:
  assumes "extends (execs_only (backup_call m adb dataDir names)) s0 s" "n \<in> set names" "isValidPackageName n"
    "parent \<in> {kCeRoot, kDeRoot}" "ext \<in> {''.tar.gz'', ''.de.tar.gz''}"
  shows "extends (execs_only (backup_call m adb dataDir names)) s0
    (snd (captureTree h m adb parent n (path_join dataDir (sanitizeForFilename n @ ext)) s))"
proof -
  have "backup_call m adb dataDir names (Capture None) (baseArgs adb @ [''shell'', asRoot m (exists_cmd parent n)])"
    by (rule backup_callI [OF assms(2,3)]) (use assms(4) in auto)
  moreover have "backup_call m adb dataDir names (ToFile (path_join dataDir (sanitizeForFilename n @ ext)))
      (baseArgs adb @ [''exec-out'', asRoot m (tar_cmd parent n)])"
    by (rule backup_callI [OF assms(2,3)]) (use assms(4,5) in auto)
  ultimately show ?thesis
    using assms(1) unfolding captureTree_def Let_def split_beta by (auto intro!: chain)
qed

lemma chain_Root_backupPackage_backup:
  assumes "extends (execs_only (backup_call m adb dataDir names)) s0 s" "n \<in> set names"
  shows "extends (execs_only (backup_call m adb dataDir names)) s0 (snd (Root_backupPackage h m adb dataDir n e s))"
  using assms
  by (auto simp: Root_backupPackage_def capture_ce_def capture_de_def split_beta Let_def
      intro!: chain chain_captureTree_backup)

lemma extends_Root_backup_loop:
  "extends (execs_only (backup_call m adb dataDir names)) s0 s \<Longrightarrow> pi_name ` set ps \<subseteq> set names \<Longrightarrow>
   extends (execs_only (backup_call m adb dataDir names)) s0 (snd (Root_backup_loop h m adb dataDir n i ps mf s))"
proof (induction ps arbitrary: i mf s)
  case Nil
  then show ?case by (auto intro: chain)
next
  case (Cons p ps)
  then show ?case
    by (auto simp: split_beta Let_def intro!: Cons.IH chain chain_Root_backupPackage_backup split: option.split)
qed

text \<open>Whatever the package names and the device answers, a root-mode backup of app data only probes
  and archives the two data directories of the packages given, with valid names, each into its own
  archive under \<open>data/\<close>, and the root shell reads every command line as exactly those words.\<close>

theorem root_backup_commands:
  "extends (execs_only (backup_call m adb (path_join outDir ''data'') (map pi_name packages))) s
    (snd (Root_backupAppData h m adb outDir packages manifest s))"
  by (auto simp: Root_backupAppData_def split_beta Let_def intro!: extends_Root_backup_loop chain)

text \<open>A host with every file in place, on which every process prints an owner.\<close>

definition owner_host :: "unit host" where
  "owner_host = quiet_host\<lparr>h_exec := (\<lambda>io args w. (silent_success\<lparr>stdOut := ''10:10''\<rparr>, w)), h_exists := (\<lambda>p w. True)\<rparr>"


end
