(* ===== verification/Captures.thy ===== *)
theory Captures
  imports StandardBackend RootBackend
begin

text \<open>
  The static functions of \<open>src/src/backup/BackupManager.cpp\<close>: choosing packages, pulling and
  installing APKs, copying whole device paths, and choosing the backend.
\<close>

section \<open>Choosing packages\<close>

definition package_selected :: "string list \<Rightarrow> string list \<Rightarrow> string \<Rightarrow> bool" where
  "package_selected only exclude name \<longleftrightarrow> (only \<noteq> [] \<longrightarrow> name \<in> set only) \<and> name \<notin> set exclude"

definition unmatched :: "string \<Rightarrow> string" where
  "unmatched requested =
     ''Requested package '' @ apostrophe @ requested @ apostrophe @
     '' is not installed on this device (or was excluded); skipping it.''"

fun warn_unmatched :: "'w host \<Rightarrow> (string \<Rightarrow> string) \<Rightarrow> string list \<Rightarrow> string list \<Rightarrow> 'w sys \<Rightarrow> 'w sys" where
  "warn_unmatched h message [] names s = s"
| "warn_unmatched h message (requested # rest) names s =
     warn_unmatched h message rest names
       (if requested \<notin> set names then log_warn h (message requested) s else s)"

definition filterPackages :: "'w host \<Rightarrow> PackageInfo list \<Rightarrow> BackupOptions \<Rightarrow> 'w sys \<Rightarrow> PackageInfo list \<times> 'w sys" where
  "filterPackages h all options s =
     (let result = filter (\<lambda>pkg. package_selected (bo_onlyPackages options) (bo_excludePackages options) (pi_name pkg)) all
      in (result, warn_unmatched h unmatched (bo_onlyPackages options) (map pi_name result) s))"

section \<open>APKs\<close>

text \<open>The local name of the \<open>i\<close>-th APK, given the names already used.\<close>

definition apk_base :: "nat \<Rightarrow> string \<Rightarrow> string list \<Rightarrow> string" where
  "apk_base i path usedNames =
     (let b0 = sanitizeForFilename (path_filename path);
          b1 = (if b0 = [] \<or> b0 = ''_'' then ''split_'' @ nat_to_string i @ ''.apk'' else b0)
      in if b1 \<in> set usedNames then ''split_'' @ nat_to_string i @ ''_'' @ b1 else b1)"

text \<open>The files pulled and whether any pull failed.\<close>

fun pull_apks ::
    "'w host \<Rightarrow> AdbClient \<Rightarrow> string \<Rightarrow> string \<Rightarrow> nat \<Rightarrow> string list \<Rightarrow> string list \<Rightarrow> 'w sys \<Rightarrow>
     (string list \<times> bool) \<times> 'w sys" where
  "pull_apks h adb pkgDir safeName i usedNames [] s = (([], False), s)"
| "pull_apks h adb pkgDir safeName i usedNames (path # paths) s =
     (let base = apk_base i path usedNames;
          (ok, s1) = pull h adb path (path_join pkgDir base) s;
          ((files, failed), s2) = pull_apks h adb pkgDir safeName (i + 1) (usedNames @ [base]) paths s1
      in if ok then ((path_join (path_join ''apks'' safeName) base # files, failed), s2)
         else ((files, True), s2))"

definition not_captured :: string where
  "not_captured = ''not captured: the backup was cancelled''"

definition record_apks ::
    "'w host \<Rightarrow> string list \<Rightarrow> bool \<Rightarrow> PackageBackupEntry \<Rightarrow> 'w sys \<Rightarrow> PackageBackupEntry \<times> 'w sys" where
  "record_apks h localFiles anyFailed entry s =
     (if localFiles \<noteq> [] then
        (let e = entry\<lparr>pe_apkIncluded := True, pe_apkFiles := localFiles\<rparr>
         in (if anyFailed then e\<lparr>pe_error := ''only some APK files could be pulled; the APK set is incomplete''\<rparr> else e, s))
      else if anyFailed then
        (let (stop, s1) = cancelRequested h s
         in (entry\<lparr>pe_error := if stop then not_captured else ''failed to pull APK file(s) from device''\<rparr>, s1))
      else (entry, s))"

definition extract_package ::
    "'w host \<Rightarrow> AdbClient \<Rightarrow> string \<Rightarrow> PackageInfo \<Rightarrow> PackageBackupEntry \<Rightarrow> 'w sys \<Rightarrow> PackageBackupEntry \<times> 'w sys" where
  "extract_package h adb apksDir pkg entry s =
     (let safeName = sanitizeForFilename (pi_name pkg);
          pkgDir = path_join apksDir safeName;
          (_, s1) = ensureDirectory h pkgDir s;
          ((localFiles, anyFailed), s2) = pull_apks h adb pkgDir safeName 0 [] (pi_apkPaths pkg) s1
      in record_apks h localFiles anyFailed entry s2)"

fun extract_loop ::
    "'w host \<Rightarrow> AdbClient \<Rightarrow> string \<Rightarrow> nat \<Rightarrow> nat \<Rightarrow> PackageInfo list \<Rightarrow> Manifest \<Rightarrow> 'w sys \<Rightarrow> Manifest \<times> 'w sys" where
  "extract_loop h adb apksDir n i [] manifest s = (manifest, progress ''Extracting APKs'' n n [] s)"
| "extract_loop h adb apksDir n i (pkg # rest) manifest s =
     (let (stop, s1) = cancelRequested h s
      in if stop then (manifest, s1)
         else
           let s2 = progress ''Extracting APKs'' i n (pi_name pkg) s1
           in case findPackageEntry manifest (pi_name pkg) of
                None \<Rightarrow> extract_loop h adb apksDir n (i + 1) rest manifest s2
              | Some entry \<Rightarrow>
                  if pi_apkPaths pkg = [] then extract_loop h adb apksDir n (i + 1) rest manifest s2
                  else
                    let (e, s3) = extract_package h adb apksDir pkg entry s2
                    in extract_loop h adb apksDir n (i + 1) rest
                         (updatePackageEntry manifest (pi_name pkg) (\<lambda>_. e)) s3)"

definition extractApks ::
    "'w host \<Rightarrow> AdbClient \<Rightarrow> string \<Rightarrow> PackageInfo list \<Rightarrow> Manifest \<Rightarrow> 'w sys \<Rightarrow> Manifest \<times> 'w sys" where
  "extractApks h adb outDir packages manifest s =
     extract_loop h adb (path_join outDir ''apks'') (length packages) 0 packages manifest s"

definition install_entry ::
    "'w host \<Rightarrow> AdbClient \<Rightarrow> string \<Rightarrow> PackageBackupEntry \<Rightarrow> 'w sys \<Rightarrow> PackageBackupEntry \<times> 'w sys" where
  "install_entry h adb backupDir entry s =
     (if \<not> pe_apkIncluded entry \<or> pe_apkFiles entry = [] then (entry, s)
      else
        let localPaths = map (path_join backupDir) (pe_apkFiles entry);
            s1 = log_info h (''Installing '' @ pe_name entry @ '' ('' @ nat_to_string (length localPaths) @ '' APK file(s))...'') s;
            (ok, s2) = AdbClient.installApks h adb localPaths True s1
        in if ok then (entry, s2)
           else (entry\<lparr>pe_error := ''failed to install APK(s)''\<rparr>, log_warn h (''Failed to install '' @ pe_name entry) s2))"

fun install_loop ::
    "'w host \<Rightarrow> AdbClient \<Rightarrow> string \<Rightarrow> string list \<Rightarrow> nat \<Rightarrow> PackageBackupEntry list \<Rightarrow> 'w sys \<Rightarrow>
     PackageBackupEntry list \<times> 'w sys" where
  "install_loop h adb backupDir names i [] s = ([], progress ''Installing APKs'' (length names) (length names) [] s)"
| "install_loop h adb backupDir names i (entry # rest) s =
     (if pe_name entry \<notin> set names then
        (let (es, s1) = install_loop h adb backupDir names i rest s in (entry # es, s1))
      else
        let (stop, s1) = cancelRequested h s
        in if stop then (entry # rest, s1)
           else
             let s2 = progress ''Installing APKs'' i (length names) (pe_name entry) s1;
                 (e, s3) = install_entry h adb backupDir entry s2;
                 (es, s4) = install_loop h adb backupDir names (i + 1) rest s3
             in (e # es, s4))"

definition installApks ::
    "'w host \<Rightarrow> AdbClient \<Rightarrow> string \<Rightarrow> Manifest \<Rightarrow> string list \<Rightarrow> 'w sys \<Rightarrow> Manifest \<times> 'w sys" where
  "installApks h adb backupDir manifest selectedNames s =
     (let (es, s1) = install_loop h adb backupDir selectedNames 0 (mf_packages manifest) s
      in (manifest\<lparr>mf_packages := es\<rparr>, s1))"

section \<open>Whole device paths\<close>

definition numbered :: "string \<Rightarrow> nat \<Rightarrow> string" where
  "numbered candidate num = candidate @ ''_'' @ nat_to_string num"

lemma numbered_inj: "inj (numbered candidate)"
  by (auto simp: numbered_def inj_def)

text \<open>The loop of the lambda \<open>uniqueName\<close>.\<close>

function unique_from :: "string list \<Rightarrow> string \<Rightarrow> nat \<Rightarrow> string \<Rightarrow> string" where
  "unique_from usedNames candidate num name =
     (if name \<in> set usedNames then unique_from usedNames candidate (num + 1) (numbered candidate num) else name)"
  by pat_completeness auto

termination
proof (relation "measure (\<lambda>(usedNames, candidate, num, name).
    card {k. num \<le> k \<and> numbered candidate k \<in> set usedNames} + (if name \<in> set usedNames then 1 else 0))")
  fix usedNames candidate num and name :: string
  assume name: "name \<in> set usedNames"
  let ?S = "\<lambda>j. {k. j \<le> k \<and> numbered candidate k \<in> set usedNames}"
  have fin: "finite (?S j)" for j
    using finite_vimageI [OF _ numbered_inj, of "set usedNames" candidate]
    by (rule finite_subset [rotated]) auto
  have split: "?S num = ?S (num + 1) \<union> (if numbered candidate num \<in> set usedNames then {num} else {})"
    by (auto simp: le_Suc_eq Suc_le_eq) (metis le_neq_implies_less)+
  have "card (?S num) = card (?S (num + 1)) + (if numbered candidate num \<in> set usedNames then 1 else 0)"
    unfolding split using fin [of "num + 1"] by (simp add: card_Un_disjoint)
  then show "((usedNames, candidate, num + 1, numbered candidate num), usedNames, candidate, num, name)
      \<in> measure (\<lambda>(usedNames, candidate, num, name).
          card {k. num \<le> k \<and> numbered candidate k \<in> set usedNames} + (if name \<in> set usedNames then 1 else 0))"
    using name by simp
qed simp

declare unique_from.simps [simp del]

definition uniqueName :: "string list \<Rightarrow> string \<Rightarrow> string" where
  "uniqueName usedNames candidate = unique_from usedNames candidate 2 candidate"

definition covered_by_shared :: "bool \<Rightarrow> string \<Rightarrow> bool" where
  "covered_by_shared captured devicePath \<longleftrightarrow>
     captured \<and> (isUnder devicePath ''/sdcard'' \<or> isUnder devicePath ''/storage/emulated/0'')"

definition present_cmd :: "string \<Rightarrow> string" where
  "present_cmd devicePath = ''[ -e '' @ shellQuote devicePath @ '' ] && echo yes''"

definition local_name :: "string list \<Rightarrow> string \<Rightarrow> string" where
  "local_name usedNames devicePath =
     uniqueName usedNames (sanitizeForFilename (if drop 1 devicePath = [] then ''root'' else drop 1 devicePath))"

text \<open>The capture a finished pull is recorded as, and what is logged of it.\<close>

definition capture_note :: "bool \<Rightarrow> string \<Rightarrow> string" where
  "capture_note whole errorText =
     (if whole then []
      else if errorText = [] then ''adb pull reported errors; parts of this tree were not readable''
      else take 500 errorText)"

definition log_capture :: "'w host \<Rightarrow> bool \<Rightarrow> string \<Rightarrow> nat \<Rightarrow> 'w sys \<Rightarrow> 'w sys" where
  "log_capture h whole devicePath bytes s =
     (if whole then log_info h (''Captured '' @ devicePath @ '' ('' @ formatBytes bytes @ '').'') s
      else log_warn h (''Captured '' @ devicePath @ '' only partially ('' @ formatBytes bytes @
        ''); some paths were not readable by adb.'') s)"

definition log_unpulled :: "'w host \<Rightarrow> string \<Rightarrow> string \<Rightarrow> 'w sys \<Rightarrow> 'w sys" where
  "log_unpulled h devicePath errorText s =
     log_warn h (''Could not pull '' @ devicePath @ (if errorText = [] then [] else '': '' @ errorText)) s"

text \<open>Pulling one present path into \<open>localName\<close>; \<^term>\<open>None\<close> is a path that gave nothing.\<close>

definition pull_path ::
    "'w host \<Rightarrow> AdbClient \<Rightarrow> string \<Rightarrow> string \<Rightarrow> string \<Rightarrow> 'w sys \<Rightarrow> FilesystemCapture option \<times> 'w sys" where
  "pull_path h adb fsDir devicePath localName s =
     (let localPath = path_join fsDir localName;
          s1 = log_info h (''Pulling '' @ devicePath @ '' ...'') (fs_remove_all h localPath s);
          ((ok, sawErrors, errorText), s2) = pullTree h adb devicePath localPath s1;
          bytes = directorySize h localPath s2
      in if \<not> ok \<and> bytes = 0 then (None, fs_remove_all h localPath (log_unpulled h devicePath errorText s2))
         else
           let whole = (ok \<and> \<not> sawErrors)
           in (Some \<lparr>fc_devicePath = devicePath, fc_localPath = path_join ''filesystem'' localName, fc_bytes = bytes,
                     fc_complete = whole, fc_note = capture_note whole errorText\<rparr>,
               log_capture h whole devicePath bytes s2))"

text \<open>One round of the loop: the names used, and the capture if there is one.\<close>

definition capture_path ::
    "'w host \<Rightarrow> AdbClient \<Rightarrow> string \<Rightarrow> bool \<Rightarrow> string list \<Rightarrow> string \<Rightarrow> 'w sys \<Rightarrow>
     (string list \<times> FilesystemCapture option) \<times> 'w sys" where
  "capture_path h adb fsDir shared usedNames devicePath s =
     (if classify devicePath \<noteq> Ok then ((usedNames, None), log_warn h (explainVerdict (classify devicePath) devicePath) s)
      else if covered_by_shared shared devicePath then
        ((usedNames, None), log_info h (''Skipping '' @ devicePath @ '' (already captured as shared storage).'') s)
      else
        let ((_, found), s1) = shellText h adb (present_cmd devicePath) s
        in if \<not> found then
             ((usedNames, None), log_debug h (''Skipping '' @ devicePath @ '' (not present on this device).'') s1)
           else
             let localName = local_name usedNames devicePath;
                 (capture, s2) = pull_path h adb fsDir devicePath localName s1
             in ((usedNames @ [localName], capture), s2))"

fun capture_loop ::
    "'w host \<Rightarrow> AdbClient \<Rightarrow> string \<Rightarrow> bool \<Rightarrow> nat \<Rightarrow> nat \<Rightarrow> string list \<Rightarrow> string list \<Rightarrow> 'w sys \<Rightarrow>
     FilesystemCapture list \<times> 'w sys" where
  "capture_loop h adb fsDir shared n i usedNames [] s = ([], s)"
| "capture_loop h adb fsDir shared n i usedNames (devicePath # paths) s =
     (let (stop, s1) = cancelRequested h s
      in if stop then ([], s1)
         else
           let s2 = progress ''Pulling device paths'' i n devicePath s1;
               ((used1, capture), s3) = capture_path h adb fsDir shared usedNames devicePath s2;
               (captures, s4) = capture_loop h adb fsDir shared n (i + 1) used1 paths s3
           in (case capture of None \<Rightarrow> captures | Some c \<Rightarrow> c # captures, s4))"

definition captureFilesystem ::
    "'w host \<Rightarrow> AdbClient \<Rightarrow> string \<Rightarrow> string list \<Rightarrow> bool \<Rightarrow> Manifest \<Rightarrow> 'w sys \<Rightarrow> Manifest \<times> 'w sys" where
  "captureFilesystem h adb outDir requestedPaths shared manifest s =
     (let paths = collapseRedundant requestedPaths
      in if paths = [] then (manifest, s)
         else
           let fsDir = path_join outDir ''filesystem''; (ok, s1) = ensureDirectory h fsDir s
           in if \<not> ok then (manifest, log_error h (''Could not create '' @ fsDir @ ''; skipping the filesystem capture.'') s1)
              else
                let (captures, s2) = capture_loop h adb fsDir shared (length paths) 0 [] paths s1
                in (manifest\<lparr>mf_filesystemCaptures := mf_filesystemCaptures manifest @ captures\<rparr>, s2))"

section \<open>The backend\<close>

definition chooseBackupBackend :: "'w host \<Rightarrow> BackupMode \<Rightarrow> DeviceInfo \<Rightarrow> 'w backend" where
  "chooseBackupBackend h mode device =
     (let useRoot = (case mode of ModeRoot \<Rightarrow> True | ModeStandard \<Rightarrow> False | ModeAuto \<Rightarrow> isRooted device)
      in if useRoot then root_backend h (dev_root device) else standard_backend h)"

section \<open>Whole paths: what is pulled, and where to\<close>

lemma unique_from_fresh: "unique_from usedNames candidate num name \<notin> set usedNames"
  by (induction usedNames candidate num name rule: unique_from.induct) (subst unique_from.simps, simp)

lemma uniqueName_fresh: "uniqueName usedNames candidate \<notin> set usedNames"
  unfolding uniqueName_def by (rule unique_from_fresh)

lemma digit_not_slash: "CHR ''/'' \<notin> set (nat_to_string n)"
  using nat_to_string_digits [of n] by (auto simp: char_class_defs)

lemma unique_from_segment:
  "CHR ''/'' \<notin> set candidate \<Longrightarrow> candidate \<noteq> [] \<Longrightarrow> CHR ''/'' \<notin> set name \<and> name \<noteq> [] \<Longrightarrow>
   CHR ''/'' \<notin> set (unique_from usedNames candidate num name) \<and> unique_from usedNames candidate num name \<noteq> []"
proof (induction usedNames candidate num name rule: unique_from.induct)
  case (1 usedNames candidate num name)
  have "CHR ''/'' \<notin> set (numbered candidate num) \<and> numbered candidate num \<noteq> []"
    using 1(2,3) digit_not_slash by (auto simp: numbered_def)
  then show ?case using 1 by (subst (1 2) unique_from.simps) simp
qed

text \<open>One component of a path: a name that cannot leave its directory's level.\<close>

definition single_name :: "string \<Rightarrow> bool" where
  "single_name name \<longleftrightarrow> name \<noteq> [] \<and> CHR ''/'' \<notin> set name"

lemma local_name_single: "single_name (local_name usedNames devicePath)"
  using unique_from_segment [OF sanitize_no_slash sanitize_not_Nil] sanitize_no_slash sanitize_not_Nil
  by (simp add: local_name_def uniqueName_def single_name_def)

lemma local_name_fresh: "local_name usedNames devicePath \<notin> set usedNames"
  unfolding local_name_def by (rule uniqueName_fresh)

lemma path_join_single: "single_name n \<Longrightarrow> path_join ''filesystem'' n = ''filesystem/'' @ n"
  by (cases n) (auto simp: single_name_def path_join_def)

definition present_tokens :: "string \<Rightarrow> sh_token list" where
  "present_tokens path =
     [Oper (CHR ''[''), Word ''-e'', Word path, Oper (CHR '']''), Oper (CHR ''&''), Oper (CHR ''&''), Word ''echo'', Word ''yes'']"

lemma present_command [simp]: "sh_words (present_cmd path) = Some (present_tokens path)"
  by (rule sh_words_walk, simp add: present_cmd_def sh_walk, simp add: present_tokens_def)

definition capture_call :: "AdbClient \<Rightarrow> string \<Rightarrow> string list \<Rightarrow> proc_io \<Rightarrow> string list \<Rightarrow> bool" where
  "capture_call adb fsDir paths io args \<longleftrightarrow>
     (\<exists>p\<in>set paths. isPullable p \<and>
        ((\<exists>cmd. args = baseArgs adb @ [''shell'', cmd] \<and> sh_words cmd = Some (present_tokens p)) \<or>
         (\<exists>name. args = baseArgs adb @ [''pull'', ''-a'', p, path_join fsDir name] \<and> single_name name)))"

lemma chain_pull_path:
  assumes "extends (execs_only (capture_call adb fsDir paths)) s0 s" "p \<in> set paths" "isPullable p" "single_name name"
  shows "extends (execs_only (capture_call adb fsDir paths)) s0 (snd (pull_path h adb fsDir p name s))"
proof -
  have "capture_call adb fsDir paths (Capture None) (baseArgs adb @ [''pull'', ''-a'', p, path_join fsDir name])"
    using assms(2-4) by (auto simp: capture_call_def)
  then show ?thesis
    using assms(1)
    by (auto simp: pull_path_def log_unpulled_def log_capture_def split_beta Let_def intro!: chain)
qed

lemma chain_capture_path:
  assumes "extends (execs_only (capture_call adb fsDir paths)) s0 s" "p \<in> set paths"
  shows "extends (execs_only (capture_call adb fsDir paths)) s0 (snd (capture_path h adb fsDir shared used p s))"
proof (cases "classify p = Ok")
  case True
  then have "capture_call adb fsDir paths (Capture None) (baseArgs adb @ [''shell'', present_cmd p])"
    using assms(2) by (auto simp: capture_call_def isPullable_def)
  then show ?thesis
    using assms True by (auto simp: capture_path_def isPullable_def local_name_single split_beta Let_def intro!: chain chain_pull_path)
qed (use assms in \<open>auto simp: capture_path_def intro!: chain\<close>)

lemma chain_capture_loop:
  assumes "set ps \<subseteq> set paths" "extends (execs_only (capture_call adb fsDir paths)) s0 s"
  shows "extends (execs_only (capture_call adb fsDir paths)) s0 (snd (capture_loop h adb fsDir shared n i used ps s))"
  using assms
proof (induction ps arbitrary: i used s)
  case (Cons p ps)
  then show ?case by (auto simp: split_beta Let_def intro!: Cons.IH chain_capture_path chain)
qed simp

text \<open>The captures: of paths pulled, each under its own name.\<close>

definition capture_of :: "string list \<Rightarrow> string \<Rightarrow> FilesystemCapture \<Rightarrow> bool" where
  "capture_of paths name c \<longleftrightarrow>
     fc_devicePath c \<in> set paths \<and> isPullable (fc_devicePath c) \<and> fc_localPath c = ''filesystem/'' @ name \<and> single_name name \<and>
     (fc_complete c \<longleftrightarrow> fc_note c = [])"

lemma capture_note_iff [simp]: "capture_note whole err = [] \<longleftrightarrow> whole"
  by (simp add: capture_note_def)

lemma capture_path_result:
  assumes "capture_path h adb fsDir shared used p s = ((used1, capture), s1)" "p \<in> set paths"
  shows "(\<exists>name. used1 = used @ [name] \<and> name \<notin> set used \<and> (case capture of None \<Rightarrow> True | Some c \<Rightarrow> capture_of paths name c)) \<or>
    (used1 = used \<and> capture = None)"
proof -
  have "path_join ''filesystem'' (local_name used p) = ''filesystem/'' @ local_name used p"
    by (rule path_join_single) (rule local_name_single)
  then show ?thesis
    using assms local_name_fresh [of used p] local_name_single [of used p]
    by (auto simp: capture_path_def pull_path_def capture_of_def isPullable_def Let_def split_beta split: if_splits)
qed

lemma capture_loop_result:
  assumes "set ps \<subseteq> set paths"
  shows "\<exists>names. list_all2 (capture_of paths) names (fst (capture_loop h adb fsDir shared n i used ps s)) \<and>
    distinct names \<and> set names \<inter> set used = {}"
  using assms
proof (induction ps arbitrary: i used s)
  case Nil
  then show ?case by simp
next
  case (Cons p ps)
  obtain stop s1 where c: "cancelRequested h s = (stop, s1)" by (cases "cancelRequested h s")
  obtain used1 capture s2 where r: "capture_path h adb fsDir shared used p (progress ''Pulling device paths'' i n p s1) = ((used1, capture), s2)"
    by (metis prod.collapse)
  obtain names where names: "list_all2 (capture_of paths) names (fst (capture_loop h adb fsDir shared n (i + 1) used1 ps s2))"
    "distinct names" "set names \<inter> set used1 = {}"
    using Cons by force
  have "p \<in> set paths" using Cons.prems by simp
  from capture_path_result [OF r this] show ?case
  proof
    assume "\<exists>name. used1 = used @ [name] \<and> name \<notin> set used \<and> (case capture of None \<Rightarrow> True | Some c \<Rightarrow> capture_of paths name c)"
    then obtain name where name: "used1 = used @ [name]" "name \<notin> set used"
      "case capture of None \<Rightarrow> True | Some c \<Rightarrow> capture_of paths name c" by blast
    show ?thesis
    proof (cases capture)
      case None
      then show ?thesis using names name by (auto simp: c r split_beta intro!: exI [of _ names])
    next
      case (Some cap)
      then have "list_all2 (capture_of paths) (name # names) (cap # fst (capture_loop h adb fsDir shared n (i + 1) used1 ps s2))"
        "distinct (name # names)" "set (name # names) \<inter> set used = {}"
        using names name by auto
      then have "\<exists>ns. list_all2 (capture_of paths) ns (cap # fst (capture_loop h adb fsDir shared n (i + 1) used1 ps s2)) \<and>
          distinct ns \<and> set ns \<inter> set used = {}" by blast
      then show ?thesis using Some by (cases stop) (auto simp: c r split_beta)
    qed
  next
    assume "used1 = used \<and> capture = None"
    then show ?thesis using names by (auto simp: c r split_beta intro!: exI [of _ names])
  qed
qed


section \<open>APKs\<close>

text \<open>A pull of one of a package's APKs into the package's own directory.\<close>

definition apk_call :: "AdbClient \<Rightarrow> string \<Rightarrow> PackageInfo list \<Rightarrow> proc_io \<Rightarrow> string list \<Rightarrow> bool" where
  "apk_call adb apksDir packages io args \<longleftrightarrow>
     (\<exists>pkg\<in>set packages. \<exists>path\<in>set (pi_apkPaths pkg). \<exists>name. single_name name \<and>
        args = baseArgs adb @ [''pull'', path, path_join (path_join apksDir (sanitizeForFilename (pi_name pkg))) name])"

lemma apk_base_single: "single_name (apk_base i path used)"
  using sanitize_no_slash [of "path_filename path"] digit_not_slash [of i]
  by (auto simp: apk_base_def single_name_def Let_def)

lemma chain_pull_apks:
  assumes "extends (execs_only (apk_call adb apksDir packages)) s0 s" "pkg \<in> set packages" "set paths \<subseteq> set (pi_apkPaths pkg)"
    and "safe = sanitizeForFilename (pi_name pkg)"
  shows "extends (execs_only (apk_call adb apksDir packages)) s0 (snd (pull_apks h adb (path_join apksDir safe) safe i used paths s))"
  using assms(1,3)
proof (induction paths arbitrary: i used s)
  case (Cons path paths)
  have "apk_call adb apksDir packages (Capture None)
      (baseArgs adb @ [''pull'', path, path_join (path_join apksDir safe) (apk_base i path used)])"
    unfolding apk_call_def using assms(2,4) Cons.prems(2) apk_base_single
    by (intro bexI [of _ pkg] bexI [of _ path] exI [of _ "apk_base i path used"]) simp_all
  then have "extends (execs_only (apk_call adb apksDir packages)) s0
      (snd (pull h adb path (path_join (path_join apksDir safe) (apk_base i path used)) s))"
    using Cons.prems(1) by (intro chain)
  then show ?case using Cons.IH Cons.prems(2) by (simp add: split_beta Let_def)
qed simp

lemma chain_record_apks [chain]:
  "extends (execs_only P) s0 s \<Longrightarrow> extends (execs_only P) s0 (snd (record_apks h files failed e s))"
  by (auto simp: record_apks_def Let_def split_beta intro!: chain)

lemma chain_extract_package:
  assumes "extends (execs_only (apk_call adb apksDir packages)) s0 s" "pkg \<in> set packages"
  shows "extends (execs_only (apk_call adb apksDir packages)) s0 (snd (extract_package h adb apksDir pkg e s))"
  using assms by (auto simp: extract_package_def Let_def split_beta intro!: chain chain_pull_apks)

lemma chain_extract_loop:
  assumes "extends (execs_only (apk_call adb apksDir packages)) s0 s" "set pkgs \<subseteq> set packages"
  shows "extends (execs_only (apk_call adb apksDir packages)) s0 (snd (extract_loop h adb apksDir n i pkgs mf s))"
  using assms
proof (induction pkgs arbitrary: i mf s)
  case Nil
  then show ?case by (simp add: chain)
next
  case (Cons pkg pkgs)
  then show ?case
    by (auto simp: split_beta Let_def intro!: Cons.IH chain_extract_package chain split: option.split)
qed

text \<open>What an extraction records: the APKs pulled, or an error, on entries it does not otherwise touch.\<close>

definition apks_of :: "PackageBackupEntry \<Rightarrow> PackageBackupEntry \<Rightarrow> bool" where
  "apks_of e e' \<longleftrightarrow>
     e'\<lparr>pe_apkIncluded := pe_apkIncluded e, pe_apkFiles := pe_apkFiles e, pe_error := pe_error e\<rparr> = e"

lemma apks_of_refl [simp]: "apks_of e e"
  by (simp add: apks_of_def)

lemma apks_of_trans: "apks_of e f \<Longrightarrow> apks_of f g \<Longrightarrow> apks_of e g"
  by (cases e, cases f, cases g) (simp add: apks_of_def)

lemma apks_of_same: "apks_of e e' \<Longrightarrow> pe_name e' = pe_name e \<and> (entry_wf e' \<longleftrightarrow> entry_wf e)"
  by (cases e, cases e') (simp add: apks_of_def entry_wf_def)

definition apks_wf :: "PackageBackupEntry \<Rightarrow> bool" where
  "apks_wf e \<longleftrightarrow> (pe_apkIncluded e \<longleftrightarrow> pe_apkFiles e \<noteq> [])"

definition apks_step :: "PackageBackupEntry \<Rightarrow> PackageBackupEntry \<Rightarrow> bool" where
  "apks_step e e' \<longleftrightarrow> apks_of e e' \<and> (apks_wf e \<longrightarrow> apks_wf e')"

lemma apks_step_refl [simp]: "apks_step e e" "list_all2 apks_step es es"
  by (simp_all add: apks_step_def list_all2_refl)

lemma apks_step_trans: "list_all2 apks_step xs ys \<Longrightarrow> list_all2 apks_step ys zs \<Longrightarrow> list_all2 apks_step xs zs"
  by (rule list_all2_trans [of apks_step apks_step]) (auto simp: apks_step_def intro: apks_of_trans)

lemma extract_package_entry: "apks_step e (fst (extract_package h adb apksDir pkg e s))"
  by (cases e) (simp add: apks_step_def extract_package_def record_apks_def apks_of_def apks_wf_def Let_def split_beta)

lemma update_first_all2:
  "list_all2 R es es \<Longrightarrow> (\<forall>e. find (\<lambda>e. pe_name e = n) es = Some e \<longrightarrow> R e x) \<Longrightarrow>
   list_all2 R es (update_first n (\<lambda>_. x) es)"
  by (induction es) auto

lemma extract_loop_entries:
  "list_all2 apks_step (mf_packages mf)
     (mf_packages (fst (extract_loop h adb apksDir n i pkgs mf s))) \<and>
   (fst (extract_loop h adb apksDir n i pkgs mf s))\<lparr>mf_packages := mf_packages mf\<rparr> = mf"
proof (induction pkgs arbitrary: i mf s)
  case Nil
  show ?case by (simp add: list_all2_refl)
next
  case (Cons pkg pkgs)
  obtain stop s1 where c: "cancelRequested h s = (stop, s1)" by (cases "cancelRequested h s")
  let ?s2 = "progress ''Extracting APKs'' i n (pi_name pkg) s1"
  show ?case
  proof (cases "stop \<or> findPackageEntry mf (pi_name pkg) = None \<or> pi_apkPaths pkg = []")
    case True
    then show ?thesis using Cons.IH by (auto simp: c Let_def list_all2_refl split: option.split)
  next
    case False
    then obtain entry where entry: "findPackageEntry mf (pi_name pkg) = Some entry" by auto
    obtain e s3 where x: "extract_package h adb apksDir pkg entry ?s2 = (e, s3)"
      by (cases "extract_package h adb apksDir pkg entry ?s2")
    let ?mf = "updatePackageEntry mf (pi_name pkg) (\<lambda>_. e)"
    have "apks_step entry e" using extract_package_entry [of entry h adb apksDir pkg ?s2] x by simp
    then have "list_all2 apks_step (mf_packages mf) (mf_packages ?mf)"
      using entry by (auto simp: updatePackageEntry_def findPackageEntry_def intro!: update_first_all2 list_all2_refl)
    moreover have "list_all2 apks_step (mf_packages ?mf) (mf_packages (fst (extract_loop h adb apksDir n (i + 1) pkgs ?mf s3)))"
      and frame: "(fst (extract_loop h adb apksDir n (i + 1) pkgs ?mf s3))\<lparr>mf_packages := mf_packages ?mf\<rparr> = ?mf"
      using Cons.IH by blast+
    ultimately have "list_all2 apks_step (mf_packages mf) (mf_packages (fst (extract_loop h adb apksDir n (i + 1) pkgs ?mf s3)))"
      using apks_step_trans by blast
    moreover have "(fst (extract_loop h adb apksDir n (i + 1) pkgs ?mf s3))\<lparr>mf_packages := mf_packages mf\<rparr> = mf"
      using frame by (cases mf, cases "fst (extract_loop h adb apksDir n (i + 1) pkgs ?mf s3)") (simp add: updatePackageEntry_def)
    ultimately show ?thesis using False entry x by (simp add: c Let_def)
  qed
qed

text \<open>Pulling APKs copies only what belongs to the packages and loses no other record: every process
  pulls an APK path of one of the packages into a single name in that package's directory under
  \<open>apks/\<close>; the packages of the manifest, their order and everything but the APK fields and the error of
  an entry stay; and an entry says its APKs are included exactly when it lists files.\<close>

theorem extractApks_safe:
  "extends (execs_only (apk_call adb (path_join outDir ''apks'') packages)) s (snd (extractApks h adb outDir packages mf s)) \<and>
   list_all2 apks_step
     (mf_packages mf) (mf_packages (fst (extractApks h adb outDir packages mf s))) \<and>
   (fst (extractApks h adb outDir packages mf s))\<lparr>mf_packages := mf_packages mf\<rparr> = mf"
  using extract_loop_entries [of mf h adb "path_join outDir ''apks''" "length packages" 0 packages s]
  by (simp add: extractApks_def chain_extract_loop)

text \<open>Two APKs of one package can still be pulled to the same file: a split already named
  \<open>split_2_x.apk\<close> meets the name made up for a repeated \<open>x.apk\<close>, so the second overwrites the first
  and the manifest lists the file twice.\<close>

theorem apk_names_can_collide:
  "fst (fst (pull_apks quiet_host (client ''A'') ''b/apks/p'' ''p'' 0 []
     [''/a/split_2_x.apk'', ''/b/x.apk'', ''/c/x.apk''] quiet_sys)) =
   [''apks/p/split_2_x.apk'', ''apks/p/x.apk'', ''apks/p/split_2_x.apk'']"
  by code_simp

lemma app_data_frame_extract: "app_data_frame mf (fst (extractApks h adb outDir packages mf s))"
proof -
  let ?m = "fst (extractApks h adb outDir packages mf s)"
  have "list_all2 (\<lambda>e e'. pe_name e' = pe_name e) (mf_packages mf) (mf_packages ?m)" "?m\<lparr>mf_packages := mf_packages mf\<rparr> = mf"
    using extract_loop_entries [of mf h adb "path_join outDir ''apks''" "length packages" 0 packages s] apks_of_same
    by (auto simp: extractApks_def apks_step_def elim!: list_all2_mono)
  then show ?thesis
    by (cases mf, cases ?m) (auto simp: app_data_frame_def list_all2_conv_all_nth list_eq_iff_nth_eq)
qed

lemma entries_wf_extract: "entries_wf mf \<Longrightarrow> entries_wf (fst (extractApks h adb outDir packages mf s))"
  using extract_loop_entries [of mf h adb "path_join outDir ''apks''" "length packages" 0 packages s] apks_of_same
  by (auto simp: extractApks_def apks_step_def entries_wf_def list_all2_conv_all_nth list_all_length)

section \<open>As steps of a run\<close>

lemma call_to_device:
  "capture_call adb fsDir paths io args \<Longrightarrow> to_device adb io args"
  "apk_call adb apksDir packages io args \<Longrightarrow> to_device adb io args"
  by (auto simp: capture_call_def apk_call_def)

lemma device_step:
  assumes "extends (execs_only (to_device adb)) s0 s" "extends (execs_only P) s t" "\<And>io args. P io args \<Longrightarrow> to_device adb io args"
  shows "extends (execs_only (to_device adb)) s0 t"
proof -
  have "extends (execs_only (to_device adb)) s t"
    by (rule extends_mono [OF assms(2)]) (auto elim!: execs_only.elims intro: assms(3))
  with assms(1) show ?thesis by (rule extends_trans)
qed

lemma chain_captures [chain]:
  assumes "extends (execs_only (to_device adb)) s0 s"
  shows "extends (execs_only (to_device adb)) s0 (snd (extractApks h adb outDir packages mf s))"
    "extends (execs_only (to_device adb)) s0 (snd (captureFilesystem h adb outDir requested shared mf s))"
proof -
  show "extends (execs_only (to_device adb)) s0 (snd (extractApks h adb outDir packages mf s))"
    unfolding extractApks_def
    by (rule device_step [OF assms chain_extract_loop [OF extends_refl order.refl] call_to_device(2)])
  have loop: "extends (execs_only (to_device adb)) s0 (snd (capture_loop h adb fsDir shared n i used ps t))"
    if "extends (execs_only (to_device adb)) s0 t" for fsDir n i used ps t
    by (rule device_step [OF that chain_capture_loop [OF order.refl extends_refl] call_to_device(1)])
  show "extends (execs_only (to_device adb)) s0 (snd (captureFilesystem h adb outDir requested shared mf s))"
    using assms by (auto simp: captureFilesystem_def Let_def split_beta intro!: chain loop)
qed

lemma chain_install [chain]:
  assumes "extends (execs_only (to_device adb)) s0 s"
  shows "extends (execs_only (to_device adb)) s0 (snd (Captures.installApks h adb dir mf names s))"
proof -
  have entry: "extends (execs_only (to_device adb)) s0 (snd (install_entry h adb dir e t))"
    if "extends (execs_only (to_device adb)) s0 t" for e t
    using that by (auto simp: install_entry_def Let_def split_beta intro!: chain)
  have "extends (execs_only (to_device adb)) s0 (snd (install_loop h adb dir names i es t))"
    if "extends (execs_only (to_device adb)) s0 t" for i es t
    using that
  proof (induction es arbitrary: i t)
    case (Cons e es)
    then show ?case by (auto simp: Let_def split_beta intro!: Cons.IH entry chain)
  qed (simp add: chain)
  with assms show ?thesis by (simp add: Captures.installApks_def split_beta)
qed

lemma chain_unmatched [chain]:
  "extends (execs_only P) s0 s \<Longrightarrow> extends (execs_only P) s0 (warn_unmatched h f req names s)"
  by (induction req arbitrary: s) (auto intro: chain)

lemma chain_filter [chain]:
  "extends (execs_only P) s0 s \<Longrightarrow> extends (execs_only P) s0 (snd (filterPackages h all options s))"
  by (simp add: filterPackages_def Let_def chain)

text \<open>What the captures keep of the manifest, and what an install keeps of the entries.\<close>

lemma captureFilesystem_frame:
  "\<exists>cs. fst (captureFilesystem h adb outDir requested shared mf s) = mf\<lparr>mf_filesystemCaptures := mf_filesystemCaptures mf @ cs\<rparr>"
proof -
  have "\<exists>cs. mf = mf\<lparr>mf_filesystemCaptures := mf_filesystemCaptures mf @ cs\<rparr>" by (rule exI [of _ "[]"]) simp
  then show ?thesis by (auto simp: captureFilesystem_def Let_def split_beta)
qed

lemma installApks_entries:
  "list_all2 same_but_error (mf_packages mf) (mf_packages (fst (Captures.installApks h adb dir mf names s)))"
proof -
  have "list_all2 same_but_error es (fst (install_loop h adb dir names i es t))" for i es t
    by (induction es arbitrary: i t) (auto simp: install_entry_def Let_def split_beta)
  then show ?thesis by (simp add: Captures.installApks_def split_beta)
qed

interpretation chosen: backup_backend "chooseBackupBackend h mode device" for h mode device
proof -
  have "chooseBackupBackend h mode device = root_backend h (dev_root device) \<or>
      chooseBackupBackend h mode device = standard_backend h"
    by (simp add: chooseBackupBackend_def Let_def)
  then show "backup_backend (chooseBackupBackend h mode device)"
    using root.backup_backend_axioms standard.backup_backend_axioms by metis
qed

end
