(* ===== verification/PersonalFormats.thy ===== *)
theory PersonalFormats
  imports StringUtil Json CxxTime ShellWords "HOL-Library.Char_ord" "HOL-Library.List_Lexorder"
begin

text \<open>
  The pure half of \<open>src/src/backup/PersonalData.cpp\<close>: reading what \<open>adb shell content query\<close>,
  \<open>settings list\<close> and the Wi-Fi stores print, and writing vCard, iCalendar and shell text.  A row is
  a map from column names; \<open>std::map\<close>s that are iterated are association lists in key order.
\<close>

type_synonym row = "string \<rightharpoonup> string"

definition row_get :: "row \<Rightarrow> string \<Rightarrow> string" where
  "row_get row key = (case row key of Some v \<Rightarrow> v | None \<Rightarrow> [])"

definition nullToEmpty :: "string \<Rightarrow> string" where
  "nullToEmpty value = (if value = ''NULL'' then [] else value)"

definition toInt :: "string \<Rightarrow> int" where
  "toInt text = (case cxx_stoll text of Some n \<Rightarrow> n | None \<Rightarrow> 0)"

datatype UtcStyle = Iso | IcsDateTime | IcsDate

fun formatUtc :: "int \<Rightarrow> UtcStyle \<Rightarrow> string" where
  "formatUtc secs Iso = utc_date ''-'' (gmtime secs) @ utc_clock '':'' (gmtime secs)"
| "formatUtc secs IcsDateTime = utc_date [] (gmtime secs) @ utc_clock [] (gmtime secs)"
| "formatUtc secs IcsDate = utc_date [] (gmtime secs)"

text \<open>Division of \<open>long long\<close> truncates towards zero; the callers only divide positive values.\<close>

definition isoFromMillis :: "int \<Rightarrow> string" where
  "isoFromMillis millis = (if 0 < millis then formatUtc (millis div 1000) Iso else [])"

section \<open>Content queries\<close>

definition row_marker :: "nat \<Rightarrow> string \<Rightarrow> string" where
  "row_marker n first = ''Row: '' @ nat_to_string n @ '' '' @ first @ ''=''"

lemma find_sub_at_ge: "find_sub_at pat pos s = Some i \<Longrightarrow> pos \<le> i \<and> i \<le> length s"
  using find_sub_hit [of pat "drop pos s"] by (auto simp: find_sub_at_def split: if_splits)

text \<open>The first loop; \<open>n\<close> is \<open>starts.size()\<close>.\<close>

function row_starts :: "string \<Rightarrow> string \<Rightarrow> nat \<Rightarrow> nat \<Rightarrow> nat list" where
  "row_starts output first n pos =
     (if length output \<le> pos then []
      else case find_sub_at (row_marker n first) pos output of
        None \<Rightarrow> []
      | Some found \<Rightarrow>
          if found = 0 \<or> output ! (found - 1) = CHR 0x0A
          then found # row_starts output first (n + 1) (found + 1)
          else row_starts output first n (found + 1))"
  by pat_completeness auto

termination
  by (relation "measure (\<lambda>(output, first, n, pos). length output - pos)") (simp_all, (drule find_sub_at_ge, linarith)+)

declare row_starts.simps [simp del]

definition pop_newlines :: "string \<Rightarrow> string" where
  "pop_newlines text = rev (dropWhile (\<lambda>c. c = CHR 0x0A \<or> c = CHR 0x0D) (rev text))"

text \<open>The loop over the columns; \<^term>\<open>None\<close> is \<open>valid = false\<close>.\<close>

fun row_columns :: "string \<Rightarrow> string list \<Rightarrow> nat \<Rightarrow> row \<Rightarrow> row option" where
  "row_columns text [] cursor row = Some row"
| "row_columns text (c # cs) cursor row =
     (let key = c @ ''=''
      in if substr text cursor (length key) \<noteq> key then None
         else
           let cursor1 = cursor + length key
           in case cs of
                [] \<Rightarrow> Some (row(c \<mapsto> nullToEmpty (substr text cursor1 (length text - cursor1))))
              | next # _ \<Rightarrow>
                  case find_sub_at ('', '' @ next @ ''='') cursor1 text of
                    None \<Rightarrow> None
                  | Some valueEnd \<Rightarrow>
                      row_columns text cs (valueEnd + 2)
                        (row(c \<mapsto> nullToEmpty (substr text cursor1 (valueEnd - cursor1)))))"

definition parse_row :: "string \<Rightarrow> string list \<Rightarrow> row option" where
  "parse_row raw columns =
     (let text = pop_newlines raw
      in case find_char_at (CHR '' '') 5 text of
           None \<Rightarrow> None
         | Some cursor \<Rightarrow> row_columns text columns (cursor + 1) Map.empty)"

text \<open>The slices \<open>[starts[i], starts[i + 1])\<close>, the last one to the end.\<close>

fun row_slices :: "string \<Rightarrow> nat list \<Rightarrow> string list" where
  "row_slices output [] = []"
| "row_slices output [a] = [drop a output]"
| "row_slices output (a # b # rest) = substr output a (b - a) # row_slices output (b # rest)"

definition parseContentQuery :: "string \<Rightarrow> string list \<Rightarrow> row list" where
  "parseContentQuery output columns =
     (case columns of
        [] \<Rightarrow> []
      | first # _ \<Rightarrow>
          List.map_filter (\<lambda>text. parse_row text columns) (row_slices output (row_starts output first 0 0)))"

section \<open>Encoders\<close>

definition upper_hex :: "nat \<Rightarrow> char" where
  "upper_hex d = ''0123456789ABCDEF'' ! d"

definition uri_unreserved :: "char \<Rightarrow> bool" where
  "uri_unreserved c \<longleftrightarrow> is_alnum c \<or> c \<in> set ''-_.~''"

definition encode_uri_char :: "char \<Rightarrow> string" where
  "encode_uri_char c =
     (if uri_unreserved c then [c] else [CHR ''%'', upper_hex (byte_val c div 16), upper_hex (byte_val c mod 16)])"

definition encodeUriComponent :: "string \<Rightarrow> string" where
  "encodeUriComponent text = concat (map encode_uri_char text)"

definition vcard_escape_char :: "char \<Rightarrow> string" where
  "vcard_escape_char c =
     (if c = CHR 0x5C then [CHR 0x5C, CHR 0x5C]
      else if c = CHR '','' then [CHR 0x5C, CHR '','']
      else if c = CHR '';'' then [CHR 0x5C, CHR '';'']
      else if c = CHR 0x0A then [CHR 0x5C, CHR ''n'']
      else if c = CHR 0x0D then []
      else [c])"

definition vcardEscape :: "string \<Rightarrow> string" where
  "vcardEscape value = concat (map vcard_escape_char value)"

definition phoneTypeName :: "string \<Rightarrow> string" where
  "phoneTypeName type =
     (if type = ''1'' then ''HOME'' else if type = ''2'' then ''CELL'' else if type = ''3'' then ''WORK''
      else if type = ''4'' then ''WORK,FAX'' else if type = ''5'' then ''HOME,FAX'' else if type = ''6'' then ''PAGER''
      else ''VOICE'')"

definition crlf :: string where
  "crlf = [CHR 0x0D, CHR 0x0A]"

section \<open>vCards\<close>

record Contact =
  ct_displayName :: string
  ct_given :: string
  ct_family :: string
  ct_organization :: string
  ct_note :: string
  ct_phones :: "(string \<times> string) list"
  ct_emails :: "string list"
  ct_addresses :: "string list"

definition empty_contact :: Contact where
  "empty_contact =
     \<lparr>ct_displayName = [], ct_given = [], ct_family = [], ct_organization = [], ct_note = [],
      ct_phones = [], ct_emails = [], ct_addresses = []\<rparr>"

text \<open>The lambda \<open>find\<close>, with the update its caller makes through the reference.\<close>

fun update_contact :: "string \<Rightarrow> (Contact \<Rightarrow> Contact) \<Rightarrow> (string \<times> Contact) list \<Rightarrow> (string \<times> Contact) list" where
  "update_contact cid f [] = [(cid, f empty_contact)]"
| "update_contact cid f ((k, c) # rest) = (if k = cid then (k, f c) # rest else (k, c) # update_contact cid f rest)"

definition apply_data_row :: "row \<Rightarrow> Contact \<Rightarrow> Contact" where
  "apply_data_row row contact =
     (let mime = row_get row ''mimetype''; data1 = row_get row ''data1''
      in if mime = ''vnd.android.cursor.item/name'' then
           contact\<lparr>ct_displayName := data1, ct_given := row_get row ''data2'', ct_family := row_get row ''data3''\<rparr>
         else if mime = ''vnd.android.cursor.item/phone_v2'' then
           (if data1 \<noteq> [] then contact\<lparr>ct_phones := ct_phones contact @ [(phoneTypeName (row_get row ''data2''), data1)]\<rparr>
            else contact)
         else if mime = ''vnd.android.cursor.item/email_v2'' then
           (if data1 \<noteq> [] then contact\<lparr>ct_emails := ct_emails contact @ [data1]\<rparr> else contact)
         else if mime = ''vnd.android.cursor.item/postal-address_v2'' then
           (if data1 \<noteq> [] then contact\<lparr>ct_addresses := ct_addresses contact @ [data1]\<rparr> else contact)
         else if mime = ''vnd.android.cursor.item/organization'' then contact\<lparr>ct_organization := data1\<rparr>
         else if mime = ''vnd.android.cursor.item/note'' then contact\<lparr>ct_note := data1\<rparr>
         else contact)"

definition collect_contacts :: "row list \<Rightarrow> (string \<times> Contact) list" where
  "collect_contacts dataRows =
     foldl (\<lambda>contacts row.
       if row_get row ''contact_id'' = [] then contacts
       else update_contact (row_get row ''contact_id'') (apply_data_row row) contacts) [] dataRows"

definition contact_name :: "Contact \<Rightarrow> string" where
  "contact_name c =
     (let n1 = ct_displayName c;
          n2 = (if n1 = [] then trim (ct_given c @ '' '' @ ct_family c) else n1);
          n3 = (if n2 = [] \<and> ct_phones c \<noteq> [] then snd (hd (ct_phones c)) else n2)
      in if n3 = [] \<and> ct_emails c \<noteq> [] then hd (ct_emails c) else n3)"

definition vcard_lines :: "Contact \<Rightarrow> string list" where
  "vcard_lines c =
     [''BEGIN:VCARD'', ''VERSION:3.0'', ''FN:'' @ vcardEscape (contact_name c),
      ''N:'' @ vcardEscape (ct_family c) @ '';'' @ vcardEscape (ct_given c) @ '';;;''] @
     map (\<lambda>(type, number). ''TEL;TYPE='' @ type @ '':'' @ vcardEscape number) (ct_phones c) @
     map (\<lambda>email. ''EMAIL;TYPE=INTERNET:'' @ vcardEscape email) (ct_emails c) @
     map (\<lambda>address. ''ADR:;;'' @ vcardEscape address @ '';;;;'') (ct_addresses c) @
     (if ct_organization c \<noteq> [] then [''ORG:'' @ vcardEscape (ct_organization c)] else []) @
     (if ct_note c \<noteq> [] then [''NOTE:'' @ vcardEscape (ct_note c)] else []) @
     [''END:VCARD'']"

definition write_lines :: "string list \<Rightarrow> string" where
  "write_lines ls = concat (map (\<lambda>l. l @ crlf) ls)"

text \<open>The text and the count of cards written.\<close>

definition buildVcards :: "row list \<Rightarrow> string \<times> nat" where
  "buildVcards dataRows =
     (let named = filter (\<lambda>c. contact_name c \<noteq> []) (map snd (collect_contacts dataRows))
      in (concat (map (\<lambda>c. write_lines (vcard_lines c)) named), length named))"

section \<open>iCalendar\<close>

text \<open>A UTF-8 continuation byte: \<open>(c & 0xC0) == 0x80\<close>.\<close>

definition is_continuation :: "char \<Rightarrow> bool" where
  "is_continuation c \<longleftrightarrow> byte_val c div 64 = 2"

function cut_back :: "string \<Rightarrow> nat \<Rightarrow> nat \<Rightarrow> nat" where
  "cut_back line start cutpos =
     (if start < cutpos \<and> is_continuation (line ! cutpos) then cut_back line start (cutpos - 1) else cutpos)"
  by pat_completeness auto

termination by (relation "measure (\<lambda>(line, start, cutpos). cutpos)") auto

declare cut_back.simps [simp del]

text \<open>\<^term>\<open>None\<close> is a loop that never ends: nothing keeps \<open>cut\<close> from falling back to \<open>start\<close>.\<close>

partial_function (option) fold_loop :: "string \<Rightarrow> nat \<Rightarrow> nat \<Rightarrow> string \<Rightarrow> string option" where
  "fold_loop line start limit out =
     (if limit < length line - start then
        let cutpos = cut_back line start (start + limit)
        in fold_loop line cutpos 74 (out @ substr line start (cutpos - start) @ crlf @ '' '')
      else Some (out @ drop start line @ crlf))"

definition foldIcsLine :: "string \<Rightarrow> string option" where
  "foldIcsLine line = fold_loop line 0 75 []"

datatype ics_line = Plain string | Folded string

fun ics_text :: "ics_line \<Rightarrow> string option" where
  "ics_text (Plain l) = Some (l @ crlf)"
| "ics_text (Folded l) = foldIcsLine l"

definition ics_times :: "row \<Rightarrow> int \<Rightarrow> ics_line list" where
  "ics_times event start =
     (let finish = toInt (row_get event ''dtend'')
      in if row_get event ''allDay'' = ''1'' then
           let startSeconds = start div 1000;
               endSeconds = (if start < finish then finish div 1000 else startSeconds + 86400)
           in [Plain (''DTSTART;VALUE=DATE:'' @ formatUtc startSeconds IcsDate),
               Plain (''DTEND;VALUE=DATE:'' @ formatUtc endSeconds IcsDate)]
         else
           [Plain (''DTSTART:'' @ formatUtc (start div 1000) IcsDateTime)] @
           (if start < finish then [Plain (''DTEND:'' @ formatUtc (finish div 1000) IcsDateTime)]
            else if row_get event ''duration'' \<noteq> [] then [Plain (''DURATION:'' @ row_get event ''duration'')]
            else []))"

definition ics_event :: "string \<Rightarrow> (string \<rightharpoonup> string) \<Rightarrow> row \<Rightarrow> ics_line list" where
  "ics_event stamp calendarNames event =
     (let start = toInt (row_get event ''dtstart'')
      in if start \<le> 0 then []
         else
           [Plain ''BEGIN:VEVENT'',
            Folded (''UID:abp-'' @ row_get event ''_id'' @ ''-'' @ row_get event ''calendar_id'' @ ''@android''),
            Plain (''DTSTAMP:'' @ stamp)] @
           ics_times event start @
           (if row_get event ''rrule'' \<noteq> [] then [Folded (''RRULE:'' @ row_get event ''rrule'')] else []) @
           [Folded (''SUMMARY:'' @ vcardEscape (row_get event ''title''))] @
           (if row_get event ''eventLocation'' \<noteq> []
            then [Folded (''LOCATION:'' @ vcardEscape (row_get event ''eventLocation''))] else []) @
           (if row_get event ''description'' \<noteq> []
            then [Folded (''DESCRIPTION:'' @ vcardEscape (row_get event ''description''))] else []) @
           (case calendarNames (row_get event ''calendar_id'') of
              Some name \<Rightarrow> if name \<noteq> [] then [Folded (''CATEGORIES:'' @ vcardEscape name)] else []
            | None \<Rightarrow> []) @
           [Plain ''END:VEVENT''])"

definition ics_lines :: "int \<Rightarrow> row list \<Rightarrow> (string \<rightharpoonup> string) \<Rightarrow> ics_line list" where
  "ics_lines now events calendarNames =
     [Plain ''BEGIN:VCALENDAR'', Plain ''VERSION:2.0'', Plain ''PRODID:-//abp//Android backup//EN'',
      Plain ''CALSCALE:GREGORIAN''] @
     concat (map (ics_event (formatUtc now IcsDateTime) calendarNames) events) @
     [Plain ''END:VCALENDAR'']"

definition buildIcs :: "int \<Rightarrow> row list \<Rightarrow> (string \<rightharpoonup> string) \<Rightarrow> (string \<times> nat) option" where
  "buildIcs now events calendarNames =
     (case those (map ics_text (ics_lines now events calendarNames)) of
        None \<Rightarrow> None
      | Some ls \<Rightarrow> Some (concat ls, length (filter (\<lambda>e. 0 < toInt (row_get e ''dtstart'')) events)))"

section \<open>Settings and Wi-Fi\<close>

fun smap_set :: "string \<Rightarrow> 'a \<Rightarrow> (string \<times> 'a) list \<Rightarrow> (string \<times> 'a) list" where
  "smap_set k v [] = [(k, v)]"
| "smap_set k v ((k', v') # rest) =
     (if k = k' then (k, v) # rest
      else if k < k' then (k, v) # (k', v') # rest
      else (k', v') # smap_set k v rest)"

definition settings_line :: "(string \<times> string) list \<Rightarrow> string \<Rightarrow> (string \<times> string) list" where
  "settings_line values rawLine =
     (let line = (if rawLine \<noteq> [] \<and> last rawLine = CHR 0x0D then butlast rawLine else rawLine)
      in case find_char (CHR ''='') line of
           None \<Rightarrow> values
         | Some equals \<Rightarrow>
             if equals = 0 then values else smap_set (take equals line) (drop (equals + 1) line) values)"

definition parseSettingsList :: "string \<Rightarrow> (string \<times> string) list" where
  "parseSettingsList output = foldl settings_line [] (split output (CHR 0x0A))"

record WifiNetwork =
  wn_ssid :: string
  wn_security :: string
  wn_password :: string
  wn_hidden :: bool

definition empty_network :: WifiNetwork where
  "empty_network = \<lparr>wn_ssid = [], wn_security = [], wn_password = [], wn_hidden = False\<rparr>"

text \<open>\<open>strtol(s, nullptr, 16)\<close>: 0 when there is no digit.\<close>

definition scan_hex :: "string \<Rightarrow> int" where
  "scan_hex s =
     (let r0 = dropWhile is_space s;
          neg = (take 1 r0 = ''-'');
          r1 = drop (sign_length r0) r0;
          r2 = (if length r1 > 2 \<and> r1 ! 0 = CHR ''0'' \<and> (r1 ! 1 = CHR ''x'' \<or> r1 ! 1 = CHR ''X'') \<and> is_xdigit (r1 ! 2)
                then drop 2 r1 else r1);
          v = int (foldl (\<lambda>n c. 16 * n + (case hex_digit_value c of Some d \<Rightarrow> unat d | None \<Rightarrow> 0)) 0 (takeWhile is_xdigit r2))
      in if neg then - v else v)"

definition entity_text :: "string \<Rightarrow> string \<Rightarrow> string" where
  "entity_text entity whole =
     (if entity = ''quot'' then [CHR 0x22]
      else if entity = ''amp'' then ''&''
      else if entity = ''lt'' then ''<''
      else if entity = ''gt'' then ''>''
      else if entity = ''apos'' then [CHR 0x27]
      else if take 1 entity = ''#'' then
        (let code = (if take 1 (tl entity) = ''x'' \<or> take 1 (tl entity) = ''X'' then scan_hex (drop 2 entity)
                     else case scan_int (drop 1 entity) of Some (v, _) \<Rightarrow> v | None \<Rightarrow> 0)
         in if 0 < code \<and> code < 128 then [char_of (nat code)] else [])
      else whole)"

fun xmlUnescape :: "string \<Rightarrow> string" where
  "xmlUnescape [] = []"
| "xmlUnescape (c # cs) =
     (if c \<noteq> CHR ''&'' then c # xmlUnescape cs
      else case find_char (CHR '';'') cs of
        None \<Rightarrow> CHR ''&'' # xmlUnescape cs
      | Some semi \<Rightarrow>
          entity_text (take semi cs) (CHR ''&'' # take (semi + 1) cs) @ xmlUnescape (drop (semi + 1) cs))"

definition unquote :: "string \<Rightarrow> string" where
  "unquote value =
     (if 2 \<le> length value \<and> hd value = CHR 0x22 \<and> last value = CHR 0x22 then butlast (tl value) else value)"

definition xmlStringValue :: "string \<Rightarrow> string \<Rightarrow> string" where
  "xmlStringValue block name =
     (let opening = ''<string name='' @ [CHR 0x22] @ name @ [CHR 0x22] @ ''>''
      in case find_sub opening block of
           None \<Rightarrow> []
         | Some start \<Rightarrow>
             let valueStart = start + length opening
             in case find_sub_at ''</string>'' valueStart block of
                  None \<Rightarrow> []
                | Some finish \<Rightarrow> xmlUnescape (substr block valueStart (finish - valueStart)))"

definition xmlBoolValue :: "string \<Rightarrow> string \<Rightarrow> bool" where
  "xmlBoolValue block name \<longleftrightarrow>
     contains_sub (''<boolean name='' @ [CHR 0x22] @ name @ [CHR 0x22] @ '' value='' @ [CHR 0x22] @ ''true'' @ [CHR 0x22]) block"

definition securityFromKeyManagement :: "string \<Rightarrow> string" where
  "securityFromKeyManagement k =
     (if k = ''WPA_PSK'' \<or> k = ''WPA-PSK'' then ''wpa2''
      else if k = ''SAE'' then ''wpa3''
      else if k = ''NONE'' then ''open''
      else if k = ''OWE'' then ''owe''
      else if k = [] then ''unknown'' else k)"

definition config_network :: "string \<Rightarrow> WifiNetwork option" where
  "config_network block =
     (let ssid = unquote (xmlStringValue block ''SSID'');
          password = unquote (xmlStringValue block ''PreSharedKey'');
          configKey = xmlStringValue block ''ConfigKey'';
          k1 = (case rfind_char (CHR 0x22) configKey of None \<Rightarrow> [] | Some lastQuote \<Rightarrow> drop (lastQuote + 1) configKey);
          keyManagement = (if k1 = [] then (if password = [] then ''NONE'' else ''WPA_PSK'') else k1)
      in if ssid = [] then None
         else Some \<lparr>wn_ssid = ssid, wn_security = securityFromKeyManagement keyManagement,
                    wn_password = password, wn_hidden = xmlBoolValue block ''HiddenSSID''\<rparr>)"

text \<open>
  The blocks from an opening marker to the next closing one; the search goes on one character
  later.  The markers are not empty, so the guard on the length, which ends the recursion, is never
  what stops it.
\<close>

function blocks_from :: "string \<Rightarrow> string \<Rightarrow> string \<Rightarrow> nat \<Rightarrow> string list" where
  "blocks_from opening closing xml from_pos =
     (case find_sub_at opening from_pos xml of
        None \<Rightarrow> []
      | Some pos \<Rightarrow>
          if length xml \<le> pos then []
          else case find_sub_at closing pos xml of
            None \<Rightarrow> []
          | Some finish \<Rightarrow> substr xml pos (finish - pos) # blocks_from opening closing xml (pos + 1))"
  by pat_completeness auto

termination
  by (relation "measure (\<lambda>(opening, closing, xml, p). length xml - p)") (simp_all, (drule find_sub_at_ge, linarith)+)

declare blocks_from.simps [simp del]

definition parseWifiConfigStore :: "string \<Rightarrow> WifiNetwork list" where
  "parseWifiConfigStore xml = List.map_filter config_network (blocks_from ''<Network>'' ''</Network>'' xml 0)"

definition supplicant_line :: "WifiNetwork \<times> string \<Rightarrow> string \<Rightarrow> WifiNetwork \<times> string" where
  "supplicant_line st rawLine =
     (let (network, keyManagement) = st; line = trim rawLine
      in case find_char (CHR ''='') line of
           None \<Rightarrow> st
         | Some equals \<Rightarrow>
             let key = take equals line; value = drop (equals + 1) line
             in if key = ''ssid'' then (network\<lparr>wn_ssid := unquote value\<rparr>, keyManagement)
                else if key = ''psk'' then (network\<lparr>wn_password := unquote value\<rparr>, keyManagement)
                else if key = ''key_mgmt'' then (network, value)
                else if key = ''scan_ssid'' then (network\<lparr>wn_hidden := (value = ''1'')\<rparr>, keyManagement)
                else st)"

definition supplicant_network :: "string \<Rightarrow> WifiNetwork option" where
  "supplicant_network block =
     (let (network, k1) = foldl supplicant_line (empty_network, []) (split (drop 9 block) (CHR 0x0A));
          keyManagement = (if k1 = [] then (if wn_password network = [] then ''NONE'' else ''WPA-PSK'') else k1)
      in if wn_ssid network = [] then None
         else Some (network\<lparr>wn_security := securityFromKeyManagement keyManagement\<rparr>))"

definition parseWpaSupplicant :: "string \<Rightarrow> WifiNetwork list" where
  "parseWpaSupplicant conf = List.map_filter supplicant_network (blocks_from ''network={'' ''}'' conf 0)"

definition wifiAddNetworkCommand :: "WifiNetwork \<Rightarrow> string" where
  "wifiAddNetworkCommand network =
     (let needsPassword = (wn_security network = ''wpa2'' \<or> wn_security network = ''wpa3'')
      in if wn_ssid network = [] then []
         else if \<not> needsPassword \<and> wn_security network \<noteq> ''open'' \<and> wn_security network \<noteq> ''owe'' then []
         else if needsPassword \<and> wn_password network = [] then []
         else ''cmd wifi add-network '' @ shellQuote (wn_ssid network) @ '' '' @ wn_security network @
              (if needsPassword then '' '' @ shellQuote (wn_password network) else []) @
              (if wn_hidden network then '' -h'' else []))"

end
