(* ===== verification/PersonalTexts.thy ===== *)
theory PersonalTexts
  imports PersonalFormats
begin

text \<open>
  What the formats of personal data promise: the vCard and percent encodings are reversible, a
  folded calendar line is short and unfolds to its text whenever folding ends, the Wi-Fi command
  is read by a shell as the intended words, and a printed content query is read back.
\<close>

section \<open>Encoders are reversible\<close>

text \<open>Percent-decoding: the reference the encoder is proved against.\<close>

fun uri_decode :: "string \<Rightarrow> string" where
  "uri_decode [] = []"
| "uri_decode (c # cs) =
     (if c = CHR ''%'' then
        (case cs of
           a # b # rest \<Rightarrow>
             char_of (unat (the (hex_digit_value a)) * 16 + unat (the (hex_digit_value b))) # uri_decode rest
         | _ \<Rightarrow> c # uri_decode cs)
      else c # uri_decode cs)"

lemma upper_hex_value: "d < 16 \<Longrightarrow> hex_digit_value (upper_hex d) = Some (word_of_nat d)"
proof -
  assume "d < 16"
  then have "d \<in> set [0..<16]" by simp
  moreover have "list_all (\<lambda>d. hex_digit_value (upper_hex d) = Some (word_of_nat d)) [0..<16]"
    by code_simp
  ultimately show ?thesis by (simp add: list_all_iff)
qed

lemma unreserved_not_percent: "uri_unreserved c \<Longrightarrow> c \<noteq> CHR ''%''"
  by (auto simp: uri_unreserved_def char_class_defs)

lemma uri_decode_char: "uri_decode (encode_uri_char c @ s) = c # uri_decode s"
proof (cases "uri_unreserved c")
  case True
  then show ?thesis using unreserved_not_percent by (simp add: encode_uri_char_def)
next
  case False
  have d: "byte_val c div 16 < 16" "byte_val c mod 16 < 16" using byte_val_less [of c] by (simp_all add: less_mult_imp_div_less del: byte_val_less)
  then have "unat (word_of_nat (byte_val c div 16) :: uint) = byte_val c div 16"
    "unat (word_of_nat (byte_val c mod 16) :: uint) = byte_val c mod 16"
    by (simp_all add: unat_of_nat)
  moreover have "char_of (byte_val c div 16 * 16 + byte_val c mod 16) = c" by (simp add: char_of_char)
  ultimately show ?thesis using False d by (simp add: encode_uri_char_def upper_hex_value)
qed

lemma upper_hex_safe: "d < 16 \<Longrightarrow> uri_unreserved (upper_hex d)"
proof -
  assume "d < 16"
  then have "d \<in> set [0..<16]" by simp
  moreover have "list_all (\<lambda>d. uri_unreserved (upper_hex d)) [0..<16]" by code_simp
  ultimately show ?thesis by (simp add: list_all_iff)
qed

text \<open>Percent-encoding loses nothing and leaves only unreserved characters and \<open>%\<close>: decoding gives
  the text back, and the encoded text can hold neither a path separator nor a quote.\<close>

theorem encodeUriComponent_roundtrip:
  "uri_decode (encodeUriComponent s) = s \<and>
   list_all (\<lambda>c. uri_unreserved c \<or> c = CHR ''%'') (encodeUriComponent s)"
proof
  show "uri_decode (encodeUriComponent s) = s"
    by (induction s) (simp_all add: encodeUriComponent_def uri_decode_char)
  have "list_all (\<lambda>c. uri_unreserved c \<or> c = CHR ''%'') (encode_uri_char c)" for c
    using byte_val_less [of c] by (auto simp: encode_uri_char_def less_mult_imp_div_less intro!: upper_hex_safe)
  then show "list_all (\<lambda>c. uri_unreserved c \<or> c = CHR ''%'') (encodeUriComponent s)"
    by (induction s) (simp_all add: encodeUriComponent_def)
qed

fun vcard_unescape :: "string \<Rightarrow> string" where
  "vcard_unescape (a # b # rest) =
     (if a = CHR 0x5C then (if b = CHR ''n'' then CHR 0x0A else b) # vcard_unescape rest
      else a # vcard_unescape (b # rest))"
| "vcard_unescape s = s"

lemma vcard_unescape_char:
  "vcard_unescape (vcard_escape_char c @ s) = (if c = CHR 0x0D then [] else [c]) @ vcard_unescape s"
  by (cases s) (auto simp: vcard_escape_char_def)

text \<open>Escaping a value for a vCard or iCalendar line loses nothing but carriage returns, and its
  result has no line break, so a value can never end its line and start a property of its own.\<close>

theorem vcardEscape_roundtrip:
  "vcard_unescape (vcardEscape v) = filter (\<lambda>c. c \<noteq> CHR 0x0D) v \<and>
   CHR 0x0A \<notin> set (vcardEscape v) \<and> CHR 0x0D \<notin> set (vcardEscape v)"
proof (intro conjI)
  show "vcard_unescape (vcardEscape v) = filter (\<lambda>c. c \<noteq> CHR 0x0D) v"
    by (induction v) (simp_all add: vcardEscape_def vcard_unescape_char)
  have "CHR 0x0A \<notin> set (vcard_escape_char c) \<and> CHR 0x0D \<notin> set (vcard_escape_char c)" for c
    by (simp add: vcard_escape_char_def)
  then show "CHR 0x0A \<notin> set (vcardEscape v)" "CHR 0x0D \<notin> set (vcardEscape v)"
    by (auto simp: vcardEscape_def)
qed

section \<open>Wi-Fi commands\<close>

definition wifi_tokens :: "WifiNetwork \<Rightarrow> sh_token list" where
  "wifi_tokens n =
     [Word ''cmd'', Word ''wifi'', Word ''add-network'', Word (wn_ssid n), Word (wn_security n)] @
     (if wn_security n = ''wpa2'' \<or> wn_security n = ''wpa3'' then [Word (wn_password n)] else []) @
     (if wn_hidden n then [Word ''-h''] else [])"

lemma ordinary_digits [simp]: "c \<in> set ''23'' \<Longrightarrow> is_ordinary c" "is_ordinary CHR ''2''" "is_ordinary CHR ''3''"
  by (auto simp: is_ordinary_def is_blank_def is_oper_def)

lemma ordinary_lower [simp]: "c \<in> set ''abcdefghijklmnopqrstuvwxyz-'' \<Longrightarrow> is_ordinary c"
  by (auto simp: is_ordinary_def is_blank_def is_oper_def)

lemma space_blank [simp]: "is_blank (CHR '' '')"
  by (simp add: is_blank_def)

text \<open>Re-adding a Wi-Fi network is safe for any stored SSID and password: when a command is produced
  at all, the device's shell reads it as \<open>cmd wifi add-network\<close> with the SSID, the security type, the
  password where the type has one, and \<open>-h\<close> for a hidden network, each as one word.\<close>

theorem wifiAddNetworkCommand_safe:
  "wifiAddNetworkCommand n = [] \<or> sh_words (wifiAddNetworkCommand n) = Some (wifi_tokens n)"
proof (cases "wifiAddNetworkCommand n = []")
  case False
  have walk: "sh_words c = Some toks" if "sh_run (between []) c = inside w ts" "ts @ [Word w] = toks" for c w ts toks
    using that sh_words_inside [of c w ts] by (simp add: sh_start_between)
  from False have sec: "wn_security n \<in> {''wpa2'', ''wpa3'', ''open'', ''owe''}"
    by (auto simp: wifiAddNetworkCommand_def Let_def split: if_splits)
  then consider "wn_security n = ''wpa2''" | "wn_security n = ''wpa3''" | "wn_security n = ''open''" | "wn_security n = ''owe''"
    by blast
  then have "sh_words (wifiAddNetworkCommand n) = Some (wifi_tokens n)"
    using False
    by cases (cases "wn_hidden n"; auto simp: wifiAddNetworkCommand_def wifi_tokens_def Let_def sh_step_ordinary
        sh_step_blank intro!: walk split: if_splits)+
  then show ?thesis by blast
qed simp

section \<open>Folding\<close>

lemma cut_back_le: "start \<le> pos \<Longrightarrow> start \<le> cut_back line start pos \<and> cut_back line start pos \<le> pos"
proof (induction line start pos rule: cut_back.induct)
  case (1 line start pos)
  then show ?case by (subst (1 2) cut_back.simps) force
qed

text \<open>No run of continuation bytes as long as a folded line.\<close>

definition foldable :: "string \<Rightarrow> bool" where
  "foldable line \<longleftrightarrow> (\<forall>i. i + 74 < length line \<longrightarrow> (\<exists>j\<in>{i<..i + 74}. \<not> is_continuation (line ! j)))"

lemma cut_back_progress:
  assumes "foldable line" "start + limit < length line" "74 \<le> limit"
  shows "start < cut_back line start (start + limit)"
proof -
  have "start + 74 < length line" using assms(2,3) by simp
  with assms(1) obtain j where j: "start < j" "j \<le> start + 74" "\<not> is_continuation (line ! j)"
    unfolding foldable_def by (meson greaterThanAtMost_iff)
  have "j \<le> pos \<Longrightarrow> j \<le> cut_back line start pos" for pos
  proof (induction pos)
    case (Suc pos)
    then show ?case using j by (subst cut_back.simps) (cases "j = Suc pos"; force)
  qed (subst cut_back.simps, simp)
  from this [of "start + limit"] j assms(3) show ?thesis by simp
qed

lemma cut_back_stop: "start < cut_back line start pos \<Longrightarrow> \<not> is_continuation (line ! cut_back line start pos)"
proof (induction line start pos rule: cut_back.induct)
  case (1 line start pos)
  show ?case
  proof (cases "start < pos \<and> is_continuation (line ! pos)")
    case True
    then have "cut_back line start pos = cut_back line start (pos - 1)" by (subst cut_back.simps) simp
    with 1 True show ?thesis by metis
  next
    case False
    then have "cut_back line start pos = pos" by (subst cut_back.simps) auto
    with False 1(2) show ?thesis by auto
  qed
qed

text \<open>The pieces of a folded line: the first at most \<open>n\<close> octets, every other at most 74, none of those
  empty or starting inside a UTF-8 sequence.\<close>

fun folded_pieces :: "nat \<Rightarrow> string list \<Rightarrow> bool" where
  "folded_pieces n [] = False"
| "folded_pieces n (p # ps) \<longleftrightarrow>
     length p \<le> n \<and> list_all (\<lambda>q. q \<noteq> [] \<and> length q \<le> 74 \<and> \<not> is_continuation (hd q)) ps"

lemma fold_loop_pieces:
  assumes "foldable line" "start \<le> length line" "74 \<le> limit"
  shows "\<exists>ps. fold_loop line start limit out = Some (out @ join ps (crlf @ '' '') @ crlf) \<and>
    concat ps = drop start line \<and> folded_pieces limit ps \<and> (start < length line \<longrightarrow> hd ps \<noteq> [])"
  using assms(2,3)
proof (induction "length line - start" arbitrary: start limit out rule: less_induct)
  case less
  show ?case
  proof (cases "limit < length line - start")
    case False
    then have "fold_loop line start limit out = Some (out @ join [drop start line] (crlf @ '' '') @ crlf)"
      by (subst fold_loop.simps) simp
    with False show ?thesis by (intro exI [of _ "[drop start line]"]) simp
  next
    case True
    let ?c = "cut_back line start (start + limit)"
    have c: "start < ?c" "?c \<le> start + limit" "\<not> is_continuation (line ! ?c)"
      using cut_back_progress [OF assms(1), of start limit] cut_back_le [of start "start + limit" line]
        cut_back_stop [of start line "start + limit"] True less.prems(2) by auto
    then have lt: "?c < length line" using True by simp
    let ?out = "out @ substr line start (?c - start) @ crlf @ '' ''"
    have "length line - ?c < length line - start" using c(1) lt by simp
    from less.hyps [OF this, of 74 ?out] lt obtain ps
      where ps: "fold_loop line ?c 74 ?out = Some (?out @ join ps (crlf @ '' '') @ crlf)"
      "concat ps = drop ?c line" "folded_pieces 74 ps" "hd ps \<noteq> []" by fastforce
    have eq: "fold_loop line start limit out = fold_loop line ?c 74 ?out"
      using True by (subst fold_loop.simps) (simp add: Let_def)
    obtain q qs where q: "ps = q # qs" using ps(3) by (cases ps) auto
    have q0: "q \<noteq> [] \<and> \<not> is_continuation (hd q)"
    proof -
      have "hd (concat ps) = line ! ?c" using ps(2) lt by (simp add: hd_drop_conv_nth)
      with ps(4) c(3) q show ?thesis by simp
    qed
    let ?p = "substr line start (?c - start)"
    have "concat (?p # ps) = drop start line"
      using ps(2) c(1) by (simp add: substr_def) (metis append_take_drop_id drop_drop le_add_diff_inverse2 less_imp_le)
    moreover have "folded_pieces limit (?p # ps)"
      using ps(3) q q0 c(2) length_substr_le [of line start "?c - start"] by auto
    moreover have "?p \<noteq> []" using c(1) lt by (simp add: substr_def)
    moreover have "fold_loop line start limit out = Some (out @ join (?p # ps) (crlf @ '' '') @ crlf)"
      using eq ps(1) q by (simp add: join_Cons)
    ultimately show ?thesis by (intro exI [of _ "?p # ps"]) simp
  qed
qed

text \<open>Folding an iCalendar line ends and is correct when the text has no run of 74 UTF-8
  continuation bytes: the result is the line cut into pieces joined by CRLF and a space, each physical
  line at most 75 octets, and no cut inside a UTF-8 sequence.\<close>

theorem foldIcsLine_correct:
  assumes "foldable line"
  shows "\<exists>ps. foldIcsLine line = Some (join ps (crlf @ '' '') @ crlf) \<and> concat ps = line \<and> folded_pieces 75 ps"
  using fold_loop_pieces [OF assms, of 0 75 "[]"] by (auto simp: foldIcsLine_def)

lemma foldable_ascii: "\<forall>c\<in>set line. byte_val c < 128 \<Longrightarrow> foldable line"
  unfolding foldable_def
proof (intro allI impI)
  fix i assume a: "\<forall>c\<in>set line. byte_val c < 128" "i + 74 < length line"
  then have "byte_val (line ! Suc i) < 128" by simp
  then have "\<not> is_continuation (line ! Suc i)" by (simp add: is_continuation_def)
  then show "\<exists>j\<in>{i<..i + 74}. \<not> is_continuation (line ! j)" by (intro bexI [of _ "Suc i"]) simp_all
qed

theorem foldIcsLine_correct_witness:
  "\<exists>ps. foldIcsLine (''SUMMARY:'' @ replicate 200 (CHR ''a'')) = Some (join ps (crlf @ '' '') @ crlf) \<and>
     concat ps = ''SUMMARY:'' @ replicate 200 (CHR ''a'') \<and> folded_pieces 75 ps"
  by (rule foldIcsLine_correct, rule foldable_ascii) auto

lemma fold_loop_stuck:
  assumes "74 < length line - start" "cut_back line start (start + 74) = start"
  shows "fold_loop line start 74 out = None"
proof (cases "fold_loop line start 74 out")
  case (Some y)
  have "\<not> ((74::nat) = 74 \<and> 74 < length line - start \<and> cut_back line start (start + 74) = start)"
    by (rule fold_loop.raw_induct
        [where P = "\<lambda>l st lim b z. \<not> (lim = 74 \<and> 74 < length l - st \<and> cut_back l st (st + 74) = st)", OF _ Some])
      (auto simp: Let_def split: if_splits)
  with assms show ?thesis by simp
qed

text \<open>Without that proviso it need not end: on a summary of 80 continuation bytes the cut falls back
  to where the line starts, and the loop appends empty lines for ever.\<close>

theorem foldIcsLine_can_diverge:
  "foldIcsLine (''SUMMARY:'' @ replicate 80 (char_of (128::nat))) = None"
proof -
  let ?l = "''SUMMARY:'' @ replicate 80 (char_of (128::nat))"
  have "cut_back ?l 0 75 = 7" "cut_back ?l 7 (7 + 74) = 7" "length ?l = 88" by code_simp+
  then show ?thesis
    unfolding foldIcsLine_def by (subst fold_loop.simps) (simp add: Let_def fold_loop_stuck)
qed

section \<open>What \<open>content query\<close> prints\<close>

text \<open>The printed form of rows, each a list of columns with their values, numbered from \<open>n\<close>.\<close>

fun column_text :: "(string \<times> string) list \<Rightarrow> string" where
  "column_text [] = []"
| "column_text ((c, v) # cvs) = c @ ''='' @ v @ (if cvs = [] then [] else '', '' @ column_text cvs)"

definition row_text :: "nat \<Rightarrow> (string \<times> string) list \<Rightarrow> string" where
  "row_text n cvs = ''Row: '' @ nat_to_string n @ '' '' @ column_text cvs"

fun content_text :: "nat \<Rightarrow> (string \<times> string) list list \<Rightarrow> string" where
  "content_text n [] = []"
| "content_text n (r # rs) = row_text n r @ [CHR 0x0A] @ content_text (n + 1) rs"

text \<open>
  What keeps the format unambiguous: a value does not contain the separator of the next column, the
  last value does not end in a line break, and no row contains a line that starts like the next row.
\<close>

fun values_clear :: "(string \<times> string) list \<Rightarrow> bool" where
  "values_clear ((c, v) # (d, w) # cvs) \<longleftrightarrow>
     find_sub ('', '' @ d @ ''='') (v @ '', '' @ d @ ''='') = Some (length v) \<and> values_clear ((d, w) # cvs)"
| "values_clear cvs \<longleftrightarrow> True"

definition ends_clear :: "string \<Rightarrow> bool" where
  "ends_clear v \<longleftrightarrow> v = [] \<or> last v \<noteq> CHR 0x0A \<and> last v \<noteq> CHR 0x0D"

definition row_clear :: "string list \<Rightarrow> nat \<Rightarrow> (string \<times> string) list \<Rightarrow> bool" where
  "row_clear columns n r \<longleftrightarrow>
     map fst r = columns \<and> values_clear r \<and> ends_clear (snd (last r)) \<and>
     \<not> contains_sub (CHR 0x0A # row_marker (n + 1) (hd columns)) (row_text n r)"

fun rows_clear :: "string list \<Rightarrow> nat \<Rightarrow> (string \<times> string) list list \<Rightarrow> bool" where
  "rows_clear columns n [] \<longleftrightarrow> True"
| "rows_clear columns n (r # rs) \<longleftrightarrow> row_clear columns n r \<and> rows_clear columns (n + 1) rs"

definition row_of :: "(string \<times> string) list \<Rightarrow> row" where
  "row_of r = map_of (map (\<lambda>(c, v). (c, nullToEmpty v)) r)"

section \<open>Reading one row\<close>

lemma find_sub_append: "pat \<noteq> [] \<Longrightarrow> find_sub pat (v @ pat) = Some (length v) \<Longrightarrow> find_sub pat (v @ pat @ s) = Some (length v)"
proof (induction v)
  case Nil
  then show ?case by (simp add: find_sub_Some_prefix)
next
  case (Cons x v)
  have hd: "take (length pat) (x # v @ pat) \<noteq> pat" using Cons.prems(2) by (auto split: if_splits)
  then have rest: "find_sub pat (v @ pat) = Some (length v)" using Cons.prems(2) by auto
  have "take (length pat) ((x # v @ pat) @ s) = take (length pat) (x # v @ pat)"
    by (simp only: take_append) simp
  with hd Cons.IH [OF Cons.prems(1) rest] show ?case by (simp del: take_append take_Cons)
qed

lemma find_sub_at_append: "find_sub_at pat (length pre) (pre @ s) = map_option ((+) (length pre)) (find_sub pat s)"
  by (simp add: find_sub_at_def)

lemma substr_middle: "substr (pre @ v @ s) (length pre) (length v) = v"
  by (simp add: substr_def)

lemma row_columns_text:
  "r \<noteq> [] \<Longrightarrow> distinct (map fst r) \<Longrightarrow> values_clear r \<Longrightarrow>
   row_columns (pre @ column_text r) (map fst r) (length pre) m = Some (m ++ row_of r)"
proof (induction r arbitrary: pre m)
  case (Cons cv cvs)
  obtain c v where cv: "cv = (c, v)" by force
  show ?case
  proof (cases cvs)
    case Nil
    then show ?thesis
      using cv substr_middle [of pre "c @ ''=''" v] by (simp add: row_of_def substr_def Let_def map_add_def fun_eq_iff)
  next
    case (Cons dw cvs')
    obtain d w where dw: "dw = (d, w)" by force
    let ?pat = "'', '' @ d @ ''=''" and ?pre = "pre @ c @ ''=''"
    let ?text = "pre @ column_text (cv # cvs)"
    have teq: "?text = ?pre @ v @ '', '' @ column_text cvs" using cv Cons by simp
    have "column_text cvs = d @ ''='' @ drop (length d + 1) (column_text cvs)" using Cons dw by simp
    then obtain s where s: "'', '' @ column_text cvs = ?pat @ s" by (metis append.assoc)
    have "find_sub ?pat (v @ ?pat @ s) = Some (length v)"
      by (rule find_sub_append) (use Cons.prems(3) cv dw Cons in auto)
    then have fnd: "find_sub_at ?pat (length ?pre) ?text = Some (length ?pre + length v)"
      unfolding teq s by (simp only: find_sub_at_append) simp
    have key: "substr ?text (length pre) (length (c @ ''='')) = c @ ''=''"
      unfolding teq using substr_middle [of pre "c @ ''=''" "v @ '', '' @ column_text cvs"] by simp
    have val: "substr ?text (length ?pre) (length v) = v"
      unfolding teq using substr_middle [of ?pre v] by simp
    have "row_columns ((?pre @ v @ '', '') @ column_text cvs) (map fst cvs) (length (?pre @ v @ '', ''))
        (m(c \<mapsto> nullToEmpty v)) = Some (m(c \<mapsto> nullToEmpty v) ++ row_of cvs)"
      by (rule Cons.IH) (use Cons.prems cv dw Cons in auto)
    then have rec: "row_columns ?text (map fst cvs) (length (?pre @ v @ '', '')) (m(c \<mapsto> nullToEmpty v)) =
        Some (m(c \<mapsto> nullToEmpty v) ++ row_of cvs)"
      unfolding teq by (simp only: append.assoc)
    have step: "row_columns t (map fst (cv # cvs)) (length pre) m =
        row_columns t (map fst cvs) (length (?pre @ v @ '', '')) (m(c \<mapsto> nullToEmpty v))" if "t = ?text" for t
    proof -
      obtain ds where ds: "map fst (cv # cvs) = c # d # ds" "map fst cvs = d # ds" using cv dw Cons by simp
      have k: "substr t (length pre) (length (c @ ''='')) = c @ ''=''" using key that by simp
      have f: "find_sub_at ?pat (length pre + length (c @ ''='')) t = Some (length pre + length (c @ ''='') + length v)"
        using fnd that by (simp only: length_append)
      have w: "substr t (length pre + length (c @ ''='')) (length v) = v" using val that by (simp only: length_append)
      show ?thesis
        unfolding ds row_columns.simps(2) [of t c "d # ds"] Let_def list.case k f option.case
        using w by (simp add: add.assoc)
    qed
    have "dom (row_of cvs) = fst ` set cvs"
      by (simp add: row_of_def dom_map_of_conv_image_fst image_image split_beta)
    then have "c \<notin> dom (row_of cvs)" using Cons.prems(2) cv by simp
    then have "m(c \<mapsto> nullToEmpty v) ++ row_of cvs = m ++ (row_of cvs)(c \<mapsto> nullToEmpty v)"
      by (metis map_add_upd_left map_add_upd)
    moreover have "row_of (cv # cvs) = (row_of cvs)(c \<mapsto> nullToEmpty v)" using cv by (simp add: row_of_def)
    ultimately show ?thesis using step [OF refl] rec by (simp only:)
  qed
qed simp

lemma digits_no_space: "CHR '' '' \<notin> set (nat_to_string n)"
  using nat_to_string_digits [of n] by (auto simp: char_class_defs)

lemma column_text_last:
  "r \<noteq> [] \<Longrightarrow> ends_clear (snd (last r)) \<Longrightarrow>
   \<exists>c s. column_text r = s @ [c] \<and> c \<noteq> CHR 0x0A \<and> c \<noteq> CHR 0x0D"
proof (induction r)
  case (Cons cv r)
  obtain c v where cv: "cv = (c, v)" by force
  show ?case
  proof (cases "r = []")
    case True
    show ?thesis
    proof (cases v rule: rev_cases)
      case Nil
      with True cv show ?thesis by (intro exI [of _ "CHR ''=''"] exI [of _ c]) simp
    next
      case (snoc w x)
      with True cv Cons.prems(2) have "x \<noteq> CHR 0x0A \<and> x \<noteq> CHR 0x0D" by (simp add: ends_clear_def)
      with True cv snoc show ?thesis by (intro exI [of _ x] exI [of _ "c @ ''='' @ w"]) simp
    qed
  next
    case False
    with Cons obtain d s where "column_text r = s @ [d]" "d \<noteq> CHR 0x0A" "d \<noteq> CHR 0x0D" by auto
    with False cv show ?thesis by (intro exI [of _ d] exI [of _ "c @ ''='' @ v @ '', '' @ s"]) simp
  qed
qed simp

lemma parse_row_text:
  assumes "r \<noteq> []" "distinct (map fst r)" "values_clear r" "ends_clear (snd (last r))"
  shows "parse_row (row_text n r @ [CHR 0x0A]) (map fst r) = Some (row_of r)"
proof -
  have pop: "pop_newlines (row_text n r @ [CHR 0x0A]) = row_text n r"
    using column_text_last [OF assms(1,4)] by (auto simp: pop_newlines_def row_text_def)
  let ?pre = "''Row: '' @ nat_to_string n @ '' ''"
  have "find_char_at (CHR '' '') 5 (row_text n r) = Some (length ?pre - 1)"
    using find_char_append_hit [OF digits_no_space] by (simp add: find_char_at_def row_text_def)
  moreover have "row_columns (?pre @ column_text r) (map fst r) (length ?pre) Map.empty = Some (Map.empty ++ row_of r)"
    by (rule row_columns_text [OF assms(1-3)])
  ultimately show ?thesis
    unfolding parse_row_def Let_def pop by (simp add: row_text_def)
qed

section \<open>Finding the rows\<close>

text \<open>A line-start occurrence of the marker of row \<open>n\<close>.\<close>

definition row_at :: "string \<Rightarrow> string \<Rightarrow> nat \<Rightarrow> nat \<Rightarrow> bool" where
  "row_at output first n i \<longleftrightarrow>
     take (length (row_marker n first)) (drop i output) = row_marker n first \<and> (i = 0 \<or> output ! (i - 1) = CHR 0x0A)"

lemma find_sub_first:
  "find_sub pat s = Some i \<Longrightarrow> j < i \<Longrightarrow> take (length pat) (drop j s) \<noteq> pat"
proof (induction s arbitrary: i j)
  case (Cons x s)
  then show ?case by (cases j) (auto split: if_splits)
qed (auto split: if_splits)

lemma find_sub_none: "find_sub pat s = None \<Longrightarrow> take (length pat) (drop j s) \<noteq> pat"
proof (induction s arbitrary: j)
  case (Cons x s)
  then show ?case by (cases j) (auto split: if_splits)
qed (auto split: if_splits)

lemma find_sub_at_first:
  assumes "find_sub_at pat pos s = Some i"
  shows "pos \<le> i" "take (length pat) (drop i s) = pat" "\<forall>j. pos \<le> j \<and> j < i \<longrightarrow> take (length pat) (drop j s) \<noteq> pat"
proof -
  from assms obtain k where k: "find_sub pat (drop pos s) = Some k" "i = pos + k"
    by (auto simp: find_sub_at_def split: if_splits)
  show "pos \<le> i" using k by simp
  show "take (length pat) (drop i s) = pat" using find_sub_hit [OF k(1)] k(2) by (simp add: add.commute)
  show "\<forall>j. pos \<le> j \<and> j < i \<longrightarrow> take (length pat) (drop j s) \<noteq> pat"
  proof (intro allI impI)
    fix j assume "pos \<le> j \<and> j < i"
    with k(2) have "j - pos < k" "drop (j - pos) (drop pos s) = drop j s" by auto
    with find_sub_first [OF k(1)] show "take (length pat) (drop j s) \<noteq> pat" by metis
  qed
qed

lemma find_sub_at_none:
  "find_sub_at pat pos s = None \<Longrightarrow> pos \<le> length s \<Longrightarrow> pos \<le> j \<Longrightarrow> take (length pat) (drop j s) \<noteq> pat"
  using find_sub_none [of pat "drop pos s" "j - pos"] by (simp add: find_sub_at_def)

lemma row_starts_next:
  assumes "row_at output first n q" "\<forall>i. pos \<le> i \<and> i < q \<longrightarrow> \<not> row_at output first n i" "pos \<le> q" "q < length output"
  shows "row_starts output first n pos = q # row_starts output first (n + 1) (q + 1)"
  using assms
proof (induction "q - pos" arbitrary: pos rule: less_induct)
  case less
  let ?m = "row_marker n first"
  have q: "take (length ?m) (drop q output) = ?m" using less.prems(1) by (simp add: row_at_def)
  obtain i where i: "find_sub_at ?m pos output = Some i"
    using find_sub_at_none [where pat = ?m and pos = pos and s = "output" and j = q] q less.prems(3,4) by (cases "find_sub_at ?m pos output") auto
  note f = find_sub_at_first [OF i]
  have le: "i \<le> q" using f(3) q less.prems(3) not_less by blast
  show ?case
  proof (cases "i = q")
    case True
    then have "i = 0 \<or> output ! (i - 1) = CHR 0x0A" using less.prems(1) by (simp add: row_at_def)
    with i True less.prems(3,4) show ?thesis by (subst row_starts.simps) simp
  next
    case False
    then have "\<not> row_at output first n i" using less.prems(2) f(1) le by simp
    then have no: "\<not> (i = 0 \<or> output ! (i - 1) = CHR 0x0A)" using f(2) by (simp add: row_at_def)
    have "row_starts output first n (i + 1) = q # row_starts output first (n + 1) (q + 1)"
      using less.hyps [of "i + 1"] less.prems f(1) le False by auto
    with i no less.prems(3,4) show ?thesis by (subst row_starts.simps) simp
  qed
qed

lemma row_starts_end:
  assumes "\<forall>i\<ge>pos. \<not> row_at output first n i"
  shows "row_starts output first n pos = []"
  using assms
proof (induction "length output - pos" arbitrary: pos rule: less_induct)
  case less
  show ?case
  proof (cases "find_sub_at (row_marker n first) pos output")
    case None
    then show ?thesis by (subst row_starts.simps) simp
  next
    case (Some i)
    note f = find_sub_at_first [OF Some]
    have no: "\<not> (i = 0 \<or> output ! (i - 1) = CHR 0x0A)" using less.prems f(1,2) by (auto simp: row_at_def)
    show ?thesis
    proof (cases "length output \<le> pos")
      case False
      then have "row_starts output first n (i + 1) = []" using less.hyps [of "i + 1"] less.prems f(1) by auto
      with Some no show ?thesis by (subst row_starts.simps) simp
    qed (subst row_starts.simps, simp)
  qed
qed

section \<open>All rows\<close>

fun starts_of :: "nat \<Rightarrow> nat \<Rightarrow> (string \<times> string) list list \<Rightarrow> nat list" where
  "starts_of n off [] = []"
| "starts_of n off (r # rs) = off # starts_of (n + 1) (off + length (row_text n r) + 1) rs"

lemma row_text_marker:
  "map fst r = columns \<Longrightarrow> columns \<noteq> [] \<Longrightarrow> \<exists>s. row_text n r = row_marker n (hd columns) @ s"
  by (cases r) (auto simp: row_text_def row_marker_def)

lemma marker_no_newline: "CHR 0x0A \<notin> set first \<Longrightarrow> CHR 0x0A \<notin> set (row_marker n first)"
  using nat_to_string_digits [of n] by (auto simp: row_marker_def char_class_defs)

lemma row_at_start:
  assumes "map fst r = columns" "columns \<noteq> []" "pre = [] \<or> last pre = CHR 0x0A"
  shows "row_at (pre @ row_text n r @ s) (hd columns) n (length pre)"
proof -
  obtain u where "row_text n r = row_marker n (hd columns) @ u" using row_text_marker [OF assms(1,2)] by blast
  then show ?thesis using assms(3) by (cases pre rule: rev_cases) (auto simp: row_at_def nth_append)
qed

text \<open>Inside a clear row nothing starts like the next one.\<close>

lemma no_row_inside:
  assumes clear: "\<not> contains_sub (CHR 0x0A # row_marker m first) t" and nl: "CHR 0x0A \<notin> set first"
    and i: "length pre < i" "i \<le> length pre + length t"
  shows "\<not> row_at (pre @ t @ CHR 0x0A # s) first m i"
proof
  let ?o = "pre @ t @ CHR 0x0A # s" and ?k = "i - 1 - length pre"
  assume "row_at ?o first m i"
  then have r: "take (length (row_marker m first)) (drop i ?o) = row_marker m first" "?o ! (i - 1) = CHR 0x0A"
    using i by (auto simp: row_at_def)
  have k: "i = length pre + ?k + 1" "?k < length t" using i by auto
  have "\<not> i - 1 < length pre" using i by simp
  then have hit: "t ! ?k = CHR 0x0A" using r(2) k(2) by (simp add: nth_append)
  have "i - length pre = ?k + 1" "i - length pre \<le> length t" using i by simp_all
  then have d: "drop i ?o = drop (?k + 1) t @ CHR 0x0A # s" using i by simp
  note hit' = r(1) [unfolded d]
  let ?m = "row_marker m first" and ?t = "drop (?k + 1) t"
  show False
  proof (cases "length ?m \<le> length ?t")
    case True
    then have "take (length ?m) ?t = ?m" using hit' by (simp only: take_append diff_is_0_eq' take_0 append_Nil2)
    then have "?t = ?m @ drop (length ?m) ?t" using append_take_drop_id [of "length ?m" ?t] by simp
    moreover have "drop ?k t = CHR 0x0A # ?t" using Cons_nth_drop_Suc [OF k(2)] hit by simp
    ultimately have "t = take ?k t @ (CHR 0x0A # ?m) @ drop (length ?m) ?t"
      using append_take_drop_id [of ?k t] by simp
    then have "contains_sub (CHR 0x0A # ?m) t" unfolding contains_sub_iff by blast
    with clear show False ..
  next
    case False
    have "?m = take (length ?m) (?t @ CHR 0x0A # s)" by (rule hit' [symmetric])
    then have "?m ! length ?t = (?t @ CHR 0x0A # s) ! length ?t" using False by (metis not_le nth_take)
    then have "?m ! length ?t = CHR 0x0A" by (simp only: nth_append_length)
    with False marker_no_newline [OF nl, of m] show False by (metis not_le nth_mem)
  qed
qed

lemma row_starts_content:
  assumes "columns \<noteq> []" "CHR 0x0A \<notin> set (hd columns)"
  shows "rows_clear columns n rs \<Longrightarrow> pre = [] \<or> last pre = CHR 0x0A \<Longrightarrow>
    (\<forall>i. pos \<le> i \<and> i < length pre \<longrightarrow> \<not> row_at (pre @ content_text n rs) (hd columns) n i) \<Longrightarrow>
    pos \<le> length pre \<Longrightarrow> row_starts (pre @ content_text n rs) (hd columns) n pos = starts_of n (length pre) rs"
proof (induction rs arbitrary: n pre pos)
  case Nil
  have "\<not> row_at pre (hd columns) n i" if "pos \<le> i" for i
  proof (cases "i < length pre")
    case False
    then have "take (length (row_marker n (hd columns))) (drop i pre) = []" by simp
    then show ?thesis by (auto simp: row_at_def row_marker_def)
  qed (use Nil.prems(3) that in simp)
  then show ?case by (simp add: row_starts_end)
next
  case (Cons r rs)
  let ?o = "pre @ content_text n (r # rs)" and ?pre = "pre @ row_text n r @ [CHR 0x0A]"
  have r: "map fst r = columns" "\<not> contains_sub (CHR 0x0A # row_marker (n + 1) (hd columns)) (row_text n r)"
    "rows_clear columns (n + 1) rs"
    using Cons.prems(1) by (auto simp: row_clear_def)
  have o: "?o = ?pre @ content_text (n + 1) rs" by simp
  have "row_at ?o (hd columns) n (length pre)"
    using row_at_start [OF r(1) assms(1) Cons.prems(2)] by simp
  moreover have "length pre < length ?o" by simp
  ultimately have "row_starts ?o (hd columns) n pos = length pre # row_starts ?o (hd columns) (n + 1) (length pre + 1)"
    using Cons.prems(3,4) by (intro row_starts_next) auto
  also have "row_starts ?o (hd columns) (n + 1) (length pre + 1) = starts_of (n + 1) (length ?pre) rs"
    unfolding o
  proof (rule Cons.IH [OF r(3)])
    show "?pre = [] \<or> last ?pre = CHR 0x0A" by simp
    show "\<forall>i. length pre + 1 \<le> i \<and> i < length ?pre \<longrightarrow>
        \<not> row_at (?pre @ content_text (n + 1) rs) (hd columns) (n + 1) i"
      using no_row_inside [OF r(2) assms(2), of pre _ "content_text (n + 1) rs"] by auto
  qed simp
  finally show ?case by (simp add: add.assoc)
qed

fun row_texts :: "nat \<Rightarrow> (string \<times> string) list list \<Rightarrow> string list" where
  "row_texts n [] = []"
| "row_texts n (r # rs) = (row_text n r @ [CHR 0x0A]) # row_texts (n + 1) rs"

lemma row_slices_content:
  "row_slices (pre @ content_text n rs) (starts_of n (length pre) rs) = row_texts n rs"
proof (induction rs arbitrary: n pre)
  case (Cons r rs)
  let ?pre = "pre @ row_text n r @ [CHR 0x0A]"
  have o: "pre @ content_text n (r # rs) = ?pre @ content_text (n + 1) rs" by simp
  have IH: "row_slices (?pre @ content_text (n + 1) rs) (starts_of (n + 1) (length ?pre) rs) = row_texts (n + 1) rs"
    by (rule Cons.IH)
  show ?case
  proof (cases rs)
    case Nil
    then show ?thesis by simp
  next
    case (Cons r' rs')
    then have "starts_of n (length pre) (r # rs) = length pre # length ?pre # tl (starts_of (n + 1) (length ?pre) rs)"
      "starts_of (n + 1) (length ?pre) rs = length ?pre # tl (starts_of (n + 1) (length ?pre) rs)" by simp_all
    then have "row_slices (?pre @ content_text (n + 1) rs) (starts_of n (length pre) (r # rs)) =
        substr (?pre @ content_text (n + 1) rs) (length pre) (length ?pre - length pre) #
        row_slices (?pre @ content_text (n + 1) rs) (starts_of (n + 1) (length ?pre) rs)"
      by (metis row_slices.simps(3))
    moreover have "substr (?pre @ content_text (n + 1) rs) (length pre) (length ?pre - length pre) = row_text n r @ [CHR 0x0A]"
      by (simp add: substr_def)
    ultimately show ?thesis unfolding o IH by simp
  qed
qed simp

text \<open>C30: the rows \<open>content query\<close> prints are read back exactly: for rows over the same distinct columns
  whose values are unambiguous in the printed form (no value holds the separator of the next column, the
  last ends in no line break, no row holds a line starting like the next row), every row comes back with
  every value, \<open>NULL\<close> as the empty string; commas, quotes and line breaks inside values included.\<close>

theorem parseContentQuery_roundtrip:
  assumes "columns \<noteq> []" "distinct columns" "CHR 0x0A \<notin> set (hd columns)" "rows_clear columns 0 rows"
  shows "parseContentQuery (content_text 0 rows) columns = map row_of rows"
proof -
  have starts: "row_starts (content_text 0 rows) (hd columns) 0 0 = starts_of 0 0 rows"
    using row_starts_content [OF assms(1,3,4), of "[]" 0] by simp
  have slices: "row_slices (content_text 0 rows) (starts_of 0 0 rows) = row_texts 0 rows"
    using row_slices_content [of "[]" 0 rows] by simp
  have "rows_clear columns n rs \<Longrightarrow>
      List.map_filter (\<lambda>t. parse_row t columns) (row_texts n rs) = map row_of rs" for n rs
  proof (induction rs arbitrary: n)
    case (Cons r rs)
    have "row_clear columns n r" using Cons.prems by simp
    then have "parse_row (row_text n r @ [CHR 0x0A]) columns = Some (row_of r)"
      using parse_row_text [of r n] assms(1,2) by (auto simp: row_clear_def)
    with Cons show ?case by (simp add: List.map_filter_simps)
  qed (simp add: List.map_filter_simps)
  from this [of 0 rows] assms(4) starts slices assms(1) show ?thesis
    by (cases columns) (simp_all add: parseContentQuery_def)
qed

theorem parseContentQuery_roundtrip_witness:
  "parseContentQuery (content_text 0 [[(''_id'', ''1''), (''body'', ''a, b'')], [(''_id'', ''2''), (''body'', ''NULL'')]])
     [''_id'', ''body''] =
   map row_of [[(''_id'', ''1''), (''body'', ''a, b'')], [(''_id'', ''2''), (''body'', ''NULL'')]]"
  by (rule parseContentQuery_roundtrip) code_simp+

end
