(* ===== verification/PersonalData.thy ===== *)
theory PersonalData
  imports PersonalTexts RootBackend
begin

text \<open>
  The device half of \<open>src/src/backup/PersonalData.cpp\<close>: querying the content providers, writing
  each export under \<open>personal/\<close> and recording it in the manifest, and what a restore writes back.
  Every export takes the manifest and returns it with its result; the calendar's may not return,
  and then neither does the whole (\<^term>\<open>None\<close>).
\<close>

definition kExportDir :: string where
  "kExportDir = ''personal''"

definition kMmsPartsDir :: string where
  "kMmsPartsDir = ''mms_parts''"

definition kContactsPerVcardRead :: nat where
  "kContactsPerVcardRead = 25"

record ExportResult =
  er_kind :: string
  er_label :: string
  er_count :: int
  er_reason :: string

section \<open>Asking the device\<close>

definition tool_problem :: "ProcessResult \<Rightarrow> string" where
  "tool_problem r =
     (let out = trim (stdOut r); err = trim (stdErr r)
      in if spawnFailed r then ''could not run adb''
         else if startsWith out ''Error while'' \<or> contains_sub ''Exception'' err \<or> contains_sub ''Error while'' err
         then (if err = [] then out else err)
         else if \<not> result_ok r \<and> out = [] then
           (if err = [] then ''the device refused or does not support it'' else err)
         else [])"

text \<open>The first line that names the exception, or all of it; at most 300 bytes.\<close>

definition tool_reason :: "string \<Rightarrow> string" where
  "tool_reason problem =
     take 300
       (case find (\<lambda>l. contains_sub ''Exception'' l \<or> contains_sub ''Denial'' l) (map trim (split problem newline)) of
          Some l \<Rightarrow> l
        | None \<Rightarrow> problem)"

text \<open>The output, or \<open>*why\<close> on the left.\<close>

definition runDeviceTool :: "'w host \<Rightarrow> AdbClient \<Rightarrow> string \<Rightarrow> 'w sys \<Rightarrow> string result \<times> 'w sys" where
  "runDeviceTool h adb command s =
     (let (r, s1) = shell h adb command s; problem = tool_problem r
      in (if problem = [] then Inr (stdOut r) else Inl (tool_reason problem), s1))"

definition query_cmd :: "string \<Rightarrow> string list \<Rightarrow> string \<Rightarrow> string" where
  "query_cmd uri columns cond =
     ''content query --uri '' @ shellQuote uri @ '' --projection '' @ shellQuote (join columns '':'') @
     (if cond \<noteq> [] then '' --where '' @ shellQuote cond else [])"

definition queryProvider ::
    "'w host \<Rightarrow> AdbClient \<Rightarrow> string \<Rightarrow> string list \<Rightarrow> string \<Rightarrow> 'w sys \<Rightarrow> row list result \<times> 'w sys" where
  "queryProvider h adb uri columns cond s =
     (case runDeviceTool h adb (query_cmd uri columns cond) s of
        (Inl why, s1) \<Rightarrow> (Inl why, s1)
      | (Inr output, s1) \<Rightarrow> (Inr (parseContentQuery output columns), s1))"

definition read_cmd :: "string \<Rightarrow> string" where
  "read_cmd uri = ''content read --uri '' @ shellQuote uri"

section \<open>Recording an export\<close>

definition recordExport ::
    "'w host \<Rightarrow> string \<Rightarrow> string \<Rightarrow> string \<Rightarrow> string \<Rightarrow> string \<Rightarrow> int \<Rightarrow> bool \<Rightarrow> Manifest \<Rightarrow> 'w sys \<Rightarrow>
     (bool \<times> Manifest) \<times> 'w sys" where
  "recordExport h outDir fileName content kind format n ownerOnly manifest s =
     (let path = path_join (path_join outDir kExportDir) fileName
      in case writeTextFile h path content s of
           (Inl what, s1) \<Rightarrow> ((False, manifest), log_warn h (''Could not write '' @ path @ '': '' @ what) s1)
         | (Inr _, s1) \<Rightarrow>
             (let s2 = (if ownerOnly then fs_owner_only h path s1 else s1);
                  (sum, s3) = checksumOrEmpty h path s2
              in ((True, manifest\<lparr>mf_personalDataExports := mf_personalDataExports manifest @
                     [\<lparr>px_kind = kind, px_format = format, px_localPath = path_join kExportDir fileName,
                       px_itemCount = n, px_bytes = fileSize h path s2, px_sha256 = sum\<rparr>]\<rparr>), s3)))"

definition skipped :: "'w host \<Rightarrow> string \<Rightarrow> string \<Rightarrow> string \<Rightarrow> 'w sys \<Rightarrow> ExportResult \<times> 'w sys" where
  "skipped h kind label reason s =
     (\<lparr>er_kind = kind, er_label = label, er_count = - 1, er_reason = reason\<rparr>,
      log_warn h (label @ '' not exported: '' @ reason) s)"

definition exported :: "string \<Rightarrow> string \<Rightarrow> int \<Rightarrow> ExportResult" where
  "exported kind label n = \<lparr>er_kind = kind, er_label = label, er_count = n, er_reason = []\<rparr>"

type_synonym 'w export = "(ExportResult \<times> Manifest) \<times> 'w sys"

text \<open>The refusal and the ending that the exports share.\<close>

definition skip_export :: "'w host \<Rightarrow> string \<Rightarrow> string \<Rightarrow> string \<Rightarrow> Manifest \<Rightarrow> 'w sys \<Rightarrow> 'w export" where
  "skip_export h kind label reason manifest s = (let (r, s1) = skipped h kind label reason s in ((r, manifest), s1))"

definition finish_export ::
    "'w host \<Rightarrow> string \<Rightarrow> string \<Rightarrow> string \<Rightarrow> string \<Rightarrow> string \<Rightarrow> string \<Rightarrow> int \<Rightarrow> bool \<Rightarrow> Manifest \<Rightarrow> 'w sys \<Rightarrow> 'w export" where
  "finish_export h outDir fileName content kind label format n ownerOnly manifest s =
     (let ((ok, m1), s1) = recordExport h outDir fileName content kind format n ownerOnly manifest s
      in if ok then ((exported kind label n, m1), s1)
         else skip_export h kind label ''could not write the export file'' m1 s1)"

text \<open>\<open>static_cast<int>(rows.size())\<close>.\<close>

definition int_size :: "'a list \<Rightarrow> int" where
  "int_size xs = int32_from_ll (int (length xs))"

text \<open>The needle is never empty: the one call looks for \<open>BEGIN:VCARD\<close>.\<close>

function countOccurrences :: "string \<Rightarrow> string \<Rightarrow> nat \<Rightarrow> int" where
  "countOccurrences content needle pos =
     (if length content \<le> pos then 0
      else case find_sub_at needle pos content of
        None \<Rightarrow> 0
      | Some found \<Rightarrow> if needle = [] then 0 else 1 + countOccurrences content needle (found + length needle))"
  by pat_completeness auto

termination
  by (relation "measure (\<lambda>(content, needle, pos). length content - pos)")
    (simp_all, (drule find_sub_at_ge, auto simp: neq_Nil_conv)+)

declare countOccurrences.simps [simp del]

section \<open>Contacts\<close>

text \<open>The keys of the next round, the loop over the rounds; the flag is \<open>native\<close>.\<close>

definition lookup_keys :: "row list \<Rightarrow> string list" where
  "lookup_keys contacts = filter (\<lambda>k. k \<noteq> []) (map (\<lambda>row. row_get row ''lookup'') contacts)"

definition vcard_uri :: "string list \<Rightarrow> string" where
  "vcard_uri keys = ''content://com.android.contacts/contacts/as_multi_vcard/'' @ encodeUriComponent (join keys '':'')"

definition append_chunk :: "string \<Rightarrow> string \<Rightarrow> string" where
  "append_chunk vcards chunk =
     (let v = vcards @ chunk in if v \<noteq> [] \<and> last v \<noteq> newline then v @ crlf else v)"

function vcard_loop :: "'w host \<Rightarrow> AdbClient \<Rightarrow> row list \<Rightarrow> string \<Rightarrow> 'w sys \<Rightarrow> (bool \<times> string) \<times> 'w sys" where
  "vcard_loop h adb contacts vcards s =
     (if contacts = [] then ((True, vcards), s)
      else
        let keys = lookup_keys (take kContactsPerVcardRead contacts); rest = drop kContactsPerVcardRead contacts
        in if keys = [] then vcard_loop h adb rest vcards s
           else case runDeviceTool h adb (read_cmd (vcard_uri keys)) s of
             (Inl _, s1) \<Rightarrow> ((False, vcards), s1)
           | (Inr chunk, s1) \<Rightarrow>
               if \<not> startsWith (trim chunk) ''BEGIN:VCARD'' then ((False, vcards), s1)
               else vcard_loop h adb rest (append_chunk vcards chunk) s1)"
  by pat_completeness auto

termination
  by (relation "measure (\<lambda>(h, adb, contacts, vcards, s). length contacts)") (auto simp: kContactsPerVcardRead_def)

declare vcard_loop.simps [simp del]

definition exportContacts :: "'w host \<Rightarrow> AdbClient \<Rightarrow> string \<Rightarrow> Manifest \<Rightarrow> 'w sys \<Rightarrow> 'w export" where
  "exportContacts h adb outDir manifest s =
     (case queryProvider h adb ''content://com.android.contacts/contacts'' [''_id'', ''lookup''] [] s of
        (Inl why, s1) \<Rightarrow> skip_export h ''contacts'' ''Contacts'' why manifest s1
      | (Inr contacts, s1) \<Rightarrow>
          (let ((native, vcards), s2) = (if contacts = [] then ((False, []), s1) else vcard_loop h adb contacts [] s1);
               finish = (\<lambda>vcards n s. finish_export h outDir ''contacts.vcf'' vcards ''contacts'' ''Contacts'' ''vcard'' n
                 False manifest s)
           in if native then finish vcards (countOccurrences vcards ''BEGIN:VCARD'' 0) s2
              else if contacts = [] then finish vcards 0 s2
              else
                case queryProvider h adb ''content://com.android.contacts/data''
                       [''contact_id'', ''mimetype'', ''data2'', ''data3'', ''data1''] []
                       (log_debug h ''The device could not stream vCards; building them from the contacts data table.'' s2) of
                  (Inl why, s3) \<Rightarrow> skip_export h ''contacts'' ''Contacts'' why manifest s3
                | (Inr dataRows, s3) \<Rightarrow> finish (fst (buildVcards dataRows)) (int (snd (buildVcards dataRows))) s3))"

section \<open>Messages and calls\<close>

definition smsTypeName :: "int \<Rightarrow> string" where
  "smsTypeName type =
     (if type = 1 then ''inbox'' else if type = 2 then ''sent'' else if type = 3 then ''draft''
      else if type = 4 then ''outbox'' else if type = 5 then ''failed'' else if type = 6 then ''queued'' else ''other'')"

definition sms_item :: "row \<Rightarrow> json" where
  "sms_item row =
     set_all
       [(''id'', JInt (toInt (row_get row ''_id''))),
        (''thread_id'', JInt (toInt (row_get row ''thread_id''))),
        (''address'', JString (row_get row ''address'')),
        (''date'', JInt (toInt (row_get row ''date''))),
        (''date_utc'', JString (isoFromMillis (toInt (row_get row ''date'')))),
        (''date_sent'', JInt (toInt (row_get row ''date_sent''))),
        (''type'', JString (smsTypeName (toInt (row_get row ''type'')))),
        (''read'', JBool (row_get row ''read'' = ''1'')),
        (''body'', JString (row_get row ''body''))]"

definition exportSms :: "'w host \<Rightarrow> AdbClient \<Rightarrow> string \<Rightarrow> string \<Rightarrow> Manifest \<Rightarrow> 'w sys \<Rightarrow> 'w export" where
  "exportSms h adb outDir exportedAt manifest s =
     (case queryProvider h adb ''content://sms''
             [''_id'', ''thread_id'', ''address'', ''date'', ''date_sent'', ''type'', ''read'', ''body''] [] s of
        (Inl why, s1) \<Rightarrow> skip_export h ''sms'' ''SMS messages'' why manifest s1
      | (Inr rows, s1) \<Rightarrow>
          (let doc = set_all [(''exported_at_utc'', JString exportedAt), (''source'', JString ''content://sms''),
                              (''messages'', push_all (map sms_item rows))]
           in finish_export h outDir ''sms.json'' (json_dump doc 2 @ [newline]) ''sms'' ''SMS messages'' ''json''
                (int_size rows) False manifest s1))"

definition callTypeName :: "int \<Rightarrow> string" where
  "callTypeName type =
     (if type = 1 then ''incoming'' else if type = 2 then ''outgoing'' else if type = 3 then ''missed''
      else if type = 4 then ''voicemail'' else if type = 5 then ''rejected'' else if type = 6 then ''blocked'' else ''other'')"

definition call_item :: "row \<Rightarrow> json" where
  "call_item row =
     set_all
       [(''id'', JInt (toInt (row_get row ''_id''))),
        (''number'', JString (row_get row ''number'')),
        (''name'', JString (row_get row ''name'')),
        (''type'', JString (callTypeName (toInt (row_get row ''type'')))),
        (''date'', JInt (toInt (row_get row ''date''))),
        (''date_utc'', JString (isoFromMillis (toInt (row_get row ''date'')))),
        (''duration_seconds'', JInt (toInt (row_get row ''duration'')))]"

definition exportCallLog :: "'w host \<Rightarrow> AdbClient \<Rightarrow> string \<Rightarrow> string \<Rightarrow> Manifest \<Rightarrow> 'w sys \<Rightarrow> 'w export" where
  "exportCallLog h adb outDir exportedAt manifest s =
     (case queryProvider h adb ''content://call_log/calls''
             [''_id'', ''number'', ''type'', ''date'', ''duration'', ''name''] [] s of
        (Inl why, s1) \<Rightarrow> skip_export h ''call_log'' ''Call log'' why manifest s1
      | (Inr rows, s1) \<Rightarrow>
          (let doc = set_all [(''exported_at_utc'', JString exportedAt), (''source'', JString ''content://call_log/calls''),
                              (''calls'', push_all (map call_item rows))]
           in finish_export h outDir ''call_log.json'' (json_dump doc 2 @ [newline]) ''call_log'' ''Call log'' ''json''
                (int_size rows) False manifest s1))"

section \<open>MMS\<close>

definition mmsBoxName :: "int \<Rightarrow> string" where
  "mmsBoxName box =
     (if box = 1 then ''inbox'' else if box = 2 then ''sent'' else if box = 3 then ''draft''
      else if box = 4 then ''outbox'' else ''other'')"

definition kKnown :: "(string \<times> string) list" where
  "kKnown =
     [(''image/jpeg'', ''.jpg''), (''image/jpg'', ''.jpg''), (''image/png'', ''.png''), (''image/gif'', ''.gif''),
      (''image/webp'', ''.webp''), (''image/heic'', ''.heic''), (''video/mp4'', ''.mp4''), (''video/3gpp'', ''.3gp''),
      (''audio/amr'', ''.amr''), (''audio/mpeg'', ''.mp3''), (''audio/mp4'', ''.m4a''), (''text/x-vcard'', ''.vcf''),
      (''text/vcard'', ''.vcf''), (''text/x-vcalendar'', ''.vcs'')]"

definition extensionForContentType :: "string \<Rightarrow> string" where
  "extensionForContentType type = (case map_of kKnown type of None \<Rightarrow> ''.bin'' | Some e \<Rightarrow> e)"

text \<open>Thread id to participants; a thread without an entry has none.\<close>

definition address_map :: "row list \<Rightarrow> string \<rightharpoonup> string" where
  "address_map addresses = foldl (\<lambda>m row. m(row_get row ''_id'' \<mapsto> row_get row ''address'')) Map.empty addresses"

definition thread_participants :: "(string \<rightharpoonup> string) \<Rightarrow> row \<Rightarrow> string list" where
  "thread_participants addressById row =
     List.map_filter (\<lambda>i. case addressById (trim i) of Some a \<Rightarrow> if a = [] then None else Some a | None \<Rightarrow> None)
       (split (row_get row ''recipient_ids'') (CHR '' ''))"

definition participants_of :: "row list \<Rightarrow> row list \<Rightarrow> string \<Rightarrow> string list" where
  "participants_of threads addresses =
     foldl (\<lambda>m row. m(row_get row ''_id'' := m (row_get row ''_id'') @ thread_participants (address_map addresses) row))
       (\<lambda>_. []) threads"

definition query_participants ::
    "'w host \<Rightarrow> AdbClient \<Rightarrow> row list \<Rightarrow> 'w sys \<Rightarrow> (string \<Rightarrow> string list) \<times> 'w sys" where
  "query_participants h adb messagesRows s =
     (if messagesRows = [] then (\<lambda>_. [], s)
      else case queryProvider h adb ''content://mms-sms/conversations?simple=true'' [''_id'', ''recipient_ids''] [] s of
        (Inl _, s1) \<Rightarrow> (\<lambda>_. [], s1)
      | (Inr threads, s1) \<Rightarrow>
          (case queryProvider h adb ''content://mms-sms/canonical-addresses'' [''_id'', ''address''] [] s1 of
             (Inl _, s2) \<Rightarrow> (\<lambda>_. [], s2)
           | (Inr addresses, s2) \<Rightarrow> (participants_of threads addresses, s2)))"

definition query_parts :: "'w host \<Rightarrow> AdbClient \<Rightarrow> row list \<Rightarrow> 'w sys \<Rightarrow> row list \<times> 'w sys" where
  "query_parts h adb messagesRows s =
     (if messagesRows = [] then ([], s)
      else case queryProvider h adb ''content://mms/part'' [''_id'', ''mid'', ''seq'', ''ct'', ''name'', ''text''] [] s of
        (Inl why, s1) \<Rightarrow> ([], log_warn h (''MMS text and attachments not exported: '' @ why) s1)
      | (Inr parts, s1) \<Rightarrow> (parts, s1))"

text \<open>\<open>attachments\<close>, \<open>attachmentsWork\<close> and \<open>partsByMessage\<close>.\<close>

type_synonym parts_state = "int \<times> bool \<times> (string \<rightharpoonup> json)"

definition parts_dir :: "string \<Rightarrow> string" where
  "parts_dir outDir = path_join (path_join outDir kExportDir) kMmsPartsDir"

definition part_file :: "row \<Rightarrow> string" where
  "part_file part =
     sanitizeForFilename (row_get part ''_id'') @ extensionForContentType (row_get part ''ct'')"

definition fetch_attachment ::
    "'w host \<Rightarrow> AdbClient \<Rightarrow> string \<Rightarrow> row \<Rightarrow> int \<times> bool \<Rightarrow> json \<Rightarrow> 'w sys \<Rightarrow> ((int \<times> bool) \<times> json) \<times> 'w sys" where
  "fetch_attachment h adb outDir part st item s =
     (let (attachments, works) = st;
          (_, s1) = ensureDirectory h (parts_dir outDir) s;
          fileName = part_file part;
          local = path_join (parts_dir outDir) fileName;
          (ok, s2) = execOutToFile h adb (read_cmd (''content://mms/part/'' @ row_get part ''_id'')) local s1
      in if ok \<and> 0 < fileSize h local s2 then
           (((attachments + 1, works), json_set item ''file'' (JString (path_join kMmsPartsDir fileName))), s2)
         else
           let s3 = fs_remove h local s2
           in if attachments = 0 then
                (((attachments, False), item),
                 log_warn h ''MMS attachments could not be read from this device; exporting their text only.'' s3)
              else (((attachments, works), item), s3))"

definition add_part :: "'w host \<Rightarrow> AdbClient \<Rightarrow> string \<Rightarrow> row \<Rightarrow> parts_state \<Rightarrow> 'w sys \<Rightarrow> parts_state \<times> 'w sys" where
  "add_part h adb outDir part st s =
     (let (attachments, works, byMessage) = st; type = row_get part ''ct''
      in if type = ''application/smil'' then (st, s)
         else
           let item0 = json_set (JObject []) ''content_type'' (JString type);
               item1 = (if row_get part ''name'' \<noteq> [] then json_set item0 ''name'' (JString (row_get part ''name'')) else item0);
               (((attachments1, works1), item2), s1) =
                 (if type = ''text/plain'' then
                    (((attachments, works), json_set item1 ''text'' (JString (row_get part ''text''))), s)
                  else if works then fetch_attachment h adb outDir part (attachments, works) item1 s
                  else (((attachments, works), item1), s));
               mid = row_get part ''mid'';
               old = (case byMessage mid of Some a \<Rightarrow> a | None \<Rightarrow> JArray [])
           in ((attachments1, works1, byMessage(mid \<mapsto> json_push_back old item2)), s1))"

fun parts_loop :: "'w host \<Rightarrow> AdbClient \<Rightarrow> string \<Rightarrow> row list \<Rightarrow> parts_state \<Rightarrow> 'w sys \<Rightarrow> parts_state \<times> 'w sys" where
  "parts_loop h adb outDir [] st s = (st, s)"
| "parts_loop h adb outDir (part # parts) st s =
     (let (st1, s1) = add_part h adb outDir part st s in parts_loop h adb outDir parts st1 s1)"

text \<open>The product is a \<open>long long\<close>; its overflow is undefined in C++ and wraps here.\<close>

definition ll_wrap :: "int \<Rightarrow> int" where
  "ll_wrap i = (i + 2 ^ 63) mod 2 ^ 64 - 2 ^ 63"

definition mms_item :: "(string \<Rightarrow> string list) \<Rightarrow> (string \<rightharpoonup> json) \<Rightarrow> row \<Rightarrow> json" where
  "mms_item participants byMessage row =
     (let millis = ll_wrap (toInt (row_get row ''date'') * 1000)
      in set_all
           [(''id'', JInt (toInt (row_get row ''_id''))),
            (''thread_id'', JInt (toInt (row_get row ''thread_id''))),
            (''date'', JInt millis),
            (''date_utc'', JString (isoFromMillis millis)),
            (''box'', JString (mmsBoxName (toInt (row_get row ''msg_box'')))),
            (''subject'', JString (row_get row ''sub'')),
            (''participants'', push_all (map JString (participants (row_get row ''thread_id'')))),
            (''parts'', case byMessage (row_get row ''_id'') of None \<Rightarrow> JArray [] | Some a \<Rightarrow> a)])"

definition exportMms :: "'w host \<Rightarrow> AdbClient \<Rightarrow> string \<Rightarrow> string \<Rightarrow> Manifest \<Rightarrow> 'w sys \<Rightarrow> 'w export" where
  "exportMms h adb outDir exportedAt manifest s =
     (case queryProvider h adb ''content://mms'' [''_id'', ''thread_id'', ''date'', ''msg_box'', ''sub''] [] s of
        (Inl why, s1) \<Rightarrow> skip_export h ''mms'' ''MMS messages'' why manifest s1
      | (Inr messagesRows, s1) \<Rightarrow>
          (let (parts, s2) = query_parts h adb messagesRows s1;
               (participants, s3) = query_participants h adb messagesRows s2;
               ((attachments, works, byMessage), s4) = parts_loop h adb outDir parts (0, True, Map.empty) s3;
               doc = set_all [(''exported_at_utc'', JString exportedAt), (''source'', JString ''content://mms''),
                       (''note'', JString ''participants lists everyone in the conversation; attachment files are under mms_parts/.''),
                       (''messages'', push_all (map (mms_item participants byMessage) messagesRows))];
               ((ok, m1), s5) = recordExport h outDir ''mms.json'' (json_dump doc 2 @ [newline]) ''mms'' ''json''
                 (int_size messagesRows) False manifest s4
           in if \<not> ok then skip_export h ''mms'' ''MMS messages'' ''could not write the export file'' m1 s5
              else ((exported ''mms'' ''MMS messages'' (int_size messagesRows), m1),
                    if 0 < attachments then
                      log_info h (''Saved '' @ int_to_string attachments @ '' MMS attachment(s).'') s5
                    else s5)))"

section \<open>Calendar, settings, Wi-Fi\<close>

definition calendar_names :: "row list \<Rightarrow> string \<rightharpoonup> string" where
  "calendar_names calendars =
     foldl (\<lambda>m row. m(row_get row ''_id'' \<mapsto> row_get row ''calendar_displayName'')) Map.empty calendars"

definition exportCalendar :: "'w host \<Rightarrow> AdbClient \<Rightarrow> string \<Rightarrow> Manifest \<Rightarrow> 'w sys \<Rightarrow> 'w export option" where
  "exportCalendar h adb outDir manifest s =
     (case queryProvider h adb ''content://com.android.calendar/calendars'' [''_id'', ''calendar_displayName''] [] s of
        (Inl why, s1) \<Rightarrow> Some (skip_export h ''calendar'' ''Calendar events'' why manifest s1)
      | (Inr calendars, s1) \<Rightarrow>
          (case queryProvider h adb ''content://com.android.calendar/events''
                  [''_id'', ''calendar_id'', ''dtstart'', ''dtend'', ''allDay'', ''rrule'', ''duration'',
                   ''eventTimezone'', ''eventLocation'', ''title'', ''description''] ''deleted=0'' s1 of
             (Inl why, s2) \<Rightarrow> Some (skip_export h ''calendar'' ''Calendar events'' why manifest s2)
           | (Inr events, s2) \<Rightarrow>
               (let (now, s3) = time_now h s2
                in case buildIcs now events (calendar_names calendars) of
                     None \<Rightarrow> None
                   | Some (ics, n) \<Rightarrow>
                       Some (finish_export h outDir ''calendar.ics'' ics ''calendar'' ''Calendar events'' ''icalendar''
                         (int n) False manifest s3))))"

text \<open>The document, \<open>count\<close> and \<open>lastWhy\<close> over the namespaces.\<close>

definition settings_cmd :: "string \<Rightarrow> string" where
  "settings_cmd ns = ''settings list '' @ ns"

fun settings_loop ::
    "'w host \<Rightarrow> AdbClient \<Rightarrow> string list \<Rightarrow> json \<times> int \<times> string \<Rightarrow> 'w sys \<Rightarrow> (json \<times> int \<times> string) \<times> 'w sys" where
  "settings_loop h adb [] st s = (st, s)"
| "settings_loop h adb (ns # nss) (doc, n, lastWhy) s =
     (case runDeviceTool h adb (settings_cmd ns) s of
        (Inl why, s1) \<Rightarrow> settings_loop h adb nss (doc, n, why) s1
      | (Inr output, s1) \<Rightarrow>
          (let entries = parseSettingsList output
           in settings_loop h adb nss
                (json_set doc ns (set_all (map (\<lambda>(k, v). (k, JString v)) entries)), n + int (length entries), lastWhy) s1))"

definition exportSettings :: "'w host \<Rightarrow> AdbClient \<Rightarrow> string \<Rightarrow> string \<Rightarrow> Manifest \<Rightarrow> 'w sys \<Rightarrow> 'w export" where
  "exportSettings h adb outDir exportedAt manifest s =
     (let doc0 = set_all [(''exported_at_utc'', JString exportedAt),
            (''note'', JString ''Archival: abp does not write settings back, since many are device-specific.'')];
          ((doc, n, lastWhy), s1) = settings_loop h adb [''system'', ''secure'', ''global''] (doc0, 0, []) s
      in if n = 0 then
           skip_export h ''settings'' ''Settings'' (if lastWhy = [] then ''the device listed no settings'' else lastWhy) manifest s1
         else finish_export h outDir ''settings.json'' (json_dump doc 2 @ [newline]) ''settings'' ''Settings'' ''json''
                n False manifest s1)"

definition wifi_sources :: "(string \<times> bool) list" where
  "wifi_sources =
     [(''/data/misc/apexdata/com.android.wifi/WifiConfigStore.xml'', False),
      (''/data/misc/wifi/WifiConfigStore.xml'', False),
      (''/data/misc/wifi/wpa_supplicant.conf'', True)]"

definition cat_cmd :: "string \<Rightarrow> string" where
  "cat_cmd path = ''cat '' @ shellQuote path @ '' 2>/dev/null''"

definition wifi_item :: "WifiNetwork \<Rightarrow> json" where
  "wifi_item network =
     set_all
       [(''ssid'', JString (wn_ssid network)), (''security'', JString (wn_security network)),
        (''password'', JString (wn_password network)), (''hidden'', JBool (wn_hidden network))]"

text \<open>The raw store beside \<open>wifi.json\<close>; a failure to write it is swallowed.\<close>

definition write_raw_store :: "'w host \<Rightarrow> string \<Rightarrow> string \<Rightarrow> string \<Rightarrow> 'w sys \<Rightarrow> 'w sys" where
  "write_raw_store h outDir rawName content s =
     (let raw = path_join (path_join outDir kExportDir) (''wifi_'' @ rawName)
      in case writeTextFile h raw (content @ [newline]) s of
           (Inl _, s1) \<Rightarrow> s1
         | (Inr _, s1) \<Rightarrow> fs_owner_only h raw s1)"

definition export_store ::
    "'w host \<Rightarrow> string \<Rightarrow> string \<times> bool \<Rightarrow> string \<Rightarrow> Manifest \<Rightarrow> 'w sys \<Rightarrow> 'w export" where
  "export_store h outDir source content manifest s =
     (let (path, supplicant) = source;
          networks = (if supplicant then parseWpaSupplicant content else parseWifiConfigStore content);
          doc = set_all [(''source'', JString path), (''networks'', push_all (map wifi_item networks))];
          ((ok, m1), s1) = recordExport h outDir ''wifi.json'' (json_dump doc 2 @ [newline]) ''wifi'' ''json''
            (int_size networks) True manifest s
      in if \<not> ok then skip_export h ''wifi'' ''Wi-Fi networks'' ''could not write the export file'' m1 s1
         else ((exported ''wifi'' ''Wi-Fi networks'' (int_size networks), m1),
               log_warn h ''personal/wifi.json holds Wi-Fi passwords in clear text; keep this backup private.''
                 (write_raw_store h outDir (path_filename path) content s1)))"

fun wifi_loop ::
    "'w host \<Rightarrow> AdbClient \<Rightarrow> string \<Rightarrow> RootMethod \<Rightarrow> (string \<times> bool) list \<Rightarrow> Manifest \<Rightarrow> 'w sys \<Rightarrow> 'w export" where
  "wifi_loop h adb outDir m [] manifest s =
     skip_export h ''wifi'' ''Wi-Fi networks'' ''no Wi-Fi configuration store found on the device'' manifest s"
| "wifi_loop h adb outDir m (source # sources) manifest s =
     (let ((content, ok), s1) = shellText h adb (asRoot m (cat_cmd (fst source))) s
      in if \<not> ok \<or> content = [] then wifi_loop h adb outDir m sources manifest s1
         else export_store h outDir source content manifest s1)"

definition exportWifi :: "'w host \<Rightarrow> AdbClient \<Rightarrow> string \<Rightarrow> DeviceInfo \<Rightarrow> Manifest \<Rightarrow> 'w sys \<Rightarrow> 'w export" where
  "exportWifi h adb outDir device manifest s =
     (if \<not> isRooted device then
        ((\<lparr>er_kind = ''wifi'', er_label = ''Wi-Fi networks'', er_count = - 1,
           er_reason = ''needs root (the passwords are only readable as root)''\<rparr>, manifest), s)
      else wifi_loop h adb outDir (dev_root device) wifi_sources manifest s)"

section \<open>Everything\<close>

definition fs_is_empty :: "'w host \<Rightarrow> string \<Rightarrow> 'w sys \<Rightarrow> bool" where
  "fs_is_empty h p s =
     (if h_is_directory h p (world s) then h_list h p (world s) = Some []
      else h_file_size h p (world s) = Some 0)"

definition export_steps ::
    "'w host \<Rightarrow> AdbClient \<Rightarrow> string \<Rightarrow> DeviceInfo \<Rightarrow> string \<Rightarrow>
     (string \<times> (Manifest \<Rightarrow> 'w sys \<Rightarrow> 'w export option)) list" where
  "export_steps h adb outDir device stamp =
     [(''contacts'', \<lambda>m s. Some (exportContacts h adb outDir m s)),
      (''SMS'', \<lambda>m s. Some (exportSms h adb outDir stamp m s)),
      (''MMS'', \<lambda>m s. Some (exportMms h adb outDir stamp m s)),
      (''call log'', \<lambda>m s. Some (exportCallLog h adb outDir stamp m s)),
      (''calendar'', \<lambda>m s. exportCalendar h adb outDir m s),
      (''settings'', \<lambda>m s. Some (exportSettings h adb outDir stamp m s)),
      (''Wi-Fi'', \<lambda>m s. Some (exportWifi h adb outDir device m s))]"

fun run_steps ::
    "'w host \<Rightarrow> nat \<Rightarrow> nat \<Rightarrow> (string \<times> (Manifest \<Rightarrow> 'w sys \<Rightarrow> 'w export option)) list \<Rightarrow> Manifest \<Rightarrow> 'w sys \<Rightarrow>
     ((ExportResult list \<times> Manifest) \<times> 'w sys) option" where
  "run_steps h n i [] manifest s = Some (([], manifest), s)"
| "run_steps h n i ((name, step) # steps) manifest s =
     (let (stop, s1) = cancelRequested h s
      in if stop then Some (([], manifest), s1)
         else case step manifest (progress ''Exporting personal data'' i n name s1) of
           None \<Rightarrow> None
         | Some ((r, m1), s2) \<Rightarrow>
             (case run_steps h n (i + 1) steps m1 s2 of
                None \<Rightarrow> None
              | Some ((rs, m2), s3) \<Rightarrow> Some ((r # rs, m2), s3)))"

definition exportPersonalData ::
    "'w host \<Rightarrow> AdbClient \<Rightarrow> string \<Rightarrow> DeviceInfo \<Rightarrow> Manifest \<Rightarrow> 'w sys \<Rightarrow>
     ((ExportResult list \<times> Manifest) \<times> 'w sys) option" where
  "exportPersonalData h adb outDir device manifest s =
     (let dir = path_join outDir kExportDir; (ok, s1) = ensureDirectory h dir s
      in if \<not> ok then Some (([], manifest), log_warn h (''Could not create '' @ dir @ ''; personal data not exported.'') s1)
         else
           let (stamp, s2) = utcTimestamp h s1; steps = export_steps h adb outDir device stamp; n = length steps
           in case run_steps h n 0 steps manifest s2 of
                None \<Rightarrow> None
              | Some ((results, m1), s3) \<Rightarrow>
                  (let s4 = progress ''Exporting personal data'' n n [] s3
                   in Some ((results, m1), if fs_is_empty h dir s4 then fs_remove h dir s4 else s4)))"

section \<open>Restoring\<close>

record RestoreResult =
  rr_contactsPath :: string
  rr_calendarPath :: string
  rr_wifiRestored :: int
  rr_wifiSkipped :: int

definition default_restore_result :: RestoreResult where
  "default_restore_result = \<lparr>rr_contactsPath = [], rr_calendarPath = [], rr_wifiRestored = - 1, rr_wifiSkipped = 0\<rparr>"

definition findExport :: "Manifest \<Rightarrow> string \<Rightarrow> PersonalDataExport option" where
  "findExport manifest kind = find (\<lambda>item. px_kind item = kind) (mf_personalDataExports manifest)"

definition pushForImport ::
    "'w host \<Rightarrow> AdbClient \<Rightarrow> string \<Rightarrow> PersonalDataExport \<Rightarrow> string \<Rightarrow> 'w sys \<Rightarrow> string \<times> 'w sys" where
  "pushForImport h adb backupDir item remoteName s =
     (let local = path_join backupDir (px_localPath item); remote = ''/sdcard/Download/'' @ remoteName
      in if \<not> h_exists h local (world s) \<or> \<not> checksumMatches h local (px_sha256 item) s then
           ([], log_warn h (px_localPath item @ '' is missing or does not match its checksum; not copied to the device.'') s)
         else
           let (ok, s1) = push h adb local remote s
           in if \<not> ok then ([], log_warn h (''Could not copy '' @ px_localPath item @ '' to the device.'') s1)
              else (remote, s1))"

definition restore_file ::
    "'w host \<Rightarrow> AdbClient \<Rightarrow> string \<Rightarrow> Manifest \<Rightarrow> string \<Rightarrow> string \<Rightarrow> (int \<Rightarrow> string \<Rightarrow> string) \<Rightarrow> 'w sys \<Rightarrow> string \<times> 'w sys" where
  "restore_file h adb backupDir manifest kind remoteName message s =
     (case findExport manifest kind of
        None \<Rightarrow> ([], s)
      | Some item \<Rightarrow>
          if px_itemCount item \<le> 0 then ([], s)
          else let (path, s1) = pushForImport h adb backupDir item remoteName s
               in (path, if path \<noteq> [] then log_info h (message (px_itemCount item) path) s1 else s1))"

definition contacts_message :: "int \<Rightarrow> string \<Rightarrow> string" where
  "contacts_message n path =
     ''Copied '' @ int_to_string n @ '' contact(s) to '' @ path @
     ''. Import them in the Contacts app: Settings > Import > .vcf file.''"

definition calendar_message :: "int \<Rightarrow> string \<Rightarrow> string" where
  "calendar_message n path =
     ''Copied '' @ int_to_string n @ '' calendar event(s) to '' @ path @
     ''. Open it with your calendar app to import it (or import it into Google Calendar on the web).''"

definition network_of_json :: "json \<Rightarrow> WifiNetwork" where
  "network_of_json item =
     \<lparr>wn_ssid = get_string item ''ssid'', wn_security = get_string item ''security'',
      wn_password = get_string item ''password'', wn_hidden = get_bool item ''hidden''\<rparr>"

fun wifi_restore_loop :: "'w host \<Rightarrow> AdbClient \<Rightarrow> json list \<Rightarrow> int \<Rightarrow> int \<Rightarrow> 'w sys \<Rightarrow> (int \<times> int) \<times> 'w sys" where
  "wifi_restore_loop h adb [] restored skips s = ((restored, skips), s)"
| "wifi_restore_loop h adb (item # rest) restored skips s =
     (let command = wifiAddNetworkCommand (network_of_json item)
      in if command = [] then wifi_restore_loop h adb rest restored (skips + 1) s
         else let (r, s1) = shell h adb command s
              in if result_ok r then wifi_restore_loop h adb rest (restored + 1) skips s1
                 else wifi_restore_loop h adb rest restored (skips + 1) s1)"

definition wifi_summary :: "int \<Rightarrow> int \<Rightarrow> string" where
  "wifi_summary restored skips =
     ''Re-added '' @ int_to_string restored @ '' Wi-Fi network(s)'' @
     (if 0 < skips then ''; '' @ int_to_string skips @ '' could not be (enterprise, WEP or unknown password)'' else []) @ ''.''"

definition wifi_too_old :: "string \<Rightarrow> string" where
  "wifi_too_old path =
     ''Saved Wi-Fi networks can only be re-added on Android 11 or later; see '' @ path @ '' for the passwords.''"

definition wifi_mismatch :: "string \<Rightarrow> string" where
  "wifi_mismatch path = path @ '' is missing or does not match its checksum; Wi-Fi networks not restored.''"

definition read_networks :: "'w host \<Rightarrow> string \<Rightarrow> 'w sys \<Rightarrow> json list result" where
  "read_networks h path s =
     (case readTextFile h path s of
        Inl e \<Rightarrow> Inl e
      | Inr content \<Rightarrow> (case json_parse content of Inl e \<Rightarrow> Inl e | Inr doc \<Rightarrow> Inr (items (json_get doc ''networks''))))"

text \<open>The two counters; \<open>- 1\<close> restored is "not attempted".\<close>

definition restore_wifi ::
    "'w host \<Rightarrow> AdbClient \<Rightarrow> string \<Rightarrow> Manifest \<Rightarrow> int \<Rightarrow> 'w sys \<Rightarrow> (int \<times> int) \<times> 'w sys" where
  "restore_wifi h adb backupDir manifest sdkInt s =
     (case findExport manifest ''wifi'' of
        None \<Rightarrow> ((- 1, 0), s)
      | Some item \<Rightarrow>
          if px_itemCount item \<le> 0 then ((- 1, 0), s)
          else
            let local = path_join backupDir (px_localPath item)
            in if sdkInt < 30 then ((- 1, 0), log_warn h (wifi_too_old (px_localPath item)) s)
               else if \<not> checksumMatches h local (px_sha256 item) s then
                 ((- 1, 0), log_warn h (wifi_mismatch (px_localPath item)) s)
               else
                 let ((restored, skips), s1) =
                       (case read_networks h local s of
                          Inl e \<Rightarrow> ((0, 0), log_warn h (''Could not read '' @ px_localPath item @ '': '' @ e) s)
                        | Inr networks \<Rightarrow> wifi_restore_loop h adb networks 0 0 s)
                 in ((restored, skips), log_info h (wifi_summary restored skips) s1))"

fun report_archival :: "'w host \<Rightarrow> Manifest \<Rightarrow> string list \<Rightarrow> 'w sys \<Rightarrow> 'w sys" where
  "report_archival h manifest [] s = s"
| "report_archival h manifest (kind # kinds) s =
     report_archival h manifest kinds
       (case findExport manifest kind of
          None \<Rightarrow> s
        | Some item \<Rightarrow> log_info h (''The backup'' @ apostrophe @ ''s '' @ px_localPath item @
            '' is a readable archive; Android does not let abp write it back.'') s)"

definition restorePersonalData ::
    "'w host \<Rightarrow> AdbClient \<Rightarrow> string \<Rightarrow> Manifest \<Rightarrow> int \<Rightarrow> 'w sys \<Rightarrow> RestoreResult \<times> 'w sys" where
  "restorePersonalData h adb backupDir manifest sdkInt s =
     (let (contacts, s1) = restore_file h adb backupDir manifest ''contacts'' ''abp-contacts.vcf'' contacts_message s;
          (calendar, s2) = restore_file h adb backupDir manifest ''calendar'' ''abp-calendar.ics'' calendar_message s1;
          ((restored, skips), s3) = restore_wifi h adb backupDir manifest sdkInt s2
      in (\<lparr>rr_contactsPath = contacts, rr_calendarPath = calendar, rr_wifiRestored = restored, rr_wifiSkipped = skips\<rparr>,
          report_archival h manifest [''sms'', ''mms'', ''call_log'', ''settings''] s3))"

section \<open>Exporting only reads the device\<close>

text \<open>The words of the commands an export may send, and the calls that carry them.\<close>

definition read_tokens :: "string \<Rightarrow> sh_token list" where
  "read_tokens uri = [Word ''content'', Word ''read'', Word ''--uri'', Word uri]"

definition query_tokens :: "string \<Rightarrow> string list \<Rightarrow> string \<Rightarrow> sh_token list" where
  "query_tokens uri columns cond =
     [Word ''content'', Word ''query'', Word ''--uri'', Word uri, Word ''--projection'', Word (join columns '':'')] @
     (if cond \<noteq> [] then [Word ''--where'', Word cond] else [])"

definition provider_tokens :: "sh_token list \<Rightarrow> bool" where
  "provider_tokens toks \<longleftrightarrow>
     (\<exists>uri. toks = read_tokens uri) \<or> (\<exists>uri columns cond. toks = query_tokens uri columns cond) \<or>
     (\<exists>ns\<in>{''system'', ''secure'', ''global''}. toks = [Word ''settings'', Word ''list'', Word ns])"

fun export_call :: "AdbClient \<Rightarrow> string \<Rightarrow> RootMethod \<Rightarrow> proc_io \<Rightarrow> string list \<Rightarrow> bool" where
  "export_call adb outDir m (Capture i) args \<longleftrightarrow>
     (\<exists>cmd. args = baseArgs adb @ [''shell'', cmd] \<and>
        ((\<exists>toks. sh_words cmd = Some toks \<and> provider_tokens toks) \<or>
         (\<exists>source\<in>set wifi_sources. root_reads m cmd ([Word ''cat'', Word (fst source)] @ dev_null))))"
| "export_call adb outDir m (ToFile p) args \<longleftrightarrow>
     (\<exists>cmd uri name. args = baseArgs adb @ [''exec-out'', cmd] \<and> sh_words cmd = Some (read_tokens uri) \<and>
        p = path_join (parts_dir outDir) name \<and> name \<noteq> [] \<and> CHR ''/'' \<notin> set name)"
| "export_call adb outDir m (FromFile p) args \<longleftrightarrow> False"

lemma export_commands [simp]:
  "sh_words (read_cmd uri) = Some (read_tokens uri)"
  "sh_words (query_cmd uri columns cond) = Some (query_tokens uri columns cond)"
  "sh_words (cat_cmd path) = Some ([Word ''cat'', Word path] @ dev_null)"
  "sh_words (settings_cmd ''system'') = Some [Word ''settings'', Word ''list'', Word ''system'']"
  "sh_words (settings_cmd ''secure'') = Some [Word ''settings'', Word ''list'', Word ''secure'']"
  "sh_words (settings_cmd ''global'') = Some [Word ''settings'', Word ''list'', Word ''global'']"
proof -
  show "sh_words (read_cmd uri) = Some (read_tokens uri)"
    by (rule sh_words_walk, simp add: read_cmd_def sh_walk, simp add: read_tokens_def)
  show "sh_words (query_cmd uri columns cond) = Some (query_tokens uri columns cond)"
    by (cases "cond = []"; rule sh_words_walk, simp add: query_cmd_def sh_walk, simp add: query_tokens_def)
  show "sh_words (cat_cmd path) = Some ([Word ''cat'', Word path] @ dev_null)"
    by (rule sh_words_walk, simp add: cat_cmd_def sh_walk, simp add: dev_null_def)
  show "sh_words (settings_cmd ''system'') = Some [Word ''settings'', Word ''list'', Word ''system'']"
  "sh_words (settings_cmd ''secure'') = Some [Word ''settings'', Word ''list'', Word ''secure'']"
  "sh_words (settings_cmd ''global'') = Some [Word ''settings'', Word ''list'', Word ''global'']"
    by code_simp+
qed

lemma export_calls [simp]:
  "export_call adb outDir m (Capture i) (baseArgs adb @ [''shell'', read_cmd uri])"
  "export_call adb outDir m (Capture i) (baseArgs adb @ [''shell'', query_cmd uri columns cond])"
  "ns \<in> {''system'', ''secure'', ''global''} \<Longrightarrow>
   export_call adb outDir m (Capture i) (baseArgs adb @ [''shell'', settings_cmd ns])"
  by (auto simp: provider_tokens_def)

lemma export_cat [simp]:
  "source \<in> set wifi_sources \<Longrightarrow>
   export_call adb outDir m (Capture i) (baseArgs adb @ [''shell'', asRoot m (cat_cmd (fst source))])"
  using asRoot_reads [OF export_commands(3)] by auto

lemma extension_no_slash: "CHR ''/'' \<notin> set (extensionForContentType type)"
proof -
  have "list_all (\<lambda>(k, e). CHR ''/'' \<notin> set e) kKnown" by (simp add: kKnown_def)
  then show ?thesis
    by (auto simp: extensionForContentType_def list_all_iff dest!: map_of_SomeD split: option.splits)
qed

lemma part_file_segment: "part_file part \<noteq> []" "CHR ''/'' \<notin> set (part_file part)"
  using sanitize_not_Nil sanitize_no_slash extension_no_slash by (auto simp: part_file_def)

lemma export_part [simp]:
  "export_call adb outDir m (ToFile (path_join (parts_dir outDir) (part_file part)))
     (baseArgs adb @ [''exec-out'', read_cmd uri])"
  using part_file_segment by auto

declare export_call.simps [simp del]

text \<open>What each step adds to the trace.\<close>

lemma chain_tool [chain]:
  assumes "extends (execs_only P) s0 s"
  shows "P (Capture None) (baseArgs adb @ [''shell'', cmd]) \<Longrightarrow>
      extends (execs_only P) s0 (snd (runDeviceTool h adb cmd s))"
    "P (Capture None) (baseArgs adb @ [''shell'', query_cmd uri columns cond]) \<Longrightarrow>
      extends (execs_only P) s0 (snd (queryProvider h adb uri columns cond s))"
  using assms
  by (auto simp: runDeviceTool_def queryProvider_def split_beta Let_def intro!: chain split: sum.split prod.split
      dest: chain_client(2))

lemma chain_record [chain]:
  assumes "extends (execs_only P) s0 s"
  shows "extends (execs_only P) s0 (snd (recordExport h outDir f c k fmt n own m s))"
    "extends (execs_only P) s0 (snd (skip_export h k l reason m s))"
  using assms
  by (auto simp: recordExport_def skip_export_def skipped_def split_beta Let_def intro!: chain
      split: sum.split prod.split)

lemma chain_finish [chain]:
  assumes "extends (execs_only P) s0 s"
  shows "extends (execs_only P) s0 (snd (finish_export h outDir f c k l fmt n own m s))"
  using assms by (auto simp: finish_export_def split_beta Let_def intro!: chain)

abbreviation export_runs :: "AdbClient \<Rightarrow> string \<Rightarrow> RootMethod \<Rightarrow> 'w sys \<Rightarrow> 'w sys \<Rightarrow> bool" where
  "export_runs adb outDir m \<equiv> extends (execs_only (export_call adb outDir m))"

lemma chain_vcard_loop [chain]:
  "export_runs adb outDir m s0 s \<Longrightarrow> export_runs adb outDir m s0 (snd (vcard_loop h adb contacts vcards s))"
proof (induction "length contacts" arbitrary: contacts vcards s rule: less_induct)
  case less
  let ?cmd = "read_cmd (vcard_uri (lookup_keys (take kContactsPerVcardRead contacts)))"
  obtain r s1 where t: "runDeviceTool h adb ?cmd s = (r, s1)" by (cases "runDeviceTool h adb ?cmd s")
  have s1: "export_runs adb outDir m s0 s1" using chain_tool(1) [OF less.prems export_calls(1)] t by (metis snd_conv)
  have IH: "export_runs adb outDir m s0 (snd (vcard_loop h adb (drop kContactsPerVcardRead contacts) v t))"
    if "contacts \<noteq> []" "export_runs adb outDir m s0 t" for v t
    by (rule less.hyps [OF _ that(2)]) (use that in \<open>simp add: kContactsPerVcardRead_def\<close>)
  show ?case
    using less.prems s1 by (subst vcard_loop.simps) (auto simp: Let_def t intro!: IH split: sum.split)
qed

lemma chain_contacts [chain]:
  "export_runs adb outDir m s0 s \<Longrightarrow> export_runs adb outDir m s0 (snd (exportContacts h adb outDir mf s))"
  by (auto simp: exportContacts_def split_beta Let_def intro!: chain split: sum.split prod.split)
    
lemma chain_sms_calls [chain]:
  assumes "export_runs adb outDir m s0 s"
  shows "export_runs adb outDir m s0 (snd (exportSms h adb outDir stamp mf s))"
    "export_runs adb outDir m s0 (snd (exportCallLog h adb outDir stamp mf s))"
  using assms
  by (auto simp: exportSms_def exportCallLog_def split_beta Let_def intro!: chain split: sum.split prod.split)

lemma chain_mms_queries [chain]:
  assumes "export_runs adb outDir m s0 s"
  shows "export_runs adb outDir m s0 (snd (query_parts h adb rows s))"
    "export_runs adb outDir m s0 (snd (query_participants h adb rows s))"
  using assms
  by (auto simp: query_parts_def query_participants_def split_beta Let_def intro!: chain split: sum.split prod.split)

lemma chain_add_part [chain]:
  "export_runs adb outDir m s0 s \<Longrightarrow> export_runs adb outDir m s0 (snd (add_part h adb outDir part st s))"
  by (auto simp: add_part_def fetch_attachment_def split_beta Let_def intro!: chain)

lemma chain_parts_loop [chain]:
  "export_runs adb outDir m s0 s \<Longrightarrow> export_runs adb outDir m s0 (snd (parts_loop h adb outDir parts st s))"
proof (induction parts arbitrary: st s)
  case (Cons part parts)
  show ?case using Cons.prems by (simp add: split_beta Let_def Cons.IH chain)
qed simp

lemma chain_mms [chain]:
  "export_runs adb outDir m s0 s \<Longrightarrow> export_runs adb outDir m s0 (snd (exportMms h adb outDir stamp mf s))"
  by (auto simp: exportMms_def split_beta Let_def intro!: chain split: sum.split prod.split)

lemma chain_calendar:
  "export_runs adb outDir m s0 s \<Longrightarrow> exportCalendar h adb outDir mf s = Some r \<Longrightarrow> export_runs adb outDir m s0 (snd r)"
  by (auto simp: exportCalendar_def split_beta Let_def intro!: chain split: sum.splits prod.splits option.splits)

lemma chain_settings [chain]:
  assumes "export_runs adb outDir m s0 s"
  shows "export_runs adb outDir m s0 (snd (exportSettings h adb outDir stamp mf s))"
proof -
  have "export_runs adb outDir m s0 (snd (settings_loop h adb nss st s))"
    if "set nss \<subseteq> {''system'', ''secure'', ''global''}" "export_runs adb outDir m s0 s" for nss st s
    using that
  proof (induction nss arbitrary: st s)
    case (Cons ns nss)
    obtain doc n w where st: "st = (doc, n, w)" by (cases st)
    have ns: "set nss \<subseteq> {''system'', ''secure'', ''global''}" "ns \<in> {''system'', ''secure'', ''global''}"
      using Cons.prems(1) by simp_all
    obtain r s1 where t: "runDeviceTool h adb (settings_cmd ns) s = (r, s1)"
      by (cases "runDeviceTool h adb (settings_cmd ns) s")
    have "export_runs adb outDir m s0 s1"
      using chain_tool(1) [OF Cons.prems(2) export_calls(3) [OF ns(2)]] t by (metis snd_conv)
    then show ?case using Cons.IH [OF ns(1)] by (auto simp: st t Let_def split: sum.split)
  qed simp
  note loop = this
  show ?thesis
    unfolding exportSettings_def Let_def split_beta
    by (auto simp del: settings_loop.simps intro!: chain loop assms)
qed

lemma chain_raw_store [chain]:
  "extends (execs_only P) s0 s \<Longrightarrow> extends (execs_only P) s0 (write_raw_store h outDir raw content s)"
  by (auto simp: write_raw_store_def Let_def intro!: chain split: sum.split prod.split dest!: arg_cong [of _ _ snd])

lemma chain_wifi [chain]:
  assumes "export_runs adb outDir (dev_root device) s0 s"
  shows "export_runs adb outDir (dev_root device) s0 (snd (exportWifi h adb outDir device mf s))"
proof -
  let ?m = "dev_root device"
  have store: "export_runs adb outDir ?m s0 (snd (export_store h outDir source content mf s))"
    if "export_runs adb outDir ?m s0 s" for source content s
    using that by (auto simp: export_store_def split_beta Let_def intro!: chain)
  have "export_runs adb outDir ?m s0 (snd (wifi_loop h adb outDir ?m sources mf s))"
    if "set sources \<subseteq> set wifi_sources" "export_runs adb outDir ?m s0 s" for sources s
    using that
  proof (induction sources arbitrary: s)
    case (Cons source sources)
    have "source \<in> set wifi_sources" "set sources \<subseteq> set wifi_sources" using Cons.prems by auto
    then show ?case using Cons.prems(2) by (simp add: split_beta Let_def Cons.IH store chain)
  qed (simp add: chain)
  then show ?thesis using assms by (simp add: exportWifi_def)
qed

text \<open>The steps, and the loop over them: \<open>D\<close> is why a step may not return.\<close>

lemma run_steps_runs:
  assumes "\<And>name step mf s. (name, step) \<in> set steps \<Longrightarrow>
      (case step mf s of None \<Rightarrow> D | Some r \<Rightarrow> extends (execs_only P) s (snd r))"
  shows "case run_steps h n i steps mf s of None \<Rightarrow> D | Some r \<Rightarrow> extends (execs_only P) s (snd r)"
  using assms
proof (induction steps arbitrary: i mf s)
  case Nil
  then show ?case by simp
next
  case (Cons st steps)
  obtain name step where st: "st = (name, step)" by (cases st)
  obtain stop s1 where c: "cancelRequested h s = (stop, s1)" by (cases "cancelRequested h s")
  let ?s2 = "progress ''Exporting personal data'' i n name s1"
  have s1: "extends (execs_only P) s s1" using extends_cancelRequested [of "execs_only P" s h] c by simp
  then have s2: "extends (execs_only P) s ?s2" by (rule chain)
  have step: "case step mf ?s2 of None \<Rightarrow> D | Some r \<Rightarrow> extends (execs_only P) ?s2 (snd r)"
    by (rule Cons.prems [of name]) (simp add: st)
  show ?case
  proof (cases "stop \<or> step mf ?s2 = None")
    case True
    then show ?thesis using s1 step by (auto simp: st c)
  next
    case False
    then obtain r m1 s3 where r: "step mf ?s2 = Some ((r, m1), s3)" by auto
    then have s3: "extends (execs_only P) s s3" using step s2 extends_trans by fastforce
    have "case run_steps h n (i + 1) steps m1 s3 of None \<Rightarrow> D | Some r \<Rightarrow> extends (execs_only P) s3 (snd r)"
      by (rule Cons.IH) (use Cons.prems in auto)
    then show ?thesis using False r s3 extends_trans [OF s3] by (auto simp: st c split: option.splits)
  qed
qed

lemma exportPersonalData_runs:
  "case exportPersonalData h adb outDir device manifest s of
     None \<Rightarrow> \<exists>now events names. buildIcs now events names = None
   | Some (_, s') \<Rightarrow> extends (execs_only (export_call adb outDir (dev_root device))) s s'"
proof -
  let ?D = "\<exists>now events names. buildIcs now events names = None"
  let ?P = "execs_only (export_call adb outDir (dev_root device))"
  have steps: "case step mf t of None \<Rightarrow> ?D | Some r \<Rightarrow> extends ?P t (snd r)"
    if "(name, step) \<in> set (export_steps h adb outDir device stamp)" for stamp name step mf t
  proof -
    have cal: "case exportCalendar h adb outDir mf t of None \<Rightarrow> ?D | Some r \<Rightarrow> extends ?P t (snd r)"
    proof (cases "exportCalendar h adb outDir mf t")
      case None
      then have ?D by (auto simp: exportCalendar_def Let_def split_beta split: sum.splits prod.splits option.splits)
      then show ?thesis using None by simp
    qed (auto intro: chain_calendar)
    show ?thesis using that cal by (auto simp: export_steps_def intro!: chain)
  qed
  obtain ok s1 where e: "ensureDirectory h (path_join outDir kExportDir) s = (ok, s1)"
    by (cases "ensureDirectory h (path_join outDir kExportDir) s")
  have "extends ?P s (snd (ensureDirectory h (path_join outDir kExportDir) s))" by (rule chain) simp
  then have s1: "extends ?P s s1" by (simp add: e)
  obtain stamp s2 where u: "utcTimestamp h s1 = (stamp, s2)" by (cases "utcTimestamp h s1")
  have "extends ?P s (snd (utcTimestamp h s1))" using s1 by (rule chain)
  then have s2: "extends ?P s s2" by (simp add: u)
  let ?steps = "export_steps h adb outDir device stamp"
  have "case run_steps h (length ?steps) 0 ?steps manifest s2 of None \<Rightarrow> ?D | Some r \<Rightarrow> extends ?P s2 (snd r)"
    by (rule run_steps_runs) (rule steps)
  then have run: "case run_steps h (length ?steps) 0 ?steps manifest s2 of None \<Rightarrow> ?D | Some r \<Rightarrow> extends ?P s (snd r)"
    using extends_trans [OF s2] by (auto split: option.splits)
  show ?thesis
  proof (cases "ok \<and> run_steps h (length ?steps) 0 ?steps manifest s2 \<noteq> None")
    case True
    then obtain rs m1 s3 where r: "run_steps h (length ?steps) 0 ?steps manifest s2 = Some ((rs, m1), s3)" by auto
    then have "extends ?P s s3" using run by simp
    then show ?thesis using True by (auto simp: exportPersonalData_def e u r Let_def intro!: chain)
  next
    case False
    then consider "\<not> ok" | "ok" "run_steps h (length ?steps) 0 ?steps manifest s2 = None" by blast
    then show ?thesis
      by cases (use s1 run in \<open>auto simp: exportPersonalData_def e u Let_def intro!: chain\<close>)
  qed
qed

text \<open>Exporting personal data only reads the device, whatever the device answers: every process goes
  to the given device and its command is read by the shell as \<open>content query\<close>, \<open>content read\<close>,
  \<open>settings list\<close> or, as root, \<open>cat\<close> of one of the three Wi-Fi stores, and the only files a process
  writes are single names in \<open>personal/mms_parts\<close>.  The export fails to return only where building the
  calendar does.\<close>

theorem exportPersonalData_reads_only:
  "case exportPersonalData h adb outDir device manifest s of
     None \<Rightarrow> \<exists>now events names. buildIcs now events names = None
   | Some (_, s') \<Rightarrow> extends (execs_only (export_call adb outDir (dev_root device))) s s'"
  by (rule exportPersonalData_runs)

section \<open>The manifest records what was exported\<close>

text \<open>One export adds its own record with its own count, or nothing, with a reason.\<close>

definition accounts :: "string \<Rightarrow> Manifest \<Rightarrow> 'w export \<Rightarrow> bool" where
  "accounts kind mf e \<longleftrightarrow>
     er_kind (fst (fst e)) = kind \<and>
     (if er_reason (fst (fst e)) = [] then
        \<exists>x. snd (fst e) = mf\<lparr>mf_personalDataExports := mf_personalDataExports mf @ [x]\<rparr> \<and>
            px_kind x = kind \<and> px_itemCount x = er_count (fst (fst e))
      else snd (fst e) = mf \<and> er_count (fst (fst e)) = - 1)"

lemma accounts_skip: "reason \<noteq> [] \<Longrightarrow> accounts kind mf (skip_export h kind label reason mf s)"
  by (simp add: accounts_def skip_export_def skipped_def Let_def)

lemma recordExport_no: "\<not> fst (fst (recordExport h outDir f c kind fmt n own mf s)) \<Longrightarrow>
    snd (fst (recordExport h outDir f c kind fmt n own mf s)) = mf"
  by (simp add: recordExport_def Let_def split_beta split: sum.splits)

lemma recordExport_yes:
  assumes "fst (fst (recordExport h outDir f c kind fmt n own mf s))"
  shows "\<exists>x. snd (fst (recordExport h outDir f c kind fmt n own mf s)) =
      mf\<lparr>mf_personalDataExports := mf_personalDataExports mf @ [x]\<rparr> \<and> px_kind x = kind \<and> px_itemCount x = n"
proof -
  have "\<exists>x. mf\<lparr>mf_personalDataExports := mf_personalDataExports mf @ [y]\<rparr> =
      mf\<lparr>mf_personalDataExports := mf_personalDataExports mf @ [x]\<rparr> \<and> px_kind x = px_kind y \<and>
      px_itemCount x = px_itemCount y" for y
    by blast
  note this [of "\<lparr>px_kind = kind, px_format = fmt, px_localPath = a, px_itemCount = n, px_bytes = b, px_sha256 = d\<rparr>" for a b d]
  then show ?thesis
    using assms by (simp add: recordExport_def Let_def split_beta split: sum.splits del: ex_simps)
qed

text \<open>The ending of every export, whatever is logged after it.\<close>

lemma accounts_recorded:
  fixes h :: "'w host"
  assumes "e = recordExport h outDir f c kind fmt n own mf s"
  shows "\<not> fst (fst e) \<Longrightarrow>
      accounts kind mf (skip_export h kind label ''could not write the export file'' (snd (fst e)) (snd e))"
    "fst (fst e) \<Longrightarrow> accounts kind mf ((exported kind label n, snd (fst e)), s' :: 'w sys)"
proof -
  show "accounts kind mf (skip_export h kind label ''could not write the export file'' (snd (fst e)) (snd e))"
    if "\<not> fst (fst e)"
    using recordExport_no [OF that [unfolded assms]] by (simp add: assms accounts_skip)
  show "accounts kind mf ((exported kind label n, snd (fst e)), s' :: 'w sys)" if "fst (fst e)"
    using recordExport_yes [OF that [unfolded assms]] by (simp add: assms accounts_def exported_def)
qed

lemma accounts_finish: "accounts kind mf (finish_export h outDir f c kind label fmt n own mf s)"
  by (simp add: finish_export_def split_beta Let_def accounts_recorded)

lemma contains_sub_not_Nil: "contains_sub (c # cs) s \<Longrightarrow> s \<noteq> []"
  by (auto simp: contains_sub_iff)

lemma tool_reason_not_Nil: "problem \<noteq> [] \<Longrightarrow> tool_reason problem \<noteq> []"
  by (auto simp: tool_reason_def find_Some_iff dest!: contains_sub_not_Nil split: option.split)

lemma queryProvider_why: "fst (queryProvider h adb uri columns cond s) = Inl why \<Longrightarrow> why \<noteq> []"
  by (auto simp: queryProvider_def runDeviceTool_def Let_def split_beta tool_reason_not_Nil split: sum.splits if_splits)

lemma accounts_why:
  "fst (queryProvider h adb uri columns cond s) = Inl why \<Longrightarrow> accounts kind mf (skip_export h' kind label why mf s')"
  by (rule accounts_skip) (rule queryProvider_why)

lemmas account_simps = accounts_why accounts_finish accounts_recorded [OF refl] Let_def split_beta

lemma accounts_contacts: "accounts ''contacts'' mf (exportContacts h adb outDir mf s)"
  unfolding exportContacts_def by (auto simp: account_simps split: sum.split)

lemma accounts_sms_calls:
  "accounts ''sms'' mf (exportSms h adb outDir stamp mf s)"
  "accounts ''call_log'' mf (exportCallLog h adb outDir stamp mf s)"
  unfolding exportSms_def exportCallLog_def by (auto simp: account_simps split: sum.split)

lemma accounts_mms: "accounts ''mms'' mf (exportMms h adb outDir stamp mf s)"
  unfolding exportMms_def by (auto simp: account_simps split: sum.split)

lemma accounts_calendar: "exportCalendar h adb outDir mf s = Some e \<Longrightarrow> accounts ''calendar'' mf e"
  unfolding exportCalendar_def by (auto simp: account_simps split: sum.splits option.splits)

lemma accounts_settings: "accounts ''settings'' mf (exportSettings h adb outDir stamp mf s)"
  by (simp add: exportSettings_def account_simps accounts_skip del: settings_loop.simps)

lemma accounts_wifi: "accounts ''wifi'' mf (exportWifi h adb outDir device mf s)"
proof -
  have store: "accounts ''wifi'' mf (export_store h outDir source content mf t)" for source content t
    unfolding export_store_def by (cases source) (auto simp: account_simps)
  have "accounts ''wifi'' mf (wifi_loop h adb outDir m sources mf s)" for m sources s
    by (induction sources arbitrary: s) (auto simp: split_beta Let_def store intro: accounts_skip)
  then show ?thesis by (simp add: exportWifi_def accounts_def)
qed

definition step_kinds :: "string list" where
  "step_kinds = [''contacts'', ''sms'', ''mms'', ''call_log'', ''calendar'', ''settings'', ''wifi'']"

text \<open>The records a list of results stands for, in order and with their counts.\<close>

definition recorded :: "ExportResult list \<Rightarrow> Manifest \<Rightarrow> Manifest \<Rightarrow> bool" where
  "recorded results mf mf' \<longleftrightarrow>
     (\<exists>new. mf' = mf\<lparr>mf_personalDataExports := mf_personalDataExports mf @ new\<rparr> \<and>
        map (\<lambda>x. (px_kind x, px_itemCount x)) new =
        map (\<lambda>r. (er_kind r, er_count r)) (filter (\<lambda>r. er_reason r = []) results))"

lemma recorded_Nil [simp]: "recorded [] mf mf"
  unfolding recorded_def by (rule exI [of _ "[]"]) simp

lemma recorded_Cons:
  assumes "accounts kind mf ((r, m1), s1)" "recorded rs m1 m2"
  shows "recorded (r # rs) mf m2"
proof -
  obtain new where new: "m2 = m1\<lparr>mf_personalDataExports := mf_personalDataExports m1 @ new\<rparr>"
    "map (\<lambda>x. (px_kind x, px_itemCount x)) new = map (\<lambda>r. (er_kind r, er_count r)) (filter (\<lambda>r. er_reason r = []) rs)"
    using assms(2) by (auto simp: recorded_def)
  show ?thesis
  proof (cases "er_reason r = []")
    case True
    then obtain x where x: "m1 = mf\<lparr>mf_personalDataExports := mf_personalDataExports mf @ [x]\<rparr>"
      "px_kind x = er_kind r" "px_itemCount x = er_count r" using assms(1) by (auto simp: accounts_def)
    have "m2 = mf\<lparr>mf_personalDataExports := mf_personalDataExports mf @ x # new\<rparr>" by (simp add: new(1) x(1))
    moreover have "map (\<lambda>x. (px_kind x, px_itemCount x)) (x # new) =
        map (\<lambda>r. (er_kind r, er_count r)) (filter (\<lambda>r. er_reason r = []) (r # rs))"
      using True new(2) x(2,3) by simp
    ultimately show ?thesis unfolding recorded_def by blast
  next
    case False
    then have "m1 = mf" using assms(1) by (simp add: accounts_def)
    with assms(2) False show ?thesis by (simp add: recorded_def)
  qed
qed

lemma run_steps_recorded:
  assumes "run_steps h n i steps mf s = Some ((rs, m'), s')"
    and "list_all2 (\<lambda>st kind. \<forall>mf s e. snd st mf s = Some e \<longrightarrow> accounts kind mf e) steps kinds"
  shows "recorded rs mf m' \<and> prefix (map er_kind rs) kinds"
  using assms
proof (induction steps arbitrary: i mf s rs m' s' kinds)
  case Nil
  then show ?case by simp
next
  case (Cons st steps)
  obtain name step where st: "st = (name, step)" by (cases st)
  from Cons.prems(2) obtain kind ks where k: "kinds = kind # ks"
    "\<And>mf s e. step mf s = Some e \<Longrightarrow> accounts kind mf e"
    "list_all2 (\<lambda>st kind. \<forall>mf s e. snd st mf s = Some e \<longrightarrow> accounts kind mf e) steps ks"
    by (auto simp: list_all2_Cons1 st)
  obtain stop s1 where c: "cancelRequested h s = (stop, s1)" by (cases "cancelRequested h s")
  show ?case
  proof (cases stop)
    case True
    then show ?thesis using Cons.prems(1) by (auto simp: st c)
  next
    case False
    then obtain r m1 s2 rs' s3 where r: "step mf (progress ''Exporting personal data'' i n name s1) = Some ((r, m1), s2)"
      "run_steps h n (i + 1) steps m1 s2 = Some ((rs', m'), s3)" "rs = r # rs'"
      using Cons.prems(1) by (auto simp: st c split: option.splits)
    have "recorded rs' m1 m' \<and> prefix (map er_kind rs') ks" by (rule Cons.IH [OF r(2) k(3)])
    moreover have "accounts kind mf ((r, m1), s2)" using k(2) r(1) by blast
    moreover from this have "er_kind r = kind" by (simp add: accounts_def)
    ultimately show ?thesis using recorded_Cons by (auto simp: r(3) k(1))
  qed
qed

lemma exportPersonalData_records:
  "case exportPersonalData h adb outDir device manifest s of
     None \<Rightarrow> True
   | Some ((results, manifest'), _) \<Rightarrow>
       recorded results manifest manifest' \<and> prefix (map er_kind results) step_kinds"
proof (cases "exportPersonalData h adb outDir device manifest s")
  case (Some e)
  have steps: "list_all2 (\<lambda>st kind. \<forall>mf s e. snd st mf s = Some e \<longrightarrow> accounts kind mf e)
      (export_steps h adb outDir device stamp) step_kinds" for stamp
    by (simp add: export_steps_def step_kinds_def accounts_contacts accounts_sms_calls accounts_mms
        accounts_calendar accounts_settings accounts_wifi del: split_paired_All)
  obtain ok s1 where e1: "ensureDirectory h (path_join outDir kExportDir) s = (ok, s1)"
    by (cases "ensureDirectory h (path_join outDir kExportDir) s")
  obtain stamp s2 where u: "utcTimestamp h s1 = (stamp, s2)" by (cases "utcTimestamp h s1")
  let ?steps = "export_steps h adb outDir device stamp"
  show ?thesis
  proof (cases ok)
    case True
    then obtain rs m1 s3 where r: "run_steps h (length ?steps) 0 ?steps manifest s2 = Some ((rs, m1), s3)"
      "fst e = (rs, m1)"
      using Some by (auto simp: exportPersonalData_def e1 u Let_def simp del: run_steps.simps split: option.splits)
    obtain s' where "e = ((rs, m1), s')" using r(2) by (cases e) simp
    then show ?thesis using run_steps_recorded [OF r(1) steps] Some by (simp only: option.case prod.case)
  next
    case False
    then show ?thesis using Some by (auto simp: exportPersonalData_def e1)
  qed
qed simp

text \<open>The manifest records exactly what was exported: the results are of the seven kinds in order
  (fewer when the run is cancelled), each kind that was written has one record with the count its result
  reports, each that was not has a reason and no record, and nothing else of the manifest changes.\<close>

theorem exportPersonalData_accounts:
  "case exportPersonalData h adb outDir device manifest s of
     None \<Rightarrow> True
   | Some ((results, manifest'), _) \<Rightarrow>
       recorded results manifest manifest' \<and> prefix (map er_kind results) step_kinds"
  by (rule exportPersonalData_records)

section \<open>Restoring writes only verified files\<close>

text \<open>
  The calls a restore may make: an export of the manifest that verifies on the files of \<open>s0\<close> is
  pushed to one of two names in Download, or a network of the verified Wi-Fi export is re-added.
\<close>

definition pushed_export :: "'w host \<Rightarrow> AdbClient \<Rightarrow> string \<Rightarrow> Manifest \<Rightarrow> 'w sys \<Rightarrow> string list \<Rightarrow> bool" where
  "pushed_export h adb backupDir manifest s0 args \<longleftrightarrow>
     (\<exists>item name. item \<in> set (mf_personalDataExports manifest) \<and>
        args = baseArgs adb @ [''push'', path_join backupDir (px_localPath item), ''/sdcard/Download/'' @ name] \<and>
        (px_kind item, name) \<in> {(''contacts'', ''abp-contacts.vcf''), (''calendar'', ''abp-calendar.ics'')} \<and>
        checksumMatches h (path_join backupDir (px_localPath item)) (px_sha256 item) s0)"

definition readded_network ::
    "'w host \<Rightarrow> AdbClient \<Rightarrow> string \<Rightarrow> Manifest \<Rightarrow> int \<Rightarrow> 'w sys \<Rightarrow> string list \<Rightarrow> bool" where
  "readded_network h adb backupDir manifest sdkInt s0 args \<longleftrightarrow>
     (\<exists>item networks j cmd. findExport manifest ''wifi'' = Some item \<and> 30 \<le> sdkInt \<and>
        checksumMatches h (path_join backupDir (px_localPath item)) (px_sha256 item) s0 \<and>
        read_networks h (path_join backupDir (px_localPath item)) s0 = Inr networks \<and> j \<in> set networks \<and>
        args = baseArgs adb @ [''shell'', cmd] \<and> sh_words cmd = Some (wifi_tokens (network_of_json j)))"

definition personal_call ::
    "'w host \<Rightarrow> AdbClient \<Rightarrow> string \<Rightarrow> Manifest \<Rightarrow> int \<Rightarrow> 'w sys \<Rightarrow> proc_io \<Rightarrow> string list \<Rightarrow> bool" where
  "personal_call h adb backupDir manifest sdkInt s0 io args \<longleftrightarrow>
     io = Capture None \<and>
     (pushed_export h adb backupDir manifest s0 args \<or> readded_network h adb backupDir manifest sdkInt s0 args)"

lemma findExport_SomeD:
  "findExport manifest kind = Some item \<Longrightarrow> item \<in> set (mf_personalDataExports manifest) \<and> px_kind item = kind"
  by (auto simp: findExport_def find_Some_iff in_set_conv_nth)

lemma read_networks_same: "same_files h s0 s \<Longrightarrow> read_networks h p s = read_networks h p s0"
  by (simp add: read_networks_def readTextFile_def same_files_def)

lemma keep_restore_file [keep]:
  "files_kept h \<Longrightarrow> same_files h s0 s \<Longrightarrow> same_files h s0 (snd (restore_file h adb dir mf kind name msg s))"
  by (auto simp: restore_file_def pushForImport_def split_beta Let_def intro!: keep split: option.splits)

lemma chain_restore_file:
  assumes "files_kept h" "same_files h s0 s" "extends (execs_only (personal_call h adb dir mf sdk s0)) s0 s"
    and "(kind, name) \<in> {(''contacts'', ''abp-contacts.vcf''), (''calendar'', ''abp-calendar.ics'')}"
  shows "extends (execs_only (personal_call h adb dir mf sdk s0)) s0 (snd (restore_file h adb dir mf kind name msg s))"
proof (cases "findExport mf kind")
  case None
  then show ?thesis using assms(3) by (simp add: restore_file_def)
next
  case (Some item)
  let ?local = "path_join dir (px_localPath item)"
  note item = findExport_SomeD [OF Some]
  have "personal_call h adb dir mf sdk s0 (Capture None) (baseArgs adb @ [''push'', ?local, ''/sdcard/Download/'' @ name])"
    if "checksumMatches h ?local (px_sha256 item) s"
    using that item assms(4) checksumMatches_same_files [OF assms(2)]
    by (simp only: personal_call_def pushed_export_def) blast
  then show ?thesis
    using assms(3) by (auto simp: restore_file_def pushForImport_def Some split_beta Let_def intro!: chain)
qed

lemma chain_restore_wifi:
  assumes "files_kept h" "same_files h s0 s" "extends (execs_only (personal_call h adb dir mf sdk s0)) s0 s"
  shows "extends (execs_only (personal_call h adb dir mf sdk s0)) s0 (snd (restore_wifi h adb dir mf sdk s))"
proof (cases "findExport mf ''wifi''")
  case None
  then show ?thesis using assms(3) by (simp add: restore_wifi_def)
next
  case (Some item)
  let ?local = "path_join dir (px_localPath item)" and ?P = "execs_only (personal_call h adb dir mf sdk s0)"
  have loop: "extends ?P s0 (snd (wifi_restore_loop h adb js a b t))"
    if "extends ?P s0 t" "set js \<subseteq> set networks" "read_networks h ?local s0 = Inr networks" "30 \<le> sdk"
      "checksumMatches h ?local (px_sha256 item) s0" for js networks a b t
    using that(1,2)
  proof (induction js arbitrary: a b t)
    case (Cons j js)
    let ?cmd = "wifiAddNetworkCommand (network_of_json j)"
    have "personal_call h adb dir mf sdk s0 (Capture None) (baseArgs adb @ [''shell'', ?cmd])" if "?cmd \<noteq> []"
      using that wifiAddNetworkCommand_safe Cons.prems(2) \<open>30 \<le> sdk\<close> Some
        \<open>read_networks h ?local s0 = Inr networks\<close> \<open>checksumMatches h ?local (px_sha256 item) s0\<close>
      by (auto simp: personal_call_def readded_network_def)
    then show ?case
      using Cons.prems by (auto simp: Let_def split_beta intro!: Cons.IH chain_client(2))
  qed simp
  have "checksumMatches h ?local (px_sha256 item) s = checksumMatches h ?local (px_sha256 item) s0"
    by (rule checksumMatches_same_files) (rule assms(2))
  then show ?thesis
    using assms(3) read_networks_same [OF assms(2)]
    by (auto simp: restore_wifi_def Some Let_def split_beta not_less intro!: chain loop split: sum.split)
qed

lemma keep_wifi_loop: "files_kept h \<Longrightarrow> same_files h s0 s \<Longrightarrow> same_files h s0 (snd (wifi_restore_loop h adb js a b s))"
proof (induction js arbitrary: a b s)
  case (Cons j js)
  show ?case using Cons.prems by (auto simp: Let_def split_beta intro!: Cons.IH keep)
qed simp

lemma chain_archival [chain]:
  "extends (execs_only P) s0 s \<Longrightarrow> extends (execs_only P) s0 (report_archival h mf kinds s)"
  by (induction kinds arbitrary: s) (auto intro!: chain split: option.splits)

lemma restorePersonalData_runs:
  assumes "files_kept h"
  shows "extends (execs_only (personal_call h adb backupDir manifest sdkInt s)) s
    (snd (restorePersonalData h adb backupDir manifest sdkInt s))"
proof -
  let ?f = "\<lambda>kind name msg t. snd (restore_file h adb backupDir manifest kind name msg t)"
  let ?s1 = "?f ''contacts'' ''abp-contacts.vcf'' contacts_message s"
  let ?s2 = "?f ''calendar'' ''abp-calendar.ics'' calendar_message ?s1"
  note restored = chain_restore_file [OF assms]
  have k1: "same_files h s ?s1" using assms by (auto intro: keep)
  then have k2: "same_files h s ?s2" using assms by (auto intro: keep)
  have "extends (execs_only (personal_call h adb backupDir manifest sdkInt s)) s ?s1" by (rule restored) auto
  then have "extends (execs_only (personal_call h adb backupDir manifest sdkInt s)) s ?s2" by (rule restored [OF k1]) auto
  then have "extends (execs_only (personal_call h adb backupDir manifest sdkInt s)) s
      (snd (restore_wifi h adb backupDir manifest sdkInt ?s2))"
    by (rule chain_restore_wifi [OF assms k2])
  then show ?thesis by (simp add: restorePersonalData_def Let_def split_beta chain_archival del: report_archival.simps)
qed

text \<open>C9: restoring personal data writes to the device only what verifies: every process either pushes an
  export of the manifest whose file matches its recorded checksum to \<open>abp-contacts.vcf\<close> or
  \<open>abp-calendar.ics\<close> in Download, or re-adds one network of the verified Wi-Fi export on Android 11 or
  later, with its SSID and password read by the shell as single words.\<close>

theorem restorePersonalData_verified:
  assumes "files_kept h"
  shows "extends (execs_only (personal_call h adb backupDir manifest sdkInt s)) s
    (snd (restorePersonalData h adb backupDir manifest sdkInt s))"
  using assms by (rule restorePersonalData_runs)

text \<open>A host on which one contacts export verifies, none having a recorded checksum.\<close>

definition export_host :: "unit host" where
  "export_host = quiet_host\<lparr>h_exists := (\<lambda>p w. True), h_read := (\<lambda>p w. Some (''BEGIN:VCARD'', True))\<rparr>"

definition export_manifest :: Manifest where
  "export_manifest =
     default_manifest\<lparr>mf_personalDataExports :=
       [\<lparr>px_kind = ''contacts'', px_format = ''vcard'', px_localPath = ''personal/contacts.vcf'', px_itemCount = 1,
         px_bytes = 11, px_sha256 = []\<rparr>]\<rparr>"

lemma restorePersonalData_verified_witness:
  "extends (execs_only (personal_call export_host (client ''A'') ''b'' export_manifest 33 quiet_sys)) quiet_sys
     (snd (restorePersonalData export_host (client ''A'') ''b'' export_manifest 33 quiet_sys)) \<and>
   trace (snd (restorePersonalData export_host (client ''A'') ''b'' export_manifest 33 quiet_sys)) \<noteq> []"
proof
  show "extends (execs_only (personal_call export_host (client ''A'') ''b'' export_manifest 33 quiet_sys)) quiet_sys
     (snd (restorePersonalData export_host (client ''A'') ''b'' export_manifest 33 quiet_sys))"
    by (rule restorePersonalData_verified) (simp add: files_kept_def export_host_def quiet_host_def)
  show "trace (snd (restorePersonalData export_host (client ''A'') ''b'' export_manifest 33 quiet_sys)) \<noteq> []"
    by code_simp
qed

end
