(* ===== verification/BackupManager.thy ===== *)
theory BackupManager
  imports Captures PersonalData
begin

text \<open>
  \<open>include/abp/BackupManager.h\<close> and the two entry points of \<open>src/src/backup/BackupManager.cpp\<close>,
  \<open>runBackup\<close> and \<open>runRestore\<close>, cut into the stages their code has.  The path of the adb program
  is a static of \<open>AdbClient\<close> and the version string comes from the build: both are arguments.  A
  backup whose calendar export never returns is \<^term>\<open>None\<close>.
\<close>

section \<open>Summaries\<close>

record BackupSummary =
  bs_success :: bool
  bs_cancelled :: bool
  bs_mode :: string
  bs_packageCount :: int
  bs_packagesWithData :: int
  bs_packagesWithErrors :: int
  bs_packagesCapturedByRootTar :: int
  bs_packagesCapturedByRunAs :: int
  bs_packagesCapturedByLegacyBackup :: int
  bs_sharedStorageIncluded :: bool
  bs_filesystemCaptureCount :: int
  bs_filesystemPartialCount :: int
  bs_removableStorageCount :: int
  bs_personalExports :: "ExportResult list"
  bs_packagesWithoutData :: int
  bs_warnings :: "string list"
  bs_totalBytes :: nat
  bs_outputDir :: string
  bs_messages :: "string list"

definition default_backup_summary :: BackupSummary where
  "default_backup_summary =
     \<lparr>bs_success = False, bs_cancelled = False, bs_mode = [], bs_packageCount = 0, bs_packagesWithData = 0,
      bs_packagesWithErrors = 0, bs_packagesCapturedByRootTar = 0, bs_packagesCapturedByRunAs = 0,
      bs_packagesCapturedByLegacyBackup = 0, bs_sharedStorageIncluded = False, bs_filesystemCaptureCount = 0,
      bs_filesystemPartialCount = 0, bs_removableStorageCount = 0, bs_personalExports = [],
      bs_packagesWithoutData = 0, bs_warnings = [], bs_totalBytes = 0, bs_outputDir = [], bs_messages = []\<rparr>"

record RestoreSummary =
  rs_success :: bool
  rs_cancelled :: bool
  rs_packagesRestored :: int
  rs_packagesFailed :: int
  rs_packagesSkipped :: int
  rs_sharedStorageRestored :: bool
  rs_filesystemCapturesPresent :: int
  rs_personal :: RestoreResult
  rs_messages :: "string list"

definition default_restore_summary :: RestoreSummary where
  "default_restore_summary =
     \<lparr>rs_success = False, rs_cancelled = False, rs_packagesRestored = 0, rs_packagesFailed = 0,
      rs_packagesSkipped = 0, rs_sharedStorageRestored = False, rs_filesystemCapturesPresent = 0,
      rs_personal = default_restore_result, rs_messages = []\<rparr>"

definition backup_message :: "string \<Rightarrow> BackupSummary \<Rightarrow> BackupSummary" where
  "backup_message m summary = summary\<lparr>bs_messages := bs_messages summary @ [m]\<rparr>"

definition restore_message :: "string \<Rightarrow> RestoreSummary \<Rightarrow> RestoreSummary" where
  "restore_message m summary = summary\<lparr>rs_messages := rs_messages summary @ [m]\<rparr>"

text \<open>\<open>condition && !Process::cancelRequested()\<close>: the flag is only read when the condition holds.\<close>

definition go_on :: "'w host \<Rightarrow> bool \<Rightarrow> 'w sys \<Rightarrow> bool \<times> 'w sys" where
  "go_on h cond s = (if cond then (let (stop, s1) = cancelRequested h s in (\<not> stop, s1)) else (False, s))"

section \<open>What a backup cannot be relied on for\<close>

definition hardwareBoundApps :: "string list" where
  "hardwareBoundApps =
     [''com.google.android.apps.authenticator2'', ''com.azure.authenticator'', ''com.authy.authy'', ''com.twofasapp'',
      ''com.beemdevelopment.aegis'', ''org.fedorahosted.freeotp'', ''org.liberty.android.freeotpplus'',
      ''org.shadowice.flocke.andotp'', ''me.jmh.authenticatorpro'', ''com.duosecurity.duomobile'',
      ''com.lastpass.authenticator'', ''com.okta.android.auth'', ''com.yubico.yubioath'',
      ''com.bitwarden.authenticator'', ''org.thoughtcrime.securesms'', ''com.google.android.apps.walletnfcrel'']"

definition sealed_apps :: "PackageBackupEntry list \<Rightarrow> string list" where
  "sealed_apps es = filter (\<lambda>n. n \<in> set hardwareBoundApps) (map pe_name es)"

definition legacy_count :: "PackageBackupEntry list \<Rightarrow> int" where
  "legacy_count es = int (length (filter (\<lambda>e. pe_dataCaptureMethod e = LegacyAdbBackup) es))"

definition without_data_count :: "PackageBackupEntry list \<Rightarrow> int" where
  "without_data_count es =
     int (length (filter (\<lambda>e. pe_dataCaptureMethod e \<noteq> LegacyAdbBackup \<and> \<not> pe_dataIncluded e \<and> \<not> pe_isSystemApp e) es))"

definition sealed_warning :: "string list \<Rightarrow> string" where
  "sealed_warning sealed =
     ''These apps keep secrets sealed by this phone'' @ apostrophe @ ''s hardware, so their data will not work on another '' @
     ''phone or after a factory reset: '' @ join sealed '', '' @
     ''. Use each app'' @ apostrophe @ ''s own export or transfer feature (for 2FA apps: export or move your codes) before '' @
     ''wiping this phone.''"

definition without_data_warning :: "int \<Rightarrow> string" where
  "without_data_warning n =
     ''Private data (logins, settings, in-app content) could not be captured for '' @ int_to_string n @
     '' app(s): without root, Android only lets abp read apps built as debuggable. Their APKs are saved; '' @
     ''their data needs each app'' @ apostrophe @ ''s own backup, or a rooted device.''"

definition legacy_warning :: "int \<Rightarrow> string" where
  "legacy_warning n =
     int_to_string n @ '' app(s) went through legacy '' @ apostrophe @ ''adb backup'' @ apostrophe @
     '', which on Android 12 and later contains data only for the few apps that opt in. Expect most of them to come back empty.''"

definition coverage_warnings :: "BackupOptions \<Rightarrow> DeviceInfo \<Rightarrow> Manifest \<Rightarrow> string list" where
  "coverage_warnings options device manifest =
     (let es = mf_packages manifest
      in (if sealed_apps es \<noteq> [] then [sealed_warning (sealed_apps es)] else []) @
         (if bo_includeAppData options \<and> mf_mode manifest = ''standard'' then
            (if 0 < without_data_count es then [without_data_warning (without_data_count es)] else []) @
            (if 0 < legacy_count es \<and> 31 \<le> dev_sdkInt device then [legacy_warning (legacy_count es)] else [])
          else []))"

definition reportCoverage ::
    "'w host \<Rightarrow> BackupOptions \<Rightarrow> DeviceInfo \<Rightarrow> Manifest \<Rightarrow> BackupSummary \<Rightarrow> 'w sys \<Rightarrow> BackupSummary \<times> 'w sys" where
  "reportCoverage h options device manifest summary s =
     (let es = mf_packages manifest;
          summary1 = summary\<lparr>bs_warnings := bs_warnings summary @ coverage_warnings options device manifest\<rparr>;
          summary2 = (if bo_includeAppData options \<and> mf_mode manifest = ''standard'' then
            summary1\<lparr>bs_packagesWithoutData :=
              without_data_count es + (if 31 \<le> dev_sdkInt device then legacy_count es else 0)\<rparr> else summary1)
      in (summary2, foldl (\<lambda>t w. log_warn h w t) s (bs_warnings summary2)))"

section \<open>Stages of a backup\<close>

definition new_entry :: "PackageInfo \<Rightarrow> PackageBackupEntry" where
  "new_entry pkg = default_entry\<lparr>pe_name := pi_name pkg, pe_isSystemApp := pi_isSystemApp pkg\<rparr>"

definition new_manifest :: "string \<Rightarrow> string \<Rightarrow> string \<Rightarrow> DeviceInfo \<Rightarrow> Manifest" where
  "new_manifest ver stamp mode device =
     default_manifest\<lparr>mf_formatVersion := 4, mf_abpVersion := ver, mf_createdAtUtc := stamp, mf_mode := mode,
       mf_device := device\<rparr>"

definition backup_apks ::
    "'w host \<Rightarrow> AdbClient \<Rightarrow> BackupOptions \<Rightarrow> PackageInfo list \<Rightarrow> Manifest \<Rightarrow> 'w sys \<Rightarrow> Manifest \<times> 'w sys" where
  "backup_apks h adb options packages manifest s =
     (let (go, s1) = go_on h (bo_includeApks options \<and> packages \<noteq> []) s
      in if go then extractApks h adb (bo_outputDir options) packages manifest (log_info h ''Extracting APKs...'' s1)
         else (manifest, s1))"

definition backup_data ::
    "'w host \<Rightarrow> 'w backend \<Rightarrow> AdbClient \<Rightarrow> BackupOptions \<Rightarrow> PackageInfo list \<Rightarrow> Manifest \<Rightarrow> 'w sys \<Rightarrow>
     Manifest \<times> 'w sys" where
  "backup_data h backend adb options packages manifest s =
     (let (go, s1) = go_on h (bo_includeAppData options \<and> packages \<noteq> []) s
      in if go then
           be_backupAppData backend adb (bo_outputDir options) packages manifest (log_info h ''Backing up app data...'' s1)
         else (manifest, s1))"

definition backup_shared ::
    "'w host \<Rightarrow> 'w backend \<Rightarrow> AdbClient \<Rightarrow> BackupOptions \<Rightarrow> Manifest \<Rightarrow> 'w sys \<Rightarrow> (bool \<times> Manifest) \<times> 'w sys" where
  "backup_shared h backend adb options manifest s =
     (let (go, s1) = go_on h (bo_includeSharedStorage options) s
      in if go then
           let ((ok, m1), s2) = be_backupSharedStorage backend adb (bo_outputDir options) manifest
                 (log_info h ''Backing up shared storage...'' s1)
           in ((ok, m1),
               if ok then s2
               else log_warn h ''Shared storage (/sdcard) could not be captured; the backup does not include it.'' s2)
         else ((False, manifest), s1))"

definition backup_personal ::
    "'w host \<Rightarrow> AdbClient \<Rightarrow> BackupOptions \<Rightarrow> DeviceInfo \<Rightarrow> Manifest \<Rightarrow> 'w sys \<Rightarrow>
     ((ExportResult list \<times> Manifest) \<times> 'w sys) option" where
  "backup_personal h adb options device manifest s =
     (let (go, s1) = go_on h (bo_exportPersonalData options) s
      in if go then
           exportPersonalData h adb (bo_outputDir options) device manifest
             (log_info h ''Exporting contacts, messages, call log, calendar and settings...'' s1)
         else Some (([], manifest), s1))"

text \<open>The volumes found; each is logged.\<close>

definition log_volumes :: "'w host \<Rightarrow> string list \<Rightarrow> 'w sys \<Rightarrow> 'w sys" where
  "log_volumes h roots s =
     foldl (\<lambda>t root. log_info h (''Found removable storage at '' @ root @ ''; it will be copied too.'') t) s roots"

definition find_volumes ::
    "'w host \<Rightarrow> AdbClient \<Rightarrow> BackupOptions \<Rightarrow> 'w sys \<Rightarrow> string list \<times> 'w sys" where
  "find_volumes h adb options s =
     (let (go, s1) = go_on h (bo_includeSharedStorage options) s
      in if go then (let (roots, s2) = removableStorageRoots h adb s1 in (roots, log_volumes h roots s2))
         else ([], s1))"

definition warn_paths :: "'w host \<Rightarrow> BackupOptions \<Rightarrow> DeviceInfo \<Rightarrow> 'w sys \<Rightarrow> 'w sys" where
  "warn_paths h options device s =
     (if bo_filesystemPaths options = [] then s
      else if dev_root device = SuBinary then
        log_warn h (''This device is rooted through a '' @ apostrophe @ ''su'' @ apostrophe @ '' binary, but '' @ apostrophe @
          ''adb pull'' @ apostrophe @ '' transfers as the adb user, which '' @ apostrophe @ ''su'' @ apostrophe @
          '' cannot elevate. Paths like /data will be captured only in part. Run '' @ apostrophe @ ''adb root'' @
          apostrophe @ '' first for a complete capture.'') s
      else if \<not> isRooted device then
        log_warn h (''Without root, '' @ apostrophe @ ''adb pull'' @ apostrophe @
          '' can read /sdcard and the read-only system partitions but almost nothing under /data. '' @
          ''Incomplete trees are marked in manifest.json.'') s
      else s)"

text \<open>\<^term>\<open>False\<close> is a stage that was not reached, so the summary keeps its zeros.\<close>

definition backup_paths ::
    "'w host \<Rightarrow> AdbClient \<Rightarrow> BackupOptions \<Rightarrow> DeviceInfo \<Rightarrow> string list \<Rightarrow> bool \<Rightarrow> Manifest \<Rightarrow> 'w sys \<Rightarrow>
     (bool \<times> Manifest) \<times> 'w sys" where
  "backup_paths h adb options device capturePaths shared manifest s =
     (let (go, s1) = go_on h (capturePaths \<noteq> []) s
      in if go then
           let s2 = log_info h ''Pulling device filesystem paths...'' (warn_paths h options device s1);
               (m1, s3) = captureFilesystem h adb (bo_outputDir options) capturePaths shared manifest s2
           in ((True, m1), s3)
         else ((False, manifest), s1))"

definition count_captures :: "Manifest \<Rightarrow> BackupSummary \<Rightarrow> BackupSummary" where
  "count_captures manifest summary =
     summary\<lparr>bs_filesystemCaptureCount := int_size (mf_filesystemCaptures manifest),
       bs_filesystemPartialCount := int (length (filter (\<lambda>c. \<not> fc_complete c) (mf_filesystemCaptures manifest)))\<rparr>"

text \<open>Everything between the packages and the manifest.\<close>

definition capture_all ::
    "'w host \<Rightarrow> 'w backend \<Rightarrow> AdbClient \<Rightarrow> BackupOptions \<Rightarrow> DeviceInfo \<Rightarrow> PackageInfo list \<Rightarrow> BackupSummary \<Rightarrow>
     Manifest \<Rightarrow> 'w sys \<Rightarrow> ((BackupSummary \<times> Manifest) \<times> 'w sys) option" where
  "capture_all h backend adb options device packages summary manifest s =
     (let (m1, s1) = backup_apks h adb options packages manifest s;
          (m2, s2) = backup_data h backend adb options packages m1 s1;
          ((shared, m3), s3) = backup_shared h backend adb options m2 s2
      in case backup_personal h adb options device m3 s3 of
           None \<Rightarrow> None
         | Some ((personal, m4), s4) \<Rightarrow>
             (let (roots, s5) = find_volumes h adb options s4;
                  ((reached, m5), s6) = backup_paths h adb options device (bo_filesystemPaths options @ roots) shared m4 s5;
                  summary1 = summary\<lparr>bs_sharedStorageIncluded := shared, bs_personalExports := personal,
                    bs_removableStorageCount := int (length roots)\<rparr>
              in Some ((if reached then count_captures m5 summary1 else summary1, m5), s6)))"

definition mark_cancelled :: "Manifest \<Rightarrow> Manifest" where
  "mark_cancelled manifest =
     manifest\<lparr>mf_packages := map (\<lambda>e.
       if \<not> pe_apkIncluded e \<and> \<not> pe_dataIncluded e \<and> pe_error e = [] then e\<lparr>pe_error := not_captured\<rparr> else e)
       (mf_packages manifest)\<rparr>"

definition count_where :: "('a \<Rightarrow> bool) \<Rightarrow> 'a list \<Rightarrow> int" where
  "count_where P xs = int (length (filter P xs))"

definition count_packages :: "Manifest \<Rightarrow> BackupSummary \<Rightarrow> BackupSummary" where
  "count_packages manifest summary =
     (let es = mf_packages manifest
      in summary\<lparr>bs_mode := mf_mode manifest, bs_packageCount := int_size es,
           bs_packagesWithData := count_where pe_dataIncluded es,
           bs_packagesWithErrors := count_where (\<lambda>e. pe_error e \<noteq> []) es,
           bs_packagesCapturedByRootTar := count_where (\<lambda>e. pe_dataCaptureMethod e = RootTar) es,
           bs_packagesCapturedByRunAs := count_where (\<lambda>e. pe_dataCaptureMethod e = RunAsTar) es,
           bs_packagesCapturedByLegacyBackup := count_where (\<lambda>e. pe_dataCaptureMethod e = LegacyAdbBackup) es\<rparr>)"

definition write_failed :: "string \<Rightarrow> string" where
  "write_failed what =
     ''Backup data was captured, but writing manifest.json failed: '' @ what @
     ''. Without it the backup cannot be restored.''"

definition backup_cancelled :: "string \<Rightarrow> string" where
  "backup_cancelled outDir =
     ''Backup cancelled. What was captured before that is in '' @ apostrophe @ outDir @ apostrophe @
     '' and listed in its manifest.json.''"

text \<open>From the cancel marks to the end; the manifest is the one that was to be written.\<close>

definition finish_backup ::
    "'w host \<Rightarrow> BackupOptions \<Rightarrow> DeviceInfo \<Rightarrow> BackupSummary \<Rightarrow> Manifest \<Rightarrow> 'w sys \<Rightarrow>
     (BackupSummary \<times> Manifest) \<times> 'w sys" where
  "finish_backup h options device summary manifest s =
     (let (stop1, s1) = cancelRequested h s;
          m1 = (if stop1 then mark_cancelled manifest else manifest);
          outDir = bo_outputDir options
      in case writeToFile h m1 (path_join outDir ''manifest.json'') s1 of
           (Inl what, s2) \<Rightarrow> ((backup_message (write_failed what) summary, m1), s2)
         | (Inr _, s2) \<Rightarrow>
             (let summary1 = count_packages m1 summary; (stop2, s3) = cancelRequested h s2
              in if stop2 then
                   ((backup_message (backup_cancelled outDir)
                       (summary1\<lparr>bs_cancelled := True, bs_totalBytes := directorySize h outDir s3\<rparr>), m1), s3)
                 else
                   let (summary2, s4) = reportCoverage h options device m1 summary1 s3
                   in ((summary2\<lparr>bs_totalBytes := directorySize h outDir s4, bs_success := True\<rparr>, m1), s4)))"

definition nothing_to_back_up :: "BackupOptions \<Rightarrow> bool" where
  "nothing_to_back_up options \<longleftrightarrow>
     bo_onlyPackages options \<noteq> [] \<or>
     \<not> (bo_includeSharedStorage options \<or> bo_exportPersonalData options \<or> bo_filesystemPaths options \<noteq> [])"

definition no_match_message :: string where
  "no_match_message =
     ''No packages matched the current selection, so there is nothing to back up. '' @
     ''Check --only/--exclude, or pass --system to include system apps.''"

definition no_match_warning :: string where
  "no_match_warning =
     ''No packages matched the current selection; backing up only shared storage, contacts and '' @
     ''messages, and device paths.''"

text \<open>The packages to back up; \<^term>\<open>None\<close> when there is nothing to back up.\<close>

definition choose_packages ::
    "'w host \<Rightarrow> AdbClient \<Rightarrow> BackupOptions \<Rightarrow> 'w sys \<Rightarrow> PackageInfo list option \<times> 'w sys" where
  "choose_packages h adb options s =
     (let (all, s1) = listPackages h adb (bo_includeSystemApps options) (log_info h ''Enumerating installed packages...'' s);
          (packages, s2) = filterPackages h all options s1;
          s3 = log_info h (''Found '' @ nat_to_string (length packages) @ '' package(s) to back up.'') s2
      in if packages = [] \<and> nothing_to_back_up options then (None, s3)
         else
           let s4 = (if packages = [] then log_warn h no_match_warning s3 else s3);
               (resolved, s5) = (if bo_includeApks options then resolveApkPaths h adb packages s4 else (packages, s4))
           in (Some resolved, s5))"

definition overwrite_warning :: "string \<Rightarrow> string" where
  "overwrite_warning outDir =
     apostrophe @ outDir @ apostrophe @
     '' already contains a backup; its manifest and any same-named archives will be overwritten.''"

text \<open>Everything after the backend is chosen.\<close>

definition backup_session ::
    "'w host \<Rightarrow> 'w backend \<Rightarrow> AdbClient \<Rightarrow> string \<Rightarrow> BackupOptions \<Rightarrow> DeviceInfo \<Rightarrow> BackupSummary \<Rightarrow> 'w sys \<Rightarrow>
     ((BackupSummary \<times> Manifest option) \<times> 'w sys) option" where
  "backup_session h backend adb ver options device summary s =
     (let outDir = bo_outputDir options; (ok, s1) = ensureDirectory h outDir s
      in if \<not> ok then Some ((backup_message (''Could not create output directory: '' @ outDir) summary, None), s1)
         else
           let s2 = (if h_exists h (path_join outDir ''manifest.json'') (world s1)
                     then log_warn h (overwrite_warning outDir) s1 else s1);
               (stamp, s3) = utcTimestamp h s2;
               manifest = new_manifest ver stamp (be_name backend) device;
               (chosen, s4) = choose_packages h adb options s3
           in case chosen of
                None \<Rightarrow> Some ((backup_message no_match_message summary, None), s4)
              | Some packages \<Rightarrow>
                  (case capture_all h backend adb options device packages summary
                          (manifest\<lparr>mf_packages := map new_entry packages\<rparr>) s4 of
                     None \<Rightarrow> None
                   | Some ((summary1, m1), s5) \<Rightarrow>
                       (let ((summary2, m2), s6) = finish_backup h options device summary1 m1 s5
                        in Some ((summary2, Some m2), s6))))"

definition device_line :: "DeviceInfo \<Rightarrow> string" where
  "device_line device =
     ''Device: '' @ dev_manufacturer device @ '' '' @ dev_model device @ '' (Android '' @ dev_androidRelease device @
     '', SDK '' @ int_to_string (dev_sdkInt device) @ '')''"

definition no_root_message :: string where
  "no_root_message =
     ''Root mode was requested, but no root access was detected on this device '' @
     ''(no rooted adbd and no working '' @ apostrophe @ ''su'' @ apostrophe @ ''). See docs/ROOT_BACKUP.md.''"

definition backend_line :: "BackupOptions \<Rightarrow> DeviceInfo \<Rightarrow> 'w backend \<Rightarrow> string" where
  "backend_line options device backend =
     ''Using backend: '' @ be_name backend @
     (if bo_mode options = ModeAuto \<and> \<not> isRooted device
      then '' (root not available, falling back to standard mode)'' else [])"

text \<open>With the pinned client.\<close>

definition backup_device ::
    "'w host \<Rightarrow> AdbClient \<Rightarrow> string \<Rightarrow> BackupOptions \<Rightarrow> BackupSummary \<Rightarrow> 'w sys \<Rightarrow>
     ((BackupSummary \<times> Manifest option) \<times> 'w sys) option" where
  "backup_device h adb ver options summary s =
     (let (device, s1) = queryDeviceInfo h adb (log_info h ''Querying device...'' s);
          s2 = log_info h (device_line device) s1
      in if bo_mode options = ModeRoot \<and> \<not> isRooted device then
           Some ((backup_message no_root_message summary, None), s2)
         else
           let backend = chooseBackupBackend h (bo_mode options) device
           in backup_session h backend adb ver options device summary
                (log_info h (backend_line options device backend) s2))"

text \<open>The summary, and the manifest of a run that came to write it.\<close>

definition runBackup_full ::
    "'w host \<Rightarrow> string \<Rightarrow> string \<Rightarrow> BackupOptions \<Rightarrow> 'w sys \<Rightarrow> ((BackupSummary \<times> Manifest option) \<times> 'w sys) option" where
  "runBackup_full h adbPath ver options s =
     (let summary = default_backup_summary\<lparr>bs_outputDir := bo_outputDir options\<rparr>;
          adb = \<lparr>ac_path = adbPath, ac_serial = bo_serial options\<rparr>;
          (problem, s1) = connectionProblem h adb s
      in if problem \<noteq> [] then Some ((backup_message problem summary, None), s1)
         else let (adb1, s2) = pinned h adb s1 in backup_device h adb1 ver options summary s2)"

definition runBackup :: "'w host \<Rightarrow> string \<Rightarrow> string \<Rightarrow> BackupOptions \<Rightarrow> 'w sys \<Rightarrow> (BackupSummary \<times> 'w sys) option" where
  "runBackup h adbPath ver options s =
     (case runBackup_full h adbPath ver options s of
        None \<Rightarrow> None
      | Some ((summary, _), s') \<Rightarrow> Some (summary, s'))"

section \<open>Stages of a restore\<close>

definition no_manifest_message :: "string \<Rightarrow> string" where
  "no_manifest_message dir = ''No manifest.json found in '' @ dir @ '' -- is this an abp backup directory?''"

definition too_new_message :: "string \<Rightarrow> int \<Rightarrow> string" where
  "too_new_message ver version =
     ''This backup uses manifest format version '' @ int_to_string version @ '', but abp '' @ ver @
     '' only understands up to version '' @ int_to_string 4 @
     ''. Upgrade abp rather than risk misreading a newer backup.''"

definition no_version_message :: string where
  "no_version_message = ''manifest.json has no usable format_version; it does not look like an abp backup.''"

text \<open>The manifest, or why the directory is not a backup this abp can restore.\<close>

definition load_backup :: "'w host \<Rightarrow> string \<Rightarrow> string \<Rightarrow> 'w sys \<Rightarrow> Manifest result" where
  "load_backup h ver dir s =
     (let path = path_join dir ''manifest.json''
      in if \<not> h_is_regular h path (world s) then Inl (no_manifest_message dir)
         else case readFromFile h path s of
           Inl what \<Rightarrow> Inl (''Failed to parse manifest.json: '' @ what)
         | Inr manifest \<Rightarrow>
             if 4 < mf_formatVersion manifest then Inl (too_new_message ver (mf_formatVersion manifest))
             else if mf_formatVersion manifest < 1 then Inl no_version_message
             else Inr manifest)"

definition selected_names :: "RestoreOptions \<Rightarrow> Manifest \<Rightarrow> string list" where
  "selected_names options manifest =
     filter (package_selected (ro_onlyPackages options) (ro_excludePackages options)) (map pe_name (mf_packages manifest))"

text \<open>The errors of the backup run are cleared on the selected entries.\<close>

definition clear_selected :: "RestoreOptions \<Rightarrow> Manifest \<Rightarrow> Manifest" where
  "clear_selected options manifest =
     manifest\<lparr>mf_packages := map (\<lambda>e.
       if package_selected (ro_onlyPackages options) (ro_excludePackages options) (pe_name e) then e\<lparr>pe_error := []\<rparr> else e)
       (mf_packages manifest)\<rparr>"

definition not_in_backup :: "string \<Rightarrow> string" where
  "not_in_backup requested =
     ''Requested package '' @ apostrophe @ requested @ apostrophe @
     '' is not present in this backup (or was excluded); skipping it.''"

definition restore_apks ::
    "'w host \<Rightarrow> AdbClient \<Rightarrow> RestoreOptions \<Rightarrow> string list \<Rightarrow> Manifest \<Rightarrow> 'w sys \<Rightarrow> Manifest \<times> 'w sys" where
  "restore_apks h adb options names manifest s =
     (if ro_includeApks options then Captures.installApks h adb (ro_inputDir options) manifest names s else (manifest, s))"

definition restore_data ::
    "'w host \<Rightarrow> 'w backend \<Rightarrow> AdbClient \<Rightarrow> RestoreOptions \<Rightarrow> bool \<Rightarrow> string list \<Rightarrow> Manifest \<Rightarrow> 'w sys \<Rightarrow>
     Manifest \<times> 'w sys" where
  "restore_data h backend adb options unable names manifest s =
     (let (go, s1) = go_on h (ro_includeAppData options \<and> \<not> unable) s
      in if go then be_restoreAppData backend adb (ro_inputDir options) manifest names s1 else (manifest, s1))"

definition restore_shared ::
    "'w host \<Rightarrow> 'w backend \<Rightarrow> AdbClient \<Rightarrow> RestoreOptions \<Rightarrow> bool \<Rightarrow> Manifest \<Rightarrow> 'w sys \<Rightarrow> bool \<times> 'w sys" where
  "restore_shared h backend adb options unable manifest s =
     (let (go, s1) = go_on h (ro_includeSharedStorage options \<and> \<not> unable) s
      in if go then be_restoreSharedStorage backend adb (ro_inputDir options) manifest s1 else (False, s1))"

definition restore_personal ::
    "'w host \<Rightarrow> AdbClient \<Rightarrow> RestoreOptions \<Rightarrow> DeviceInfo \<Rightarrow> Manifest \<Rightarrow> 'w sys \<Rightarrow> RestoreResult \<times> 'w sys" where
  "restore_personal h adb options device manifest s =
     (let (go, s1) = go_on h (ro_includePersonalData options \<and> mf_personalDataExports manifest \<noteq> []) s
      in if go then restorePersonalData h adb (ro_inputDir options) manifest (dev_sdkInt device) s1
         else (default_restore_result, s1))"

definition archival_captures :: "string \<Rightarrow> nat \<Rightarrow> string" where
  "archival_captures dir n =
     ''This backup also contains '' @ nat_to_string n @ '' raw device path capture(s) under '' @ apostrophe @
     path_join dir ''filesystem'' @ apostrophe @ ''. abp does not push these back: restoring whole partitions over a running system '' @
     ''is not safe to automate. Copy what you need from them by hand.''"

definition card_hint :: "string \<Rightarrow> FilesystemCapture \<Rightarrow> string" where
  "card_hint dir capture =
     ''SD card contents from '' @ fc_devicePath capture @ '' are in '' @ apostrophe @ path_join dir (fc_localPath capture) @
     apostrophe @ ''. To put them back, insert a card and run: adb push '' @ apostrophe @
     path_join dir (fc_localPath capture) @ ''/.'' @ apostrophe @ '' /storage/<card-id>/''"

definition on_card :: "FilesystemCapture \<Rightarrow> bool" where
  "on_card capture \<longleftrightarrow>
     startsWith (fc_devicePath capture) ''/storage/'' \<and> \<not> startsWith (fc_devicePath capture) ''/storage/emulated''"

definition report_captures :: "'w host \<Rightarrow> string \<Rightarrow> Manifest \<Rightarrow> 'w sys \<Rightarrow> 'w sys" where
  "report_captures h dir manifest s =
     (let captures = mf_filesystemCaptures manifest
      in if captures = [] then s
         else foldl (\<lambda>t c. log_info h (card_hint dir c) t) (log_warn h (archival_captures dir (length captures)) s)
                (filter on_card captures))"

text \<open>The three counts of the summary.\<close>

definition was_restored :: "RestoreOptions \<Rightarrow> bool \<Rightarrow> PackageBackupEntry \<Rightarrow> bool" where
  "was_restored options unable e \<longleftrightarrow>
     (ro_includeApks options \<and> pe_apkIncluded e \<and> pe_apkFiles e \<noteq> []) \<or>
     (ro_includeAppData options \<and> \<not> unable \<and> pe_dataIncluded e)"

definition count_restored :: "RestoreOptions \<Rightarrow> bool \<Rightarrow> string list \<Rightarrow> Manifest \<Rightarrow> RestoreSummary \<Rightarrow> RestoreSummary" where
  "count_restored options unable names manifest summary =
     (let es = filter (\<lambda>e. pe_name e \<in> set names) (mf_packages manifest)
      in summary\<lparr>rs_packagesFailed := count_where (\<lambda>e. pe_error e \<noteq> []) es,
           rs_packagesRestored := count_where (\<lambda>e. pe_error e = [] \<and> was_restored options unable e) es,
           rs_packagesSkipped := count_where (\<lambda>e. pe_error e = [] \<and> \<not> was_restored options unable e) es\<rparr>)"

definition nothing_restored :: "int \<Rightarrow> string" where
  "nothing_restored n =
     int_to_string n @ '' selected package(s) had nothing to restore in this backup (no APK and no captured data).''"

definition finish_restore ::
    "'w host \<Rightarrow> RestoreSummary \<Rightarrow> 'w sys \<Rightarrow> RestoreSummary \<times> 'w sys" where
  "finish_restore h summary s =
     (let s1 = (if 0 < rs_packagesSkipped summary then log_warn h (nothing_restored (rs_packagesSkipped summary)) s else s);
          (stop, s2) = cancelRequested h s1
      in if stop then
           (restore_message ''Restore cancelled; the device may hold a partial restore.'' (summary\<lparr>rs_cancelled := True\<rparr>), s2)
         else (summary\<lparr>rs_success := True\<rparr>, s2))"

text \<open>From the selection on.  \<open>unable\<close> is \<open>needsRoot && !device.isRooted()\<close>.\<close>

definition restore_selected ::
    "'w host \<Rightarrow> 'w backend \<Rightarrow> AdbClient \<Rightarrow> RestoreOptions \<Rightarrow> DeviceInfo \<Rightarrow> bool \<Rightarrow> string list \<Rightarrow> Manifest \<Rightarrow> 'w sys \<Rightarrow>
     RestoreSummary \<times> 'w sys" where
  "restore_selected h backend adb options device unable names manifest s =
     (let (m1, s1) = restore_apks h adb options names manifest s;
          (m2, s2) = restore_data h backend adb options unable names m1 s1;
          (shared, s3) = restore_shared h backend adb options unable m2 s2;
          (personal, s4) = restore_personal h adb options device m2 s3;
          s5 = report_captures h (ro_inputDir options) m2 s4;
          summary = default_restore_summary\<lparr>rs_sharedStorageRestored := shared, rs_personal := personal,
            rs_filesystemCapturesPresent := int_size (mf_filesystemCaptures m2)\<rparr>
      in finish_restore h (count_restored options unable names m2 summary) s5)"

definition loaded_line :: "Manifest \<Rightarrow> string" where
  "loaded_line manifest =
     ''Loaded backup: '' @ nat_to_string (length (mf_packages manifest)) @ '' package(s), mode='' @ mf_mode manifest @
     '', captured '' @ mf_createdAtUtc manifest"

definition no_root_warning :: string where
  "no_root_warning =
     ''This backup was captured with root access, but the connected device does not appear to be '' @
     ''rooted. App data and shared storage cannot be restored -- only APKs will be reinstalled.''"

definition no_selection_message :: string where
  "no_selection_message =
     ''No packages in this backup matched the current selection. Check --only/--exclude.''"

definition restore_device ::
    "'w host \<Rightarrow> AdbClient \<Rightarrow> RestoreOptions \<Rightarrow> Manifest \<Rightarrow> 'w sys \<Rightarrow> RestoreSummary \<times> 'w sys" where
  "restore_device h adb options manifest s =
     (let (device, s1) = queryDeviceInfo h adb (log_info h (loaded_line manifest) s);
          needsRoot = (mf_mode manifest = ''root''); unable = (needsRoot \<and> \<not> isRooted device);
          s2 = (if unable then log_warn h no_root_warning s1 else s1);
          backend = (if needsRoot then root_backend h (dev_root device) else standard_backend h);
          names = selected_names options manifest;
          s3 = warn_unmatched h not_in_backup (ro_onlyPackages options) names s2
      in if names = [] then (restore_message no_selection_message default_restore_summary, s3)
         else restore_selected h backend adb options device unable names (clear_selected options manifest) s3)"

definition runRestore :: "'w host \<Rightarrow> string \<Rightarrow> string \<Rightarrow> RestoreOptions \<Rightarrow> 'w sys \<Rightarrow> RestoreSummary \<times> 'w sys" where
  "runRestore h adbPath ver options s =
     (let adb = \<lparr>ac_path = adbPath, ac_serial = ro_serial options\<rparr>; (problem, s1) = connectionProblem h adb s
      in if problem \<noteq> [] then (restore_message problem default_restore_summary, s1)
         else
           let (adb1, s2) = pinned h adb s1
           in case load_backup h ver (ro_inputDir options) s2 of
                Inl message \<Rightarrow> (restore_message message default_restore_summary, s2)
              | Inr manifest \<Rightarrow> restore_device h adb1 options manifest s2)"

section \<open>One device\<close>

text \<open>The calls of a run: listing the devices, and what goes to the client's device.\<close>

definition run_call :: "AdbClient \<Rightarrow> proc_io \<Rightarrow> string list \<Rightarrow> bool" where
  "run_call adb io args \<longleftrightarrow> (io = Capture None \<and> args = [ac_path adb, ''devices'', ''-l'']) \<or> to_device adb io args"

abbreviation device_runs :: "AdbClient \<Rightarrow> 'w sys \<Rightarrow> 'w sys \<Rightarrow> bool" where
  "device_runs adb \<equiv> extends (execs_only (to_device adb))"

lemma run_call_device: "extends (execs_only (run_call adb)) s0 s \<Longrightarrow> device_runs adb s t \<Longrightarrow> extends (execs_only (run_call adb)) s0 t"
  by (erule extends_trans, erule extends_mono) (auto simp: run_call_def elim!: execs_only.elims)

lemma run_call_simps [simp]:
  "run_call adb (Capture None) [ac_path adb, ''devices'', ''-l'']" "to_device adb io args \<Longrightarrow> run_call adb io args"
  by (simp_all add: run_call_def)

lemma chain_queryDeviceInfo [chain]:
  assumes "extends (execs_only (run_call adb)) s0 s"
  shows "extends (execs_only (run_call adb)) s0 (snd (queryDeviceInfo h adb s))"
proof -
  have root: "extends (execs_only (run_call adb)) s0 (snd (detectRoot h adb t))"
    if "extends (execs_only (run_call adb)) s0 t" for t
    by (rule run_call_device [OF that]) (rule chain_queries(1) [OF extends_refl])
  show ?thesis
    using assms by (auto simp: queryDeviceInfo_def split_beta Let_def intro!: chain root)
qed

lemma chain_go_on [chain]: "extends (execs_only P) s0 s \<Longrightarrow> extends (execs_only P) s0 (snd (go_on h b s))"
  by (auto simp: go_on_def split_beta Let_def intro: chain)

lemma chain_log_fold [chain]:
  assumes "extends (execs_only P) s0 s"
  shows "extends (execs_only P) s0 (foldl (\<lambda>t x. log_info h (f x) t) s xs)"
    "extends (execs_only P) s0 (foldl (\<lambda>t x. log_warn h (f x) t) s xs)"
proof -
  have "extends (execs_only P) s0 (foldl g s xs)" if "\<And>x t. extends (execs_only P) s0 t \<Longrightarrow> extends (execs_only P) s0 (g t x)" for g
    using assms that by (induction xs arbitrary: s) auto
  then show "extends (execs_only P) s0 (foldl (\<lambda>t x. log_info h (f x) t) s xs)"
    "extends (execs_only P) s0 (foldl (\<lambda>t x. log_warn h (f x) t) s xs)"
    by (simp_all add: chain)
qed

lemma export_to_device: "export_call adb outDir m io args \<Longrightarrow> to_device adb io args"
  by (cases io) (auto simp: export_call.simps)

lemma chain_export:
  assumes "device_runs adb s0 s"
  shows "case exportPersonalData h adb outDir device mf s of
      None \<Rightarrow> \<exists>now events names. buildIcs now events names = None | Some (_, s') \<Rightarrow> device_runs adb s0 s'"
proof (cases "exportPersonalData h adb outDir device mf s")
  case None
  then show ?thesis using exportPersonalData_runs [where h = h and adb = adb and outDir = outDir and device = device and manifest = mf and s = s] by simp
next
  case (Some r)
  obtain rs s' where r: "r = (rs, s')" by (cases r)
  have "extends (execs_only (export_call adb outDir (dev_root device))) s s'"
    using exportPersonalData_runs [where h = h and adb = adb and outDir = outDir and device = device and manifest = mf and s = s] Some r by simp
  then show ?thesis using device_step [OF assms _ export_to_device] Some r by simp
qed

lemma chain_stages [chain]:
  assumes "device_runs adb s0 s"
  shows "device_runs adb s0 (snd (backup_apks h adb options packages mf s))"
    "device_runs adb s0 (snd (backup_data h (chooseBackupBackend h mode device) adb options packages mf s))"
    "device_runs adb s0 (snd (backup_shared h (chooseBackupBackend h mode device) adb options mf s))"
    "device_runs adb s0 (snd (find_volumes h adb options s))"
    "device_runs adb s0 (snd (backup_paths h adb options device paths shared mf s))"
    "device_runs adb s0 (snd (choose_packages h adb options s))"
  using assms
  by (auto simp: backup_apks_def backup_data_def backup_shared_def find_volumes_def backup_paths_def log_volumes_def
      warn_paths_def choose_packages_def split_beta Let_def intro!: chain chosen.chain_backend)

lemma chain_finish_backup [chain]:
  "extends (execs_only P) s0 s \<Longrightarrow> extends (execs_only P) s0 (snd (finish_backup h options device summary mf s))"
  by (auto simp: finish_backup_def writeToFile_def reportCoverage_def split_beta Let_def intro!: chain
      split: sum.split prod.split dest!: arg_cong [of _ _ snd])

lemma capture_all_runs:
  assumes "device_runs adb s0 s"
  shows "case capture_all h (chooseBackupBackend h mode device) adb options device packages summary mf s of
      None \<Rightarrow> \<exists>now events names. buildIcs now events names = None | Some (_, s') \<Rightarrow> device_runs adb s0 s'"
proof -
  let ?be = "chooseBackupBackend h mode device"
  let ?a = "backup_apks h adb options packages mf s"
  let ?b = "backup_data h ?be adb options packages (fst ?a) (snd ?a)"
  let ?c = "backup_shared h ?be adb options (fst ?b) (snd ?b)"
  have c: "device_runs adb s0 (snd ?c)" using assms by (intro chain)
  obtain go t where g: "go_on h (bo_exportPersonalData options) (snd ?c) = (go, t)"
    by (cases "go_on h (bo_exportPersonalData options) (snd ?c)")
  have t: "device_runs adb s0 t" using chain_go_on [OF c, of h "bo_exportPersonalData options"] g by simp
  have p: "case backup_personal h adb options device (snd (fst ?c)) (snd ?c) of
      None \<Rightarrow> \<exists>now events names. buildIcs now events names = None | Some (_, s') \<Rightarrow> device_runs adb s0 s'"
    unfolding backup_personal_def g Let_def prod.case
    using t chain_export [OF chain_local_ops(2) [OF t]] by (cases go) auto
  show ?thesis
  proof (cases "backup_personal h adb options device (snd (fst ?c)) (snd ?c)")
    case None
    then show ?thesis using p by (simp add: capture_all_def split_beta Let_def)
  next
    case (Some r)
    obtain rs mf4 s4 where r: "r = ((rs, mf4), s4)" by (metis prod.collapse)
    then have "device_runs adb s0 s4" using p Some by simp
    then show ?thesis by (simp add: capture_all_def split_beta Let_def Some r chain)
  qed
qed

lemma chain_session:
  assumes "extends (execs_only (run_call adb)) s0 s"
  shows "case backup_session h (chooseBackupBackend h mode device) adb ver options device summary s of
      None \<Rightarrow> \<exists>now events names. buildIcs now events names = None
    | Some (_, s') \<Rightarrow> extends (execs_only (run_call adb)) s0 s'"
proof -
  let ?be = "chooseBackupBackend h mode device" and ?dir = "bo_outputDir options"
  let ?R = "\<lambda>r. case r of None \<Rightarrow> \<exists>now events names. buildIcs now events names = None
    | Some (_, s') \<Rightarrow> device_runs adb s s'"
  obtain ok s1 where e: "ensureDirectory h ?dir s = (ok, s1)" by (cases "ensureDirectory h ?dir s")
  have s1: "device_runs adb s s1" using chain_local_ops(11) [of "to_device adb" s s h ?dir] e by simp
  let ?s2 = "if h_exists h (path_join ?dir ''manifest.json'') (world s1) then log_warn h (overwrite_warning ?dir) s1 else s1"
  obtain stamp s3 where u: "utcTimestamp h ?s2 = (stamp, s3)" by (cases "utcTimestamp h ?s2")
  have "device_runs adb s ?s2" using s1 by (auto intro: chain)
  then have "device_runs adb s (snd (utcTimestamp h ?s2))" by (rule chain)
  then have s3: "device_runs adb s s3" by (simp add: u)
  obtain chosen s4 where ch: "choose_packages h adb options s3 = (chosen, s4)" by (cases "choose_packages h adb options s3")
  have "device_runs adb s (snd (choose_packages h adb options s3))" using s3 by (rule chain)
  then have s4: "device_runs adb s s4" by (simp add: ch)
  have "?R (backup_session h ?be adb ver options device summary s)"
  proof (cases "ok \<and> chosen \<noteq> None")
    case False
    then show ?thesis using s1 s4 by (cases ok) (auto simp: backup_session_def e u ch Let_def)
  next
    case True
    then obtain packages where p: "chosen = Some packages" by auto
    let ?mf = "(new_manifest ver stamp (be_name ?be) device)\<lparr>mf_packages := map new_entry packages\<rparr>"
    have cap: "?R (capture_all h ?be adb options device packages summary ?mf s4)" by (rule capture_all_runs [OF s4])
    show ?thesis
    proof (cases "capture_all h ?be adb options device packages summary ?mf s4")
      case None
      then show ?thesis using True cap by (simp add: backup_session_def e u ch p Let_def)
    next
      case (Some r)
      obtain summary1 m1 s5 where r: "r = ((summary1, m1), s5)" by (metis prod.collapse)
      obtain summary2 m2 s6 where f: "finish_backup h options device summary1 m1 s5 = ((summary2, m2), s6)"
        by (metis prod.collapse)
      have "device_runs adb s s5" using cap Some r by simp
      then have "device_runs adb s (snd (finish_backup h options device summary1 m1 s5))" by (rule chain)
      then show ?thesis using True by (simp add: backup_session_def e u ch p Some r f Let_def)
    qed
  qed
  then show ?thesis using run_call_device [OF assms] by (auto split: option.splits)
qed

text \<open>The client of a run: pinned after the connection check.\<close>

definition run_client :: "'w host \<Rightarrow> string \<Rightarrow> string \<Rightarrow> 'w sys \<Rightarrow> AdbClient" where
  "run_client h adbPath serial s =
     (let c = \<lparr>ac_path = adbPath, ac_serial = serial\<rparr> in fst (pinned h c (snd (connectionProblem h c s))))"

lemma run_client_path [simp]: "ac_path (run_client h adbPath serial s) = adbPath"
  by (auto simp: run_client_def pinned_def Let_def split_beta split: option.split)

text \<open>A given serial is the one used.\<close>

lemma run_client_serial: "serial \<noteq> [] \<Longrightarrow> run_client h adbPath serial s = \<lparr>ac_path = adbPath, ac_serial = serial\<rparr>"
  by (simp add: run_client_def pinned_def Let_def)

lemma run_start:
  fixes h :: "'w host"
  assumes "c = \<lparr>ac_path = adbPath, ac_serial = serial\<rparr>"
  shows "extends (execs_only (run_call (run_client h adbPath serial s))) s (snd (connectionProblem h c s))"
    "extends (execs_only (run_call (run_client h adbPath serial s))) s (snd (pinned h c (snd (connectionProblem h c s))))"
proof -
  have call: "run_call (run_client h adbPath serial s) (Capture None) [ac_path c, ''devices'', ''-l'']"
    using run_call_simps(1) [of "run_client h adbPath serial s"] by (simp add: assms)
  show "extends (execs_only (run_call (run_client h adbPath serial s))) s (snd (connectionProblem h c s))"
    by (rule chain_connect(1)) (simp, rule call)
  then show "extends (execs_only (run_call (run_client h adbPath serial s))) s (snd (pinned h c (snd (connectionProblem h c s))))"
    by (rule chain_connect(2)) (rule call)
qed


end
