(* ===== verification/Measured.thy ===== *)
theory Measured
  imports BackupManager
begin

text \<open>
  Every size a backup writes into its manifest is one that \<open>fsutil::fileSize\<close> or \<open>directorySize\<close> has told, through
  every stage and backend.
\<close>

section \<open>Measured sizes\<close>

definition measured :: "'w host \<Rightarrow> nat \<Rightarrow> bool" where
  "measured h n \<longleftrightarrow> n = 0 \<or> (\<exists>path s. n = fileSize h path s) \<or> (\<exists>path s. n = directorySize h path s)"

lemma measured_intros [simp]: "measured h 0" "measured h (fileSize h path s)" "measured h (directorySize h path s)"
  by (auto simp: measured_def)

definition entry_measured :: "'w host \<Rightarrow> PackageBackupEntry \<Rightarrow> bool" where
  "entry_measured h e \<longleftrightarrow>
     measured h (pe_dataArchiveBytes e) \<and> measured h (pe_deDataArchiveBytes e) \<and> measured h (pe_externalDataArchiveBytes e)"

definition sizes_measured :: "'w host \<Rightarrow> Manifest \<Rightarrow> bool" where
  "sizes_measured h m \<longleftrightarrow>
     measured h (mf_sharedStorageArchiveBytes m) \<and> list_all (entry_measured h) (mf_packages m) \<and>
     list_all (\<lambda>c. measured h (fc_bytes c)) (mf_filesystemCaptures m) \<and>
     list_all (\<lambda>x. measured h (px_bytes x)) (mf_personalDataExports m)"

lemma entry_measured_error [simp]: "entry_measured h (e\<lparr>pe_error := x\<rparr>) = entry_measured h e"
  by (simp add: entry_measured_def)

lemma sizes_measured_new:
  "sizes_measured h ((new_manifest ver stamp mode device)\<lparr>mf_packages := map new_entry packages\<rparr>)"
  by (auto simp: sizes_measured_def new_manifest_def default_manifest_def list_all_iff new_entry_def entry_measured_def default_entry_def)

lemma sizes_measured_update:
  "sizes_measured h m \<Longrightarrow> entry_measured h e \<Longrightarrow> sizes_measured h (updatePackageEntry m n (\<lambda>_. e))"
  "sizes_measured h m \<Longrightarrow> (\<And>e. entry_measured h e \<Longrightarrow> entry_measured h (f e)) \<Longrightarrow> sizes_measured h (updatePackageEntry m n f)"
  by (auto simp: sizes_measured_def updatePackageEntry_def intro!: update_first_all)

lemma sizes_measured_find: "sizes_measured h m \<Longrightarrow> findPackageEntry m n = Some e \<Longrightarrow> entry_measured h e"
  using findPackageEntry_SomeD [of m n e] by (simp add: sizes_measured_def list_all_iff)

lemma sizes_measured_legacy [simp]: "sizes_measured h (m\<lparr>mf_legacyAdbBackupFile := x\<rparr>) = sizes_measured h m"
  by (simp add: sizes_measured_def)

lemma sizes_measured_cancelled: "sizes_measured h m \<Longrightarrow> sizes_measured h (mark_cancelled m)"
  by (auto simp: sizes_measured_def mark_cancelled_def list_all_iff)

section \<open>APKs and app data\<close>

lemma extractApks_measured:
  assumes "sizes_measured h mf"
  shows "sizes_measured h (fst (extractApks h' adb outDir packages mf s))"
proof -
  let ?m = "fst (extractApks h' adb outDir packages mf s)"
  have e: "list_all2 apks_step (mf_packages mf) (mf_packages ?m)" "?m\<lparr>mf_packages := mf_packages mf\<rparr> = mf"
    using extract_loop_entries [of mf h' adb "path_join outDir ''apks''" "length packages" 0 packages s]
    by (auto simp: extractApks_def)
  have "entry_measured h e'" if "apks_step e e'" "entry_measured h e" for e e'
    using that by (cases e, cases e') (simp add: apks_step_def apks_of_def entry_measured_def)
  then have "list_all (entry_measured h) (mf_packages ?m)"
    using e(1) assms by (auto simp: sizes_measured_def list_all2_conv_all_nth list_all_length)
  then show ?thesis using e(2) assms by (cases mf, cases ?m) (simp add: sizes_measured_def)
qed

lemma Root_backupPackage_measured:
  assumes "entry_measured h e"
  shows "entry_measured h (fst (Root_backupPackage h m adb dataDir name e s))"
proof -
  have ce: "entry_measured h (fst (fst (capture_ce h m adb dataDir name e s)))" if "entry_measured h e" for e s
    using that by (auto simp: capture_ce_def split_beta Let_def entry_measured_def)
  have de: "entry_measured h (fst (fst (capture_de h m adb dataDir name e s)))" if "entry_measured h e" for e s
    using that by (auto simp: capture_de_def split_beta Let_def entry_measured_def)
  have fin: "entry_measured h (finish_capture c d e)" if "entry_measured h e" for c d e
    using that by (auto simp: finish_capture_def Let_def entry_measured_def)
  show ?thesis using assms ce de fin by (simp add: Root_backupPackage_def split_beta Let_def)
qed

lemma Root_backup_measured: "sizes_measured h mf \<Longrightarrow> sizes_measured h (fst (Root_backupAppData h m adb outDir packages mf s))"
proof -
  have "sizes_measured h mf \<Longrightarrow> sizes_measured h (fst (Root_backup_loop h m adb dataDir n i ps mf s))" for dataDir n i ps mf s
  proof (induction ps arbitrary: i mf s)
    case (Cons p ps)
    then show ?case
      by (auto simp: split_beta Let_def Root_backupPackage_measured dest: sizes_measured_find
          intro!: Cons.IH sizes_measured_update split: option.split)
  qed simp
  then show "sizes_measured h mf \<Longrightarrow> ?thesis" by (simp add: Root_backupAppData_def split_beta Let_def)
qed

lemma captureViaRunAs_measured:
  "entry_measured h e \<Longrightarrow> entry_measured h (snd (fst (captureViaRunAs h adb dataDir name e s)))"
  by (auto simp: captureViaRunAs_def split_beta Let_def entry_measured_def)

lemma update_entries_measured:
  "sizes_measured h mf \<Longrightarrow> (\<And>e. entry_measured h e \<Longrightarrow> entry_measured h (f e)) \<Longrightarrow> sizes_measured h (update_entries f names mf)"
  by (rule update_entries_induct) (auto intro: sizes_measured_update)

lemma Standard_backup_measured:
  assumes "sizes_measured h mf"
  shows "sizes_measured h (fst (Standard_backupAppData h adb outDir packages mf s))"
proof -
  have loop: "sizes_measured h (fst (fst (Standard_backup_loop h adb dataDir names n i ps mf rem s)))"
    if "sizes_measured h mf" for dataDir names n i ps mf rem s
    using that
  proof (induction ps arbitrary: i mf rem s)
    case (Cons p ps)
    then show ?case
      by (auto simp: split_beta Let_def captureViaRunAs_measured dest: sizes_measured_find
          intro!: Cons.IH sizes_measured_update split: option.split)
  qed simp
  have step: "sizes_measured h (fst (legacy_step h adb outDir rem mf s))" if "sizes_measured h mf" for rem mf s
    using that by (auto simp: legacy_step_def split_beta Let_def set_error_def mark_legacy_def entry_measured_def
        intro!: update_entries_measured)
  show ?thesis using assms loop step by (simp add: Standard_backupAppData_def split_beta Let_def)
qed

lemma backupAppData_measured:
  "sizes_measured h mf \<Longrightarrow> sizes_measured h (fst (be_backupAppData (chooseBackupBackend h mode device) adb dir ps mf s))"
  by (simp add: chooseBackupBackend_def root_backend_def standard_backend_def Root_backup_measured Standard_backup_measured)

section \<open>Shared storage and device paths\<close>

lemma backupSharedStorage_measured:
  assumes "sizes_measured h mf"
  shows "sizes_measured h (snd (fst (be_backupSharedStorage (chooseBackupBackend h mode device) adb dir mf s)))"
  using assms
  by (auto simp: chooseBackupBackend_def root_backend_def standard_backend_def Root_backupSharedStorage_def
      Standard_backupSharedStorage_def sizes_measured_def split_beta Let_def)

lemma captureFilesystem_measured:
  assumes "sizes_measured h mf"
  shows "sizes_measured h (fst (captureFilesystem h adb outDir requested shared mf s))"
proof -
  have one: "snd (fst (capture_path h adb fsDir shared used path s)) = Some c \<Longrightarrow> measured h (fc_bytes c)" for fsDir used path s c
    by (auto simp: capture_path_def pull_path_def split_beta Let_def split: if_splits)
  have "list_all (\<lambda>c. measured h (fc_bytes c)) (fst (capture_loop h adb fsDir shared n i used paths s))" for fsDir n i used paths s
    by (induction paths arbitrary: i used s) (auto simp: split_beta Let_def dest: one split: option.split)
  then show ?thesis using assms by (auto simp: captureFilesystem_def sizes_measured_def split_beta Let_def)
qed

section \<open>Personal data\<close>

text \<open>The manifest that an export returns.\<close>

definition export_measured :: "'w host \<Rightarrow> 'w export \<Rightarrow> bool" where
  "export_measured h e \<longleftrightarrow> sizes_measured h (snd (fst e))"

lemma recordExport_measured: "sizes_measured h mf \<Longrightarrow> sizes_measured h (snd (fst (recordExport h outDir f c kind fmt n own mf s)))"
  by (simp add: recordExport_def split_beta Let_def sizes_measured_def split: sum.split)

lemma skip_measured [simp]: "export_measured h (skip_export h kind label reason mf s) = sizes_measured h mf"
  by (simp add: export_measured_def skip_export_def split_beta Let_def)

lemma pair_measured [simp]: "export_measured h ((r, mf), s) = sizes_measured h mf"
  by (simp add: export_measured_def)

lemma finish_measured: "sizes_measured h mf \<Longrightarrow> export_measured h (finish_export h outDir f c kind label fmt n own mf s)"
  by (simp add: finish_export_def split_beta Let_def recordExport_measured)

lemmas measured_simps = finish_measured recordExport_measured Let_def split_beta

lemma exports_measured:
  assumes "sizes_measured h mf"
  shows "export_measured h (exportContacts h adb outDir mf s)" "export_measured h (exportSms h adb outDir stamp mf s)"
    "export_measured h (exportCallLog h adb outDir stamp mf s)" "export_measured h (exportMms h adb outDir stamp mf s)"
    "exportCalendar h adb outDir mf s = Some e \<Longrightarrow> export_measured h e"
    "export_measured h (exportSettings h adb outDir stamp mf s)" "export_measured h (exportWifi h adb outDir device mf s)"
proof -
  show "export_measured h (exportContacts h adb outDir mf s)"
    using assms by (auto simp: exportContacts_def measured_simps split: sum.split)
  show "export_measured h (exportSms h adb outDir stamp mf s)" "export_measured h (exportCallLog h adb outDir stamp mf s)"
    using assms by (auto simp: exportSms_def exportCallLog_def measured_simps split: sum.split)
  show "export_measured h (exportMms h adb outDir stamp mf s)"
    using assms by (auto simp: exportMms_def measured_simps split: sum.split)
  show "exportCalendar h adb outDir mf s = Some e \<Longrightarrow> export_measured h e"
    using assms by (auto simp: exportCalendar_def measured_simps split: sum.splits option.splits)
  show "export_measured h (exportSettings h adb outDir stamp mf s)"
    using assms by (simp add: exportSettings_def measured_simps del: settings_loop.simps)
  have store: "export_measured h (export_store h outDir source content mf t)" for source content t
    using assms unfolding export_store_def by (cases source) (auto simp: measured_simps)
  have "export_measured h (wifi_loop h adb outDir m sources mf s)" for m sources s
    using assms by (induction sources arbitrary: s) (auto simp: split_beta Let_def store)
  then show "export_measured h (exportWifi h adb outDir device mf s)" by (simp add: exportWifi_def assms)
qed

lemma run_steps_measured:
  assumes "run_steps h n i steps mf s = Some ((rs, mf'), s')" "sizes_measured h mf"
    and "list_all (\<lambda>step. \<forall>mf s e. sizes_measured h mf \<longrightarrow> snd step mf s = Some e \<longrightarrow> export_measured h e) steps"
  shows "sizes_measured h mf'"
  using assms
proof (induction steps arbitrary: i mf s rs s')
  case (Cons st steps)
  obtain name step where st: "st = (name, step)" by (cases st)
  obtain stop s1 where c: "cancelRequested h s = (stop, s1)" by (metis prod.collapse)
  show ?case
  proof (cases stop)
    case True
    then show ?thesis using Cons.prems(1,2) by (simp add: st c)
  next
    case False
    then obtain r m1 s2 rs' s3 where r: "step mf (progress ''Exporting personal data'' i n name s1) = Some ((r, m1), s2)"
      "run_steps h n (i + 1) steps m1 s2 = Some ((rs', mf'), s3)"
      using Cons.prems(1) by (auto simp: st c split: option.splits)
    have "\<forall>mf s e. sizes_measured h mf \<longrightarrow> step mf s = Some e \<longrightarrow> export_measured h e"
      using Cons.prems(3) unfolding st list.pred_inject snd_conv by (rule conjunct1)
    with Cons.prems(2) r(1) have "export_measured h ((r, m1), s2)" by blast
    then have "sizes_measured h m1" by simp
    from Cons.IH [OF r(2) this] Cons.prems(3) show ?thesis by simp
  qed
qed simp

lemma exportPersonalData_measured:
  assumes "exportPersonalData h adb outDir device mf s = Some ((rs, mf'), s')" "sizes_measured h mf"
  shows "sizes_measured h mf'"
proof -
  have steps: "list_all (\<lambda>step. \<forall>mf s e. sizes_measured h mf \<longrightarrow> snd step mf s = Some e \<longrightarrow> export_measured h e)
      (export_steps h adb outDir device stamp)" for stamp
    by (auto simp: export_steps_def exports_measured simp del: split_paired_All)
  obtain ok s1 where e1: "ensureDirectory h (path_join outDir kExportDir) s = (ok, s1)" by (metis prod.collapse)
  obtain stamp s2 where u: "utcTimestamp h s1 = (stamp, s2)" by (metis prod.collapse)
  show ?thesis
    using assms run_steps_measured [OF _ assms(2) steps]
    by (auto simp: exportPersonalData_def e1 u Let_def split: if_splits option.splits)
qed

section \<open>All stages\<close>

lemma stages_measured:
  assumes "sizes_measured h mf"
  shows "sizes_measured h (fst (backup_apks h adb options packages mf s))"
    "sizes_measured h (fst (backup_data h (chooseBackupBackend h mode device) adb options packages mf s))"
    "sizes_measured h (snd (fst (backup_shared h (chooseBackupBackend h mode device) adb options mf s)))"
    "backup_personal h adb options device mf s = Some ((rs, mf'), s') \<Longrightarrow> sizes_measured h mf'"
    "sizes_measured h (snd (fst (backup_paths h adb options device paths shared mf s)))"
  using assms exportPersonalData_measured [where h = h and mf = mf and rs = rs and mf' = mf' and s' = s']
  by (auto simp: backup_apks_def backup_data_def backup_shared_def backup_personal_def backup_paths_def split_beta Let_def
      extractApks_measured backupAppData_measured backupSharedStorage_measured captureFilesystem_measured split: if_splits)

lemma capture_all_measured:
  assumes "capture_all h (chooseBackupBackend h mode device') adb options device packages summary mf s = Some ((summary1, m1), s1)"
    and "sizes_measured h mf"
  shows "sizes_measured h m1"
proof -
  let ?be = "chooseBackupBackend h mode device'"
  obtain ma sa where a: "backup_apks h adb options packages mf s = (ma, sa)" by (metis prod.collapse)
  obtain mb sb where b: "backup_data h ?be adb options packages ma sa = (mb, sb)" by (metis prod.collapse)
  obtain shared mc sc where c: "backup_shared h ?be adb options mb sb = ((shared, mc), sc)" by (metis prod.collapse)
  obtain rs md sd where d: "backup_personal h adb options device mc sc = Some ((rs, md), sd)"
    using assms(1) by (auto simp: capture_all_def a b c Let_def split: option.splits)
  obtain roots se where e: "find_volumes h adb options sd = (roots, se)" by (metis prod.collapse)
  obtain reached mf' sf where f: "backup_paths h adb options device (bo_filesystemPaths options @ roots) shared md se = ((reached, mf'), sf)"
    by (metis prod.collapse)
  have "sizes_measured h ma" using stages_measured(1) [OF assms(2), of adb options packages s] by (simp add: a)
  from stages_measured(2) [OF this, of mode device' adb options packages sa] have "sizes_measured h mb" by (simp add: b)
  from stages_measured(3) [OF this, of mode device' adb options sb] have "sizes_measured h mc" by (simp add: c)
  from stages_measured(4) [OF this d] have "sizes_measured h md" .
  from stages_measured(5) [OF this, of adb options device "bo_filesystemPaths options @ roots" shared se]
  have "sizes_measured h mf'" by (simp add: f)
  then show ?thesis using assms(1) by (auto simp: capture_all_def a b c d e f Let_def)
qed

end
