(* ===== verification/BackupRuns.thy ===== *)
theory BackupRuns
  imports Measured
begin

text \<open>
  What a run of \<open>runBackup\<close> amounts to: the stages keep the manifest consistent, the summary of a
  successful run is true of the manifest it wrote, and a run on a working host succeeds.
\<close>

section \<open>A successful backup has its manifest\<close>

text \<open>What every stage keeps of the manifest.\<close>

definition same_run :: "Manifest \<Rightarrow> Manifest \<Rightarrow> bool" where
  "same_run m m' \<longleftrightarrow>
     mf_formatVersion m' = mf_formatVersion m \<and> mf_abpVersion m' = mf_abpVersion m \<and> mf_mode m' = mf_mode m \<and>
     mf_device m' = mf_device m \<and> map pe_name (mf_packages m') = map pe_name (mf_packages m) \<and>
     (entries_wf m \<longrightarrow> entries_wf m')"

lemma same_run_refl [simp]: "same_run m m"
  by (simp add: same_run_def)

lemma same_run_trans: "same_run m n \<Longrightarrow> same_run n p \<Longrightarrow> same_run m p"
  by (simp add: same_run_def)

text \<open>The parts of the manifest that only one stage writes.\<close>

definition captured_parts :: "Manifest \<Rightarrow> bool \<times> PersonalDataExport list \<times> FilesystemCapture list" where
  "captured_parts m = (mf_sharedStorageIncluded m, mf_personalDataExports m, mf_filesystemCaptures m)"

lemma app_data_same:
  assumes "app_data_frame m m'" "entries_wf m \<Longrightarrow> entries_wf m'"
  shows "same_run m m' \<and> captured_parts m' = captured_parts m"
  using assms by (cases m, cases m') (auto simp: app_data_frame_def same_run_def captured_parts_def)

lemma shared_same:
  assumes "shared_frame m m'"
  shows "same_run m m' \<and> captured_parts m' = (True, snd (captured_parts m))"
proof -
  obtain d a b c where m': "m' = m\<lparr>mf_sharedStorageIncluded := True, mf_sharedStorageIsDirectory := d,
      mf_sharedStorageArchive := a, mf_sharedStorageArchiveBytes := b, mf_sharedStorageArchiveSha256 := c\<rparr>"
    using assms unfolding shared_frame_def by blast
  show ?thesis by (simp add: m' same_run_def captured_parts_def entries_wf_def)
qed

lemma backup_apks_same:
  "same_run mf (fst (backup_apks h adb options packages mf s)) \<and>
   captured_parts (fst (backup_apks h adb options packages mf s)) = captured_parts mf"
  by (simp add: backup_apks_def Let_def split_beta app_data_same [OF app_data_frame_extract entries_wf_extract])

lemma backup_data_same:
  "same_run mf (fst (backup_data h (chooseBackupBackend h mode device) adb options packages mf s)) \<and>
   captured_parts (fst (backup_data h (chooseBackupBackend h mode device) adb options packages mf s)) = captured_parts mf"
  by (simp add: backup_data_def Let_def split_beta app_data_same [OF chosen.backup_frame chosen.backup_wf])

lemma backup_shared_same:
  fixes h :: "'w host"
  defines "r \<equiv> \<lambda>mode device adb options mf s. fst (backup_shared h (chooseBackupBackend h mode device) adb options mf s)"
  shows "same_run mf (snd (r mode device adb options mf s)) \<and>
    captured_parts (snd (r mode device adb options mf s)) =
      (fst (r mode device adb options mf s) \<or> mf_sharedStorageIncluded mf, snd (captured_parts mf))"
proof -
  let ?b = "\<lambda>t. be_backupSharedStorage (chooseBackupBackend h mode device) adb (bo_outputDir options) mf t"
  have "same_run mf (snd (fst (?b t))) \<and>
      captured_parts (snd (fst (?b t))) = (fst (fst (?b t)) \<or> mf_sharedStorageIncluded mf, snd (captured_parts mf))" for t
    using chosen.shared_none [of h mode device adb "bo_outputDir options" mf t]
      shared_same [OF chosen.shared_some [of h mode device adb "bo_outputDir options" mf t]]
    by (cases "fst (fst (?b t))") (auto simp: captured_parts_def)
  then show ?thesis by (simp add: r_def backup_shared_def Let_def split_beta captured_parts_def)
qed

lemma recorded_same:
  "recorded rs mf mf' \<Longrightarrow> same_run mf mf' \<and> mf_sharedStorageIncluded mf' = mf_sharedStorageIncluded mf \<and>
     mf_filesystemCaptures mf' = mf_filesystemCaptures mf"
  by (auto simp: recorded_def same_run_def entries_wf_def)

lemma backup_personal_same:
  assumes "backup_personal h adb options device mf s = Some ((rs, mf'), s')"
  shows "recorded rs mf mf'"
proof -
  obtain go t where g: "go_on h (bo_exportPersonalData options) s = (go, t)"
    by (cases "go_on h (bo_exportPersonalData options) s")
  let ?t = "log_info h ''Exporting contacts, messages, call log, calendar and settings...'' t"
  show ?thesis
  proof (cases go)
    case True
    then have "exportPersonalData h adb (bo_outputDir options) device mf ?t = Some ((rs, mf'), s')"
      using assms by (simp add: backup_personal_def g)
    then show ?thesis
      using exportPersonalData_records [where h = h and adb = adb and outDir = "bo_outputDir options" and device = device
          and manifest = mf and s = ?t] by simp
  next
    case False
    then show ?thesis using assms by (simp add: backup_personal_def g)
  qed
qed

lemma backup_paths_same:
  "\<exists>cs. snd (fst (backup_paths h adb options device paths shared mf s)) =
      mf\<lparr>mf_filesystemCaptures := mf_filesystemCaptures mf @ cs\<rparr> \<and>
    (fst (fst (backup_paths h adb options device paths shared mf s)) \<or> cs = [])"
proof -
  have nil: "mf = mf\<lparr>mf_filesystemCaptures := mf_filesystemCaptures mf @ []\<rparr>" by simp
  show ?thesis
  proof (cases "fst (go_on h (paths \<noteq> []) s)")
    case True
    then show ?thesis using captureFilesystem_frame by (simp add: backup_paths_def Let_def split_beta)
  next
    case False
    then show ?thesis using nil by (intro exI [of _ "[]"]) (simp add: backup_paths_def Let_def split_beta)
  qed
qed

text \<open>What the summary says of the captures is what the manifest holds.\<close>

definition summary_fits :: "BackupSummary \<Rightarrow> Manifest \<Rightarrow> bool" where
  "summary_fits summary m \<longleftrightarrow>
     bs_sharedStorageIncluded summary = mf_sharedStorageIncluded m \<and>
     map (\<lambda>x. (px_kind x, px_itemCount x)) (mf_personalDataExports m) =
       map (\<lambda>r. (er_kind r, er_count r)) (filter (\<lambda>r. er_reason r = []) (bs_personalExports summary)) \<and>
     bs_filesystemCaptureCount summary = int_size (mf_filesystemCaptures m) \<and>
     bs_filesystemPartialCount summary = count_where (\<lambda>c. \<not> fc_complete c) (mf_filesystemCaptures m)"

lemma int_size_Nil [simp]: "int_size [] = 0"
  by (simp add: int_size_def int32_from_ll_def)

lemma capture_all_result:
  assumes "capture_all h (chooseBackupBackend h mode device) adb options device packages summary mf s = Some ((summary1, m1), s1)"
    and "captured_parts mf = (False, [], [])"
    and "bs_filesystemCaptureCount summary = 0" "bs_filesystemPartialCount summary = 0"
  shows "same_run mf m1 \<and> summary_fits summary1 m1 \<and> bs_success summary1 = bs_success summary \<and>
    bs_messages summary1 = bs_messages summary \<and> bs_cancelled summary1 = bs_cancelled summary \<and>
    bs_warnings summary1 = bs_warnings summary \<and>
    (\<not> bo_exportPersonalData options \<longrightarrow> bs_personalExports summary1 = [])"
proof -
  let ?be = "chooseBackupBackend h mode device"
  obtain ma sa where a: "backup_apks h adb options packages mf s = (ma, sa)" by (metis prod.collapse)
  obtain mb sb where b: "backup_data h ?be adb options packages ma sa = (mb, sb)" by (metis prod.collapse)
  obtain shared mc sc where c: "backup_shared h ?be adb options mb sb = ((shared, mc), sc)" by (metis prod.collapse)
  obtain rs md sd where d: "backup_personal h adb options device mc sc = Some ((rs, md), sd)"
    using assms(1) by (auto simp: capture_all_def a b c Let_def split: option.splits)
  obtain roots se where e: "find_volumes h adb options sd = (roots, se)" by (metis prod.collapse)
  obtain reached mf' sf where f: "backup_paths h adb options device (bo_filesystemPaths options @ roots) shared md se = ((reached, mf'), sf)"
    by (metis prod.collapse)
  have m1: "m1 = mf'" "summary1 = (let s1 = summary\<lparr>bs_sharedStorageIncluded := shared, bs_personalExports := rs,
      bs_removableStorageCount := int (length roots)\<rparr> in if reached then count_captures mf' s1 else s1)"
    using assms(1) by (auto simp: capture_all_def a b c d e f Let_def)
  have ab: "same_run mf mb" "captured_parts mb = (False, [], [])"
    using backup_apks_same [of mf h adb options packages s] backup_data_same [of ma h mode device adb options packages sa]
      assms(2) same_run_trans by (auto simp: a b)
  have mc: "same_run mb mc" "captured_parts mc = (shared, [], [])"
    using backup_shared_same [of mb h mode device adb options sb] ab(2) by (auto simp: c captured_parts_def)
  have rec: "recorded rs mc md" using backup_personal_same [OF d] .
  obtain cs where cs: "mf' = md\<lparr>mf_filesystemCaptures := mf_filesystemCaptures md @ cs\<rparr>" "reached \<or> cs = []"
    using backup_paths_same [of h adb options device "bo_filesystemPaths options @ roots" shared md se] by (auto simp: f)
  have md: "same_run mc md" "mf_sharedStorageIncluded md = shared" "mf_filesystemCaptures md = []"
    "map (\<lambda>x. (px_kind x, px_itemCount x)) (mf_personalDataExports md) =
       map (\<lambda>r. (er_kind r, er_count r)) (filter (\<lambda>r. er_reason r = []) rs)"
    using recorded_same [OF rec] mc(2) rec by (auto simp: captured_parts_def recorded_def)
  have "same_run md m1" by (simp add: m1 cs same_run_def entries_wf_def)
  then have "same_run mf m1" using ab(1) mc(1) md(1) same_run_trans by blast
  moreover have "summary_fits summary1 m1"
    using md(2-4) cs assms(3,4)
    by (auto simp: m1 summary_fits_def count_captures_def count_where_def Let_def)
  moreover have "\<not> bo_exportPersonalData options \<longrightarrow> rs = []" using d by (auto simp: backup_personal_def go_on_def)
  ultimately show ?thesis by (auto simp: m1(2) count_captures_def Let_def)
qed

text \<open>The counts of the packages, and everything a successful summary stands for.\<close>

definition packages_fit :: "BackupSummary \<Rightarrow> Manifest \<Rightarrow> bool" where
  "packages_fit summary m \<longleftrightarrow>
     bs_mode summary = mf_mode m \<and>
     bs_packageCount summary = int_size (mf_packages m) \<and>
     bs_packagesWithData summary = count_where pe_dataIncluded (mf_packages m) \<and>
     bs_packagesWithErrors summary = count_where (\<lambda>e. pe_error e \<noteq> []) (mf_packages m) \<and>
     bs_packagesCapturedByRootTar summary = count_where (\<lambda>e. pe_dataCaptureMethod e = RootTar) (mf_packages m) \<and>
     bs_packagesCapturedByRunAs summary = count_where (\<lambda>e. pe_dataCaptureMethod e = RunAsTar) (mf_packages m) \<and>
     bs_packagesCapturedByLegacyBackup summary = count_where (\<lambda>e. pe_dataCaptureMethod e = LegacyAdbBackup) (mf_packages m)"

definition backed_up :: "BackupOptions \<Rightarrow> BackupSummary \<Rightarrow> Manifest \<Rightarrow> bool" where
  "backed_up options summary m \<longleftrightarrow>
     mf_formatVersion m = 4 \<and> entries_wf m \<and>
     list_all (\<lambda>n. isValidPackageName n \<and> package_selected (bo_onlyPackages options) (bo_excludePackages options) n)
       (map pe_name (mf_packages m)) \<and>
     packages_fit summary m \<and> summary_fits summary m \<and> \<not> bs_cancelled summary \<and> bs_messages summary = []"

lemma entry_wf_not_captured: "entry_wf e \<Longrightarrow> entry_wf (if b then e\<lparr>pe_error := x\<rparr> else e)"
  by simp

lemma mark_cancelled_same: "same_run m (mark_cancelled m) \<and> captured_parts (mark_cancelled m) = captured_parts m"
  by (auto simp: same_run_def captured_parts_def mark_cancelled_def entries_wf_def list_all_iff)

lemma summary_fits_parts: "captured_parts m = captured_parts m' \<Longrightarrow> summary_fits s m \<longleftrightarrow> summary_fits s m'"
  by (simp add: summary_fits_def captured_parts_def)

lemma trace_extends: "extends Q s t \<Longrightarrow> e \<in> set (trace s) \<Longrightarrow> e \<in> set (trace t)"
  by (auto simp: extends_def)

lemma writeToFile_written:
  "writeToFile h m p s = (Inr u, s1) \<Longrightarrow> EvWrite p (toJson m) \<in> set (trace s1)"
  by (auto simp: writeToFile_def writeTextFile_def Let_def split: option.splits prod.splits if_splits)

text \<open>\<open>m\<close> is what the run has left in the manifest's file: the last write was of its text and succeeded, and after it
  the flag was looked at once.\<close>

definition saved :: "'w host \<Rightarrow> string \<Rightarrow> Manifest \<Rightarrow> 'w \<Rightarrow> bool" where
  "saved h dir m w \<longleftrightarrow>
     (\<exists>w0 w1. h_write h (path_join dir ''manifest.json'') (toJson m) w0 = (Some True, w1) \<and> w = snd (h_cancelRequested h w1))"

lemma writeToFile_saved:
  "writeToFile h m p s = (Inr u, s1) \<Longrightarrow> \<exists>w0. h_write h p (toJson m) w0 = (Some True, world s1)"
  by (auto simp: writeToFile_def writeTextFile_def Let_def split: option.splits prod.splits if_splits)

lemma reportCoverage_world: "world (snd (reportCoverage h options device m summary s)) = world s"
proof -
  have "world (foldl (\<lambda>t w. log_warn h w t) s ws) = world s" for ws
    by (induction ws arbitrary: s) (simp_all add: log_warn_def log_def)
  then show ?thesis by (simp add: reportCoverage_def Let_def)
qed

lemma reportCoverage_keeps:
  "bs_messages (fst (reportCoverage h options device m summary s)) = bs_messages summary \<and>
   bs_cancelled (fst (reportCoverage h options device m summary s)) = bs_cancelled summary \<and>
   bs_personalExports (fst (reportCoverage h options device m summary s)) = bs_personalExports summary \<and>
   packages_fit (fst (reportCoverage h options device m summary s)) m = packages_fit summary m \<and>
   summary_fits (fst (reportCoverage h options device m summary s)) m = summary_fits summary m"
  by (simp add: reportCoverage_def Let_def packages_fit_def summary_fits_def)

lemma finish_backup_success:
  assumes "finish_backup h options device summary mf s = ((res, m), s')" "bs_success res" "\<not> bs_success summary"
    and "summary_fits summary mf"
  shows "same_run mf m \<and> packages_fit res m \<and> summary_fits res m \<and> bs_messages res = bs_messages summary \<and>
    bs_cancelled res = bs_cancelled summary \<and> bs_personalExports res = bs_personalExports summary \<and> (sizes_measured h mf \<longrightarrow> sizes_measured h m) \<and>
    saved h (bo_outputDir options) m (world s') \<and>
    EvWrite (path_join (bo_outputDir options) ''manifest.json'') (toJson m) \<in> set (trace s')"
proof -
  obtain stop1 s1 where c1: "cancelRequested h s = (stop1, s1)" by (cases "cancelRequested h s")
  let ?m = "if stop1 then mark_cancelled mf else mf" and ?p = "path_join (bo_outputDir options) ''manifest.json''"
  obtain r s2 where w: "writeToFile h ?m ?p s1 = (r, s2)" by (cases "writeToFile h ?m ?p s1")
  have same: "same_run mf ?m" "captured_parts ?m = captured_parts mf" using mark_cancelled_same by auto
  have "\<exists>u. r = Inr u"
    using assms(1-3) by (cases r) (auto simp: finish_backup_def c1 w Let_def backup_message_def)
  then obtain u where r: "r = Inr u" ..
  obtain stop2 s3 where c2: "cancelRequested h s2 = (stop2, s3)" by (cases "cancelRequested h s2")
  have stop2: "\<not> stop2"
    using assms(1-3) by (auto simp: finish_backup_def c1 w r c2 Let_def backup_message_def count_packages_def)
  let ?r = "reportCoverage h options device ?m (count_packages ?m summary) s3"
  have res: "res = (fst ?r)\<lparr>bs_totalBytes := directorySize h (bo_outputDir options) (snd ?r), bs_success := True\<rparr>"
    "m = ?m" "s' = snd ?r"
    using assms(1) stop2 by (auto simp: finish_backup_def c1 w r c2 Let_def split_beta)
  have fit: "packages_fit (count_packages ?m summary) ?m" by (simp add: packages_fit_def count_packages_def Let_def)
  have fits: "summary_fits (count_packages ?m summary) ?m"
  proof -
    have "summary_fits summary ?m" using assms(4) summary_fits_parts [OF same(2), of summary] by blast
    then show ?thesis unfolding summary_fits_def by (simp add: count_packages_def Let_def)
  qed
  have kept: "packages_fit (fst ?r) ?m" "summary_fits (fst ?r) ?m"
    using reportCoverage_keeps [of h options device ?m "count_packages ?m summary" s3] fit fits by blast+
  have "packages_fit res m" using kept(1) unfolding res(1,2) packages_fit_def by simp
  moreover have "summary_fits res m" using kept(2) unfolding res(1,2) summary_fits_def by simp
  moreover have "bs_messages res = bs_messages summary" "bs_cancelled res = bs_cancelled summary"
    "bs_personalExports res = bs_personalExports summary"
    using reportCoverage_keeps [of h options device ?m "count_packages ?m summary" s3]
    unfolding res(1) by (simp_all add: count_packages_def Let_def)
  moreover have "EvWrite ?p (toJson m) \<in> set (trace s2)" using writeToFile_written [OF w [unfolded r]] res(2) by simp
  then have "EvWrite ?p (toJson m) \<in> set (trace s3)"
  proof (rule trace_extends [rotated])
    show "extends (\<lambda>_. True) s2 s3" using extends_cancelRequested [of "\<lambda>_. True" s2 h] by (simp add: c2)
  qed
  then have "EvWrite ?p (toJson m) \<in> set (trace s')"
    unfolding res(3) reportCoverage_def Let_def snd_conv
    by (rule trace_extends [rotated]) (rule chain_log_fold(2) [OF extends_refl])
  moreover have "saved h (bo_outputDir options) m (world s')"
  proof -
    have "world s' = snd (h_cancelRequested h (world s2))"
      using reportCoverage_world [of h options device ?m "count_packages ?m summary" s3] c2 unfolding res(3)
      by (auto simp: cancelRequested_def split_beta Let_def)
    then show ?thesis using writeToFile_saved [OF w [unfolded r]] unfolding saved_def res(2) by blast
  qed
  moreover have "sizes_measured h mf \<longrightarrow> sizes_measured h m" using sizes_measured_cancelled [of h mf] res(2) by simp
  ultimately show ?thesis using same(1) res(2) by simp
qed

lemma choose_packages_selected:
  assumes "choose_packages h adb options s = (Some packages, s')"
  shows "list_all (\<lambda>n. isValidPackageName n \<and> package_selected (bo_onlyPackages options) (bo_excludePackages options) n)
    (map pi_name packages)"
proof -
  let ?P = "\<lambda>n. isValidPackageName n \<and> package_selected (bo_onlyPackages options) (bo_excludePackages options) n"
  obtain found s1 where l: "listPackages h adb (bo_includeSystemApps options)
      (log_info h ''Enumerating installed packages...'' s) = (found, s1)" by (metis prod.collapse)
  have "isValidPackageName (pi_name p)" if "parse_package_line line = Some p" for line p
    using that by (auto simp: parse_package_line_def Let_def split: if_splits option.splits)
  then have "list_all (isValidPackageName \<circ> pi_name) found"
    using l by (auto simp: listPackages_def Let_def split_beta list_all_iff List.map_filter_def split: if_splits option.splits)
  then have kept: "list_all (?P \<circ> pi_name) (fst (filterPackages h found options s1))"
    by (auto simp: filterPackages_def Let_def list_all_iff)
  have names: "map pi_name (fst (resolveApkPaths h adb ps t)) = map pi_name ps" for ps t
    by (auto simp: resolveApkPaths_def Let_def split_beta apply_paths_def split: option.split)
  have none: "fst (resolveApkPaths h adb [] t) = []" for t by (simp add: resolveApkPaths_def)
  have "map pi_name packages = map pi_name (fst (filterPackages h found options s1))"
    using assms by (auto simp: choose_packages_def l Let_def split_beta names none split: if_splits)
  with kept show ?thesis by (metis list.pred_map)
qed

lemma backup_session_success:
  assumes "backup_session h (chooseBackupBackend h mode device) adb ver options device summary s = Some ((res, mo), s')"
    and "bs_success res" "\<not> bs_success summary" "\<not> bs_cancelled summary" "bs_messages summary = []"
    and "bs_filesystemCaptureCount summary = 0" "bs_filesystemPartialCount summary = 0"
  shows "\<exists>m. backed_up options res m \<and> mf_device m = device \<and> sizes_measured h m \<and>
    (\<not> bo_exportPersonalData options \<longrightarrow> bs_personalExports res = []) \<and> saved h (bo_outputDir options) m (world s') \<and>
    EvWrite (path_join (bo_outputDir options) ''manifest.json'') (toJson m) \<in> set (trace s')"
proof -
  let ?be = "chooseBackupBackend h mode device" and ?dir = "bo_outputDir options"
  obtain ok s1 where e: "ensureDirectory h ?dir s = (ok, s1)" by (cases "ensureDirectory h ?dir s")
  let ?s2 = "if h_exists h (path_join ?dir ''manifest.json'') (world s1) then log_warn h (overwrite_warning ?dir) s1 else s1"
  obtain stamp s3 where u: "utcTimestamp h ?s2 = (stamp, s3)" by (cases "utcTimestamp h ?s2")
  obtain chosen s4 where ch: "choose_packages h adb options s3 = (chosen, s4)" by (cases "choose_packages h adb options s3")
  have "ok \<and> chosen \<noteq> None"
    using assms(1-3) by (cases ok; cases chosen) (auto simp: backup_session_def e u ch Let_def backup_message_def)
  then obtain packages where p: "ok" "chosen = Some packages" by auto
  let ?mf = "(new_manifest ver stamp (be_name ?be) device)\<lparr>mf_packages := map new_entry packages\<rparr>"
  obtain summary1 m1 s5 where cap: "capture_all h ?be adb options device packages summary ?mf s4 = Some ((summary1, m1), s5)"
    using assms(1) p by (auto simp: backup_session_def e u ch Let_def split: option.splits)
  obtain res' m2 s6 where f': "finish_backup h options device summary1 m1 s5 = ((res', m2), s6)"
    by (metis prod.collapse)
  then have f: "finish_backup h options device summary1 m1 s5 = ((res, m2), s')"
    using assms(1) p by (simp add: backup_session_def e u ch cap Let_def)
  have mf: "captured_parts ?mf = (False, [], [])" "mf_formatVersion ?mf = 4" "entries_wf ?mf"
    by (auto simp: captured_parts_def new_manifest_def default_manifest_def entries_wf_def list_all_iff new_entry_def entry_wf_default)
  note c = capture_all_result [OF cap mf(1) assms(6,7)]
  have "\<not> bs_success summary1" using c assms(3) by simp
  note fin = finish_backup_success [OF f assms(2) this]
  have fin': "same_run m1 m2 \<and> packages_fit res m2 \<and> summary_fits res m2 \<and> bs_messages res = bs_messages summary1 \<and>
    bs_cancelled res = bs_cancelled summary1 \<and> bs_personalExports res = bs_personalExports summary1 \<and> (sizes_measured h m1 \<longrightarrow> sizes_measured h m2) \<and> saved h ?dir m2 (world s') \<and> EvWrite (path_join ?dir ''manifest.json'') (toJson m2) \<in> set (trace s')"
    by (rule fin) (use c in blast)
  have run: "same_run ?mf m2" using c fin' same_run_trans by blast
  have "map pe_name (mf_packages ?mf) = map pi_name packages" by (simp add: new_entry_def comp_def)
  then have "map pe_name (mf_packages m2) = map pi_name packages" using run by (simp add: same_run_def)
  then have "backed_up options res m2"
    using run mf(2,3) fin' c assms(4,5) choose_packages_selected [OF ch [unfolded p(2)]]
    by (simp add: backed_up_def same_run_def)
  moreover have "mf_device m2 = device" using run by (simp add: same_run_def new_manifest_def)
  moreover have "sizes_measured h m2" using capture_all_measured [OF cap sizes_measured_new] fin' by blast
  moreover have "\<not> bo_exportPersonalData options \<longrightarrow> bs_personalExports res = []" using c fin' by simp
  ultimately show ?thesis using fin' by blast
qed

lemma stoi_int32: "cxx_stoi s = Some (n, k) \<Longrightarrow> - (2 ^ 31) \<le> n \<and> n < 2 ^ 31"
  by (auto simp: cxx_stoi_def split: option.splits if_splits)

lemma queried_sdk:
  "- (2 ^ 31) \<le> dev_sdkInt (fst (queryDeviceInfo h adb s)) \<and> dev_sdkInt (fst (queryDeviceInfo h adb s)) < 2 ^ 31"
  by (auto simp: queryDeviceInfo_def split_beta Let_def dest: stoi_int32 split: option.splits)

lemma runBackup_leaves:
  assumes "runBackup h adbPath ver options s = Some (res, s')" and "bs_success res"
  shows "\<exists>m. backed_up options res m \<and> - (2 ^ 31) \<le> dev_sdkInt (mf_device m) \<and> dev_sdkInt (mf_device m) < 2 ^ 31 \<and>
    sizes_measured h m \<and>
    (\<not> bo_exportPersonalData options \<longrightarrow> bs_personalExports res = []) \<and> saved h (bo_outputDir options) m (world s') \<and>
    EvWrite (path_join (bo_outputDir options) ''manifest.json'') (toJson m) \<in> set (trace s')"
proof -
  let ?c = "\<lparr>ac_path = adbPath, ac_serial = bo_serial options\<rparr>"
  obtain problem s1 where p: "connectionProblem h ?c s = (problem, s1)" by (cases "connectionProblem h ?c s")
  obtain adb s2 where a: "pinned h ?c s1 = (adb, s2)" by (cases "pinned h ?c s1")
  obtain device s3 where d: "queryDeviceInfo h adb (log_info h ''Querying device...'' s2) = (device, s3)"
    by (cases "queryDeviceInfo h adb (log_info h ''Querying device...'' s2)")
  let ?summary = "default_backup_summary\<lparr>bs_outputDir := bo_outputDir options\<rparr>"
  let ?be = "chooseBackupBackend h (bo_mode options) device"
  let ?s4 = "log_info h (backend_line options device ?be) (log_info h (device_line device) s3)"
  have zero: "\<not> bs_success ?summary" "\<not> bs_cancelled ?summary" "bs_messages ?summary = []"
    "bs_filesystemCaptureCount ?summary = 0" "bs_filesystemPartialCount ?summary = 0"
    by (simp_all add: default_backup_summary_def)
  have "problem = [] \<and> \<not> (bo_mode options = ModeRoot \<and> \<not> isRooted device)"
    using assms zero(1)
    by (auto simp: runBackup_def runBackup_full_def backup_device_def p a d Let_def backup_message_def split: if_splits)
  then obtain mo where "backup_session h ?be adb ver options device ?summary ?s4 = Some ((res, mo), s')"
    using assms(1)
    by (auto simp: runBackup_def runBackup_full_def backup_device_def p a d Let_def split: if_splits option.splits)
  from backup_session_success [OF this] show ?thesis
    using assms(2) zero queried_sdk [of h adb "log_info h ''Querying device...'' s2"] by (auto simp: d)
qed

lemma runBackup_writes:
  assumes "runBackup h adbPath ver options s = Some (res, s')" and "bs_success res"
  shows "\<exists>m. backed_up options res m \<and>
    EvWrite (path_join (bo_outputDir options) ''manifest.json'') (toJson m) \<in> set (trace s')"
  using runBackup_leaves [OF assms] by blast

text \<open>C1: a backup that reports success has written the manifest that describes it: \<open>manifest.json\<close> is
  written in format 4 with well-formed entries for valid, selected packages only, and the summary is true
  of it: the package counts by capture method and error, the shared storage flag, the personal exports
  with their counts, the device path captures and how many are partial; nothing was cancelled and there
  is no error message.\<close>

theorem runBackup_success:
  assumes "runBackup h adbPath ver options s = Some (res, s')" and "bs_success res"
  shows "\<exists>m. backed_up options res m \<and>
    EvWrite (path_join (bo_outputDir options) ''manifest.json'') (toJson m) \<in> set (trace s')"
  using assms by (rule runBackup_writes)

section \<open>A backup on a working host succeeds\<close>

text \<open>A host on which nothing is cancelled, directories can be made and files written.\<close>

definition works :: "'w host \<Rightarrow> string \<Rightarrow> bool" where
  "works h dir \<longleftrightarrow>
     (\<forall>w. \<not> fst (h_cancelRequested h w)) \<and>
     (\<forall>w. h_is_directory h dir w \<or> (\<not> h_exists h dir w \<and> fst (h_create_directories h dir w))) \<and>
     (\<forall>c w. fst (h_write h (path_join dir ''manifest.json'') c w) = Some True)"

lemma works_steps:
  assumes "works h dir"
  shows "fst (cancelRequested h s) \<longleftrightarrow> False" "fst (ensureDirectory h dir s)"
    "fst (writeToFile h m (path_join dir ''manifest.json'') s) = Inr ()"
proof -
  show "fst (cancelRequested h s) \<longleftrightarrow> False"
    using assms by (simp add: works_def cancelRequested_def split_beta Let_def)
  show "fst (ensureDirectory h dir s)"
    using assms by (auto simp: works_def ensureDirectory_def create_directories_def split_beta Let_def split: bool.split)
  have "fst (h_write h (path_join dir ''manifest.json'') c w) = Some True" for c w using assms by (simp add: works_def)
  then show "fst (writeToFile h m (path_join dir ''manifest.json'') s) = Inr ()"
    by (auto simp: writeToFile_def writeTextFile_def Let_def split: option.split prod.split dest!: arg_cong [of _ _ fst])
qed

lemma finish_backup_works:
  assumes "works h (bo_outputDir options)"
  shows "bs_success (fst (fst (finish_backup h options device summary m s)))"
proof -
  obtain stop s1 where c: "cancelRequested h s = (stop, s1)" by (cases "cancelRequested h s")
  have "stop = False" using works_steps(1) [OF assms, of s] c by simp
  obtain u s2 where w: "writeToFile h m (path_join (bo_outputDir options) ''manifest.json'') s1 = (Inr u, s2)"
    using works_steps(3) [OF assms, of m s1] by (metis prod.collapse)
  obtain stop2 s3 where c2: "cancelRequested h s2 = (stop2, s3)" by (cases "cancelRequested h s2")
  have "stop2 = False" using works_steps(1) [OF assms, of s2] c2 by simp
  with \<open>stop = False\<close> show ?thesis by (simp add: finish_backup_def c w c2 Let_def split_beta)
qed

lemma runBackup_works:
  assumes "works h (bo_outputDir options)" "bo_mode options \<noteq> ModeRoot" "\<not> nothing_to_back_up options"
    and "fst (connectionProblem h \<lparr>ac_path = adbPath, ac_serial = bo_serial options\<rparr> s) = []"
    and "\<And>adb device m t. bo_exportPersonalData options \<Longrightarrow> exportPersonalData h adb (bo_outputDir options) device m t \<noteq> None"
  shows "\<exists>res s'. runBackup h adbPath ver options s = Some (res, s') \<and> bs_success res"
proof -
  let ?c = "\<lparr>ac_path = adbPath, ac_serial = bo_serial options\<rparr>"
  let ?summary = "default_backup_summary\<lparr>bs_outputDir := bo_outputDir options\<rparr>"
  have chosen: "\<exists>ps. fst (choose_packages h adb options t) = Some ps" for adb t
    using assms(3) by (simp add: choose_packages_def Let_def split_beta)
  have personal: "backup_personal h adb options device m t \<noteq> None" for adb device m t
    using assms(5) by (auto simp: backup_personal_def go_on_def Let_def split_beta)
  have cap: "capture_all h be adb options device ps summary m t \<noteq> None" for be adb device ps summary m t
    using personal by (auto simp: capture_all_def Let_def split_beta split: option.split)
  have session: "\<exists>r. backup_session h be adb ver options device summary t = Some r \<and> bs_success (fst (fst r))"
    for be adb device summary t
  proof -
    obtain ok s1 where e: "ensureDirectory h (bo_outputDir options) t = (ok, s1)"
      by (cases "ensureDirectory h (bo_outputDir options) t")
    have ok: "ok" using works_steps(2) [OF assms(1), of t] e by simp
    let ?s2 = "if h_exists h (path_join (bo_outputDir options) ''manifest.json'') (world s1)
      then log_warn h (overwrite_warning (bo_outputDir options)) s1 else s1"
    obtain stamp s3 where u: "utcTimestamp h ?s2 = (stamp, s3)" by (cases "utcTimestamp h ?s2")
    obtain ps s4 where ch: "choose_packages h adb options s3 = (Some ps, s4)" using chosen [of adb s3] by (metis prod.collapse)
    let ?mf = "(new_manifest ver stamp (be_name be) device)\<lparr>mf_packages := map new_entry ps\<rparr>"
    obtain summary1 m1 s5 where c: "capture_all h be adb options device ps summary ?mf s4 = Some ((summary1, m1), s5)"
      using cap [of be adb device ps summary ?mf s4] by auto
    obtain res m2 s6 where f: "finish_backup h options device summary1 m1 s5 = ((res, m2), s6)" by (metis prod.collapse)
    then have "bs_success res" using finish_backup_works [OF assms(1), of device summary1 m1 s5] by simp
    then show ?thesis using ok by (simp add: backup_session_def e u ch c f Let_def)
  qed
  have "\<exists>r. runBackup_full h adbPath ver options s = Some r \<and> bs_success (fst (fst r))"
    using assms(2,4) session by (simp add: runBackup_full_def backup_device_def Let_def split_beta)
  then show ?thesis by (auto simp: runBackup_def)
qed

text \<open>C6: a backup that can succeed does: when exactly one usable device answers, root is not demanded,
  something is left to capture, nothing is cancelled, the output directory and \<open>manifest.json\<close> can be
  written, and the personal export is off or returns, the run returns and reports success, whatever the
  device answers to every single capture.\<close>

theorem runBackup_succeeds:
  assumes "works h (bo_outputDir options)" "bo_mode options \<noteq> ModeRoot" "\<not> nothing_to_back_up options"
    and "fst (connectionProblem h \<lparr>ac_path = adbPath, ac_serial = bo_serial options\<rparr> s) = []"
    and "\<And>adb device m t. bo_exportPersonalData options \<Longrightarrow> exportPersonalData h adb (bo_outputDir options) device m t \<noteq> None"
  shows "\<exists>res s'. runBackup h adbPath ver options s = Some (res, s') \<and> bs_success res"
  using assms by (rule runBackup_works)

text \<open>A host with one device that answers nothing else, and a run that copies one path.\<close>

definition phone_host :: "unit host" where
  "phone_host = quiet_host\<lparr>h_exec := (\<lambda>io args w.
     (silent_success\<lparr>stdOut := if last args = ''-l'' then ''A device'' else []\<rparr>, w))\<rparr>"

definition phone_options :: BackupOptions where
  "phone_options = default_backup_options\<lparr>bo_outputDir := ''b'', bo_exportPersonalData := False,
     bo_filesystemPaths := [''/data/app'']\<rparr>"

definition phone_run :: "BackupSummary \<times> unit sys" where
  "phone_run = the (runBackup phone_host ''adb'' ''1.0'' phone_options quiet_sys)"

lemma phone_works:
  "works phone_host (bo_outputDir phone_options)" "bo_mode phone_options \<noteq> ModeRoot" "\<not> nothing_to_back_up phone_options"
  "\<not> bo_exportPersonalData phone_options"
  by (simp_all add: works_def phone_host_def phone_options_def quiet_host_def default_backup_options_def nothing_to_back_up_def)

lemma phone_connected: "fst (connectionProblem phone_host \<lparr>ac_path = ''adb'', ac_serial = bo_serial phone_options\<rparr> quiet_sys) = []"
  by code_simp

lemma phone_run_succeeds: "\<exists>r. runBackup phone_host ''adb'' ''1.0'' phone_options quiet_sys = Some r \<and> bs_success (fst r)"
  using runBackup_works [OF phone_works(1-3) phone_connected] phone_works(4) by fastforce

lemma runBackup_succeeds_witness:
  "\<exists>res s'. runBackup phone_host ''adb'' ''1.0'' phone_options quiet_sys = Some (res, s') \<and> bs_success res"
  by (rule runBackup_succeeds [OF phone_works(1-3) phone_connected]) (use phone_works(4) in blast)

lemma runBackup_success_witness:
  "\<exists>m. backed_up phone_options (fst phone_run) m \<and>
    EvWrite (path_join (bo_outputDir phone_options) ''manifest.json'') (toJson m) \<in> set (trace (snd phone_run))"
proof -
  obtain r where r: "runBackup phone_host ''adb'' ''1.0'' phone_options quiet_sys = Some r" "bs_success (fst r)"
    using phone_run_succeeds by blast
  show ?thesis
    by (rule runBackup_success [of phone_host "''adb''" "''1.0''" _ quiet_sys]) (use r in \<open>simp_all add: phone_run_def\<close>)
qed

end
