(* ===== verification/RestoreRuns.thy ===== *)
theory RestoreRuns
  imports BackupRuns
begin

text \<open>
  What a run of \<open>runRestore\<close> amounts to: one device, every selected package counted once, and the
  directories that are refused.
\<close>

section \<open>Restoring\<close>

lemma restore_backend:
  "(if b then root_backend h (dev_root device) else standard_backend h) =
   chooseBackupBackend h (if b then ModeRoot else ModeStandard) device"
  by (simp add: chooseBackupBackend_def)

lemma chain_restore_personal [chain]:
  assumes "device_runs adb s0 s"
  shows "device_runs adb s0 (snd (restorePersonalData h adb dir mf sdk s))"
proof -
  have pushed: "device_runs adb s0 (snd (restore_file h adb dir mf kind name msg t))" if "device_runs adb s0 t" for kind name msg t
    using that by (auto simp: restore_file_def pushForImport_def split_beta Let_def intro!: chain split: option.split)
  have loop: "device_runs adb s0 (snd (wifi_restore_loop h adb js a b t))" if "device_runs adb s0 t" for js a b t
    using that
  proof (induction js arbitrary: a b t)
    case (Cons j js)
    then show ?case by (auto simp: Let_def split_beta intro!: Cons.IH chain)
  qed simp
  have wifi: "device_runs adb s0 (snd (restore_wifi h adb dir mf sdk t))" if "device_runs adb s0 t" for t
    using that by (auto simp: restore_wifi_def split_beta Let_def intro!: chain loop split: option.split sum.split)
  show ?thesis
    unfolding restorePersonalData_def Let_def split_beta snd_conv by (intro chain_archival wifi pushed assms)
qed

lemma chain_restore_stages [chain]:
  assumes "device_runs adb s0 s"
  shows "device_runs adb s0 (snd (restore_apks h adb options names mf s))"
    "device_runs adb s0 (snd (restore_data h (chooseBackupBackend h mode device) adb options unable names mf s))"
    "device_runs adb s0 (snd (restore_shared h (chooseBackupBackend h mode device) adb options unable mf s))"
    "device_runs adb s0 (snd (restore_personal h adb options device mf s))"
  using assms
  by (auto simp: restore_apks_def restore_data_def restore_shared_def restore_personal_def split_beta Let_def
      intro!: chain chosen.chain_backend)

lemma chain_restore_end [chain]:
  assumes "extends (execs_only P) s0 s"
  shows "extends (execs_only P) s0 (report_captures h dir mf s)"
    "extends (execs_only P) s0 (snd (finish_restore h summary s))"
  using assms by (auto simp: report_captures_def finish_restore_def split_beta Let_def intro!: chain)

lemma chain_restore_selected [chain]:
  "device_runs adb s0 s \<Longrightarrow>
   device_runs adb s0 (snd (restore_selected h (chooseBackupBackend h mode device) adb options device unable names mf s))"
  unfolding restore_selected_def Let_def split_beta by (intro chain)

lemma chain_restore_device:
  assumes "extends (execs_only (run_call adb)) s0 s"
  shows "extends (execs_only (run_call adb)) s0 (snd (restore_device h adb options mf s))"
proof -
  obtain device s1 where d: "queryDeviceInfo h adb (log_info h (loaded_line mf) s) = (device, s1)"
    by (metis prod.collapse)
  have "extends (execs_only (run_call adb)) s0 (snd (queryDeviceInfo h adb (log_info h (loaded_line mf) s)))"
    using assms by (intro chain)
  then have s1: "extends (execs_only (run_call adb)) s0 s1" by (simp add: d)
  have sel: "extends (execs_only (run_call adb)) s0
      (snd (restore_selected h (chooseBackupBackend h mode device) adb options device unable names mf' t))"
    if "extends (execs_only (run_call adb)) s0 t" for mode unable names mf' t
    by (rule run_call_device [OF that]) (rule chain_restore_selected [OF extends_refl])
  show ?thesis
    using s1 by (auto simp: restore_device_def d Let_def restore_backend intro!: chain sel)
qed

text \<open>A restore only ever talks to one device, the one pinned after the connection check, apart from
  \<open>adb devices -l\<close>, through every stage, backend and error path.\<close>

theorem runRestore_one_device:
  "extends (execs_only (run_call (run_client h adbPath (ro_serial options) s))) s (snd (runRestore h adbPath ver options s))"
proof -
  let ?c = "\<lparr>ac_path = adbPath, ac_serial = ro_serial options\<rparr>"
  let ?adb = "run_client h adbPath (ro_serial options) s"
  obtain problem s1 where p: "connectionProblem h ?c s = (problem, s1)" by (cases "connectionProblem h ?c s")
  obtain adb s2 where a: "pinned h ?c s1 = (adb, s2)" by (cases "pinned h ?c s1")
  have adb: "?adb = adb" by (simp add: run_client_def p a)
  have "extends (execs_only (run_call adb)) s s1" "extends (execs_only (run_call adb)) s s2"
    using run_start [OF refl, where h = h and adbPath = adbPath and serial = "ro_serial options" and s = s] by (simp_all add: p a adb)
  then show ?thesis by (auto simp: runRestore_def p a adb Let_def intro!: chain_restore_device split: sum.split)
qed

section \<open>What the restore summary counts\<close>

lemma selected_length:
  assumes "map pe_name es = map pe_name (mf_packages mf)"
  shows "length (filter (\<lambda>e. pe_name e \<in> set (selected_names options mf)) es) = length (selected_names options mf)"
proof -
  let ?sel = "package_selected (ro_onlyPackages options) (ro_excludePackages options)"
  have names: "selected_names options mf = filter ?sel (map pe_name es)" by (simp add: selected_names_def assms)
  have "filter (\<lambda>e. pe_name e \<in> set (filter ?sel (map pe_name es))) es = filter (\<lambda>e. ?sel (pe_name e)) es"
    by (rule filter_cong) auto
  then show ?thesis by (simp add: names filter_map comp_def)
qed

lemma count_partition:
  "count_where (\<lambda>e. pe_error e \<noteq> []) es + count_where (\<lambda>e. pe_error e = [] \<and> P e) es +
     count_where (\<lambda>e. pe_error e = [] \<and> \<not> P e) es = int (length es)"
  by (induction es) (auto simp: count_where_def)

lemma count_restored_total:
  "rs_packagesRestored (count_restored options unable names mf x) + rs_packagesFailed (count_restored options unable names mf x) +
   rs_packagesSkipped (count_restored options unable names mf x) =
   int (length (filter (\<lambda>e. pe_name e \<in> set names) (mf_packages mf)))"
  using count_partition [of "filter (\<lambda>e. pe_name e \<in> set names) (mf_packages mf)" "was_restored options unable"]
  by (simp add: count_restored_def Let_def add.commute)

lemma restore_names:
  "map pe_name (mf_packages (fst (restore_apks h adb options names mf s))) = map pe_name (mf_packages mf)"
  "map pe_name (mf_packages (fst (restore_data h (chooseBackupBackend h mode device) adb options unable names mf s))) =
     map pe_name (mf_packages mf)"
proof -
  have "pe_name b = pe_name a" if "same_but_error a b" for a b
    using that by (cases a, cases b) (simp add: same_but_error_def)
  then have "list_all2 (\<lambda>a b. pe_name b = pe_name a) (mf_packages mf)
      (mf_packages (fst (Captures.installApks h adb (ro_inputDir options) mf names s)))"
    using installApks_entries by (rule list_all2_mono [rotated])
  then show "map pe_name (mf_packages (fst (restore_apks h adb options names mf s))) = map pe_name (mf_packages mf)"
    by (auto simp: restore_apks_def list_all2_conv_all_nth list_eq_iff_nth_eq)
  show "map pe_name (mf_packages (fst (restore_data h (chooseBackupBackend h mode device) adb options unable names mf s))) =
     map pe_name (mf_packages mf)"
    by (simp add: restore_data_def Let_def split_beta chosen.names_kept)
qed



section \<open>Directories that are not restored\<close>

text \<open>Asking which devices there are, and what the device is.\<close>

definition listing_call :: "string \<Rightarrow> proc_io \<Rightarrow> string list \<Rightarrow> bool" where
  "listing_call adbPath io args \<longleftrightarrow> io = Capture None \<and> args = [adbPath, ''devices'', ''-l'']"

definition query_call :: "AdbClient \<Rightarrow> proc_io \<Rightarrow> string list \<Rightarrow> bool" where
  "query_call adb io args \<longleftrightarrow>
     io = Capture None \<and>
     (args = [ac_path adb, ''devices'', ''-l''] \<or>
      args \<in> (\<lambda>cmd. baseArgs adb @ [''shell'', cmd]) `
        {''getprop ro.product.model'', ''getprop ro.product.manufacturer'', ''getprop ro.build.version.release'',
         ''getprop ro.build.version.sdk'', ''id -u'', ''command -v su 2>/dev/null || which su 2>/dev/null'',
         ''su -c '' @ shellQuote ''id -u'' @ '' 2>/dev/null''})"

lemma chain_query [chain]:
  "extends (execs_only (query_call adb)) s0 s \<Longrightarrow> extends (execs_only (query_call adb)) s0 (snd (queryDeviceInfo h adb s))"
  unfolding queryDeviceInfo_def detectRoot_def Let_def split_beta
  by (auto simp: query_call_def intro!: chain)


text \<open>A backup without packages cannot be restored: \<open>runBackup\<close> makes one on purpose for a phone that
  has no apps, for its photos and contacts, but a restore of it always fails with "no packages matched",
  pushes nothing back and asks the device only what it is.\<close>

theorem restore_without_packages:
  "\<not> rs_success (fst (restore_device h adb options (manifest\<lparr>mf_packages := []\<rparr>) s)) \<and>
   \<not> rs_sharedStorageRestored (fst (restore_device h adb options (manifest\<lparr>mf_packages := []\<rparr>) s)) \<and>
   rs_messages (fst (restore_device h adb options (manifest\<lparr>mf_packages := []\<rparr>) s)) = [no_selection_message] \<and>
   extends (execs_only (query_call adb)) s (snd (restore_device h adb options (manifest\<lparr>mf_packages := []\<rparr>) s))"
proof -
  let ?m = "manifest\<lparr>mf_packages := []\<rparr>"
  obtain device s1 where d: "queryDeviceInfo h adb (log_info h (loaded_line ?m) s) = (device, s1)" by (metis prod.collapse)
  have "extends (execs_only (query_call adb)) s (snd (queryDeviceInfo h adb (log_info h (loaded_line ?m) s)))"
    by (intro chain extends_refl)
  then have "extends (execs_only (query_call adb)) s s1" by (simp add: d)
  moreover have "selected_names options ?m = []" by (simp add: selected_names_def)
  ultimately show ?thesis
    by (auto simp: restore_device_def d Let_def default_restore_summary_def restore_message_def intro!: chain)
qed

end
