(* ===== verification/BackupThenRestore.thy ===== *)
theory BackupThenRestore
  imports RestoreRuns
begin

text \<open>
  \<open>runBackup\<close> and \<open>runRestore\<close> together: the directory a successful backup leaves is one that a restore accepts, and
  the manifest the restore works on is the one the backup has described itself with.
\<close>

section \<open>What is stored of a manifest\<close>

text \<open>The state adb gave for the device is the only field that is not written; it is read back as \<open>device\<close>.\<close>

definition stored :: "Manifest \<Rightarrow> Manifest" where
  "stored m = m\<lparr>mf_device := (mf_device m)\<lparr>dev_state := ''device''\<rparr>\<rparr>"

lemma toJson_stored: "toJson (stored m) = toJson m"
  by (simp add: toJson_def manifest_json_def stored_def deviceToJson_def isRooted_def)

text \<open>The numbers a manifest of a backup can hold: below a petabyte each, and counts that fit an \<open>int\<close>.\<close>

definition sizes_fit :: "Manifest \<Rightarrow> bool" where
  "sizes_fit m \<longleftrightarrow>
     mf_sharedStorageArchiveBytes m < 10 ^ 15 \<and> list_all wf_capture (mf_filesystemCaptures m) \<and>
     list_all wf_personal (mf_personalDataExports m) \<and> list_all wf_entry (mf_packages m)"

lemma stored_roundtrip:
  assumes "sizes_fit m" "mf_formatVersion m = 4" "- (2 ^ 31) \<le> dev_sdkInt (mf_device m)" "dev_sdkInt (mf_device m) < 2 ^ 31"
  shows "fromJson (toJson m) = Inr (stored m)"
proof -
  have "wf_manifest (stored m)"
    using assms by (simp add: wf_manifest_def sizes_fit_def stored_def wf_device_def)
  from fromJson_toJson [OF this] show ?thesis by (simp add: toJson_stored)
qed

text \<open>A disk on which no file or directory has a petabyte, and exports whose item counts are values of \<open>int\<close>.\<close>

definition small_disk :: "'w host \<Rightarrow> bool" where
  "small_disk h \<longleftrightarrow> (\<forall>path s. fileSize h path s < 10 ^ 15 \<and> directorySize h path s < 10 ^ 15)"

definition int_counts :: "BackupSummary \<Rightarrow> bool" where
  "int_counts summary \<longleftrightarrow> list_all (\<lambda>r. - (2 ^ 31) \<le> er_count r \<and> er_count r < 2 ^ 31) (bs_personalExports summary)"

lemma measured_sizes_fit:
  assumes "sizes_measured h m" "small_disk h" "summary_fits summary m" "int_counts summary"
  shows "sizes_fit m"
proof -
  have small: "n < 10 ^ 15" if "measured h n" for n
    using that assms(2) by (auto simp: measured_def small_disk_def)
  let ?rs = "filter (\<lambda>r. er_reason r = []) (bs_personalExports summary)"
  have "map px_itemCount (mf_personalDataExports m) = map er_count ?rs"
  proof -
    have "map (\<lambda>x. (px_kind x, px_itemCount x)) (mf_personalDataExports m) = map (\<lambda>r. (er_kind r, er_count r)) ?rs"
      using assms(3) by (simp add: summary_fits_def)
    from arg_cong [OF this, of "map snd"] show ?thesis by (simp add: comp_def)
  qed
  moreover have "list_all (\<lambda>n. - (2 ^ 31) \<le> n \<and> n < 2 ^ 31) (map er_count ?rs)"
    using assms(4) by (auto simp: int_counts_def list_all_iff)
  ultimately have "list_all (\<lambda>n. - (2 ^ 31) \<le> n \<and> n < 2 ^ 31) (map px_itemCount (mf_personalDataExports m))" by simp
  then show ?thesis
    using assms(1) small
    by (simp add: sizes_measured_def entry_measured_def sizes_fit_def list_all_iff wf_capture_def wf_personal_def wf_entry_def)
qed

section \<open>A file system that keeps the manifest\<close>

text \<open>What was written to \<open>path\<close> is read from it, and neither a look at the cancel flag nor listing the devices
  changes that.\<close>

definition same_file :: "'w host \<Rightarrow> string \<Rightarrow> 'w \<Rightarrow> 'w \<Rightarrow> bool" where
  "same_file h path w w' \<longleftrightarrow> h_is_regular h path w' = h_is_regular h path w \<and> h_read h path w' = h_read h path w"

definition keeps_file :: "'w host \<Rightarrow> string \<Rightarrow> string \<Rightarrow> bool" where
  "keeps_file h adbPath path \<longleftrightarrow>
     (\<forall>content w w'. h_write h path content w = (Some True, w') \<longrightarrow> h_is_regular h path w' \<and> h_read h path w' = Some (content, True)) \<and>
     (\<forall>w. same_file h path w (snd (h_cancelRequested h w))) \<and>
     (\<forall>w. same_file h path w (snd (h_exec h (Capture None) [adbPath, ''devices'', ''-l''] w)))"

lemma same_file_refl [simp]: "same_file h path w w"
  by (simp add: same_file_def)

lemma same_file_trans: "same_file h path u v \<Longrightarrow> same_file h path v w \<Longrightarrow> same_file h path u w"
  by (simp add: same_file_def)

lemma listing_keeps:
  assumes "keeps_file h adbPath path"
  shows "same_file h path (world s) (world (snd (listConnectedDevices h adbPath s)))"
proof -
  obtain stop s1 where c: "cancelRequested h s = (stop, s1)" by (metis prod.collapse)
  have s1: "same_file h path (world s) (world s1)"
    using assms c by (auto simp: keeps_file_def cancelRequested_def split_beta Let_def)
  then show ?thesis
    using assms same_file_trans [OF s1]
    by (auto simp: listConnectedDevices_def Process_run_def process_def c keeps_file_def split_beta Let_def split: bool.split)
qed

lemma connecting_keeps:
  assumes "keeps_file h adbPath path"
  shows "same_file h path (world s) (world (snd (connectionProblem h \<lparr>ac_path = adbPath, ac_serial = serial\<rparr> s)))"
    "same_file h path (world s) (world (snd (pinned h \<lparr>ac_path = adbPath, ac_serial = serial\<rparr> s)))"
  using listing_keeps [OF assms, of s]
  by (auto simp: connectionProblem_def pinned_def split_beta Let_def split: option.split)

lemma load_saved:
  assumes "saved h dir m w" "keeps_file h adbPath (path_join dir ''manifest.json'')"
    and "same_file h (path_join dir ''manifest.json'') w (world s)"
    and "sizes_fit m" "mf_formatVersion m = 4" "- (2 ^ 31) \<le> dev_sdkInt (mf_device m)" "dev_sdkInt (mf_device m) < 2 ^ 31"
  shows "load_backup h ver dir s = Inr (stored m)"
proof -
  let ?p = "path_join dir ''manifest.json''"
  obtain w0 w1 where w: "h_write h ?p (toJson m) w0 = (Some True, w1)" "w = snd (h_cancelRequested h w1)"
    using assms(1) by (auto simp: saved_def)
  have "h_is_regular h ?p w1" "h_read h ?p w1 = Some (toJson m, True)" using assms(2) w(1) by (auto simp: keeps_file_def)
  moreover have "same_file h ?p w1 w" using assms(2) w(2) by (simp add: keeps_file_def)
  ultimately have "h_is_regular h ?p (world s)" "h_read h ?p (world s) = Some (toJson m, True)"
    using assms(3) by (simp_all add: same_file_def)
  then show ?thesis
    using stored_roundtrip [OF assms(4-7)] assms(5)
    by (simp add: load_backup_def readFromFile_def readTextFile_def stored_def Let_def)
qed

text \<open>A restore of \<open>m\<close>, once the device is found and pinned.\<close>

definition restore_of :: "'w host \<Rightarrow> string \<Rightarrow> RestoreOptions \<Rightarrow> Manifest \<Rightarrow> 'w sys \<Rightarrow> RestoreSummary \<times> 'w sys" where
  "restore_of h adbPath options m s =
     (let c = \<lparr>ac_path = adbPath, ac_serial = ro_serial options\<rparr>;
          (adb, s2) = pinned h c (snd (connectionProblem h c s))
      in restore_device h adb options m s2)"


text \<open>A phone and a disk: files by their paths.\<close>

definition disk_host :: "(string \<Rightarrow> string option) host" where
  "disk_host =
     \<lparr>h_exec = (\<lambda>io args w. (silent_success\<lparr>stdOut := if last args = ''-l'' then ''A device'' else []\<rparr>, w)),
      h_cancelRequested = (\<lambda>w. (False, w)), h_verbose = False,
      h_exists = (\<lambda>p w. w p \<noteq> None), h_is_directory = (\<lambda>p w. p = ''b''), h_is_regular = (\<lambda>p w. w p \<noteq> None),
      h_file_size = (\<lambda>p w. Option.bind (w p) (\<lambda>content. if length content < 10 ^ 15 then Some (length content) else None)), h_read = (\<lambda>p w. map_option (\<lambda>content. (content, True)) (w p)),
      h_write = (\<lambda>p content w. (Some True, w(p \<mapsto> content))),
      h_create_directories = (\<lambda>p w. (True, w)), h_remove = (\<lambda>p w. w(p := None)), h_remove_all = (\<lambda>p w. w(p := None)),
      h_list = (\<lambda>p w. None), h_walk = (\<lambda>p w. None), h_owner_only = (\<lambda>p w. w),
      h_time = (\<lambda>w. (1767225600, w))\<rparr>"

definition disk_start :: "(string \<Rightarrow> string option) sys" where
  "disk_start = \<lparr>world = (\<lambda>_. None), trace = []\<rparr>"

definition disk_restore :: RestoreOptions where
  "disk_restore = default_restore_options\<lparr>ro_inputDir := ''b''\<rparr>"

lemma disk_keeps: "keeps_file disk_host adbPath path"
  by (simp add: keeps_file_def disk_host_def same_file_def)

lemma disk_works: "works disk_host (bo_outputDir phone_options)"
  by (simp add: works_def disk_host_def phone_options_def)

lemma disk_connected: "fst (connectionProblem disk_host \<lparr>ac_path = ''adb'', ac_serial = []\<rparr> s) = []"
proof -
  have "problem_with [] (parse_devices ''A device'') = []" by code_simp
  then show ?thesis
    by (simp add: connectionProblem_def listConnectedDevices_def Process_run_def process_def cancelRequested_def disk_host_def
        silent_success_def split_beta Let_def)
qed

lemma disk_small: "small_disk disk_host"
  by (auto simp: small_disk_def fileSize_def directorySize_def disk_host_def split: option.splits bind_splits)

lemma disk_run:
  "\<exists>res s'. runBackup disk_host ''adb'' ''1.0'' phone_options disk_start = Some (res, s') \<and> bs_success res \<and> int_counts res"
proof -
  have "bo_serial phone_options = []" by (simp add: phone_options_def default_backup_options_def)
  then obtain res s' where run: "runBackup disk_host ''adb'' ''1.0'' phone_options disk_start = Some (res, s')" "bs_success res"
    using runBackup_works [OF disk_works phone_works(2,3), of "''adb''" disk_start "''1.0''"] disk_connected phone_works(4) by auto
  have "bs_personalExports res = []" using runBackup_leaves [OF run] phone_works(4) by blast
  then show ?thesis using run by (auto simp: int_counts_def)
qed


end
