(* ===== verification/HttpServer.thy ===== *)
theory HttpServer
  imports PersonalTexts
begin

text \<open>
  \<open>src/src/gui/HttpServer.cpp\<close>: decoding of targets and queries, byte ranges, and one connection
  from the bytes read off its socket to the bytes written to it; then the listening socket and the
  loop that accepts.  The sockets are not part of the sources: they are the lists of what successive \<open>read\<close>,
  \<open>write\<close> and \<open>accept\<close> calls answer.
\<close>

unbundle bit_operations_syntax

section \<open>Messages\<close>

record Request =
  rq_method :: string
  rq_target :: string
  rq_path :: string
  rq_query :: string
  rq_headers :: "(string \<times> string) list"
  rq_body :: string

record Response =
  rp_status :: int
  rp_contentType :: string
  rp_body :: string
  rp_headers :: "(string \<times> string) list"
  rp_filePath :: string
  rp_fileOffset :: nat
  rp_fileLength :: nat

definition empty_request :: Request where
  "empty_request = \<lparr>rq_method = [], rq_target = [], rq_path = [], rq_query = [], rq_headers = [], rq_body = []\<rparr>"

definition empty_response :: Response where
  "empty_response = \<lparr>rp_status = 200, rp_contentType = ''application/json; charset=utf-8'', rp_body = [],
     rp_headers = [], rp_filePath = [], rp_fileOffset = 0, rp_fileLength = 0\<rparr>"

definition Response_json :: "string \<Rightarrow> int \<Rightarrow> Response" where
  "Response_json body status =
     empty_response\<lparr>rp_status := status, rp_contentType := ''application/json; charset=utf-8'', rp_body := body\<rparr>"

definition Response_html :: "string \<Rightarrow> int \<Rightarrow> Response" where
  "Response_html body status =
     empty_response\<lparr>rp_status := status, rp_contentType := ''text/html; charset=utf-8'', rp_body := body\<rparr>"

definition Response_text :: "string \<Rightarrow> int \<Rightarrow> Response" where
  "Response_text body status =
     empty_response\<lparr>rp_status := status, rp_contentType := ''text/plain; charset=utf-8'', rp_body := body\<rparr>"

definition Response_file :: "string \<Rightarrow> nat \<Rightarrow> nat \<Rightarrow> string \<Rightarrow> Response" where
  "Response_file path offset len contentType =
     empty_response\<lparr>rp_contentType := contentType, rp_filePath := path, rp_fileOffset := offset, rp_fileLength := len\<rparr>"

definition statusText :: "int \<Rightarrow> string" where
  "statusText status =
     (if status = 200 then ''OK'' else if status = 202 then ''Accepted''
      else if status = 400 then ''Bad Request'' else if status = 403 then ''Forbidden''
      else if status = 404 then ''Not Found'' else if status = 405 then ''Method Not Allowed''
      else if status = 409 then ''Conflict'' else if status = 206 then ''Partial Content''
      else if status = 413 then ''Payload Too Large'' else if status = 416 then ''Range Not Satisfiable''
      else if status = 500 then ''Internal Server Error'' else if status = 503 then ''Service Unavailable''
      else if 500 \<le> status then ''Server Error'' else if 400 \<le> status then ''Client Error''
      else if 300 \<le> status then ''Redirection'' else if 200 \<le> status then ''Success''
      else ''Informational'')"

section \<open>Targets and queries\<close>

definition hexDigitValue :: "char \<Rightarrow> int" where
  "hexDigitValue c =
     (if 48 \<le> byte_val c \<and> byte_val c \<le> 57 then int (byte_val c) - 48
      else if 97 \<le> byte_val c \<and> byte_val c \<le> 102 then int (byte_val c) - 97 + 10
      else if 65 \<le> byte_val c \<and> byte_val c \<le> 70 then int (byte_val c) - 65 + 10
      else - 1)"

definition toLower :: "string \<Rightarrow> string" where
  "toLower text = map to_lower text"

fun urlDecode :: "string \<Rightarrow> string" where
  "urlDecode [] = []"
| "urlDecode (c # cs) =
     (if c = CHR ''+'' then CHR '' '' # urlDecode cs
      else if c = CHR ''%'' then
        (case cs of
           a # b # rest \<Rightarrow>
             (let high = hexDigitValue a; low = hexDigitValue b
              in if 0 \<le> high \<and> 0 \<le> low then char_of (nat (push_bit 4 high OR low)) # urlDecode rest
                 else c # urlDecode cs)
         | _ \<Rightarrow> c # urlDecode cs)
      else c # urlDecode cs)"

definition query_field :: "string \<Rightarrow> string \<times> string" where
  "query_field field =
     (case find_char (CHR ''='') field of
        None \<Rightarrow> (urlDecode field, [])
      | Some equals \<Rightarrow> (urlDecode (take equals field), urlDecode (drop (equals + 1) field)))"

definition parseQuery :: "string \<Rightarrow> (string \<times> string) list" where
  "parseQuery query = map query_field (filter (\<lambda>field. field \<noteq> []) (split query (CHR ''&'')))"

definition Request_header :: "Request \<Rightarrow> string \<Rightarrow> string" where
  "Request_header request name =
     (case find (\<lambda>(n, _). toLower n = toLower name) (rq_headers request) of
        Some (_, v) \<Rightarrow> v | None \<Rightarrow> [])"

definition Request_param :: "Request \<Rightarrow> string \<Rightarrow> string \<Rightarrow> string" where
  "Request_param request name fallback =
     (case find (\<lambda>(n, _). n = name) (parseQuery (rq_query request)) of
        Some (_, v) \<Rightarrow> v | None \<Rightarrow> fallback)"

section \<open>Byte ranges\<close>

datatype RangeResult = RangeNone | Satisfiable nat nat | Unsatisfiable

definition range_number :: "string \<Rightarrow> nat option" where
  "range_number text = (if text = [] \<or> \<not> list_all is_digit text then None else cxx_stoull text)"

definition suffix_range :: "string \<Rightarrow> nat \<Rightarrow> RangeResult" where
  "suffix_range final whole =
     (case range_number final of
        None \<Rightarrow> RangeNone
      | Some n \<Rightarrow>
          if n = 0 \<or> whole = 0 then Unsatisfiable
          else let from = (if whole \<le> n then 0 else whole - n) in Satisfiable from (whole - 1 - from + 1))"

definition last_byte :: "string \<Rightarrow> nat \<Rightarrow> nat \<Rightarrow> nat option" where
  "last_byte final from whole =
     (if final = [] then Some (if whole = 0 then 0 else whole - 1)
      else case range_number final of
        None \<Rightarrow> None
      | Some to \<Rightarrow> if to < from then None else Some to)"

definition first_last_range :: "string \<Rightarrow> string \<Rightarrow> nat \<Rightarrow> RangeResult" where
  "first_last_range first final whole =
     (case range_number first of
        None \<Rightarrow> RangeNone
      | Some from \<Rightarrow>
          (case last_byte final from whole of
             None \<Rightarrow> RangeNone
           | Some to \<Rightarrow>
               if whole \<le> from then Unsatisfiable
               else let to' = (if whole \<le> to then whole - 1 else to) in Satisfiable from (to' - from + 1)))"

definition parseByteRange :: "string \<Rightarrow> nat \<Rightarrow> RangeResult" where
  "parseByteRange header whole =
     (let value = trim header
      in if \<not> startsWith value ''bytes='' \<or> CHR '','' \<in> set value then RangeNone
         else let spec = drop 6 value in case find_char (CHR ''-'') spec of
           None \<Rightarrow> RangeNone
         | Some dash \<Rightarrow>
             (let first = take dash spec; final = drop (dash + 1) spec
              in if first = [] then suffix_range final whole else first_last_range first final whole))"

definition applyRange :: "Request \<Rightarrow> Response \<Rightarrow> Response" where
  "applyRange request response =
     (if rp_filePath response = [] \<or> rp_status response \<noteq> 200 then response
      else case parseByteRange (Request_header request ''Range'') (rp_fileLength response) of
        RangeNone \<Rightarrow> response
      | Satisfiable start len \<Rightarrow>
          response\<lparr>rp_status := 206,
            rp_headers := rp_headers response @
              [(''Content-Range'', ''bytes '' @ nat_to_string start @ ''-'' @ nat_to_string (start + len - 1) @ ''/'' @
                 nat_to_string (rp_fileLength response))],
            rp_fileOffset := u64 (rp_fileOffset response + start), rp_fileLength := len\<rparr>
      | Unsatisfiable \<Rightarrow>
          response\<lparr>rp_headers := rp_headers response @
              [(''Content-Range'', ''bytes */'' @ nat_to_string (rp_fileLength response))],
            rp_status := 416, rp_filePath := [], rp_body := []\<rparr>)"

section \<open>Reading a request\<close>

text \<open>
  What one \<open>read\<close> call answers: bytes, \<open>EINTR\<close>, or the end of the stream, an error or a time-out.
  A list that is used up is a peer that hung up.
\<close>

datatype sock_read = Got string | ReadIntr | Ended

definition kMaxHeaderBytes :: nat where "kMaxHeaderBytes = 16 * 1024"
definition kMaxBodyBytes :: nat where "kMaxBodyBytes = 4 * 1024 * 1024"

definition head_mark :: string where
  "head_mark = [CHR 0x0D, CHR 0x0A, CHR 0x0D, CHR 0x0A]"

text \<open>The error status (0: nothing to reply to), or the buffer, where its head ends, and the reads left.\<close>

fun read_head :: "sock_read list \<Rightarrow> string \<Rightarrow> int + (string \<times> nat \<times> sock_read list)" where
  "read_head reads buffer =
     (case find_sub head_mark buffer of
        Some headerEnd \<Rightarrow> Inr (buffer, headerEnd, reads)
      | None \<Rightarrow>
          (case reads of
             [] \<Rightarrow> Inl 0
           | ReadIntr # rest \<Rightarrow> read_head rest buffer
           | Ended # rest \<Rightarrow> Inl 0
           | Got chunk # rest \<Rightarrow>
               if kMaxHeaderBytes < length (buffer @ chunk) then Inl 413 else read_head rest (buffer @ chunk)))"

declare read_head.simps [simp del]

fun parse_headers :: "string list \<Rightarrow> nat \<Rightarrow> (string \<times> string) list \<Rightarrow> (nat \<times> (string \<times> string) list) option" where
  "parse_headers [] contentLength headers = Some (contentLength, headers)"
| "parse_headers (l # ls) contentLength headers =
     (let line = trim l
      in if line = [] then parse_headers ls contentLength headers
         else case find_char (CHR '':'') line of
           None \<Rightarrow> parse_headers ls contentLength headers
         | Some colon \<Rightarrow>
             (let name = trim (take colon line); val = trim (drop (colon + 1) line)
              in if toLower name = ''content-length'' then
                   (case cxx_stoll val of
                      None \<Rightarrow> None
                    | Some parsed \<Rightarrow>
                        if parsed < 0 then None else parse_headers ls (nat parsed) (headers @ [(name, val)]))
                 else parse_headers ls contentLength (headers @ [(name, val)])))"

definition parse_target :: "string \<Rightarrow> string \<Rightarrow> Request" where
  "parse_target method target =
     (case find_char (CHR ''?'') target of
        None \<Rightarrow> empty_request\<lparr>rq_method := method, rq_target := target, rq_path := urlDecode target\<rparr>
      | Some questionMark \<Rightarrow>
          empty_request\<lparr>rq_method := method, rq_target := target, rq_path := urlDecode (take questionMark target),
            rq_query := drop (questionMark + 1) target\<rparr>)"

definition parse_head :: "string \<Rightarrow> (Request \<times> nat) option" where
  "parse_head head =
     (case split head (CHR 0x0A) of
        [] \<Rightarrow> None
      | first # ls \<Rightarrow>
          (case split (trim first) (CHR '' '') of
             method # target # _ \<Rightarrow>
               map_option (\<lambda>(n, hs). ((parse_target method target)\<lparr>rq_headers := hs\<rparr>, n)) (parse_headers ls 0 [])
           | _ \<Rightarrow> None))"

fun read_body :: "sock_read list \<Rightarrow> string \<Rightarrow> nat \<Rightarrow> string option" where
  "read_body reads body n =
     (if n \<le> length body then Some (take n body)
      else case reads of
        [] \<Rightarrow> None
      | ReadIntr # rest \<Rightarrow> read_body rest body n
      | Ended # rest \<Rightarrow> None
      | Got chunk # rest \<Rightarrow> read_body rest (body @ chunk) n)"

declare read_body.simps [simp del]

definition readRequest :: "sock_read list \<Rightarrow> int + Request" where
  "readRequest reads =
     (case read_head reads [] of
        Inl status \<Rightarrow> Inl status
      | Inr (buffer, headerEnd, rest) \<Rightarrow>
          (case parse_head (take headerEnd buffer) of
             None \<Rightarrow> Inl 400
           | Some (request, n) \<Rightarrow>
               if kMaxBodyBytes < n then Inl 413
               else case read_body rest (drop (headerEnd + 4) buffer) n of
                 None \<Rightarrow> Inl 0
               | Some body \<Rightarrow> Inr (request\<lparr>rq_body := body\<rparr>)))"

section \<open>Sending a response\<close>

datatype sock_write = Wrote nat | WriteIntr | WriteFailed

text \<open>Whether everything was written, the bytes that were, and the answers left.\<close>

fun writeAll :: "sock_write list \<Rightarrow> string \<Rightarrow> bool \<times> string \<times> sock_write list" where
  "writeAll writes bytes =
     (if bytes = [] then (True, [], writes)
      else case writes of
        [] \<Rightarrow> (False, [], [])
      | WriteIntr # rest \<Rightarrow> writeAll rest bytes
      | WriteFailed # rest \<Rightarrow> (False, [], rest)
      | Wrote n # rest \<Rightarrow>
          if n = 0 then (False, [], rest)
          else (case writeAll rest (drop n bytes) of (ok, sent, rest') \<Rightarrow> (ok, take n bytes @ sent, rest')))"

declare writeAll.simps [simp del]

fun write_chunks :: "sock_write list \<Rightarrow> string list \<Rightarrow> string" where
  "write_chunks writes [] = []"
| "write_chunks writes (c # cs) =
     (case writeAll writes c of (ok, sent, rest) \<Rightarrow> if ok then sent @ write_chunks rest cs else sent)"

text \<open>
  The pieces of the file that are streamed: \<open>bytes\<close> is what the file holds from the offset on.  A
  short read ends the loop after it was sent.
\<close>

function stream_chunks :: "string \<Rightarrow> nat \<Rightarrow> string list" where
  "stream_chunks bytes remaining =
     (let want = min remaining (64 * 1024); chunk = take want bytes
      in if remaining = 0 \<or> chunk = [] then []
         else if length chunk < want then [chunk]
         else chunk # stream_chunks (drop want bytes) (remaining - want))"
  by pat_completeness auto
termination by (relation "measure snd") (auto simp: Let_def)

declare stream_chunks.simps [simp del]

definition response_head :: "Response \<Rightarrow> string" where
  "response_head response =
     (let streamed = (rp_filePath response \<noteq> []);
          len = (if streamed then rp_fileLength response else length (rp_body response))
      in ''HTTP/1.1 '' @ int_to_string (rp_status response) @ '' '' @ statusText (rp_status response) @ crlf @
         ''Content-Type: '' @ rp_contentType response @ crlf @
         ''Content-Length: '' @ nat_to_string len @ crlf @
         (if streamed then ''Accept-Ranges: bytes'' @ crlf else []) @
         ''Cache-Control: no-store'' @ crlf @
         ''X-Content-Type-Options: nosniff'' @ crlf @ ''X-Frame-Options: DENY'' @ crlf @
         ''Connection: close'' @ crlf @
         concat (map (\<lambda>(name, val). name @ '': '' @ val @ crlf) (rp_headers response)) @ crlf)"

definition response_chunks :: "(string \<Rightarrow> string option) \<Rightarrow> Response \<Rightarrow> string list" where
  "response_chunks files response =
     (if rp_filePath response = [] then [rp_body response]
      else case files (rp_filePath response) of
        None \<Rightarrow> []
      | Some bytes \<Rightarrow> stream_chunks (drop (rp_fileOffset response) bytes) (rp_fileLength response))"

definition sendResponse :: "(string \<Rightarrow> string option) \<Rightarrow> sock_write list \<Rightarrow> Response \<Rightarrow> string" where
  "sendResponse files writes response = write_chunks writes (response_head response # response_chunks files response)"

section \<open>One connection\<close>

text \<open>The handler threads the application's state; an exception it lets out is an \<^term>\<open>Inl\<close>, and
  \<^term>\<open>None\<close> a handler that never returns.\<close>

definition serve ::
    "(Request \<Rightarrow> 's \<Rightarrow> (Response result \<times> 's) option) \<Rightarrow> ('s \<Rightarrow> string \<Rightarrow> string option) \<Rightarrow> sock_read list \<Rightarrow>
     sock_write list \<Rightarrow> 's \<Rightarrow> (string \<times> 's) option" where
  "serve handler files reads writes s =
     (case readRequest reads of
        Inr request \<Rightarrow>
          (case handler request s of
             None \<Rightarrow> None
           | Some (r, s1) \<Rightarrow>
               (let response = (case r of Inr response \<Rightarrow> response | Inl _ \<Rightarrow> Response_text ''Internal server error'' 500)
                in Some (sendResponse (files s1) writes (applyRange request response), s1)))
      | Inl status \<Rightarrow>
          Some ((if status = 0 then [] else sendResponse (files s) writes (Response_text (statusText status) status)), s))"

section \<open>The listening socket\<close>

record listener =
  ln_fd :: "int option"
  ln_port :: int
  ln_stopping :: bool

definition new_listener :: listener where
  "new_listener = \<lparr>ln_fd = None, ln_port = 0, ln_stopping = False\<rparr>"

text \<open>What the calls of \<open>listen\<close> answer: the new socket or the text of \<open>errno\<close>, whether \<open>inet_pton\<close> reads
  the address, the error of \<open>bind\<close> and \<open>listen\<close> if any, and the port \<open>getsockname\<close> tells.\<close>

record listen_calls =
  lc_socket :: "int result"
  lc_address_ok :: "string \<Rightarrow> bool"
  lc_bind :: "string option"
  lc_listen :: "string option"
  lc_name :: "int option"

definition bind_host :: "string \<Rightarrow> string" where
  "bind_host host = (if host = ''localhost'' then ''127.0.0.1'' else host)"

text \<open>The error, or the listener.\<close>

definition HttpServer_listen :: "listen_calls \<Rightarrow> string \<Rightarrow> int \<Rightarrow> listener \<Rightarrow> string + listener" where
  "HttpServer_listen calls host port l0 =
     (if port < 0 \<or> 65535 < port then Inl (''Port out of range: '' @ int_to_string port)
      else case lc_socket calls of
        Inl err \<Rightarrow> Inl (''Could not create socket: '' @ err)
      | Inr fd \<Rightarrow>
          if \<not> lc_address_ok calls (bind_host host) then Inl (''Not a valid IPv4 address to bind to: '' @ host)
          else case lc_bind calls of
            Some err \<Rightarrow> Inl (''Could not bind '' @ bind_host host @ '':'' @ int_to_string port @ '': '' @ err)
          | None \<Rightarrow>
              (case lc_listen calls of
                 Some err \<Rightarrow> Inl (''Could not listen on socket: '' @ err)
               | None \<Rightarrow>
                   Inr (l0\<lparr>ln_port := (case lc_name calls of Some bound \<Rightarrow> bound | None \<Rightarrow> port), ln_fd := Some fd,
                          ln_stopping := False\<rparr>)))"

definition HttpServer_stop :: "listener \<Rightarrow> listener" where
  "HttpServer_stop l0 = l0\<lparr>ln_stopping := True, ln_fd := None\<rparr>"

text \<open>
  One turn of \<open>serveForever\<close>: whether the server was stopped before it, what \<open>accept\<close> answered, and whether it was
  stopped by the time \<open>accept\<close> failed.  Each connection has its own thread; the turns are in the order
  in which the handlers run, one after the other on the application's state; \<open>stop\<close> sets the flag and takes the
  descriptor away, so either sight of it ends the loop.  The result is what was
  sent on each connection, the state, and whether the loop has ended.
\<close>

datatype accept_answer = Accepted "sock_read list" "sock_write list" | AcceptIntr | AcceptFailed

record turn =
  tn_stopped :: bool
  tn_accept :: accept_answer
  tn_stopped_then :: bool

fun serveForever ::
    "(Request \<Rightarrow> 's \<Rightarrow> (Response result \<times> 's) option) \<Rightarrow> ('s \<Rightarrow> string \<Rightarrow> string option) \<Rightarrow> turn list \<Rightarrow> 's \<Rightarrow>
     (string list \<times> 's \<times> bool) option" where
  "serveForever handler files [] s = Some ([], s, False)"
| "serveForever handler files (t # ts) s =
     (if tn_stopped t then Some ([], s, True)
      else case tn_accept t of
        AcceptIntr \<Rightarrow> serveForever handler files ts s
      | AcceptFailed \<Rightarrow> (if tn_stopped_then t then Some ([], s, True) else serveForever handler files ts s)
      | Accepted reads writes \<Rightarrow>
          (case serve handler files reads writes s of
             None \<Rightarrow> None
           | Some (out, s1) \<Rightarrow>
               (case serveForever handler files ts s1 of
                  None \<Rightarrow> None
                | Some (outs, s2, ended) \<Rightarrow> Some (out # outs, s2, ended))))"

section \<open>Decoding is the inverse of a browser's encoding\<close>

lemma hex_bits: "h < 16 \<Longrightarrow> l < 16 \<Longrightarrow> nat (push_bit 4 (int h) OR int l) = h * 16 + l"
proof -
  have "list_all (\<lambda>h. list_all (\<lambda>l. nat (push_bit 4 (int h) OR int l) = h * 16 + l) [0..<16]) [0..<16]"
    by code_simp
  then show "h < 16 \<Longrightarrow> l < 16 \<Longrightarrow> nat (push_bit 4 (int h) OR int l) = h * 16 + l"
    by (simp add: list_all_iff)
qed

lemma hexDigitValue_upper: "d < 16 \<Longrightarrow> hexDigitValue (upper_hex d) = int d"
  by (drule hex_cases) (auto simp: hexDigitValue_def upper_hex_def)

lemma urlDecode_char: "urlDecode (encode_uri_char c @ s) = c # urlDecode s"
proof (cases "uri_unreserved c")
  case True
  then have "c \<noteq> CHR ''+''" "c \<noteq> CHR ''%''"
    by (auto simp: uri_unreserved_def char_class_defs)
  then show ?thesis using True by (simp add: encode_uri_char_def)
next
  case False
  have "byte_val c div 16 < 16" "byte_val c mod 16 < 16"
    using byte_val_less [of c] by (simp_all add: less_mult_imp_div_less del: byte_val_less)
  then show ?thesis using False
    by (simp add: encode_uri_char_def hexDigitValue_upper hex_bits Let_def)
qed

text \<open>A query value that was percent-encoded byte by byte, as a browser does, reaches the handlers
  unchanged, whatever its bytes.\<close>

theorem urlDecode_encoded: "urlDecode (encodeUriComponent s) = s"
  by (induction s) (simp_all add: encodeUriComponent_def urlDecode_char)

section \<open>Byte ranges stay inside the file\<close>

lemma list_all_digits: "list_all is_digit (nat_to_string n)"
  using nat_to_string_digits by (simp add: list_all_iff)

lemma range_number_print: "n < 2 ^ 64 \<Longrightarrow> range_number (nat_to_string n) = Some n"
  using scan_int_digits [of "nat_to_string n" "[]"] nat_to_string_digits [of n]
  by (simp add: range_number_def list_all_digits cxx_stoull_def)

lemma suffix_range_in: "suffix_range t whole = Satisfiable a n \<Longrightarrow> 0 < n \<and> a + n = whole"
  by (auto simp: suffix_range_def Let_def split: option.splits if_splits)

lemma first_last_range_in: "first_last_range t u whole = Satisfiable a n \<Longrightarrow> 0 < n \<and> a + n \<le> whole"
  by (auto simp: first_last_range_def last_byte_def Let_def split: option.splits if_splits)

lemma parseByteRange_in: "parseByteRange header whole = Satisfiable a n \<Longrightarrow> 0 < n \<and> a + n \<le> whole"
  by (auto simp: parseByteRange_def Let_def dest: suffix_range_in first_last_range_in split: option.splits if_splits)

lemma byte_range_no_space: "c \<in> set (nat_to_string n) \<Longrightarrow> \<not> is_space c \<and> c \<noteq> CHR '','' \<and> c \<noteq> CHR ''-''"
  using nat_to_string_digits [of n] is_digit_not_space by (auto simp: is_digit_def)

definition range_text :: "string \<Rightarrow> string \<Rightarrow> string" where
  "range_text first final = ''bytes='' @ first @ ''-'' @ final"

lemma parseByteRange_text:
  assumes "\<forall>c\<in>set first \<union> set final. is_digit c"
  shows "parseByteRange (range_text first final) whole =
    (if first = [] then suffix_range final whole else first_last_range first final whole)"
proof -
  have no: "c \<noteq> CHR '','' \<and> c \<noteq> CHR ''-'' \<and> \<not> is_space c" if "c \<in> set first \<union> set final" for c
  proof -
    have "is_digit c" using assms that by blast
    then show ?thesis by (auto simp: is_digit_def is_space_def)
  qed
  have "\<not> is_space (last (range_text first final))"
    using no by (cases "final = []") (auto simp: range_text_def is_space_def)
  then have "trim (range_text first final) = range_text first final"
    by (intro trim_no_space) (simp add: range_text_def is_space_def)
  moreover have "CHR '','' \<notin> set (range_text first final)" using no by (auto simp: range_text_def)
  moreover have "find_char (CHR ''-'') (first @ ''-'' @ final) = Some (length first)"
    using no by (subst append_Cons) (rule find_char_append_hit, auto)
  ultimately show ?thesis
    by (simp add: parseByteRange_def startsWith_def Let_def) (simp add: range_text_def)
qed

lemma digits_print: "\<forall>c\<in>set (nat_to_string a) \<union> set (nat_to_string b). is_digit c"
  using nat_to_string_digits by blast

text \<open>The three forms of a single range, written as a client writes them, are read as RFC 7233
  means them: \<open>a-b\<close> is cut at the end of the file, \<open>a-\<close> runs to the end, \<open>-n\<close> is the last \<open>n\<close>
  bytes; a range that starts past the end, or an empty suffix, is unsatisfiable, and \<open>b < a\<close> is
  ignored.\<close>

theorem parseByteRange_forms:
  assumes "a < 2 ^ 64" "b < 2 ^ 64"
  shows "parseByteRange (range_text (nat_to_string a) (nat_to_string b)) whole =
      (if b < a then RangeNone else if whole \<le> a then Unsatisfiable else Satisfiable a (min (b + 1) whole - a)) \<and>
    parseByteRange (range_text (nat_to_string a) []) whole =
      (if whole \<le> a then Unsatisfiable else Satisfiable a (whole - a)) \<and>
    parseByteRange (range_text [] (nat_to_string b)) whole =
      (if b = 0 \<or> whole = 0 then Unsatisfiable else Satisfiable (whole - b) (min b whole))"
proof (intro conjI)
  note num = range_number_print [OF assms(1)] range_number_print [OF assms(2)]
  have "parseByteRange (range_text (nat_to_string a) (nat_to_string b)) whole =
      first_last_range (nat_to_string a) (nat_to_string b) whole"
    using parseByteRange_text [OF digits_print, of a b whole] by simp
  also have "\<dots> = (if b < a then RangeNone else if whole \<le> a then Unsatisfiable else Satisfiable a (min (b + 1) whole - a))"
    by (simp add: first_last_range_def last_byte_def num Let_def) arith
  finally show "parseByteRange (range_text (nat_to_string a) (nat_to_string b)) whole = \<dots>" .
  show "parseByteRange (range_text (nat_to_string a) []) whole =
      (if whole \<le> a then Unsatisfiable else Satisfiable a (whole - a))"
    using parseByteRange_text [of "nat_to_string a" "[]" whole] nat_to_string_digits [of a]
    by (auto simp: first_last_range_def last_byte_def num Let_def)
  show "parseByteRange (range_text [] (nat_to_string b)) whole =
      (if b = 0 \<or> whole = 0 then Unsatisfiable else Satisfiable (whole - b) (min b whole))"
    using parseByteRange_text [of "[]" "nat_to_string b" whole] nat_to_string_digits [of b]
    by (simp add: suffix_range_def num Let_def)
qed

theorem parseByteRange_forms_witness:
  "parseByteRange (range_text (nat_to_string 10) (nat_to_string 99)) 50 = Satisfiable 10 40"
  using parseByteRange_forms [of 10 99 50] by simp

text \<open>C28: Whatever the \<open>Range\<close> header says, the segment served lies inside the segment the handler
  allowed: a range can never reach the neighbouring members of an archive.  The offset does not wrap.\<close>

theorem applyRange_inside:
  assumes "rp_fileOffset response + rp_fileLength response < 2 ^ 64"
  shows "rp_filePath (applyRange request response) \<in> {[], rp_filePath response} \<and>
    rp_fileOffset response \<le> rp_fileOffset (applyRange request response) \<and>
    rp_fileOffset (applyRange request response) + rp_fileLength (applyRange request response) \<le>
      rp_fileOffset response + rp_fileLength response"
proof -
  have "u64 (rp_fileOffset response + a) = rp_fileOffset response + a"
    if "parseByteRange (Request_header request ''Range'') (rp_fileLength response) = Satisfiable a n" for a n
    using parseByteRange_in [OF that] assms by (simp add: u64_def)
  then show ?thesis
    using parseByteRange_in [of "Request_header request ''Range''" "rp_fileLength response"]
    by (auto simp: applyRange_def split: RangeResult.splits)
qed

definition sample_file :: Response where
  "sample_file = Response_file ''/b/a.tar'' 512 100 ''image/png''"

definition sample_range_request :: Request where
  "sample_range_request = empty_request\<lparr>rq_headers := [(''range'', ''bytes=90-'')]\<rparr>"

theorem applyRange_inside_witness:
  "rp_fileOffset (applyRange sample_range_request sample_file) + rp_fileLength (applyRange sample_range_request sample_file) \<le> 612"
  using applyRange_inside [of sample_file sample_range_request]
  by (simp add: sample_file_def Response_file_def empty_response_def)

section \<open>A request is a function of the bytes received\<close>

lemma find_sub_Some_iff:
  assumes "pat \<noteq> []"
  shows "find_sub pat s = Some i \<longleftrightarrow>
    i + length pat \<le> length s \<and> take (length pat) (drop i s) = pat \<and> (\<forall>j<i. take (length pat) (drop j s) \<noteq> pat)"
proof (induction s arbitrary: i)
  case Nil
  then show ?case using assms by simp
next
  case (Cons x s)
  show ?case
  proof (cases "take (length pat) (x # s) = pat")
    case True
    then have "length pat \<le> length (x # s)" by (metis length_take min.cobounded1)
    with True show ?thesis by (cases i) auto
  next
    case False
    then show ?thesis using Cons [of "i - 1"] by (cases i) (auto simp: less_Suc_eq_0_disj)
  qed
qed

lemma find_sub_append_right: "pat \<noteq> [] \<Longrightarrow> find_sub pat s = Some i \<Longrightarrow> find_sub pat (s @ t) = Some i"
  by (simp add: find_sub_Some_iff)

lemma find_sub_append_less:
  "pat \<noteq> [] \<Longrightarrow> find_sub pat (s @ t) = Some i \<Longrightarrow> i + length pat \<le> length s \<Longrightarrow> find_sub pat s = Some i"
  by (simp add: find_sub_Some_iff)

text \<open>The bytes that arrive before the peer stops.\<close>

fun received :: "sock_read list \<Rightarrow> string" where
  "received [] = []"
| "received (Got chunk # rest) = chunk @ received rest"
| "received (ReadIntr # rest) = received rest"
| "received (Ended # rest) = []"

lemma head_mark_not_Nil [simp]: "head_mark \<noteq> []" "length head_mark = 4"
  by (simp_all add: head_mark_def)

lemma read_head_stream:
  "read_head reads buffer = Inr (b, e, rest) \<Longrightarrow> length buffer \<le> kMaxHeaderBytes \<Longrightarrow>
     b @ received rest = buffer @ received reads \<and> find_sub head_mark b = Some e \<and> length b \<le> kMaxHeaderBytes"
proof (induction reads buffer rule: read_head.induct)
  case (1 reads buffer)
  show ?case
  proof (cases "find_sub head_mark buffer")
    case (Some i)
    with 1 show ?thesis by (subst (asm) (3) read_head.simps) simp
  next
    case None
    show ?thesis
    proof (cases reads)
      case Nil
      with 1 None show ?thesis by (subst (asm) (3) read_head.simps) simp
    next
      case (Cons r rs)
      with 1 None show ?thesis
        by (subst (asm) (3) read_head.simps) (cases r; simp split: if_splits)
    qed
  qed
qed

lemma read_body_stream:
  "read_body reads body n = Some r \<Longrightarrow> r = take n (body @ received reads) \<and> n \<le> length body + length (received reads)"
proof (induction reads body n rule: read_body.induct)
  case (1 reads body n)
  show ?case
  proof (cases "n \<le> length body")
    case True
    with 1 show ?thesis by (subst (asm) (3) read_body.simps) auto
  next
    case False
    with 1 show ?thesis
      by (subst (asm) (3) read_body.simps) (cases reads; cases "hd reads"; simp)
  qed
qed

text \<open>What a stream of bytes means, without any notion of reads: the first blank line ends the head,
  and the body is the announced number of bytes after it.\<close>

definition stream_request :: "string \<Rightarrow> Request \<Rightarrow> bool" where
  "stream_request bytes request \<longleftrightarrow>
     (\<exists>e head n. find_sub head_mark bytes = Some e \<and> e + 4 \<le> kMaxHeaderBytes \<and>
        parse_head (take e bytes) = Some (head, n) \<and> n \<le> kMaxBodyBytes \<and> e + 4 + n \<le> length bytes \<and>
        request = head\<lparr>rq_body := take n (drop (e + 4) bytes)\<rparr>)"

lemma stream_request_unique: "stream_request bytes r \<Longrightarrow> stream_request bytes r' \<Longrightarrow> r = r'"
  by (auto simp: stream_request_def)

text \<open>However the network cuts a request into reads, interrupted or not, the request handed to the
  application is the one its bytes denote; it has at most 16 KiB of head and exactly the announced
  body of at most 4 MiB.  Anything else is refused with 400 or 413, or dropped when the peer hung up.\<close>

theorem readRequest_stream:
  "case readRequest reads of
     Inr request \<Rightarrow> stream_request (received reads) request
   | Inl status \<Rightarrow> status = 0 \<or> status = 400 \<or> status = 413"
proof (cases "read_head reads []")
  case (Inl status)
  have "read_head reads buffer = Inl status \<Longrightarrow> status = 0 \<or> status = 413" for buffer
  proof (induction reads buffer rule: read_head.induct)
    case (1 reads buffer)
    then show ?case
      by (subst (asm) (3) read_head.simps) (auto split: option.splits list.splits sock_read.splits if_splits)
  qed
  with Inl show ?thesis by (auto simp: readRequest_def)
next
  case (Inr r)
  obtain b e rest where r: "r = (b, e, rest)" by (cases r) auto
  have st: "b @ received rest = received reads" "find_sub head_mark b = Some e" "length b \<le> kMaxHeaderBytes"
    using read_head_stream [of reads "[]" b e rest] Inr r by (auto simp: kMaxHeaderBytes_def)
  have e: "e + 4 \<le> length b" "find_sub head_mark (received reads) = Some e"
    using st(2) find_sub_append_right [OF _ st(2), of "received rest"] st(1) by (auto simp: find_sub_Some_iff)
  have "stream_request (received reads) (head\<lparr>rq_body := body\<rparr>)"
    if p: "parse_head (take e b) = Some (head, n)" "n \<le> kMaxBodyBytes" "read_body rest (drop (e + 4) b) n = Some body"
    for head n body
  proof -
    have cut: "take e b = take e (received reads)" "drop (e + 4) b @ received rest = drop (e + 4) (received reads)"
      "length (received reads) = length b + length (received rest)"
      using e(1) by (simp_all flip: st(1))
    show ?thesis
      unfolding stream_request_def
      using read_body_stream [OF p(3)] p(1,2) e st(3) cut
      by - (rule exI [of _ e], rule exI [of _ head], rule exI [of _ n], auto)
  qed
  then show ?thesis using Inr r by (auto simp: readRequest_def split: option.splits)
qed

text \<open>Completeness: with reads of at most 4096 bytes, as the code asks for, a head that leaves room for
  one more read in the 16 KiB is always accepted.\<close>

definition small_reads :: "sock_read list \<Rightarrow> bool" where
  "small_reads reads \<longleftrightarrow> list_all (\<lambda>r. case r of Got chunk \<Rightarrow> length chunk \<le> 4096 | _ \<Rightarrow> True) reads"

lemma read_head_complete:
  assumes "find_sub head_mark (buffer @ received reads) = Some e" "e + 4 + 4095 \<le> kMaxHeaderBytes" "small_reads reads"
  shows "\<exists>b rest. read_head reads buffer = Inr (b, e, rest)"
  using assms
proof (induction reads buffer rule: read_head.induct)
  case (1 reads buffer)
  show ?case
  proof (cases "find_sub head_mark buffer")
    case (Some i)
    with 1(3) find_sub_append_right [OF _ Some, of "received reads"] show ?thesis
      by (subst read_head.simps) simp
  next
    case None
    then have len: "length buffer < e + 4"
      using find_sub_append_less [OF _ 1(3)] by (simp add: not_le [symmetric]) force
    with 1(3) have "received reads \<noteq> []" by (auto simp: find_sub_Some_iff)
    then obtain r rs where rs: "reads = r # rs" by (cases reads) auto
    show ?thesis
    proof (cases r)
      case (Got chunk)
      then have "length (buffer @ chunk) \<le> kMaxHeaderBytes"
        using 1(4,5) rs len by (auto simp: small_reads_def)
      with 1 None rs Got show ?thesis by (subst read_head.simps) (auto simp: small_reads_def)
    qed (use 1 None rs \<open>received reads \<noteq> []\<close> in \<open>auto simp: small_reads_def read_head.simps [of "ReadIntr # rs"]\<close>)
  qed
qed

lemma read_body_complete: "n \<le> length body + length (received reads) \<Longrightarrow> \<exists>r. read_body reads body n = Some r"
proof (induction reads body n rule: read_body.induct)
  case (1 reads body n)
  show ?case
  proof (cases "n \<le> length body")
    case True
    then show ?thesis by (subst read_body.simps) simp
  next
    case False
    with 1(3) obtain r rs where rs: "reads = r # rs" by (cases reads) auto
    with 1 False show ?thesis by (subst read_body.simps) (cases r; simp)
  qed
qed

lemma readRequest_accepts:
  assumes "stream_request (received reads) request" "small_reads reads"
    and "\<And>e. find_sub head_mark (received reads) = Some e \<Longrightarrow> e + 4 + 4095 \<le> kMaxHeaderBytes"
  shows "readRequest reads = Inr request"
proof -
  obtain e head n where e: "find_sub head_mark (received reads) = Some e" "parse_head (take e (received reads)) = Some (head, n)"
    "n \<le> kMaxBodyBytes" "e + 4 + n \<le> length (received reads)"
    using assms(1) by (auto simp: stream_request_def)
  obtain b rest where b: "read_head reads [] = Inr (b, e, rest)"
    using read_head_complete [of "[]" reads e] e(1) assms(2,3) by auto
  have st: "b @ received rest = received reads" "find_sub head_mark b = Some e"
    using read_head_stream [OF b] by (auto simp: kMaxHeaderBytes_def)
  have be: "e + 4 \<le> length b" using st(2) by (simp add: find_sub_Some_iff)
  have "take e b = take e (received reads)" using be by (simp flip: st(1))
  moreover have "\<exists>body. read_body rest (drop (e + 4) b) n = Some body"
  proof (rule read_body_complete)
    have "length (received reads) = length b + length (received rest)" by (simp flip: st(1))
    then show "n \<le> length (drop (e + 4) b) + length (received rest)" using e(4) be by simp
  qed
  ultimately obtain r where "readRequest reads = Inr r"
    using b e(2,3) by (auto simp: readRequest_def)
  moreover from this have "stream_request (received reads) r" using readRequest_stream [of reads] by simp
  ultimately show ?thesis using assms(1) stream_request_unique by metis
qed

end
