(* ===== verification/HttpExchange.thy ===== *)
theory HttpExchange
  imports HttpServer
begin

text \<open>
  A whole exchange over \<open>HttpServer\<close>: a request a client prints is the request the handler gets,
  and the response on the wire announces exactly the bytes that follow it.
\<close>

section \<open>Reading back a printed request\<close>

definition http_token :: "string \<Rightarrow> bool" where
  "http_token t \<longleftrightarrow> t \<noteq> [] \<and> list_all (\<lambda>c. \<not> is_space c) t"

definition plain_header :: "string \<times> string \<Rightarrow> bool" where
  "plain_header h \<longleftrightarrow>
     http_token (fst h) \<and> CHR '':'' \<notin> set (fst h) \<and> toLower (fst h) \<noteq> ''content-length'' \<and>
     CHR 0x0A \<notin> set (snd h) \<and> trim (snd h) = snd h"

definition header_line :: "string \<times> string \<Rightarrow> string" where
  "header_line h = fst h @ '': '' @ snd h"

definition header_lines :: "(string \<times> string) list \<Rightarrow> string" where
  "header_lines hs = concat (map (\<lambda>h. crlf @ header_line h) hs)"

definition with_length :: "(string \<times> string) list \<Rightarrow> string \<Rightarrow> (string \<times> string) list" where
  "with_length hs body = hs @ [(''Content-Length'', nat_to_string (length body))]"

definition request_head :: "string \<Rightarrow> string \<Rightarrow> (string \<times> string) list \<Rightarrow> string \<Rightarrow> string" where
  "request_head verb target hs body =
     (verb @ '' '' @ target @ '' HTTP/1.1'') @ header_lines (with_length hs body)"

definition print_request :: "string \<Rightarrow> string \<Rightarrow> (string \<times> string) list \<Rightarrow> string \<Rightarrow> string" where
  "print_request verb target hs body = request_head verb target hs body @ head_mark @ body"

lemma space_facts: "is_space (CHR 0x0D)" "is_space (CHR 0x0A)" "is_space (CHR '' '')"
  by (simp_all add: is_space_def)

lemma trim_space_left: "is_space c \<Longrightarrow> trim (c # s) = trim s"
  by (simp add: trim_def)

lemma trim_space_right: "is_space c \<Longrightarrow> trim (s @ [c]) = trim s"
proof (cases "\<forall>x\<in>set s. is_space x")
  case True
  moreover assume "is_space c"
  ultimately have "dropWhile is_space (s @ [c]) = []" "dropWhile is_space s = []" by simp_all
  then show ?thesis unfolding trim_def by (simp only:)
next
  case False
  moreover assume "is_space c"
  ultimately show ?thesis by (auto simp: trim_def dropWhile_append)
qed

text \<open>Lines are looked at trimmed only.\<close>

lemma parse_headers_trim: "parse_headers (map trim ls) n hs = parse_headers ls n hs"
  by (induction ls arbitrary: n hs) (simp_all add: Let_def del: find_char_None split: option.split)

lemma trimmed_lines:
  assumes "CHR 0x0A \<notin> set first" "\<forall>h\<in>set hs. CHR 0x0A \<notin> set (header_line h)"
  shows "map trim (split (first @ header_lines hs) (CHR 0x0A)) = trim first # map (\<lambda>h. trim (header_line h)) hs"
  using assms
proof (induction hs arbitrary: first)
  case Nil
  then show ?case by (simp add: header_lines_def split_no_delimiter)
next
  case (Cons h hs)
  have "first @ header_lines (h # hs) = (first @ [CHR 0x0D]) @ CHR 0x0A # (header_line h @ header_lines hs)"
    by (simp add: header_lines_def crlf_def)
  then have "split (first @ header_lines (h # hs)) (CHR 0x0A) =
      (first @ [CHR 0x0D]) # split (header_line h @ header_lines hs) (CHR 0x0A)"
    using Cons.prems(1) by (simp only:) (subst split_append, auto)
  with Cons show ?case by (simp add: trim_space_right space_facts)
qed

lemma http_token_trim: "http_token t \<Longrightarrow> trim t = t"
  by (intro trim_no_space) (auto simp: http_token_def list_all_iff)

lemma http_token_ends: "http_token t \<Longrightarrow> t \<noteq> [] \<and> \<not> is_space (hd t) \<and> \<not> is_space (last t)"
  by (auto simp: http_token_def list_all_iff)

lemma trimmed_value: "trim v = v \<Longrightarrow> v = [] \<or> \<not> is_space (last v)"
  using trim_ends [of v] by auto

lemma header_line_read:
  assumes n: "http_token n" "CHR '':'' \<notin> set n" and v: "trim v = v"
  shows "trim (header_line (n, v)) \<noteq> []"
    and "find_char (CHR '':'') (trim (header_line (n, v))) = Some (length n)"
    and "take (length n) (trim (header_line (n, v))) = n"
    and "trim (drop (length n + 1) (trim (header_line (n, v)))) = v"
proof -
  have n0: "n \<noteq> []" "\<not> is_space (hd n)" using http_token_ends [OF n(1)] by auto
  have eq: "trim (header_line (n, v)) = n @ CHR '':'' # (if v = [] then [] else CHR '' '' # v)"
  proof (cases "v = []")
    case True
    have "trim (n @ '': '') = trim (n @ '':'')"
      using trim_space_right [of "CHR '' ''" "n @ '':''"] by (simp add: is_space_def)
    also have "\<dots> = n @ '':''" using n0 by (intro trim_no_space) (simp add: is_space_def)
    finally show ?thesis using True by (simp add: header_line_def)
  next
    case False
    then show ?thesis
      using n0 trimmed_value [OF v] by (simp add: header_line_def) (intro trim_no_space, simp)
  qed
  show "trim (header_line (n, v)) \<noteq> []" "take (length n) (trim (header_line (n, v))) = n"
    by (simp_all add: eq)
  show "find_char (CHR '':'') (trim (header_line (n, v))) = Some (length n)"
    using find_char_append_hit [OF n(2)] by (simp add: eq)
  show "trim (drop (length n + 1) (trim (header_line (n, v)))) = v"
    using v by (simp add: eq trim_space_left is_space_def)
qed

lemma parse_headers_line:
  assumes "http_token n" "CHR '':'' \<notin> set n" "trim v = v"
  shows "parse_headers (trim (header_line (n, v)) # ls) k acc =
    (if toLower n = ''content-length'' then
       (case cxx_stoll v of None \<Rightarrow> None
        | Some parsed \<Rightarrow> if parsed < 0 then None else parse_headers ls (nat parsed) (acc @ [(n, v)]))
     else parse_headers ls k (acc @ [(n, v)]))"
  using header_line_read [OF assms] http_token_trim [OF assms(1)] by (simp add: Let_def)

lemma parse_headers_plain:
  "list_all plain_header hs \<Longrightarrow> parse_headers (map (\<lambda>h. trim (header_line h)) hs @ ls) k acc = parse_headers ls k (acc @ hs)"
proof (induction hs arbitrary: acc)
  case Nil
  then show ?case by simp
next
  case (Cons h hs)
  obtain n v where h: "h = (n, v)" by (cases h)
  then have nv: "http_token n" "CHR '':'' \<notin> set n" "trim v = v" "toLower n \<noteq> ''content-length''"
    using Cons.prems by (simp_all add: plain_header_def)
  show ?case
    using parse_headers_line [OF nv(1-3), of "map (\<lambda>h. trim (header_line h)) hs @ ls" k acc] nv(4) Cons.prems
      Cons.IH [of "acc @ [h]"] by (simp add: h del: parse_headers.simps)
qed

lemma nat_to_string_trim: "trim (nat_to_string n) = nat_to_string n"
  using nat_to_string_digits [of n] is_digit_not_space by (intro trim_no_space) auto

lemma cxx_stoll_print: "n < 2 ^ 63 \<Longrightarrow> cxx_stoll (nat_to_string n) = Some (int n)"
  using scan_int_digits [of "nat_to_string n" "[]"] nat_to_string_digits [of n] by (simp add: cxx_stoll_def)

lemma content_length_token: "http_token ''Content-Length''" "CHR '':'' \<notin> set ''Content-Length''"
  "toLower ''Content-Length'' = ''content-length''"
  by code_simp+

lemma parse_head_printed:
  assumes m: "http_token verb" and t: "http_token target" and hs: "list_all plain_header hs"
    and b: "length body \<le> kMaxBodyBytes"
  shows "parse_head (request_head verb target hs body) =
    Some ((parse_target verb target)\<lparr>rq_headers := with_length hs body\<rparr>, length body)"
proof -
  let ?first = "verb @ '' '' @ target @ '' HTTP/1.1''"
  have sp: "CHR '' '' \<notin> set verb" "CHR '' '' \<notin> set target" "CHR 0x0A \<notin> set verb" "CHR 0x0A \<notin> set target"
    using m t space_facts by (auto simp: http_token_def list_all_iff)
  have "\<not> is_digit (CHR 0x0A)" by (simp add: is_digit_def)
  then have dg: "CHR 0x0A \<notin> set (nat_to_string (length body))"
    using nat_to_string_digits [of "length body"] by blast
  have nl: "CHR 0x0A \<notin> set (header_line h)" if "h \<in> set (with_length hs body)" for h
    using that hs dg space_facts
    by (auto simp: with_length_def header_line_def plain_header_def http_token_def list_all_iff)
  have lines: "map trim (split (request_head verb target hs body) (CHR 0x0A)) =
      trim ?first # map (\<lambda>h. trim (header_line h)) (with_length hs body)"
    unfolding request_head_def using sp nl by (intro trimmed_lines) auto
  then obtain f ls where ls: "split (request_head verb target hs body) (CHR 0x0A) = f # ls"
    "trim f = trim ?first" "map trim ls = map (\<lambda>h. trim (header_line h)) (with_length hs body)"
    by (cases "split (request_head verb target hs body) (CHR 0x0A)") auto
  have "trim ?first = ?first"
    using http_token_ends [OF m] by (intro trim_no_space) (simp add: is_space_def)
  moreover have "split ?first (CHR '' '') = [verb, target, ''HTTP/1.1'']"
    using sp split_append [of "CHR '' ''" verb] split_append [of "CHR '' ''" target]
    by (simp add: split_no_delimiter)
  moreover have "parse_headers ls 0 [] = Some (length body, with_length hs body)"
  proof -
    have "parse_headers ls 0 [] = parse_headers (map (\<lambda>h. trim (header_line h)) (with_length hs body)) 0 []"
      using ls(3) parse_headers_trim by metis
    also have "\<dots> = parse_headers [trim (header_line (''Content-Length'', nat_to_string (length body)))] 0 hs"
      using parse_headers_plain [OF hs] by (simp add: with_length_def)
    also have "\<dots> = Some (length body, with_length hs body)"
      using b parse_headers_line [OF content_length_token(1,2) nat_to_string_trim, of "length body" "[]" 0 hs]
        content_length_token(3)
      by (simp add: cxx_stoll_print kMaxBodyBytes_def with_length_def)
    finally show ?thesis .
  qed
  ultimately show ?thesis using ls(1,2) by (simp add: parse_head_def)
qed

section \<open>Where the head ends\<close>

lemma find_mark_skip:
  assumes "CHR 0x0A \<notin> set x" "t = [] \<or> hd t \<noteq> CHR 0x0D"
  shows "find_sub head_mark (x @ crlf @ t) = map_option ((+) (length x + 2)) (find_sub head_mark t)"
  using assms(1)
proof (induction x)
  case Nil
  have "(\<lambda>i. Suc (Suc i)) = (+) 2" by auto
  then show ?case using assms(2) by (cases t) (auto simp: head_mark_def crlf_def option.map_comp comp_def)
next
  case (Cons c x)
  have "take 4 (c # x @ crlf @ t) \<noteq> head_mark"
    using Cons.prems by (cases x; cases "tl x") (auto simp: head_mark_def crlf_def)
  with Cons show ?case by (simp add: option.map_comp comp_def)
qed

lemma find_mark_here: "CHR 0x0A \<notin> set x \<Longrightarrow> find_sub head_mark (x @ head_mark @ t) = Some (length x)"
proof (induction x)
  case Nil
  then show ?case by (simp add: find_sub_Some_prefix)
next
  case (Cons c x)
  have "take 4 (c # x @ head_mark @ t) \<noteq> head_mark"
    using Cons.prems by (cases x; cases "tl x") (auto simp: head_mark_def)
  with Cons show ?case by simp
qed

lemma find_mark_lines:
  assumes "CHR 0x0A \<notin> set first" "\<forall>h\<in>set hs. CHR 0x0A \<notin> set (header_line h) \<and> http_token (fst h)"
  shows "find_sub head_mark ((first @ header_lines hs) @ head_mark @ t) = Some (length (first @ header_lines hs))"
  using assms
proof (induction hs arbitrary: first)
  case Nil
  then show ?case using find_mark_here by (simp add: header_lines_def)
next
  case (Cons h hs)
  let ?rest = "(header_line h @ header_lines hs) @ head_mark @ t"
  have "http_token (fst h)" using Cons.prems by simp
  then have "hd ?rest \<noteq> CHR 0x0D"
    using http_token_ends [of "fst h"] by (auto simp: header_line_def is_space_def)
  then have "find_sub head_mark (first @ crlf @ ?rest) =
      map_option ((+) (length first + 2)) (find_sub head_mark ?rest)"
    using Cons.prems by (intro find_mark_skip) auto
  also have "find_sub head_mark ?rest = Some (length (header_line h @ header_lines hs))"
    using Cons by simp
  finally show ?case by (simp add: header_lines_def crlf_def)
qed

lemma request_head_mark:
  assumes m: "http_token verb" and t: "http_token target" and hs: "list_all plain_header hs"
  shows "find_sub head_mark (request_head verb target hs body @ head_mark @ rest) =
    Some (length (request_head verb target hs body))"
  unfolding request_head_def
proof (rule find_mark_lines)
  have "\<not> is_digit (CHR 0x0A)" by (simp add: is_digit_def)
  then have dg: "CHR 0x0A \<notin> set (nat_to_string (length body))"
    using nat_to_string_digits [of "length body"] by blast
  show "CHR 0x0A \<notin> set (verb @ '' '' @ target @ '' HTTP/1.1'')"
    using m t space_facts by (auto simp: http_token_def list_all_iff)
  show "\<forall>h\<in>set (with_length hs body). CHR 0x0A \<notin> set (header_line h) \<and> http_token (fst h)"
    using hs dg space_facts content_length_token(1)
    by (auto simp: with_length_def header_line_def plain_header_def http_token_def list_all_iff)
qed

text \<open>C26: A request a client prints is the request the application gets, whatever its bytes, its
  headers and body, and however the network cuts or interrupts it, as long as its head leaves room
  for one more read in the 16 KiB: bytes after the announced body are ignored.\<close>

theorem readRequest_printed:
  assumes "http_token verb" "http_token target" "list_all plain_header hs" "length body \<le> kMaxBodyBytes"
    and "length (request_head verb target hs body) + 4099 \<le> kMaxHeaderBytes"
    and "small_reads reads" "received reads = print_request verb target hs body @ extra"
  shows "readRequest reads =
    Inr ((parse_target verb target)\<lparr>rq_headers := with_length hs body, rq_body := body\<rparr>)"
proof (rule readRequest_accepts [OF _ assms(6)])
  let ?h = "request_head verb target hs body"
  have rec: "received reads = ?h @ head_mark @ body @ extra" by (simp add: assms(7) print_request_def)
  have mark: "find_sub head_mark (received reads) = Some (length ?h)"
    unfolding rec using assms(1-3) by (rule request_head_mark)
  show "stream_request (received reads) ((parse_target verb target)\<lparr>rq_headers := with_length hs body, rq_body := body\<rparr>)"
    unfolding stream_request_def
    by (rule exI [of _ "length ?h"], rule exI [of _ "(parse_target verb target)\<lparr>rq_headers := with_length hs body\<rparr>"],
      rule exI [of _ "length body"])
      (use mark rec assms(4,5) parse_head_printed [OF assms(1-4)] in simp)
  show "e + 4 + 4095 \<le> kMaxHeaderBytes" if "find_sub head_mark (received reads) = Some e" for e
    using that mark assms(5) by simp
qed

theorem readRequest_printed_witness:
  "readRequest [Got (take 9 (print_request ''POST'' ''/api/job?since=3'' [(''Host'', ''localhost'')] ''{}'')), ReadIntr,
      Got (drop 9 (print_request ''POST'' ''/api/job?since=3'' [(''Host'', ''localhost'')] ''{}''))] =
    Inr ((parse_target ''POST'' ''/api/job?since=3'')\<lparr>rq_headers := with_length [(''Host'', ''localhost'')] ''{}'',
      rq_body := ''{}''\<rparr>)"
proof (rule readRequest_printed [where extra = "[]"])
  show "http_token ''POST''" "http_token ''/api/job?since=3''" "list_all plain_header [(''Host'', ''localhost'')]"
    by code_simp+
  show "length ''{}'' \<le> kMaxBodyBytes" by (simp add: kMaxBodyBytes_def)
  show "length (request_head ''POST'' ''/api/job?since=3'' [(''Host'', ''localhost'')] ''{}'') + 4099 \<le> kMaxHeaderBytes"
    by code_simp
  show "small_reads [Got (take 9 (print_request ''POST'' ''/api/job?since=3'' [(''Host'', ''localhost'')] ''{}'')), ReadIntr,
      Got (drop 9 (print_request ''POST'' ''/api/job?since=3'' [(''Host'', ''localhost'')] ''{}''))]"
    by code_simp
qed simp

section \<open>What goes over the wire\<close>

lemma writeAll_prefix:
  "writeAll writes bytes = (ok, sent, rest) \<Longrightarrow> prefix sent bytes \<and> (ok \<longrightarrow> sent = bytes)"
proof (induction writes bytes arbitrary: ok sent rest rule: writeAll.induct)
  case (1 writes bytes)
  show ?case
  proof (cases "bytes = []")
    case True
    with 1 show ?thesis by (subst (asm) (3) writeAll.simps) simp
  next
    case False
    show ?thesis
    proof (cases writes)
      case Nil
      with 1 False show ?thesis by (subst (asm) (3) writeAll.simps) simp
    next
      case (Cons w ws)
      show ?thesis
      proof (cases w)
        case (Wrote n)
        obtain ok' sent' rest' where r: "writeAll ws (drop n bytes) = (ok', sent', rest')" by (metis prod.collapse)
        show ?thesis
        proof (cases "n = 0")
          case True
          with 1(3) False Cons Wrote show ?thesis by (simp add: writeAll.simps [of "Wrote 0 # ws"])
        next
          case n: False
          then have eq: "ok = ok'" "sent = take n bytes @ sent'"
            using 1(3) False Cons Wrote r by (simp_all add: writeAll.simps [of "Wrote n # ws"])
          have "prefix sent' (drop n bytes) \<and> (ok' \<longrightarrow> sent' = drop n bytes)"
            using 1(1) [OF False Cons Wrote n r] .
          then show ?thesis unfolding eq by (metis append_take_drop_id same_prefix_prefix)
        qed
      qed (use 1 False Cons in \<open>simp_all add: writeAll.simps [of "_ # ws"]\<close>)
    qed
  qed
qed

lemma write_chunks_prefix: "prefix (write_chunks writes chunks) (concat chunks)"
proof (induction chunks arbitrary: writes)
  case Nil
  then show ?case by simp
next
  case (Cons c cs)
  obtain ok sent rest where r: "writeAll writes c = (ok, sent, rest)" by (metis prod.collapse)
  from writeAll_prefix [OF r] Cons [of rest] r show ?case by (auto intro: prefix_prefix)
qed

lemma stream_chunks_concat: "concat (stream_chunks bytes n) = take n bytes"
proof (induction bytes n rule: stream_chunks.induct)
  case (1 bytes n)
  let ?w = "min n (64 * 1024)"
  show ?case
  proof (cases "n = 0 \<or> take ?w bytes = []")
    case True
    then show ?thesis by (subst stream_chunks.simps) (auto simp: Let_def)
  next
    case False
    show ?thesis
    proof (cases "length (take ?w bytes) < ?w")
      case True
      then have "length bytes \<le> ?w" unfolding length_take by arith
      then have "take ?w bytes = bytes" by (rule take_all)
      with False True show ?thesis by (subst stream_chunks.simps) (simp add: Let_def)
    next
      case longer: False
      have "concat (stream_chunks bytes n) = take ?w bytes @ concat (stream_chunks (drop ?w bytes) (n - ?w))"
        using False longer stream_chunks.simps [of bytes n] by (simp only: Let_def if_False concat.simps)
      also have "concat (stream_chunks (drop ?w bytes) (n - ?w)) = take (n - ?w) (drop ?w bytes)"
        using 1 [OF refl refl] False longer by simp
      finally show ?thesis by (metis add_diff_cancel_left' le_add_diff_inverse min.cobounded1 take_add)
    qed
  qed
qed

text \<open>What the handler's response stands for: the bytes of its body.\<close>

definition response_bytes :: "(string \<Rightarrow> string option) \<Rightarrow> Response \<Rightarrow> string" where
  "response_bytes files response =
     (if rp_filePath response = [] then rp_body response
      else case files (rp_filePath response) of
        None \<Rightarrow> []
      | Some bytes \<Rightarrow> take (rp_fileLength response) (drop (rp_fileOffset response) bytes))"

definition announced_length :: "Response \<Rightarrow> nat" where
  "announced_length response =
     (if rp_filePath response = [] then length (rp_body response) else rp_fileLength response)"

text \<open>The peer only ever sees the head and the body of the response, or a beginning of it when it
  stops reading: streaming in 64 KiB pieces loses and repeats nothing.  The announced length is never
  less than the body, and equal to it unless the file has become shorter or unreadable.\<close>

theorem sendResponse_exact:
  "prefix (sendResponse files writes response) (response_head response @ response_bytes files response) \<and>
   length (response_bytes files response) \<le> announced_length response \<and>
   (length (response_bytes files response) = announced_length response \<longleftrightarrow>
      rp_filePath response = [] \<or> rp_fileLength response = 0 \<or>
      (case files (rp_filePath response) of
         None \<Rightarrow> False
       | Some bytes \<Rightarrow> rp_fileOffset response + rp_fileLength response \<le> length bytes))"
proof -
  have "concat (response_chunks files response) = response_bytes files response"
    by (auto simp: response_chunks_def response_bytes_def stream_chunks_concat split: option.splits)
  with write_chunks_prefix [of writes "response_head response # response_chunks files response"]
  have "prefix (sendResponse files writes response) (response_head response @ response_bytes files response)"
    by (simp add: sendResponse_def)
  then show ?thesis
    by (auto simp: response_bytes_def announced_length_def split: option.splits)
qed

end
