(* ===== verification/BackupStore.thy ===== *)
theory BackupStore
  imports RootBackend "HOL-Library.Char_ord" "HOL-Library.List_Lexorder"
begin

text \<open>
  \<open>src/src/backup/BackupStore.cpp\<close>: finding the backups below a folder, summarising and verifying
  one, and browsing its files without ever leaving it.  Nothing here changes the host.  The parts of
  \<open>std::filesystem\<close> that interpret a path are an argument next to the host.
\<close>

section \<open>Paths\<close>

text \<open>
  \<open>fs::absolute\<close> and \<open>fs::weakly_canonical\<close> (\<^term>\<open>None\<close> on an error) and \<open>fs::relative\<close> (empty on
  an error), the message of the error that making a directory iterator left, a file's modification
  time in seconds since the epoch (\<^term>\<open>None\<close> on an error), and the entries a recursive iterator
  yields, in order, when it is told not to enter the directories a predicate names.
\<close>

record 'w fspaths =
  p_absolute :: "string \<Rightarrow> 'w \<Rightarrow> string option"
  p_canonical :: "string \<Rightarrow> 'w \<Rightarrow> string option"
  p_relative :: "string \<Rightarrow> string \<Rightarrow> 'w \<Rightarrow> string"
  p_list_error :: "string \<Rightarrow> 'w \<Rightarrow> string"
  p_mtime :: "string \<Rightarrow> 'w \<Rightarrow> int option"
  p_walk :: "(string \<Rightarrow> bool) \<Rightarrow> string \<Rightarrow> 'w \<Rightarrow> dirent list option"

text \<open>The elements a \<open>path\<close> iterates over: the root, the names, and an empty one after a final slash.\<close>

definition path_elements :: "string \<Rightarrow> string list" where
  "path_elements p =
     (let names = filter (\<lambda>n. n \<noteq> []) (split p (CHR ''/''))
      in (if take 1 p = ''/'' then [''/''] else []) @ names @
         (if names \<noteq> [] \<and> last p = CHR ''/'' then [[]] else []))"

section \<open>Backup directories\<close>

record BackupSummaryInfo =
  si_path :: string
  si_name :: string
  si_createdAtUtc :: string
  si_abpVersion :: string
  si_mode :: string
  si_deviceSerial :: string
  si_deviceModel :: string
  si_deviceManufacturer :: string
  si_androidRelease :: string
  si_packageCount :: int
  si_packagesWithData :: int
  si_packagesWithErrors :: int
  si_sharedStorageIncluded :: bool
  si_diskBytes :: nat
  si_error :: string

definition default_summary_info :: BackupSummaryInfo where
  "default_summary_info =
     \<lparr>si_path = [], si_name = [], si_createdAtUtc = [], si_abpVersion = [], si_mode = [], si_deviceSerial = [],
      si_deviceModel = [], si_deviceManufacturer = [], si_androidRelease = [], si_packageCount = 0,
      si_packagesWithData = 0, si_packagesWithErrors = 0, si_sharedStorageIncluded = False, si_diskBytes = 0,
      si_error = []\<rparr>"

definition kManifestName :: string where
  "kManifestName = ''manifest.json''"

definition isBackupDirectory :: "'w host \<Rightarrow> string \<Rightarrow> 'w sys \<Rightarrow> bool" where
  "isBackupDirectory h dir s \<longleftrightarrow>
     h_is_directory h dir (world s) \<and> h_is_regular h (path_join dir kManifestName) (world s)"

definition summary_of :: "Manifest \<Rightarrow> BackupSummaryInfo \<Rightarrow> BackupSummaryInfo" where
  "summary_of manifest info =
     info\<lparr>si_createdAtUtc := mf_createdAtUtc manifest, si_abpVersion := mf_abpVersion manifest,
       si_mode := mf_mode manifest, si_deviceSerial := dev_serial (mf_device manifest),
       si_deviceModel := dev_model (mf_device manifest),
       si_deviceManufacturer := dev_manufacturer (mf_device manifest),
       si_androidRelease := dev_androidRelease (mf_device manifest),
       si_packageCount := int (length (mf_packages manifest)),
       si_sharedStorageIncluded := mf_sharedStorageIncluded manifest,
       si_packagesWithData := int (length (filter pe_dataIncluded (mf_packages manifest))),
       si_packagesWithErrors := int (length (filter (\<lambda>e. pe_error e \<noteq> []) (mf_packages manifest)))\<rparr>"

definition summarize :: "'w host \<Rightarrow> 'w fspaths \<Rightarrow> string \<Rightarrow> 'w sys \<Rightarrow> BackupSummaryInfo" where
  "summarize h d dir s =
     (let path = (case p_absolute d dir (world s) of Some p \<Rightarrow> p | None \<Rightarrow> dir);
          name = (if path_filename path = [] then path else path_filename path);
          info = default_summary_info\<lparr>si_path := path, si_name := name, si_diskBytes := directorySize h path s\<rparr>
      in case readFromFile h (path_join path kManifestName) s of
           Inr manifest \<Rightarrow> summary_of manifest info
         | Inl what \<Rightarrow> info\<lparr>si_error := what\<rparr>)"

text \<open>A backup directory is a leaf; other directories are entered while there is depth left.\<close>

primrec collect :: "'w host \<Rightarrow> 'w fspaths \<Rightarrow> 'w sys \<Rightarrow> nat \<Rightarrow> string \<Rightarrow> BackupSummaryInfo list \<Rightarrow> BackupSummaryInfo list" where
  "collect h d s 0 dir found = (if isBackupDirectory h dir s then found @ [summarize h d dir s] else found)"
| "collect h d s (Suc depthLeft) dir found =
     (if isBackupDirectory h dir s then found @ [summarize h d dir s]
      else case h_list h dir (world s) of
        None \<Rightarrow> found
      | Some entries \<Rightarrow>
          foldl (\<lambda>acc e. if de_is_directory e then collect h d s depthLeft (de_path e) acc else acc) found entries)"

definition newer_summary :: "BackupSummaryInfo \<Rightarrow> BackupSummaryInfo \<Rightarrow> bool" where
  "newer_summary a b \<longleftrightarrow>
     (if si_createdAtUtc a \<noteq> si_createdAtUtc b then si_createdAtUtc b < si_createdAtUtc a
      else si_name a < si_name b)"

definition scan :: "'w host \<Rightarrow> 'w fspaths \<Rightarrow> string \<Rightarrow> int \<Rightarrow> 'w sys \<Rightarrow> BackupSummaryInfo list" where
  "scan h d folder maxDepth s =
     (if \<not> h_is_directory h folder (world s) then []
      else sort_by newer_summary (collect h d s (nat maxDepth) folder []))"

definition loadManifest :: "'w host \<Rightarrow> string \<Rightarrow> 'w sys \<Rightarrow> Manifest result" where
  "loadManifest h dir s =
     (let manifestPath = path_join dir kManifestName
      in if \<not> h_is_regular h manifestPath (world s) then
           Inl (''No '' @ kManifestName @ '' in '' @ dir @ '' -- is this an abp backup directory?'')
         else readFromFile h manifestPath s)"

section \<open>Staying inside a backup\<close>

fun elements_within :: "string list \<Rightarrow> string list \<Rightarrow> bool" where
  "elements_within [] candidate = True"
| "elements_within (b # base) [] = False"
| "elements_within (b # base) (c # candidate) = (if c \<noteq> b then False else elements_within base candidate)"

definition resolveInside :: "'w host \<Rightarrow> 'w fspaths \<Rightarrow> string \<Rightarrow> string \<Rightarrow> 'w sys \<Rightarrow> string option" where
  "resolveInside h d backupDir relative s =
     (case p_canonical d backupDir (world s) of
        None \<Rightarrow> None
      | Some base \<Rightarrow>
          if take 1 relative = ''/'' then None
          else case p_canonical d (path_join base relative) (world s) of
            None \<Rightarrow> None
          | Some candidate \<Rightarrow>
              if \<not> elements_within (path_elements base) (path_elements candidate) then None
              else if \<not> h_exists h candidate (world s) then None
              else Some candidate)"

section \<open>Verification\<close>

record VerifyProblem =
  vp_path :: string
  vp_problem :: string

record VerifyReport =
  vr_verified :: int
  vr_unverifiable :: int
  vr_problems :: "VerifyProblem list"

definition report_ok :: "VerifyReport \<Rightarrow> bool" where
  "report_ok report \<longleftrightarrow> vr_problems report = []"

definition add_problem :: "string \<Rightarrow> string \<Rightarrow> VerifyReport \<Rightarrow> VerifyReport" where
  "add_problem relative problem report =
     report\<lparr>vr_problems := vr_problems report @ [\<lparr>vp_path = relative, vp_problem = problem\<rparr>]\<rparr>"

definition check_file :: "'w host \<Rightarrow> 'w fspaths \<Rightarrow> string \<Rightarrow> 'w sys \<Rightarrow> VerifyReport \<Rightarrow> string \<times> string \<Rightarrow> VerifyReport" where
  "check_file h d dir s report = (\<lambda>(relative, sha).
     if relative = [] then report
     else case resolveInside h d dir relative s of
       None \<Rightarrow> add_problem relative ''missing'' report
     | Some resolved \<Rightarrow>
         if sha = [] then report\<lparr>vr_unverifiable := vr_unverifiable report + 1\<rparr>
         else if checksumMatches h resolved sha s then report\<lparr>vr_verified := vr_verified report + 1\<rparr>
         else add_problem relative ''checksum mismatch'' report)"

text \<open>The calls of \<open>check\<close>, in order.\<close>

definition entry_references :: "PackageBackupEntry \<Rightarrow> (string \<times> string) list" where
  "entry_references entry =
     map (\<lambda>apk. (apk, [])) (pe_apkFiles entry) @
     [(pe_dataArchive entry, pe_dataArchiveSha256 entry), (pe_deDataArchive entry, pe_deDataArchiveSha256 entry),
      (pe_externalDataArchive entry, pe_externalDataArchiveSha256 entry)]"

definition manifest_references :: "Manifest \<Rightarrow> (string \<times> string) list" where
  "manifest_references manifest =
     concat (map entry_references (mf_packages manifest)) @
     (if mf_sharedStorageIncluded manifest
      then [(mf_sharedStorageArchive manifest, mf_sharedStorageArchiveSha256 manifest)] else []) @
     [(mf_legacyAdbBackupFile manifest, [])] @
     map (\<lambda>capture. (fc_localPath capture, [])) (mf_filesystemCaptures manifest) @
     map (\<lambda>item. (px_localPath item, px_sha256 item)) (mf_personalDataExports manifest)"

definition verify :: "'w host \<Rightarrow> 'w fspaths \<Rightarrow> string \<Rightarrow> 'w sys \<Rightarrow> VerifyReport result" where
  "verify h d dir s =
     (case loadManifest h dir s of
        Inl what \<Rightarrow> Inl what
      | Inr manifest \<Rightarrow>
          Inr (foldl (check_file h d dir s) \<lparr>vr_verified = 0, vr_unverifiable = 0, vr_problems = []\<rparr>
                 (manifest_references manifest)))"

section \<open>Browsing\<close>

record BackupFileEntry =
  be_name :: string
  be_relativePath :: string
  be_isDirectory :: bool
  be_sizeBytes :: nat

definition file_entry :: "'w host \<Rightarrow> 'w fspaths \<Rightarrow> string \<Rightarrow> 'w sys \<Rightarrow> dirent \<Rightarrow> BackupFileEntry" where
  "file_entry h d base s e =
     \<lparr>be_name = path_filename (de_path e), be_relativePath = p_relative d (de_path e) base (world s),
      be_isDirectory = de_is_directory e,
      be_sizeBytes = (if de_is_directory e then directorySize h (de_path e) s else fileSize h (de_path e) s)\<rparr>"

definition listed_before :: "BackupFileEntry \<Rightarrow> BackupFileEntry \<Rightarrow> bool" where
  "listed_before a b \<longleftrightarrow>
     (if be_isDirectory a \<noteq> be_isDirectory b then be_isDirectory a else be_name a < be_name b)"

definition listDirectory :: "'w host \<Rightarrow> 'w fspaths \<Rightarrow> string \<Rightarrow> string \<Rightarrow> 'w sys \<Rightarrow> BackupFileEntry list result" where
  "listDirectory h d backupDir relative s =
     (case resolveInside h d backupDir relative s of
        None \<Rightarrow> Inl (''Path is not inside the backup directory: '' @ relative)
      | Some target \<Rightarrow>
          if \<not> h_is_directory h target (world s) then Inl (''Not a directory: '' @ relative)
          else
            let base = (case p_canonical d backupDir (world s) of Some b \<Rightarrow> b | None \<Rightarrow> [])
            in case h_list h target (world s) of
                 None \<Rightarrow> Inl (''Cannot read directory '' @ relative @ '': '' @ p_list_error d target (world s))
               | Some entries \<Rightarrow> Inr (sort_by listed_before (map (file_entry h d base s) entries)))"

section \<open>The comparators order\<close>

interpretation newest: comparator newer_summary
  by unfold_locales (auto simp: newer_summary_def split: if_splits)

interpretation listing: comparator listed_before
  by unfold_locales (auto simp: listed_before_def split: if_splits)

section \<open>The sandbox\<close>

lemma elements_within_prefix: "elements_within base candidate = prefix base candidate"
  by (induction base candidate rule: elements_within.induct) auto

text \<open>
  What \<open>weakly_canonical\<close> is documented to give: a path without \<open>..\<close> (the links and the dots of the
  part that exists are resolved, the rest is normalised).
\<close>

definition canonical_paths :: "'w fspaths \<Rightarrow> bool" where
  "canonical_paths d \<longleftrightarrow> (\<forall>p w. case p_canonical d p w of None \<Rightarrow> True | Some q \<Rightarrow> ''..'' \<notin> set (path_elements q))"

text \<open>\<open>p\<close> is \<open>base\<close> or below it, and no name on the way leads up again.\<close>

definition inside_dir :: "string \<Rightarrow> string \<Rightarrow> bool" where
  "inside_dir base p \<longleftrightarrow> (\<exists>names. path_elements p = path_elements base @ names \<and> ''..'' \<notin> set names)"

lemma resolveInside_Some:
  assumes "resolveInside h d dir relative s = Some p"
  shows "\<exists>base. p_canonical d dir (world s) = Some base \<and> prefix (path_elements base) (path_elements p) \<and>
    p_canonical d (path_join base relative) (world s) = Some p \<and> h_exists h p (world s)"
  using assms by (auto simp: resolveInside_def elements_within_prefix split: option.splits if_splits)

lemma resolveInside_inside:
  assumes "canonical_paths d" "resolveInside h d dir relative s = Some p"
  shows "\<exists>base. p_canonical d dir (world s) = Some base \<and> inside_dir base p \<and> h_exists h p (world s)"
proof -
  obtain base where b: "p_canonical d dir (world s) = Some base" "prefix (path_elements base) (path_elements p)"
    "p_canonical d (path_join base relative) (world s) = Some p" "h_exists h p (world s)"
    using resolveInside_Some [OF assms(2)] by blast
  from b(3) assms(1) have "''..'' \<notin> set (path_elements p)"
    unfolding canonical_paths_def by (metis option.simps(5))
  with b show ?thesis by (auto simp: inside_dir_def prefix_def)
qed

text \<open>Browsing never leaves the backup: whatever the request asks for (\<open>..\<close>, an absolute path, a
  link), a listing is that of an existing directory at or below the canonical backup directory, it
  shows every entry of it exactly once, directories first and then by name.\<close>

theorem listDirectory_inside:
  assumes "canonical_paths d" "listDirectory h d dir relative s = Inr shown"
  shows "\<exists>base target entries. p_canonical d dir (world s) = Some base \<and> inside_dir base target \<and>
    h_is_directory h target (world s) \<and> h_list h target (world s) = Some entries \<and>
    mset shown = mset (map (file_entry h d base s) entries) \<and> sorted_wrt (\<lambda>a b. \<not> listed_before b a) shown"
proof -
  obtain target where t: "resolveInside h d dir relative s = Some target" "h_is_directory h target (world s)"
    using assms(2) by (auto simp: listDirectory_def split: option.splits if_splits)
  obtain base where b: "p_canonical d dir (world s) = Some base" "inside_dir base target"
    using resolveInside_inside [OF assms(1) t(1)] by blast
  show ?thesis
    using assms(2) t b listing.sort_by_sorted
    by (auto simp: listDirectory_def split: option.splits)
qed

section \<open>Verification accounts for every file\<close>

definition reference_ok :: "'w host \<Rightarrow> 'w fspaths \<Rightarrow> string \<Rightarrow> 'w sys \<Rightarrow> string \<times> string \<Rightarrow> bool" where
  "reference_ok h d dir s = (\<lambda>(relative, sha).
     relative = [] \<or> (case resolveInside h d dir relative s of None \<Rightarrow> False | Some p \<Rightarrow> checksumMatches h p sha s))"

definition report_count :: "VerifyReport \<Rightarrow> int" where
  "report_count r = vr_verified r + vr_unverifiable r + int (length (vr_problems r))"

lemma check_file_step:
  "report_count (check_file h d dir s r ref) = report_count r + (if fst ref = [] then 0 else 1)"
  "report_ok (check_file h d dir s r ref) \<longleftrightarrow> report_ok r \<and> reference_ok h d dir s ref"
  by (cases ref; auto simp: check_file_def report_count_def report_ok_def reference_ok_def add_problem_def
      checksumMatches_def split: option.splits sum.splits)+

lemma check_files:
  "report_count (foldl (check_file h d dir s) r refs) = report_count r + int (length (filter (\<lambda>ref. fst ref \<noteq> []) refs)) \<and>
   (report_ok (foldl (check_file h d dir s) r refs) \<longleftrightarrow> report_ok r \<and> list_all (reference_ok h d dir s) refs)"
  by (induction refs arbitrary: r) (auto simp: check_file_step)

text \<open>A verification accounts for every file the manifest names, exactly once: matched, present
  without a checksum, or a problem.  It is clean exactly when every one of them is inside the backup
  and its contents have the recorded checksum.\<close>

theorem verify_accounts:
  "case verify h d dir s of
     Inl what \<Rightarrow> loadManifest h dir s = Inl what
   | Inr report \<Rightarrow>
       (\<exists>manifest. loadManifest h dir s = Inr manifest \<and>
          report_count report = int (length (filter (\<lambda>ref. fst ref \<noteq> []) (manifest_references manifest))) \<and>
          (report_ok report \<longleftrightarrow> list_all (reference_ok h d dir s) (manifest_references manifest)))"
  using check_files [of h d dir s "\<lparr>vr_verified = 0, vr_unverifiable = 0, vr_problems = []\<rparr>"]
  by (auto simp: verify_def report_count_def report_ok_def split: sum.splits)

lemma verify_ok_references:
  assumes "verify h d dir s = Inr report" "report_ok report"
  shows "\<exists>manifest. loadManifest h dir s = Inr manifest \<and> list_all (reference_ok h d dir s) (manifest_references manifest)"
  using assms check_files [of h d dir s "\<lparr>vr_verified = 0, vr_unverifiable = 0, vr_problems = []\<rparr>"]
  by (auto simp: verify_def split: sum.splits)

text \<open>
  A canonical path names the file it was made from: what the restore reads as a path joined to the
  backup directory is what the verification read under its resolved name.
\<close>

definition resolves_same :: "'w host \<Rightarrow> 'w fspaths \<Rightarrow> string \<Rightarrow> 'w sys \<Rightarrow> bool" where
  "resolves_same h d dir s \<longleftrightarrow>
     (\<forall>relative. case resolveInside h d dir relative s of
        None \<Rightarrow> True
      | Some p \<Rightarrow>
          h_exists h (path_join dir relative) (world s) = h_exists h p (world s) \<and>
          h_read h (path_join dir relative) (world s) = h_read h p (world s))"

lemma checksumMatches_same_read:
  "h_read h p (world s) = h_read h q (world s) \<Longrightarrow> checksumMatches h p sha s = checksumMatches h q sha s"
  by (auto simp: checksumMatches_def sha256HexFile_def Let_def split: option.splits prod.splits)

lemma verified_archive:
  assumes "resolves_same h d dir s" "reference_ok h d dir s (archive, sha)" "archive \<noteq> []"
  shows "h_exists h (path_join dir archive) (world s) \<and> checksumMatches h (path_join dir archive) sha s"
proof -
  obtain p where p: "resolveInside h d dir archive s = Some p" "checksumMatches h p sha s"
    using assms(2,3) by (auto simp: reference_ok_def split: option.splits)
  have same: "h_exists h (path_join dir archive) (world s) = h_exists h p (world s)"
    "h_read h (path_join dir archive) (world s) = h_read h p (world s)"
    using assms(1) p(1) unfolding resolves_same_def by (metis (lifting) option.simps(5))+
  then show ?thesis
    using p(2) resolveInside_Some [OF p(1)] checksumMatches_same_read [OF same(2)] by auto
qed

lemma verified_archives:
  "resolves_same h d dir s \<Longrightarrow> list_all (reference_ok h d dir s) archives \<Longrightarrow> verify_archives h dir archives s = None"
  by (induction archives) (auto simp: verified_archive)


section \<open>What a scan finds\<close>

text \<open>The directories a scan looks at: down through directories that are not backups, at most \<open>k\<close> levels.\<close>

inductive reaches :: "'w host \<Rightarrow> 'w sys \<Rightarrow> string \<Rightarrow> nat \<Rightarrow> string \<Rightarrow> bool" for h s where
  here: "reaches h s dir k dir"
| down: "\<not> isBackupDirectory h dir s \<Longrightarrow> h_list h dir (world s) = Some entries \<Longrightarrow> e \<in> set entries \<Longrightarrow>
     de_is_directory e \<Longrightarrow> reaches h s (de_path e) k below \<Longrightarrow> reaches h s dir (Suc k) below"

inductive_simps reaches_0: "reaches h s dir 0 below"
inductive_simps reaches_Suc: "reaches h s dir (Suc k) below"

definition found_below :: "'w host \<Rightarrow> 'w fspaths \<Rightarrow> 'w sys \<Rightarrow> nat \<Rightarrow> string \<Rightarrow> BackupSummaryInfo set" where
  "found_below h d s k dir = {summarize h d b s | b. reaches h s dir k b \<and> isBackupDirectory h b s}"

lemma collect_found: "set (collect h d s k dir acc) = set acc \<union> found_below h d s k dir"
proof (induction k arbitrary: dir acc)
  case 0
  then show ?case by (auto simp: found_below_def reaches_0)
next
  case (Suc k)
  have loop: "set (foldl (\<lambda>acc e. if de_is_directory e then collect h d s k (de_path e) acc else acc) acc es) =
      set acc \<union> (\<Union>e\<in>{e \<in> set es. de_is_directory e}. found_below h d s k (de_path e))" for es
    by (induction es arbitrary: acc) (auto simp: Suc)
  show ?case
  proof (cases "isBackupDirectory h dir s")
    case True
    then show ?thesis by (auto simp: found_below_def reaches_Suc)
  next
    case False
    then show ?thesis
      by (cases "h_list h dir (world s)") (auto simp: loop found_below_def reaches_Suc)
  qed
qed


section \<open>A concrete store\<close>

text \<open>One backup at \<open>/b\<close>: its manifest names one archive, recorded without a checksum.\<close>

definition store_manifest_text :: string where
  "store_manifest_text =
     ''{ '' @ [CHR 34] @ ''packages'' @ [CHR 34] @ '': [ { '' @ [CHR 34] @ ''name'' @ [CHR 34] @ '': '' @
     [CHR 34] @ ''a.b'' @ [CHR 34] @ '', '' @ [CHR 34] @ ''data_archive'' @ [CHR 34] @ '': '' @
     [CHR 34] @ ''data.tar'' @ [CHR 34] @ '' } ] }''"

definition store_host :: "unit host" where
  "store_host = quiet_host\<lparr>h_exists := (\<lambda>p w. p \<in> {''/b'', ''/b/.'', ''/b/manifest.json'', ''/b/data.tar''}),
     h_is_directory := (\<lambda>p w. p = ''/b''), h_is_regular := (\<lambda>p w. p \<in> {''/b/manifest.json'', ''/b/data.tar''}),
     h_read := (\<lambda>p w. if p = ''/b/manifest.json'' then Some (store_manifest_text, True)
                     else if p = ''/b/data.tar'' then Some (''x'', True) else None),
     h_list := (\<lambda>p w. if p = ''/b'' then Some
        [\<lparr>de_path = ''/b/manifest.json'', de_is_directory = False, de_is_regular = True\<rparr>,
         \<lparr>de_path = ''/b/data.tar'', de_is_directory = False, de_is_regular = True\<rparr>] else None)\<rparr>"

definition store_paths :: "unit fspaths" where
  "store_paths = \<lparr>p_absolute = (\<lambda>p w. Some p),
     p_canonical = (\<lambda>p w. if p \<in> {''/b'', ''/b/manifest.json'', ''/b/data.tar''} then Some p else if p = ''/b/.'' then Some ''/b'' else None),
     p_relative = (\<lambda>p b w. drop (length b + 1) p), p_list_error = (\<lambda>p w. []),
     p_mtime = (\<lambda>p w. Some 1767225600), p_walk = (\<lambda>prune p w. None)\<rparr>"

lemma store_paths_canonical: "canonical_paths store_paths"
proof -
  have "''..'' \<notin> set (path_elements p)" if "p \<in> {''/b'', ''/b/manifest.json'', ''/b/data.tar''}" for p
    using that by (auto simp: path_elements_def split_def)
  then show ?thesis by (auto simp: canonical_paths_def store_paths_def)
qed

lemma store_lists:
  "listDirectory store_host store_paths ''/b'' ''.'' quiet_sys =
     Inr [\<lparr>be_name = ''data.tar'', be_relativePath = ''data.tar'', be_isDirectory = False, be_sizeBytes = 0\<rparr>,
          \<lparr>be_name = ''manifest.json'', be_relativePath = ''manifest.json'', be_isDirectory = False, be_sizeBytes = 0\<rparr>]"
  by code_simp

theorem listDirectory_inside_witness: "\<exists>base. p_canonical store_paths ''/b'' (world quiet_sys) = Some base"
  using listDirectory_inside [OF store_paths_canonical store_lists] by blast

lemma store_verifies:
  "verify store_host store_paths ''/b'' quiet_sys = Inr \<lparr>vr_verified = 0, vr_unverifiable = 1, vr_problems = []\<rparr>"
  by code_simp

lemma store_resolves_same: "resolves_same store_host store_paths ''/b'' quiet_sys"
proof -
  have "h_exists store_host q (world quiet_sys) = h_exists store_host p (world quiet_sys) \<and>
      h_read store_host q (world quiet_sys) = h_read store_host p (world quiet_sys)"
    if "p_canonical store_paths q (world quiet_sys) = Some p" for p q
    using that by (auto simp: store_paths_def store_host_def split: if_splits)
  moreover have "p_canonical store_paths (path_join ''/b'' relative) (world quiet_sys) = Some p"
    if "resolveInside store_host store_paths ''/b'' relative quiet_sys = Some p" for relative p
    using resolveInside_Some [OF that] by (auto simp: store_paths_def split: if_splits)
  ultimately show ?thesis by (auto simp: resolves_same_def split: option.splits)
qed


end
