(* ===== verification/BackupExplorer.thy ===== *)
theory BackupExplorer
  imports BackupStore TarArchive
begin

text \<open>
  \<open>src/src/backup/BackupExplorer.cpp\<close>: opening the archives inside a backup, with a cache of their
  indexes and of decompressed copies, and the photos and videos a backup holds.  The explorer's
  fields are a record passed along; its mutex only guards that record, and each call is one step.
\<close>

section \<open>Names\<close>

definition lowerExtension :: "string \<Rightarrow> string" where
  "lowerExtension name =
     (let lower = map to_lower name
      in case rfind_char (CHR ''.'') lower of None \<Rightarrow> [] | Some dot \<Rightarrow> drop (dot + 1) lower)"

definition isHiddenPath :: "string \<Rightarrow> bool" where
  "isHiddenPath path = list_ex (\<lambda>segment. segment \<noteq> [] \<and> segment ! 0 = CHR ''.'') (split path (CHR ''/''))"

definition parentOf :: "string \<Rightarrow> string" where
  "parentOf path = (case rfind_char (CHR ''/'') path of None \<Rightarrow> [] | Some slash \<Rightarrow> take slash path)"

definition isArchiveName :: "string \<Rightarrow> bool" where
  "isArchiveName name \<longleftrightarrow> endsWith name ''.tar'' \<or> endsWith name ''.tar.gz'' \<or> endsWith name ''.tgz''"

definition image_extensions :: "string set" where
  "image_extensions = {''jpg'', ''jpeg'', ''png'', ''gif'', ''webp'', ''bmp'', ''heic'', ''heif'', ''avif''}"

definition video_extensions :: "string set" where
  "video_extensions = {''mp4'', ''3gp'', ''webm'', ''mkv'', ''mov'', ''m4v''}"

definition mediaKind :: "string \<Rightarrow> string" where
  "mediaKind name =
     (let ext = lowerExtension name
      in if ext \<in> image_extensions then ''image'' else if ext \<in> video_extensions then ''video''
         else [])"

definition kTypes :: "(string \<times> string) list" where
  "kTypes =
     [(''jpg'', ''image/jpeg''), (''jpeg'', ''image/jpeg''), (''png'', ''image/png''), (''gif'', ''image/gif''),
      (''webp'', ''image/webp''), (''bmp'', ''image/bmp''), (''heic'', ''image/heic''), (''heif'', ''image/heif''),
      (''avif'', ''image/avif''), (''mp4'', ''video/mp4''), (''m4v'', ''video/mp4''), (''3gp'', ''video/3gpp''),
      (''webm'', ''video/webm''), (''mkv'', ''video/x-matroska''), (''mov'', ''video/quicktime''),
      (''mp3'', ''audio/mpeg''), (''m4a'', ''audio/mp4''), (''aac'', ''audio/aac''), (''ogg'', ''audio/ogg''),
      (''opus'', ''audio/ogg''), (''wav'', ''audio/wav''), (''amr'', ''audio/amr''), (''flac'', ''audio/flac''),
      (''pdf'', ''application/pdf'')]"

definition kText :: "string list" where
  "kText = [''txt'', ''log'', ''json'', ''xml'', ''html'', ''htm'', ''svg'', ''js'', ''css'', ''csv'',
     ''vcf'', ''ics'', ''conf'', ''ini'', ''md'', ''prop'', ''properties'', ''sh'', ''yml'', ''yaml'']"

definition contentTypeFor :: "string \<Rightarrow> string" where
  "contentTypeFor name =
     (let ext = lowerExtension name
      in case map_of kTypes ext of
           Some type \<Rightarrow> type
         | None \<Rightarrow> if ext \<in> set kText then ''text/plain; charset=utf-8'' else ''application/octet-stream'')"

section \<open>Archives\<close>

record Archive =
  ar_tarFile :: string
  ar_entries :: "Entry list"

definition Archive_find :: "Archive \<Rightarrow> string \<Rightarrow> Entry option" where
  "Archive_find archive member = find (\<lambda>entry. te_name entry = member) (ar_entries archive)"

record Explorer =
  ex_archives :: "string \<Rightarrow> Archive option"
  ex_decompressed :: nat

definition new_Explorer :: Explorer where
  "new_Explorer = \<lparr>ex_archives = Map.empty, ex_decompressed = 0\<rparr>"

definition mtimeOf :: "'w fspaths \<Rightarrow> string \<Rightarrow> 'w sys \<Rightarrow> int" where
  "mtimeOf d path s = (case p_mtime d path (world s) of None \<Rightarrow> 0 | Some t \<Rightarrow> t)"

text \<open>\<open>file_size(path, ec)\<close>: all bits set on an error.\<close>

definition file_size_ec :: "'w host \<Rightarrow> string \<Rightarrow> 'w sys \<Rightarrow> nat" where
  "file_size_ec h path s = (case h_file_size h path (world s) of None \<Rightarrow> 2 ^ 64 - 1 | Some n \<Rightarrow> n)"

definition archive_key :: "string \<Rightarrow> nat \<Rightarrow> int \<Rightarrow> string" where
  "archive_key resolved n t = resolved @ ''|'' @ nat_to_string n @ ''|'' @ int_to_string t"

definition copy_path :: "string \<Rightarrow> nat \<Rightarrow> string" where
  "copy_path cacheDir i = path_join cacheDir (''archive_'' @ nat_to_string i @ ''.tar'')"

definition decompress_failed :: "string \<Rightarrow> ProcessResult \<Rightarrow> string" where
  "decompress_failed sub r =
     (if spawnFailed r \<and> \<not> cancelled r then
        ''Opening .tar.gz archives needs '' @ apostrophe @ ''gzip'' @ apostrophe @ '' on this computer.''
      else ''Could not decompress '' @ sub @ '': '' @ trim (stdErr r))"

text \<open>The uncompressed tar to read: the archive itself, or a copy made by \<open>gzip -dc\<close>.\<close>

definition uncompressed ::
    "'w host \<Rightarrow> string \<Rightarrow> string \<Rightarrow> string \<Rightarrow> Explorer \<Rightarrow> 'w sys \<Rightarrow> string result \<times> Explorer \<times> 'w sys" where
  "uncompressed h cacheDir resolved sub x s =
     (if \<not> isGzip h resolved s then (Inr resolved, x, s)
      else
        let s1 = snd (create_directories h cacheDir s);
            copied = copy_path cacheDir (ex_decompressed x);
            x1 = x\<lparr>ex_decompressed := ex_decompressed x + 1\<rparr>;
            (r, s2) = Process_runToFile h [''gzip'', ''-dc'', resolved] copied s1
        in if \<not> result_ok r then (Inl (decompress_failed sub r), x1, fs_remove h copied s2)
           else (Inr copied, x1, s2))"

text \<open>\<^term>\<open>None\<close> when indexing a crafted archive never ends.\<close>

definition openArchive ::
    "'w host \<Rightarrow> 'w fspaths \<Rightarrow> string \<Rightarrow> string \<Rightarrow> string \<Rightarrow> Explorer \<Rightarrow> 'w sys \<Rightarrow>
     (Archive result \<times> Explorer \<times> 'w sys) option" where
  "openArchive h d cacheDir dir sub x s =
     (case resolveInside h d dir sub s of
        None \<Rightarrow> Some (Inl (''No such archive in the backup: '' @ sub), x, s)
      | Some resolved \<Rightarrow>
          if \<not> h_is_regular h resolved (world s) then Some (Inl (''No such archive in the backup: '' @ sub), x, s)
          else
            let key = archive_key resolved (file_size_ec h resolved s) (mtimeOf d resolved s)
            in case ex_archives x key of
                 Some archive \<Rightarrow> Some (Inr archive, x, s)
               | None \<Rightarrow>
                   (case uncompressed h cacheDir resolved sub x s of
                      (Inl what, x1, s1) \<Rightarrow> Some (Inl what, x1, s1)
                    | (Inr tarFile, x1, s1) \<Rightarrow>
                        (case tar_index h tarFile s1 of
                           None \<Rightarrow> None
                         | Some (Inl what) \<Rightarrow> Some (Inl what, x1, s1)
                         | Some (Inr entries) \<Rightarrow>
                             let archive = \<lparr>ar_tarFile = tarFile, ar_entries = entries\<rparr>
                             in Some (Inr archive, x1\<lparr>ex_archives := (ex_archives x1)(key \<mapsto> archive)\<rparr>, s1))))"

text \<open>The destructor.\<close>

definition close_Explorer :: "'w host \<Rightarrow> string \<Rightarrow> 'w sys \<Rightarrow> 'w sys" where
  "close_Explorer h cacheDir s = fs_remove_all h cacheDir s"

section \<open>Photos and videos\<close>

record MediaItem =
  mi_name :: string
  mi_folder :: string
  mi_sub :: string
  mi_member :: string
  mi_kind :: string
  mi_size :: nat
  mi_mtime :: int

definition file_media :: "'w host \<Rightarrow> 'w fspaths \<Rightarrow> string \<Rightarrow> string \<Rightarrow> 'w sys \<Rightarrow> dirent \<Rightarrow> MediaItem option" where
  "file_media h d backupDir folder s e =
     (let relToRoot = p_relative d (de_path e) folder (world s)
      in if isHiddenPath relToRoot then None
         else if \<not> de_is_regular e then None
         else let kind = mediaKind (path_filename (de_path e)) in if kind = [] then None
         else Some \<lparr>mi_name = path_filename (de_path e), mi_folder = parentOf relToRoot,
                    mi_sub = p_relative d (de_path e) backupDir (world s), mi_member = [], mi_kind = kind,
                    mi_size = file_size_ec h (de_path e) s, mi_mtime = mtimeOf d (de_path e) s\<rparr>)"

definition member_media :: "string \<Rightarrow> Entry \<Rightarrow> MediaItem option" where
  "member_media archive entry =
     (if te_type entry \<noteq> TarFile \<or> isHiddenPath (te_name entry) then None
      else let name = path_filename (te_name entry); kind = mediaKind name in if kind = [] then None
      else Some \<lparr>mi_name = name, mi_folder = parentOf (te_name entry), mi_sub = archive, mi_member = te_name entry,
                 mi_kind = kind, mi_size = te_size entry, mi_mtime = te_mtime entry\<rparr>)"

text \<open>The two loops: stop at the limit, skip what is no media item.\<close>

fun gather :: "('a \<Rightarrow> MediaItem option) \<Rightarrow> nat \<Rightarrow> 'a list \<Rightarrow> MediaItem list \<Rightarrow> MediaItem list" where
  "gather item limit [] found = found"
| "gather item limit (e # es) found =
     (if limit \<le> length found then found
      else case item e of
        None \<Rightarrow> gather item limit es found
      | Some m \<Rightarrow> gather item limit es (found @ [m]))"

definition scanDirectory ::
    "'w host \<Rightarrow> 'w fspaths \<Rightarrow> string \<Rightarrow> string \<Rightarrow> nat \<Rightarrow> 'w sys \<Rightarrow> MediaItem list \<Rightarrow> MediaItem list" where
  "scanDirectory h d backupDir folder limit s found =
     (if \<not> h_is_directory h folder (world s) then found
      else case p_walk d (\<lambda>p. isHiddenPath (p_relative d p folder (world s))) folder (world s) of
        None \<Rightarrow> found
      | Some entries \<Rightarrow> gather (file_media h d backupDir folder s) limit entries found)"

definition shared_media ::
    "'w host \<Rightarrow> 'w fspaths \<Rightarrow> string \<Rightarrow> string \<Rightarrow> nat \<Rightarrow> Manifest \<Rightarrow> Explorer \<Rightarrow> 'w sys \<Rightarrow>
     (MediaItem list result \<times> Explorer \<times> 'w sys) option" where
  "shared_media h d cacheDir dir limit manifest x s =
     (let archive = mf_sharedStorageArchive manifest
      in if \<not> mf_sharedStorageIncluded manifest then Some (Inr [], x, s)
         else if mf_sharedStorageIsDirectory manifest then
           Some (Inr (case resolveInside h d dir archive s of
                        None \<Rightarrow> [] | Some folder \<Rightarrow> scanDirectory h d dir folder limit s []), x, s)
         else case openArchive h d cacheDir dir archive x s of
           None \<Rightarrow> None
         | Some (Inl what, x1, s1) \<Rightarrow> Some (Inl what, x1, s1)
         | Some (Inr a, x1, s1) \<Rightarrow> Some (Inr (gather (member_media archive) limit (ar_entries a) []), x1, s1))"

definition is_storage_capture :: "FilesystemCapture \<Rightarrow> bool" where
  "is_storage_capture capture \<longleftrightarrow>
     startsWith (fc_devicePath capture) ''/storage/'' \<or> startsWith (fc_devicePath capture) ''/sdcard''"

fun capture_media ::
    "'w host \<Rightarrow> 'w fspaths \<Rightarrow> string \<Rightarrow> nat \<Rightarrow> 'w sys \<Rightarrow> FilesystemCapture list \<Rightarrow> MediaItem list \<Rightarrow> MediaItem list" where
  "capture_media h d dir limit s [] found = found"
| "capture_media h d dir limit s (capture # rest) found =
     (if \<not> is_storage_capture capture then capture_media h d dir limit s rest found
      else case resolveInside h d dir (fc_localPath capture) s of
        None \<Rightarrow> capture_media h d dir limit s rest found
      | Some folder \<Rightarrow> capture_media h d dir limit s rest (scanDirectory h d dir folder limit s found))"

definition newer_media :: "MediaItem \<Rightarrow> MediaItem \<Rightarrow> bool" where
  "newer_media a b \<longleftrightarrow> mi_mtime b < mi_mtime a"

definition media ::
    "'w host \<Rightarrow> 'w fspaths \<Rightarrow> string \<Rightarrow> string \<Rightarrow> nat \<Rightarrow> Explorer \<Rightarrow> 'w sys \<Rightarrow>
     (MediaItem list result \<times> Explorer \<times> 'w sys) option" where
  "media h d cacheDir dir limit x s =
     (case loadManifest h dir s of
        Inl what \<Rightarrow> Some (Inl what, x, s)
      | Inr manifest \<Rightarrow>
          (case shared_media h d cacheDir dir limit manifest x s of
             None \<Rightarrow> None
           | Some (Inl what, x1, s1) \<Rightarrow> Some (Inl what, x1, s1)
           | Some (Inr found, x1, s1) \<Rightarrow>
               Some (Inr (sort_by newer_media (capture_media h d dir limit s1 (mf_filesystemCaptures manifest) found)),
                 x1, s1)))"

definition kMediaLimit :: nat where "kMediaLimit = 20000"

interpretation newest_media: comparator newer_media
  by unfold_locales (auto simp: newer_media_def)

section \<open>Nothing from the phone is served as a page\<close>

lemma contentTypeFor_cases:
  "contentTypeFor name \<in> snd ` set kTypes \<union> {''text/plain; charset=utf-8'', ''application/octet-stream''}"
proof (cases "map_of kTypes (lowerExtension name)")
  case (Some t)
  then show ?thesis using map_of_SomeD [OF Some] by (force simp: contentTypeFor_def Let_def)
qed (simp add: contentTypeFor_def Let_def)

lemma kTypes_kinds:
  "list_all (\<lambda>(ext, t). (startsWith t ''image/'' \<longleftrightarrow> ext \<in> image_extensions) \<and>
     (startsWith t ''video/'' \<longleftrightarrow> ext \<in> video_extensions)) kTypes"
  by (simp add: kTypes_def startsWith_def image_extensions_def video_extensions_def)

lemma extension_sets:
  "image_extensions \<inter> video_extensions = {}" "image_extensions \<union> video_extensions \<subseteq> fst ` set kTypes"
  by (auto simp: image_extensions_def video_extensions_def kTypes_def)

lemma kinds_are_types:
  "(mediaKind name = ''image'' \<longleftrightarrow> startsWith (contentTypeFor name) ''image/'') \<and>
   (mediaKind name = ''video'' \<longleftrightarrow> startsWith (contentTypeFor name) ''video/'')"
proof (cases "map_of kTypes (lowerExtension name)")
  case (Some t)
  have "(startsWith t ''image/'' \<longleftrightarrow> lowerExtension name \<in> image_extensions) \<and>
      (startsWith t ''video/'' \<longleftrightarrow> lowerExtension name \<in> video_extensions)"
    using kTypes_kinds map_of_SomeD [OF Some] by (auto simp: list_all_iff)
  then show ?thesis using Some extension_sets(1) by (auto simp: contentTypeFor_def mediaKind_def Let_def)
next
  case None
  then have "lowerExtension name \<notin> image_extensions" "lowerExtension name \<notin> video_extensions"
    using extension_sets(2) by (auto simp: map_of_eq_None_iff)
  with None show ?thesis by (simp add: contentTypeFor_def mediaKind_def Let_def startsWith_def)
qed

text \<open>Whatever its name, a file of a backup is served as a picture, a sound, a video, a PDF, plain text
  or an opaque download, and never as HTML, SVG, XML, CSS or a script, which could run as the GUI's
  page; and the gallery's kinds are the types: what it shows as an image or a video is served as one.\<close>

theorem contentTypeFor_inert:
  "list_ex (startsWith (contentTypeFor name)) [''image/'', ''video/'', ''audio/'', ''application/pdf'', ''text/plain'', ''application/octet-stream''] \<and>
   \<not> list_ex (\<lambda>bad. contains_sub bad (contentTypeFor name)) [''html'', ''svg'', ''xml'', ''css'', ''script''] \<and>
   (mediaKind name = ''image'' \<longleftrightarrow> startsWith (contentTypeFor name) ''image/'') \<and>
   (mediaKind name = ''video'' \<longleftrightarrow> startsWith (contentTypeFor name) ''video/'')"
proof -
  have types: "list_all (\<lambda>t. list_ex (startsWith t) [''image/'', ''video/'', ''audio/'', ''application/pdf'', ''text/plain'', ''application/octet-stream''] \<and>
      \<not> list_ex (\<lambda>bad. contains_sub bad t) [''html'', ''svg'', ''xml'', ''css'', ''script''])
    (map snd kTypes @ [''text/plain; charset=utf-8'', ''application/octet-stream''])"
    by code_simp
  have "contentTypeFor name \<in> set (map snd kTypes @ [''text/plain; charset=utf-8'', ''application/octet-stream''])"
    using contentTypeFor_cases [of name] by auto
  with types have "list_ex (startsWith (contentTypeFor name)) [''image/'', ''video/'', ''audio/'', ''application/pdf'', ''text/plain'', ''application/octet-stream''] \<and>
      \<not> list_ex (\<lambda>bad. contains_sub bad (contentTypeFor name)) [''html'', ''svg'', ''xml'', ''css'', ''script'']"
    unfolding list_all_iff by blast
  moreover have "(mediaKind name = ''image'' \<longleftrightarrow> startsWith (contentTypeFor name) ''image/'') \<and>
      (mediaKind name = ''video'' \<longleftrightarrow> startsWith (contentTypeFor name) ''video/'')"
    by (rule kinds_are_types)
  ultimately show ?thesis by blast
qed

section \<open>The cache serves what is in the backup\<close>

lemma split_at_last:
  assumes "xs @ c # ys = xs' @ (c :: char) # ys'" "c \<notin> set ys" "c \<notin> set ys'"
  shows "xs = xs'"
proof -
  have "rev ys @ c # rev xs = rev ys' @ c # rev xs'"
    using arg_cong [OF assms(1), of rev] by simp
  then have "length ys = length ys'"
    using find_char_append_hit [of c "rev ys" "rev xs"] find_char_append_hit [of c "rev ys'" "rev xs'"] assms(2,3)
    by simp
  with assms(1) show ?thesis by simp
qed

lemma no_bar: "CHR ''|'' \<notin> set (nat_to_string n)" "CHR ''|'' \<notin> set (int_to_string t)"
proof -
  have "\<not> is_digit (CHR ''|'')" by (simp add: is_digit_def)
  then show nat: "CHR ''|'' \<notin> set (nat_to_string n)" for n using nat_to_string_digits [of n] by blast
  show "CHR ''|'' \<notin> set (int_to_string t)" using nat by (simp add: int_to_string_def)
qed

lemma archive_key_resolved: "archive_key p n t = archive_key p' n' t' \<Longrightarrow> p = p'"
proof -
  assume "archive_key p n t = archive_key p' n' t'"
  then have "(p @ CHR ''|'' # nat_to_string n) @ CHR ''|'' # int_to_string t =
      (p' @ CHR ''|'' # nat_to_string n') @ CHR ''|'' # int_to_string t'"
    by (simp add: archive_key_def)
  then have "p @ CHR ''|'' # nat_to_string n = p' @ CHR ''|'' # nat_to_string n'"
    by (rule split_at_last [OF _ no_bar(2) no_bar(2)])
  then show "p = p'" by (rule split_at_last [OF _ no_bar(1) no_bar(1)])
qed

text \<open>
  Where the tar that is read for an archive comes from: it is the archive itself, or the copy
  \<open>gzip\<close> was told to make of it, under a name that is not used again.
\<close>

definition served_from :: "string \<Rightarrow> Explorer \<Rightarrow> 'w sys \<Rightarrow> string \<Rightarrow> string \<Rightarrow> bool" where
  "served_from cacheDir x s resolved tarFile \<longleftrightarrow>
     tarFile = resolved \<or>
     (\<exists>i < ex_decompressed x. tarFile = copy_path cacheDir i \<and>
        EvExec (ToFile tarFile) [''gzip'', ''-dc'', resolved] \<in> set (trace s))"

definition cache_ok :: "string \<Rightarrow> Explorer \<Rightarrow> 'w sys \<Rightarrow> bool" where
  "cache_ok cacheDir x s \<longleftrightarrow>
     (\<forall>resolved n t archive. ex_archives x (archive_key resolved n t) = Some archive \<longrightarrow>
        served_from cacheDir x s resolved (ar_tarFile archive))"

lemma cache_okD:
  "cache_ok cacheDir x s \<Longrightarrow> ex_archives x (archive_key resolved n t) = Some archive \<Longrightarrow>
   served_from cacheDir x s resolved (ar_tarFile archive)"
  by (simp add: cache_ok_def)

lemma cache_ok_new: "cache_ok cacheDir new_Explorer s"
  by (simp add: cache_ok_def new_Explorer_def)

lemma served_from_later:
  "served_from cacheDir x s r f \<Longrightarrow> extends (\<lambda>e. True) s s' \<Longrightarrow> ex_decompressed x \<le> ex_decompressed x' \<Longrightarrow>
   served_from cacheDir x' s' r f"
  by (auto simp: served_from_def extends_def intro: less_le_trans)

lemma cache_ok_later:
  "cache_ok cacheDir x s \<Longrightarrow> extends (\<lambda>e. True) s s' \<Longrightarrow> ex_decompressed x \<le> ex_decompressed x' \<Longrightarrow>
   ex_archives x' = ex_archives x \<Longrightarrow> cache_ok cacheDir x' s'"
  unfolding cache_ok_def by (metis served_from_later)

lemma extends_process_any: "extends (\<lambda>e. True) s (snd (process h io args s))"
  by (rule extends_mono [OF extends_process [of args "\<lambda>_ _. True"]]) simp_all

lemma extends_any: "extends local_event s t \<Longrightarrow> extends (\<lambda>e. True) s t"
  by (erule extends_mono) simp

lemma process_ok_traced:
  "process h io args s = (r, s') \<Longrightarrow> result_ok r \<Longrightarrow> EvExec io args \<in> set (trace s')"
  by (auto simp: process_def result_ok_def emptyArgsResult_def cancelledResult_def Let_def
      split: if_splits prod.splits bool.splits)

lemma uncompressed_served:
  assumes "uncompressed h cacheDir resolved sub x s = (r, x', s')"
  shows "extends (\<lambda>e. True) s s' \<and> ex_archives x' = ex_archives x \<and> ex_decompressed x \<le> ex_decompressed x' \<and>
    (case r of Inl _ \<Rightarrow> True | Inr tarFile \<Rightarrow> served_from cacheDir x' s' resolved tarFile)"
proof (cases "isGzip h resolved s")
  case False
  with assms show ?thesis by (auto simp: uncompressed_def served_from_def)
next
  case True
  define s1 where "s1 = snd (create_directories h cacheDir s)"
  let ?copy = "copy_path cacheDir (ex_decompressed x)"
  obtain p s2 where p: "Process_runToFile h [''gzip'', ''-dc'', resolved] ?copy s1 = (p, s2)" by (metis prod.collapse)
  have ext: "extends (\<lambda>e. True) s s2"
    using extends_any [OF extends_files(1) [of s h cacheDir]] extends_process_any [of s1 h "ToFile ?copy"] p
    by (metis Process_runToFile_def extends_trans s1_def snd_conv)
  show ?thesis
  proof (cases "result_ok p")
    case ok: True
    then have "EvExec (ToFile ?copy) [''gzip'', ''-dc'', resolved] \<in> set (trace s2)"
      using process_ok_traced p by (metis Process_runToFile_def)
    with assms True ok ext p show ?thesis
      by (auto simp: uncompressed_def Let_def served_from_def s1_def [symmetric])
  next
    case bad: False
    have "extends (\<lambda>e. True) s (fs_remove h ?copy s2)"
      using ext extends_any [OF extends_files(2)] extends_trans by metis
    with assms True bad p show ?thesis
      by (auto simp: uncompressed_def Let_def s1_def [symmetric])
  qed
qed

lemma openArchive_served:
  assumes cache: "cache_ok cacheDir x s" and run: "openArchive h d cacheDir dir sub x s = Some (r, x', s')"
  shows "cache_ok cacheDir x' s' \<and>
    (case r of Inl _ \<Rightarrow> True
     | Inr archive \<Rightarrow> \<exists>resolved. resolveInside h d dir sub s = Some resolved \<and>
         served_from cacheDir x' s' resolved (ar_tarFile archive))"
proof (cases "resolveInside h d dir sub s")
  case None
  with run cache show ?thesis by (auto simp: openArchive_def)
next
  case (Some resolved)
  let ?key = "archive_key resolved (file_size_ec h resolved s) (mtimeOf d resolved s)"
  show ?thesis
  proof (cases "h_is_regular h resolved (world s) \<and> ex_archives x ?key = None")
    case False
    then show ?thesis
    proof (cases "ex_archives x ?key")
      case (Some a)
      then have "served_from cacheDir x s resolved (ar_tarFile a)"
        using cache_okD [OF cache] by blast
      with run cache Some \<open>resolveInside h d dir sub s = Some resolved\<close> show ?thesis
        by (auto simp: openArchive_def Let_def split: if_splits)
    qed (use run cache Some in \<open>auto simp: openArchive_def Let_def split: if_splits\<close>)
  next
    case True
    obtain q x1 s1 where q: "uncompressed h cacheDir resolved sub x s = (q, x1, s1)" by (metis prod.collapse)
    note u = uncompressed_served [OF q]
    have ok1: "cache_ok cacheDir x1 s1" using cache_ok_later [OF cache] u by blast
    show ?thesis
    proof (cases q)
      case (Inl what)
      with run True Some q ok1 show ?thesis by (auto simp: openArchive_def Let_def)
    next
      case (Inr tarFile)
      then have served: "served_from cacheDir x1 s1 resolved tarFile" using u by simp
      have "cache_ok cacheDir (x1\<lparr>ex_archives := (ex_archives x1)(?key \<mapsto> \<lparr>ar_tarFile = tarFile, ar_entries = es\<rparr>)\<rparr>) s1" for es
        using ok1 served archive_key_resolved by (fastforce simp: cache_ok_def served_from_def)
      with run True Some q Inr ok1 served show ?thesis
        by (auto simp: openArchive_def Let_def served_from_def split: option.splits sum.splits)
    qed
  qed
qed

text \<open>The explorer only ever opens archives of the backup: the tar that is indexed, cached and later
  served is the requested file, resolved inside the backup, or the copy \<open>gzip\<close> made of exactly that
  file; this stays so for every cached index, whatever was opened before.\<close>

theorem openArchive_serves:
  assumes "cache_ok cacheDir x s"
  shows "case openArchive h d cacheDir dir sub x s of
     None \<Rightarrow> True
   | Some (r, x', s') \<Rightarrow> cache_ok cacheDir x' s' \<and>
       (case r of Inl _ \<Rightarrow> True
        | Inr archive \<Rightarrow> \<exists>resolved. resolveInside h d dir sub s = Some resolved \<and>
            served_from cacheDir x' s' resolved (ar_tarFile archive))"
  using openArchive_served [OF assms] by (auto split: option.splits)

section \<open>The gallery\<close>

definition media_ok :: "MediaItem \<Rightarrow> bool" where
  "media_ok m \<longleftrightarrow> mi_kind m = mediaKind (mi_name m) \<and> mi_kind m \<noteq> []"

lemma gather_ok:
  assumes "\<And>e m. item e = Some m \<Longrightarrow> media_ok m"
  shows "length found \<le> limit \<Longrightarrow> list_all media_ok found \<Longrightarrow>
    length (gather item limit es found) \<le> limit \<and> list_all media_ok (gather item limit es found)"
  by (induction es arbitrary: found) (auto simp: assms split: option.splits)

lemma file_media_ok: "file_media h d dir folder s e = Some m \<Longrightarrow> media_ok m"
  by (auto simp: file_media_def media_ok_def Let_def split: if_splits)

lemma member_media_ok: "member_media archive e = Some m \<Longrightarrow> media_ok m"
  by (auto simp: member_media_def media_ok_def Let_def split: if_splits)

lemma file_gather:
  "length found \<le> limit \<Longrightarrow> list_all media_ok found \<Longrightarrow>
   length (gather (file_media h d dir folder s) limit es found) \<le> limit \<and>
   list_all media_ok (gather (file_media h d dir folder s) limit es found)"
  by (rule gather_ok) (rule file_media_ok)

lemma member_gather:
  "length (gather (member_media archive) limit es []) \<le> limit \<and> list_all media_ok (gather (member_media archive) limit es [])"
  by (rule gather_ok) (auto intro: member_media_ok)

lemma scanDirectory_ok:
  "length found \<le> limit \<Longrightarrow> list_all media_ok found \<Longrightarrow>
   length (scanDirectory h d dir folder limit s found) \<le> limit \<and> list_all media_ok (scanDirectory h d dir folder limit s found)"
  by (auto simp: scanDirectory_def file_gather split: option.splits)

lemma capture_media_ok:
  "length found \<le> limit \<Longrightarrow> list_all media_ok found \<Longrightarrow>
   length (capture_media h d dir limit s cs found) \<le> limit \<and> list_all media_ok (capture_media h d dir limit s cs found)"
  by (induction cs arbitrary: found) (auto simp: scanDirectory_ok split: option.splits)

lemma shared_media_ok:
  "shared_media h d cacheDir dir limit manifest x s = Some (Inr found, x', s') \<Longrightarrow>
   length found \<le> limit \<and> list_all media_ok found"
  by (auto simp: shared_media_def Let_def scanDirectory_ok member_gather
      split: if_splits option.splits sum.splits prod.splits)

text \<open>The gallery has at most \<open>limit\<close> items, each an image or a video by its name, newest first.\<close>

theorem media_bounded:
  "case media h d cacheDir dir limit x s of
     Some (Inr found, _, _) \<Rightarrow>
       length found \<le> limit \<and> list_all media_ok found \<and> sorted_wrt (\<lambda>a b. mi_mtime b \<le> mi_mtime a) found
   | _ \<Rightarrow> True"
proof -
  have "sorted_wrt (\<lambda>a b. mi_mtime b \<le> mi_mtime a) (sort_by newer_media ms)" for ms
    using newest_media.sort_by_sorted [of ms] by (simp add: newer_media_def not_less)
  moreover have "length (sort_by newer_media ms) \<le> limit \<and> list_all media_ok (sort_by newer_media ms)"
    if "length ms \<le> limit \<and> list_all media_ok ms" for ms
    using that by (simp add: list_all_iff)
  ultimately have sorted: "length (sort_by newer_media ms) \<le> limit \<and> list_all media_ok (sort_by newer_media ms) \<and>
      sorted_wrt (\<lambda>a b. mi_mtime b \<le> mi_mtime a) (sort_by newer_media ms)"
    if "length ms \<le> limit \<and> list_all media_ok ms" for ms
    using that by blast
  show ?thesis
  proof (cases "loadManifest h dir s")
    case (Inr manifest)
    show ?thesis
    proof (cases "shared_media h d cacheDir dir limit manifest x s")
      case (Some r)
      obtain q x1 s1 where r: "r = (q, x1, s1)" by (cases r)
      show ?thesis
      proof (cases q)
        case (Inr found)
        have "length found \<le> limit \<and> list_all media_ok found"
          using shared_media_ok Some r Inr by blast
        then have "length (capture_media h d dir limit s1 (mf_filesystemCaptures manifest) found) \<le> limit \<and>
            list_all media_ok (capture_media h d dir limit s1 (mf_filesystemCaptures manifest) found)"
          using capture_media_ok by blast
        from sorted [OF this] show ?thesis
          using \<open>loadManifest h dir s = Inr manifest\<close> Some r Inr by (simp add: media_def)
      qed (use Some r \<open>loadManifest h dir s = Inr manifest\<close> in \<open>simp add: media_def\<close>)
    qed (use Inr in \<open>simp add: media_def\<close>)
  qed (simp add: media_def)
qed

section \<open>Instances\<close>

text \<open>A compressed archive next to the plain one of the concrete store.\<close>

definition gz_host :: "unit host" where
  "gz_host = store_host\<lparr>h_read := (\<lambda>p w. if p = ''/b/data.tar'' then Some ([CHR 0x1F, CHR 0x8B], True)
     else if p = ''/tmp/x/archive_0.tar'' then Some ([], True) else None),
     h_file_size := (\<lambda>p w. Some 0)\<rparr>"

lemma gz_opened:
  "map_option (\<lambda>(r, _, s). (r, trace s)) (openArchive gz_host store_paths ''/tmp/x'' ''/b'' ''data.tar'' new_Explorer quiet_sys) =
     Some (Inr \<lparr>ar_tarFile = ''/tmp/x/archive_0.tar'', ar_entries = []\<rparr>,
       [EvMkdir ''/tmp/x'', EvExec (ToFile ''/tmp/x/archive_0.tar'') [''gzip'', ''-dc'', ''/b/data.tar'']])"
  by code_simp

theorem openArchive_serves_witness:
  "\<exists>x' (s' :: unit sys) resolved.
     resolveInside gz_host store_paths ''/b'' ''data.tar'' quiet_sys = Some resolved \<and>
     served_from ''/tmp/x'' x' s' resolved ''/tmp/x/archive_0.tar'' \<and> cache_ok ''/tmp/x'' x' s'"
proof -
  obtain r x' s' where run: "openArchive gz_host store_paths ''/tmp/x'' ''/b'' ''data.tar'' new_Explorer quiet_sys = Some (r, x', s')"
    "r = Inr \<lparr>ar_tarFile = ''/tmp/x/archive_0.tar'', ar_entries = []\<rparr>"
    using gz_opened by auto
  have "cache_ok ''/tmp/x'' x' s' \<and>
      (\<exists>resolved. resolveInside gz_host store_paths ''/b'' ''data.tar'' quiet_sys = Some resolved \<and>
         served_from ''/tmp/x'' x' s' resolved ''/tmp/x/archive_0.tar'')"
    using openArchive_serves [OF cache_ok_new, where h = gz_host and d = store_paths and cacheDir = "''/tmp/x''"
      and dir = "''/b''" and sub = "''data.tar''" and s = quiet_sys] run by simp
  then show ?thesis by blast
qed

end
