(* ===== verification/JobRunner.thy ===== *)
theory JobRunner
  imports Json Host
begin

text \<open>
  \<open>JobRunner\<close> of \<open>src/src/gui/GuiServer.cpp\<close>, the one backup or restore the GUI may have in flight.
  Its methods are functions on its fields and on the cancel flag of \<open>Process\<close>, which is global.
  Request threads, the worker thread and the signal handler interleave: each locked section, each
  access to the flag and each step of the worker between them is one step of a relation.
\<close>

section \<open>State\<close>

text \<open>
  Where the worker thread is: running \<open>work\<close>; after it, with the outcome; after the sinks were taken
  off; after the flag was read; after it was cleared, before \<open>finish\<close>.
\<close>

datatype worker =
    NoWorker
  | Working
  | Returned string json
  | SinksOff string json
  | Decided string json
  | Cleared string json

record jobs =
  jr_running :: bool
  jr_present :: bool
  jr_cancelling :: bool
  jr_progressStep :: string
  jr_progressDone :: int
  jr_progressTotal :: int
  jr_progressItem :: string
  jr_id :: int
  jr_kind :: string
  jr_state :: string
  jr_target :: string
  jr_startedAt :: string
  jr_finishedAt :: string
  jr_log :: "(string \<times> string) list"
  jr_result :: json
  jr_worker :: worker
  jr_cancelRequested :: bool

definition new_jobs :: jobs where
  "new_jobs =
     \<lparr>jr_running = False, jr_present = False, jr_cancelling = False, jr_progressStep = [], jr_progressDone = 0,
      jr_progressTotal = 0, jr_progressItem = [], jr_id = 0, jr_kind = [], jr_state = ''idle'', jr_target = [],
      jr_startedAt = [], jr_finishedAt = [], jr_log = [], jr_result = JNull, jr_worker = NoWorker,
      jr_cancelRequested = False\<rparr>"

record Snapshot =
  sn_present :: bool
  sn_id :: int
  sn_kind :: string
  sn_state :: string
  sn_target :: string
  sn_startedAt :: string
  sn_finishedAt :: string
  sn_logSize :: nat
  sn_cancelling :: bool
  sn_progressStep :: string
  sn_progressDone :: int
  sn_progressTotal :: int
  sn_progressItem :: string
  sn_result :: json
  sn_newLines :: "(string \<times> string) list"

section \<open>Operations\<close>

definition job_start :: "string \<Rightarrow> string \<Rightarrow> string \<Rightarrow> jobs \<Rightarrow> bool \<times> jobs" where
  "job_start kind target now j =
     (if jr_running j then (False, j)
      else (True, j\<lparr>jr_id := jr_id j + 1, jr_kind := kind, jr_target := target, jr_state := ''running'',
              jr_startedAt := now, jr_finishedAt := [], jr_log := [], jr_result := JNull, jr_running := True,
              jr_present := True, jr_cancelling := False, jr_progressStep := [], jr_progressDone := 0,
              jr_progressTotal := 0, jr_progressItem := [], jr_cancelRequested := False, jr_worker := Working\<rparr>))"

definition job_snapshot :: "nat \<Rightarrow> jobs \<Rightarrow> Snapshot" where
  "job_snapshot since j =
     \<lparr>sn_present = jr_present j, sn_id = jr_id j, sn_kind = jr_kind j, sn_state = jr_state j, sn_target = jr_target j,
      sn_startedAt = jr_startedAt j, sn_finishedAt = jr_finishedAt j, sn_logSize = length (jr_log j),
      sn_cancelling = jr_cancelling j, sn_progressStep = jr_progressStep j, sn_progressDone = jr_progressDone j,
      sn_progressTotal = jr_progressTotal j, sn_progressItem = jr_progressItem j, sn_result = jr_result j,
      sn_newLines = drop (min since (length (jr_log j))) (jr_log j)\<rparr>"

definition job_cancel :: "jobs \<Rightarrow> bool \<times> jobs" where
  "job_cancel j =
     (if \<not> jr_running j then (False, j) else (True, j\<lparr>jr_cancelling := True, jr_cancelRequested := True\<rparr>))"

definition job_dismiss :: "jobs \<Rightarrow> bool \<times> jobs" where
  "job_dismiss j =
     (if jr_running j then (False, j) else (True, j\<lparr>jr_present := False, jr_log := [], jr_result := JNull\<rparr>))"

definition job_append :: "string \<Rightarrow> string \<Rightarrow> jobs \<Rightarrow> jobs" where
  "job_append level message j = j\<lparr>jr_log := jr_log j @ [(level, message)]\<rparr>"

definition job_progress :: "string \<Rightarrow> int \<Rightarrow> int \<Rightarrow> string \<Rightarrow> jobs \<Rightarrow> jobs" where
  "job_progress step done_items all_items item j =
     j\<lparr>jr_progressStep := step, jr_progressDone := done_items, jr_progressTotal := all_items, jr_progressItem := item\<rparr>"

definition job_finish :: "string \<Rightarrow> json \<Rightarrow> string \<Rightarrow> jobs \<Rightarrow> jobs" where
  "job_finish state result now j =
     j\<lparr>jr_state := state, jr_result := result, jr_finishedAt := now, jr_running := False\<rparr>"

text \<open>What the worker makes of its outcome.\<close>

definition returned_state :: "json \<Rightarrow> string" where
  "returned_state result =
     (if isObject result \<and> \<not> asBool (json_get result ''success'') True then ''failed'' else ''succeeded'')"

definition decided_state :: "bool \<Rightarrow> string \<Rightarrow> string" where
  "decided_state stopped state = (if stopped then ''cancelled'' else state)"

section \<open>Steps\<close>

datatype action =
    StartJob string string string
  | CancelJob
  | DismissJob
  | LogLine LogLevel string
  | Progress string int int string
  | WorkReturns json
  | WorkThrows string
  | DropSinks
  | ReadCancel
  | ClearCancel
  | Finish string
  | Interrupt

fun sinks_on :: "worker \<Rightarrow> bool" where
  "sinks_on Working = True"
| "sinks_on (Returned _ _) = True"
| "sinks_on _ = False"

inductive job_step :: "jobs \<Rightarrow> action \<Rightarrow> jobs \<Rightarrow> bool" where
  start: "job_step j (StartJob kind target now) (snd (job_start kind target now j))"
| cancel: "job_step j CancelJob (snd (job_cancel j))"
| dismiss: "job_step j DismissJob (snd (job_dismiss j))"
| log_line: "sinks_on (jr_worker j) \<Longrightarrow> job_step j (LogLine level m) (job_append (logLevelName level) m j)"
| progress: "sinks_on (jr_worker j) \<Longrightarrow> job_step j (Progress st d t i) (job_progress st d t i j)"
| returns: "jr_worker j = Working \<Longrightarrow>
    job_step j (WorkReturns r) (j\<lparr>jr_worker := Returned (returned_state r) r\<rparr>)"
| throws: "jr_worker j = Working \<Longrightarrow>
    job_step j (WorkThrows m) ((job_append ''error'' m j)\<lparr>jr_worker := Returned ''failed'' JNull\<rparr>)"
| drop_sinks: "jr_worker j = Returned st r \<Longrightarrow> job_step j DropSinks (j\<lparr>jr_worker := SinksOff st r\<rparr>)"
| read_cancel: "jr_worker j = SinksOff st r \<Longrightarrow>
    job_step j ReadCancel (j\<lparr>jr_worker := Decided (decided_state (jr_cancelRequested j) st) r\<rparr>)"
| clear_cancel: "jr_worker j = Decided st r \<Longrightarrow>
    job_step j ClearCancel (j\<lparr>jr_cancelRequested := False, jr_worker := Cleared st r\<rparr>)"
| finish: "jr_worker j = Cleared st r \<Longrightarrow>
    job_step j (Finish now) ((job_finish st r now j)\<lparr>jr_worker := NoWorker\<rparr>)"
| interrupt: "job_step j Interrupt (j\<lparr>jr_cancelRequested := True\<rparr>)"

inductive_cases step_cases: "job_step j a j'"

inductive_simps step_start: "job_step j (StartJob kind target now) j'"
inductive_simps step_cancel: "job_step j CancelJob j'"
inductive_simps step_clear: "job_step j ClearCancel j'"
inductive_simps step_finish: "job_step j (Finish now) j'"

text \<open>Executions: the actions, in the order in which the locks and the flag were taken.\<close>

inductive job_run :: "jobs \<Rightarrow> action list \<Rightarrow> jobs \<Rightarrow> bool" where
  nothing: "job_run j [] j"
| more: "job_step j a j' \<Longrightarrow> job_run j' as j'' \<Longrightarrow> job_run j (a # as) j''"

inductive_simps run_nil: "job_run j [] j'"
inductive_simps run_cons: "job_run j (a # as) j'"

definition reachable :: "jobs \<Rightarrow> bool" where
  "reachable j \<longleftrightarrow> (\<exists>as. job_run new_jobs as j)"

section \<open>Invariant\<close>

text \<open>
  There is a worker exactly while a job is running; a running job is visible and in state
  \<open>running\<close>, and a finished one has a final state; a worker past its decision carries one.
\<close>

fun final_state :: "string \<Rightarrow> bool" where
  "final_state st = (st \<in> {''succeeded'', ''failed'', ''cancelled''})"

fun worker_ok :: "worker \<Rightarrow> bool" where
  "worker_ok NoWorker = True"
| "worker_ok Working = True"
| "worker_ok (Returned st r) = (st = ''succeeded'' \<or> st = ''failed'')"
| "worker_ok (SinksOff st r) = (st = ''succeeded'' \<or> st = ''failed'')"
| "worker_ok (Decided st r) = final_state st"
| "worker_ok (Cleared st r) = final_state st"

definition job_inv :: "jobs \<Rightarrow> bool" where
  "job_inv j \<longleftrightarrow>
     (jr_running j \<longleftrightarrow> jr_worker j \<noteq> NoWorker) \<and>
     (jr_running j \<longleftrightarrow> jr_state j = ''running'') \<and>
     (jr_running j \<longrightarrow> jr_present j \<and> jr_finishedAt j = []) \<and>
     (\<not> jr_running j \<and> jr_present j \<longrightarrow> final_state (jr_state j)) \<and>
     worker_ok (jr_worker j) \<and>
     0 \<le> jr_id j"

lemmas job_defs = job_start_def job_cancel_def job_dismiss_def job_append_def job_progress_def job_finish_def
  returned_state_def decided_state_def

lemma job_inv_new: "job_inv new_jobs"
  by (simp add: job_inv_def new_jobs_def)

lemma job_step_inv: "job_step j a j' \<Longrightarrow> job_inv j \<Longrightarrow> job_inv j'"
  by (induction rule: job_step.induct) (auto simp: job_inv_def job_defs split: if_splits)

lemma job_run_inv: "job_run j as j' \<Longrightarrow> job_inv j \<Longrightarrow> job_inv j'"
  by (induction rule: job_run.induct) (auto intro: job_step_inv)

lemma reachable_inv: "reachable j \<Longrightarrow> job_inv j"
  using job_run_inv job_inv_new by (auto simp: reachable_def)

text \<open>C24: In every state any interleaving of requests, worker steps and signals can reach, there is a
  worker exactly while a job is running, the running job is visible and in state \<open>running\<close>, a finished
  one is \<open>succeeded\<close>, \<open>failed\<close> or \<open>cancelled\<close>; so a second job is refused and changes nothing, and a
  running job cannot be dismissed.\<close>

theorem job_runner_invariant:
  assumes "job_run new_jobs as j"
  shows "job_inv j \<and>
    (job_start kind target now j = (False, j) \<longleftrightarrow> jr_worker j \<noteq> NoWorker) \<and>
    (job_dismiss j = (False, j) \<longleftrightarrow> jr_worker j \<noteq> NoWorker)"
proof -
  have "job_inv j" using job_run_inv [OF assms job_inv_new] .
  then show ?thesis by (auto simp: job_inv_def job_start_def job_dismiss_def)
qed

text \<open>A job that is cancelled while it is working, with a line in its log.\<close>

definition sample_actions :: "action list" where
  "sample_actions = [StartJob ''backup'' ''/b'' ''t0'', LogLine Info ''hello'', CancelJob, WorkReturns JNull, DropSinks,
     ReadCancel, ClearCancel, Finish ''t1'']"

definition sample_end :: jobs where
  "sample_end = new_jobs\<lparr>jr_present := True, jr_cancelling := True, jr_id := 1, jr_kind := ''backup'',
     jr_state := ''cancelled'', jr_target := ''/b'', jr_startedAt := ''t0'', jr_finishedAt := ''t1'',
     jr_log := [(''info'', ''hello'')]\<rparr>"

definition working_job :: jobs where
  "working_job = snd (job_start ''backup'' ''/b'' ''t0'' new_jobs)"

lemma working_job_eq:
  "working_job = new_jobs\<lparr>jr_running := True, jr_present := True, jr_id := 1, jr_kind := ''backup'',
     jr_state := ''running'', jr_target := ''/b'', jr_startedAt := ''t0'', jr_worker := Working\<rparr>"
  by (simp add: working_job_def job_start_def new_jobs_def)

lemma started: "job_step new_jobs (StartJob ''backup'' ''/b'' ''t0'') working_job"
  by (simp add: step_start working_job_def)

lemma ends:
  "jr_worker j = Working \<Longrightarrow>
   job_run j [WorkReturns r, DropSinks, ReadCancel, ClearCancel, Finish now]
     ((job_finish (decided_state (jr_cancelRequested j) (returned_state r)) r now j)
        \<lparr>jr_worker := NoWorker, jr_cancelRequested := False\<rparr>)"
  by (rule job_run.more [OF job_step.returns], assumption, rule job_run.more [OF job_step.drop_sinks], simp,
    rule job_run.more [OF job_step.read_cancel], simp, rule job_run.more [OF job_step.clear_cancel], simp,
    rule job_run.more [OF job_step.finish], simp) (simp add: run_nil job_finish_def)

lemma sample_run: "job_run new_jobs sample_actions sample_end"
proof -
  let ?logged = "job_append ''info'' ''hello'' working_job"
  let ?cancelled = "?logged\<lparr>jr_cancelling := True, jr_cancelRequested := True\<rparr>"
  have "job_step working_job (LogLine Info ''hello'') ?logged"
    using job_step.log_line [of working_job Info "''hello''"] by (simp add: working_job_eq)
  moreover have "job_step ?logged CancelJob ?cancelled"
    by (simp add: step_cancel job_cancel_def job_append_def working_job_eq)
  moreover have "job_run ?cancelled [WorkReturns JNull, DropSinks, ReadCancel, ClearCancel, Finish ''t1''] sample_end"
    using ends [of ?cancelled JNull "''t1''"]
    by (simp add: working_job_eq sample_end_def new_jobs_def job_defs)
  ultimately show ?thesis
    unfolding sample_actions_def using started by (blast intro: job_run.more)
qed

theorem job_runner_invariant_witness: "job_inv sample_end \<and> jr_state sample_end = ''cancelled''"
  using job_runner_invariant [OF sample_run] by (simp add: sample_end_def)

section \<open>A cancel in time takes effect\<close>

definition cancel_sticks :: "int \<Rightarrow> jobs \<Rightarrow> bool" where
  "cancel_sticks n j \<longleftrightarrow> n \<le> jr_id j \<and>
     (jr_id j = n \<longrightarrow>
        (case jr_worker j of
           NoWorker \<Rightarrow> jr_state j = ''cancelled''
         | Decided st _ \<Rightarrow> st = ''cancelled''
         | Cleared st _ \<Rightarrow> st = ''cancelled''
         | _ \<Rightarrow> jr_cancelRequested j))"

lemma cancel_sticks_step: "job_step j a j' \<Longrightarrow> job_inv j \<Longrightarrow> cancel_sticks n j \<Longrightarrow> cancel_sticks n j'"
  by (induction rule: job_step.induct)
    (auto simp: cancel_sticks_def job_defs job_inv_def split: if_splits worker.splits)

lemma cancel_sticks_run: "job_run j as j' \<Longrightarrow> job_inv j \<Longrightarrow> cancel_sticks n j \<Longrightarrow> cancel_sticks n j'"
  by (induction rule: job_run.induct) (auto intro: job_step_inv cancel_sticks_step)

text \<open>C25: A cancel that is accepted before the worker looks at the flag is never lost, whatever else happens:
  once that job has finished, and until another one starts, its state is \<open>cancelled\<close>.\<close>

theorem job_cancel_effective:
  assumes "job_run new_jobs before j" and "job_cancel j = (True, j1)"
    and "jr_worker j = Working \<or> (\<exists>st r. jr_worker j = Returned st r \<or> jr_worker j = SinksOff st r)"
    and "job_run j1 after j2" and "jr_id j2 = jr_id j" and "\<not> jr_running j2"
  shows "jr_state j2 = ''cancelled''"
proof -
  have inv: "job_inv j" using job_run_inv [OF assms(1) job_inv_new] .
  then have j1: "job_inv j1" "jr_id j1 = jr_id j"
    using job_step_inv [OF job_step.cancel [of j]] assms(2) by (auto simp: job_cancel_def split: if_splits)
  have "cancel_sticks (jr_id j) j1"
    using assms(2,3) by (auto simp: cancel_sticks_def job_cancel_def split: if_splits)
  then have "cancel_sticks (jr_id j) j2" by (rule cancel_sticks_run [OF assms(4) j1(1)])
  moreover have "jr_worker j2 = NoWorker"
    using job_run_inv [OF assms(4) j1(1)] assms(6) by (simp add: job_inv_def)
  ultimately show ?thesis using assms(5) by (simp add: cancel_sticks_def)
qed

theorem job_cancel_effective_witness:
  "jr_state ((job_finish ''cancelled'' JNull ''t1'' (snd (job_cancel working_job)))\<lparr>jr_worker := NoWorker, jr_cancelRequested := False\<rparr>)
     = ''cancelled''"
proof (rule job_cancel_effective)
  show "job_run new_jobs [StartJob ''backup'' ''/b'' ''t0''] working_job"
    using started by (simp add: run_cons run_nil)
  show "job_cancel working_job = (True, snd (job_cancel working_job))"
    by (simp add: job_cancel_def working_job_eq)
  show "job_run (snd (job_cancel working_job)) [WorkReturns JNull, DropSinks, ReadCancel, ClearCancel, Finish ''t1'']
      ((job_finish ''cancelled'' JNull ''t1'' (snd (job_cancel working_job)))\<lparr>jr_worker := NoWorker, jr_cancelRequested := False\<rparr>)"
    using ends [of "snd (job_cancel working_job)" JNull "''t1''"]
    by (simp add: job_cancel_def working_job_eq decided_state_def)
qed (simp_all add: job_cancel_def job_finish_def working_job_eq)

section \<open>A cancel too late can stay pending\<close>

definition starts_nothing :: "action \<Rightarrow> bool" where
  "starts_nothing a \<longleftrightarrow> (case a of StartJob _ _ _ \<Rightarrow> False | _ \<Rightarrow> True)"

text \<open>No job is running, the flag is set, and nothing but the start of a job will clear it.\<close>

definition stuck_cancelled :: "jobs \<Rightarrow> bool" where
  "stuck_cancelled j \<longleftrightarrow> \<not> jr_running j \<and>
     (\<forall>as j'. job_run j as j' \<longrightarrow> list_all starts_nothing as \<longrightarrow> jr_cancelRequested j' \<and> \<not> jr_running j')"

lemma flag_stays:
  "job_run j as j' \<Longrightarrow> jr_worker j = NoWorker \<and> \<not> jr_running j \<and> jr_cancelRequested j \<Longrightarrow> list_all starts_nothing as \<Longrightarrow>
   jr_cancelRequested j' \<and> \<not> jr_running j'"
proof (induction rule: job_run.induct)
  case (nothing j)
  then show ?case by simp
next
  case (more j a j' as j'')
  from more.hyps(1) more.prems have "jr_worker j' = NoWorker \<and> \<not> jr_running j' \<and> jr_cancelRequested j'"
    by (induction rule: job_step.induct) (auto simp: job_defs starts_nothing_def split: if_splits)
  with more show ?case by simp
qed

text \<open>The cancel of a request that arrives after the worker cleared the flag and before it finished is
  accepted, and outlives its job: a state can be reached in which no job is running and the flag stays
  set whatever is done next, short of starting a job, although the comment says that leaving it set
  would make every later adb call refuse to run.\<close>

theorem cancel_can_outlive_job:
  "\<exists>as j. job_run new_jobs as j \<and> stuck_cancelled j"
proof -
  let ?cleared = "working_job\<lparr>jr_worker := Cleared ''succeeded'' JNull\<rparr>"
  let ?late = "?cleared\<lparr>jr_cancelling := True, jr_cancelRequested := True\<rparr>"
  let ?stuck = "(job_finish ''succeeded'' JNull ''t1'' ?late)\<lparr>jr_worker := NoWorker\<rparr>"
  have ret: "job_step working_job (WorkReturns JNull) (working_job\<lparr>jr_worker := Returned ''succeeded'' JNull\<rparr>)"
    using job_step.returns [of working_job JNull] by (simp add: working_job_eq returned_state_def)
  have sinks: "job_step (working_job\<lparr>jr_worker := Returned ''succeeded'' JNull\<rparr>) DropSinks
      (working_job\<lparr>jr_worker := SinksOff ''succeeded'' JNull\<rparr>)"
    using job_step.drop_sinks [of "working_job\<lparr>jr_worker := Returned ''succeeded'' JNull\<rparr>"] by simp
  have readc: "job_step (working_job\<lparr>jr_worker := SinksOff ''succeeded'' JNull\<rparr>) ReadCancel
      (working_job\<lparr>jr_worker := Decided ''succeeded'' JNull\<rparr>)"
    using job_step.read_cancel [of "working_job\<lparr>jr_worker := SinksOff ''succeeded'' JNull\<rparr>" "''succeeded''" JNull]
    by (simp add: decided_state_def working_job_eq new_jobs_def)
  have clear: "job_step (working_job\<lparr>jr_worker := Decided ''succeeded'' JNull\<rparr>) ClearCancel ?cleared"
    using job_step.clear_cancel [of "working_job\<lparr>jr_worker := Decided ''succeeded'' JNull\<rparr>" "''succeeded''" JNull]
    by (simp add: working_job_eq new_jobs_def)
  have late: "job_step ?cleared CancelJob ?late"
    by (simp add: step_cancel job_cancel_def working_job_eq)
  have fin: "job_step ?late (Finish ''t1'') ?stuck"
    using job_step.finish [of ?late "''succeeded''" JNull "''t1''"] by simp
  have "job_run new_jobs [StartJob ''backup'' ''/b'' ''t0'', WorkReturns JNull, DropSinks, ReadCancel, ClearCancel, CancelJob,
      Finish ''t1''] ?stuck"
    using started ret sinks readc clear late fin by (blast intro: job_run.intros)
  moreover have "stuck_cancelled ?stuck"
    using flag_stays [of ?stuck] by (auto simp: stuck_cancelled_def job_finish_def)
  ultimately show ?thesis by blast
qed

section \<open>Polling the log\<close>

definition keeps_log :: "action \<Rightarrow> bool" where
  "keeps_log a \<longleftrightarrow> a \<noteq> DismissJob"

lemma log_grows_step:
  "job_step j a j' \<Longrightarrow> keeps_log a \<Longrightarrow> jr_id j \<le> jr_id j' \<and> (jr_id j' = jr_id j \<longrightarrow> prefix (jr_log j) (jr_log j'))"
  by (induction rule: job_step.induct) (auto simp: job_defs keeps_log_def split: if_splits)

lemma log_grows:
  "job_run j as j' \<Longrightarrow> list_all keeps_log as \<Longrightarrow> jr_id j \<le> jr_id j' \<and> (jr_id j' = jr_id j \<longrightarrow> prefix (jr_log j) (jr_log j'))"
proof (induction rule: job_run.induct)
  case (nothing j)
  then show ?case by simp
next
  case (more j a j' as j'')
  then show ?case using log_grows_step [of j a j'] prefix_order.trans by fastforce
qed

text \<open>A page that polls with the log size of its last answer sees every line of the job exactly once: what it
  has, followed by the new lines, is the job's log.\<close>

theorem job_log_polled:
  assumes "job_run j as j'" "list_all keeps_log as" "jr_id j' = jr_id j"
  shows "jr_log j @ sn_newLines (job_snapshot (sn_logSize (job_snapshot since j)) j') = jr_log j'"
proof -
  have "prefix (jr_log j) (jr_log j')" using log_grows [OF assms(1,2)] assms(3) by simp
  then show ?thesis by (auto simp: job_snapshot_def prefix_def)
qed

theorem job_log_polled_witness:
  "jr_log working_job @ sn_newLines (job_snapshot (sn_logSize (job_snapshot 0 working_job)) (job_append ''info'' ''hello'' working_job)) =
     [(''info'', ''hello'')]"
  using job_log_polled [of working_job "[LogLine Info ''hello'']" "job_append ''info'' ''hello'' working_job" 0]
    job_step.log_line [of working_job Info "''hello''"]
  by (simp add: run_cons run_nil keeps_log_def working_job_eq job_append_def new_jobs_def)

end
