(* ===== verification/GuiJson.thy ===== *)
theory GuiJson
  imports HttpExchange BackupExplorer JobRunner BackupManager
begin

text \<open>
  The first part of \<open>src/src/gui/GuiServer.cpp\<close>: what the API's answers look like, the comparison of
  tokens, the reading of request bodies, and the \<open>Content-Disposition\<close> of a download.
\<close>

section \<open>Requests\<close>

text \<open>\<open>home\<close> is the environment variable \<open>HOME\<close>.\<close>

definition expandUserPath :: "string option \<Rightarrow> string \<Rightarrow> string" where
  "expandUserPath home path =
     (if path = [] then []
      else if path ! 0 = CHR ''~'' \<and> (length path = 1 \<or> path ! 1 = CHR ''/'') then
        (case home of
           Some dir \<Rightarrow> path_join dir (drop (if 1 < length path then 2 else 1) path)
         | None \<Rightarrow> path)
      else path)"

fun token_difference :: "uint8 \<Rightarrow> uint8 list \<Rightarrow> uint8 list \<Rightarrow> uint8" where
  "token_difference difference (a # as) (b # bs) = token_difference (difference OR (a XOR b)) as bs"
| "token_difference difference _ _ = difference"

definition tokensMatch :: "string \<Rightarrow> string \<Rightarrow> bool" where
  "tokensMatch a b \<longleftrightarrow> length a = length b \<and> token_difference 0 (bytes_of a) (bytes_of b) = 0"

definition stringArray :: "json \<Rightarrow> string list" where
  "stringArray val =
     (if \<not> isArray val then [] else filter (\<lambda>t. t \<noteq> []) (map (\<lambda>item. trim (asString item [])) (items val)))"

definition boolField :: "json \<Rightarrow> string \<Rightarrow> bool \<Rightarrow> bool" where
  "boolField obj key def =
     (if \<not> json_has obj key then def
      else case json_at obj key of Inr v \<Rightarrow> asBool v def | Inl _ \<Rightarrow> def)"

section \<open>Answers\<close>

definition jsonResponse :: "json \<Rightarrow> int \<Rightarrow> Response" where
  "jsonResponse val status = Response_json (json_dump val 2) status"

definition errorResponse :: "string \<Rightarrow> int \<Rightarrow> Response" where
  "errorResponse message status = jsonResponse (set_all [(''error'', JString message)]) status"

definition deviceJson :: "DeviceInfo \<Rightarrow> json" where
  "deviceJson device =
     set_all
       [(''serial'', JString (dev_serial device)), (''state'', JString (dev_state device)),
        (''model'', JString (dev_model device)), (''manufacturer'', JString (dev_manufacturer device)),
        (''android_release'', JString (dev_androidRelease device)), (''sdk_int'', JInt (dev_sdkInt device)),
        (''ready'', JBool (isReady device)), (''rooted'', JBool (isRooted device)),
        (''root_method'', JString (describeRootMethod (dev_root device)))]"

definition backupSummaryJson :: "BackupSummaryInfo \<Rightarrow> json" where
  "backupSummaryJson info =
     set_all
       [(''path'', JString (si_path info)), (''name'', JString (si_name info)),
        (''created_at'', JString (si_createdAtUtc info)), (''abp_version'', JString (si_abpVersion info)),
        (''mode'', JString (si_mode info)), (''device_serial'', JString (si_deviceSerial info)),
        (''device_model'', JString (si_deviceModel info)),
        (''device_manufacturer'', JString (si_deviceManufacturer info)),
        (''android_release'', JString (si_androidRelease info)), (''package_count'', JInt (si_packageCount info)),
        (''packages_with_data'', JInt (si_packagesWithData info)),
        (''packages_with_errors'', JInt (si_packagesWithErrors info)),
        (''shared_storage_included'', JBool (si_sharedStorageIncluded info)),
        (''disk_bytes'', JBytes (si_diskBytes info)),
        (''disk_size_human'', JString (formatBytes (si_diskBytes info))), (''error'', JString (si_error info))]"

definition package_item :: "PackageBackupEntry \<Rightarrow> json" where
  "package_item entry =
     (let bytes = u64 (pe_dataArchiveBytes entry + pe_deDataArchiveBytes entry)
      in set_all
       [(''name'', JString (pe_name entry)), (''system_app'', JBool (pe_isSystemApp entry)),
        (''apk_included'', JBool (pe_apkIncluded entry)), (''apk_count'', JInt (int (length (pe_apkFiles entry)))),
        (''apk_files'', push_all (map JString (pe_apkFiles entry))), (''data_included'', JBool (pe_dataIncluded entry)),
        (''data_capture_method'', JString (dataCaptureMethodName (pe_dataCaptureMethod entry))),
        (''data_archive'', JString (pe_dataArchive entry)), (''data_bytes'', JBytes bytes),
        (''data_size_human'', JString (formatBytes bytes)), (''data_sha256'', JString (pe_dataArchiveSha256 entry)),
        (''de_data_archive'', JString (pe_deDataArchive entry)), (''de_data_bytes'', JBytes (pe_deDataArchiveBytes entry)),
        (''error'', JString (pe_error entry))])"

definition capture_item :: "FilesystemCapture \<Rightarrow> json" where
  "capture_item capture =
     set_all
       [(''device_path'', JString (fc_devicePath capture)), (''local_path'', JString (fc_localPath capture)),
        (''bytes'', JBytes (fc_bytes capture)), (''size_human'', JString (formatBytes (fc_bytes capture))),
        (''complete'', JBool (fc_complete capture)), (''note'', JString (fc_note capture))]"

definition personal_item :: "PersonalDataExport \<Rightarrow> json" where
  "personal_item item =
     set_all
       [(''kind'', JString (px_kind item)), (''format'', JString (px_format item)),
        (''local_path'', JString (px_localPath item)), (''item_count'', JInt (px_itemCount item)),
        (''bytes'', JBytes (px_bytes item)), (''size_human'', JString (formatBytes (px_bytes item)))]"

definition manifestJson :: "Manifest \<Rightarrow> json" where
  "manifestJson manifest =
     set_all
       [(''format_version'', JInt (mf_formatVersion manifest)), (''abp_version'', JString (mf_abpVersion manifest)),
        (''created_at'', JString (mf_createdAtUtc manifest)), (''mode'', JString (mf_mode manifest)),
        (''device'', deviceJson (mf_device manifest)),
        (''shared_storage_included'', JBool (mf_sharedStorageIncluded manifest)),
        (''shared_storage_is_directory'', JBool (mf_sharedStorageIsDirectory manifest)),
        (''shared_storage_archive'', JString (mf_sharedStorageArchive manifest)),
        (''shared_storage_bytes'', JBytes (mf_sharedStorageArchiveBytes manifest)),
        (''shared_storage_size_human'', JString (formatBytes (mf_sharedStorageArchiveBytes manifest))),
        (''legacy_adb_backup_file'', JString (mf_legacyAdbBackupFile manifest)),
        (''packages'', push_all (map package_item (mf_packages manifest))),
        (''filesystem_captures'', push_all (map capture_item (mf_filesystemCaptures manifest))),
        (''personal_data_exports'', push_all (map personal_item (mf_personalDataExports manifest)))]"

definition jobJson :: "Snapshot \<Rightarrow> json" where
  "jobJson snap =
     (if \<not> sn_present snap then set_all [(''present'', JBool (sn_present snap))]
      else set_all
       [(''present'', JBool (sn_present snap)), (''id'', JInt (sn_id snap)), (''kind'', JString (sn_kind snap)),
        (''state'', JString (sn_state snap)), (''target'', JString (sn_target snap)),
        (''started_at'', JString (sn_startedAt snap)), (''finished_at'', JString (sn_finishedAt snap)),
        (''log_size'', JInt (int (sn_logSize snap))), (''cancelling'', JBool (sn_cancelling snap)),
        (''progress'', set_all
           [(''step'', JString (sn_progressStep snap)), (''done'', JInt (sn_progressDone snap)),
            (''total'', JInt (sn_progressTotal snap)), (''item'', JString (sn_progressItem snap))]),
        (''result'', sn_result snap),
        (''lines'', push_all (map (\<lambda>(level, message). set_all [(''level'', JString level), (''text'', JString message)])
           (sn_newLines snap)))])"

definition export_item :: "ExportResult \<Rightarrow> json" where
  "export_item item =
     set_all
       [(''kind'', JString (er_kind item)), (''label'', JString (er_label item)), (''count'', JInt (er_count item)),
        (''reason'', JString (er_reason item))]"

definition backupSummaryResultJson :: "BackupSummary \<Rightarrow> json" where
  "backupSummaryResultJson summary =
     set_all
       [(''success'', JBool (bs_success summary)), (''cancelled'', JBool (bs_cancelled summary)),
        (''mode'', JString (bs_mode summary)), (''package_count'', JInt (bs_packageCount summary)),
        (''packages_with_data'', JInt (bs_packagesWithData summary)),
        (''packages_with_errors'', JInt (bs_packagesWithErrors summary)),
        (''packages_via_root_tar'', JInt (bs_packagesCapturedByRootTar summary)),
        (''packages_via_run_as'', JInt (bs_packagesCapturedByRunAs summary)),
        (''packages_via_legacy_backup'', JInt (bs_packagesCapturedByLegacyBackup summary)),
        (''shared_storage_included'', JBool (bs_sharedStorageIncluded summary)),
        (''filesystem_capture_count'', JInt (bs_filesystemCaptureCount summary)),
        (''filesystem_partial_count'', JInt (bs_filesystemPartialCount summary)),
        (''removable_storage_count'', JInt (bs_removableStorageCount summary)),
        (''packages_without_data'', JInt (bs_packagesWithoutData summary)),
        (''personal_exports'', push_all (map export_item (bs_personalExports summary))),
        (''warnings'', push_all (map JString (bs_warnings summary))),
        (''total_bytes'', JBytes (bs_totalBytes summary)),
        (''total_size_human'', JString (formatBytes (bs_totalBytes summary))),
        (''output_dir'', JString (bs_outputDir summary)),
        (''messages'', push_all (map JString (bs_messages summary)))]"

definition restoreSummaryResultJson :: "RestoreSummary \<Rightarrow> json" where
  "restoreSummaryResultJson summary =
     set_all
       [(''success'', JBool (rs_success summary \<and> rs_packagesFailed summary = 0)),
        (''cancelled'', JBool (rs_cancelled summary)),
        (''packages_restored'', JInt (rs_packagesRestored summary)),
        (''packages_failed'', JInt (rs_packagesFailed summary)),
        (''packages_skipped'', JInt (rs_packagesSkipped summary)),
        (''shared_storage_restored'', JBool (rs_sharedStorageRestored summary)),
        (''filesystem_captures_present'', JInt (rs_filesystemCapturesPresent summary)),
        (''contacts_import_path'', JString (rr_contactsPath (rs_personal summary))),
        (''calendar_import_path'', JString (rr_calendarPath (rs_personal summary))),
        (''wifi_networks_restored'', JInt (rr_wifiRestored (rs_personal summary))),
        (''wifi_networks_skipped'', JInt (rr_wifiSkipped (rs_personal summary))),
        (''messages'', push_all (map JString (rs_messages summary)))]"

section \<open>Downloads\<close>

definition disposition_char :: "char \<Rightarrow> char" where
  "disposition_char c =
     (if 0x20 \<le> byte_val c \<and> byte_val c < 0x7F \<and> c \<noteq> CHR 0x22 \<and> c \<noteq> CHR 0x5C then c else CHR ''_'')"

definition disposition_encoded :: "char \<Rightarrow> string" where
  "disposition_encoded c =
     (if is_alnum c \<or> c = CHR ''.'' \<or> c = CHR ''-'' \<or> c = CHR ''_'' then [c]
      else [CHR ''%'', upper_hex (byte_val c div 16), upper_hex (byte_val c mod 16)])"

definition contentDisposition :: "string \<Rightarrow> string" where
  "contentDisposition name =
     ''attachment; filename='' @ [CHR 0x22] @ map disposition_char name @ [CHR 0x22] @ ''; filename*=UTF-8'' @
     [CHR 0x27, CHR 0x27] @ concat (map disposition_encoded name)"

section \<open>Tokens\<close>

lemma xor_eq_0: "(x :: uint8) XOR y = 0 \<longleftrightarrow> x = y"
  by (auto simp: bit_eq_iff bit_xor_iff)

lemma byte_word_inj: "(of_nat (byte_val c) :: uint8) = of_nat (byte_val c') \<longleftrightarrow> c = c'"
proof -
  have "unat (of_nat (byte_val c) :: uint8) = byte_val c" for c
    using byte_val_less [of c] by (simp add: unat_of_nat del: byte_val_less)
  then show ?thesis by (metis byte_val_eq_iff)
qed

lemma bytes_of_inj: "bytes_of a = bytes_of b \<longleftrightarrow> a = b"
  by (auto simp: bytes_of_def byte_word_inj inj_def intro!: map_injective)

lemma token_difference_0:
  "length as = length bs \<Longrightarrow> token_difference d as bs = 0 \<longleftrightarrow> d = 0 \<and> as = bs"
  by (induction as bs arbitrary: d rule: list_induct2) (auto simp: or_eq_0_iff xor_eq_0)

text \<open>The token comparison, which looks at every byte whatever the first difference, accepts exactly
  the right token.\<close>

lemma tokensMatch_iff: "tokensMatch a b \<longleftrightarrow> a = b"
proof -
  have "bytes_of a = bytes_of b \<longleftrightarrow> a = b"
    by (simp add: bytes_of_inj)
  then show ?thesis
    by (auto simp: tokensMatch_def token_difference_0 bytes_of_def)
qed

section \<open>A download's name cannot break out of its header\<close>

text \<open>What a header's value may hold: printable ASCII.\<close>

definition printable :: "char \<Rightarrow> bool" where
  "printable c \<longleftrightarrow> 0x20 \<le> byte_val c \<and> byte_val c < 0x7F"

lemma printable_text: "list_all printable ''attachment; filename='' \<and> list_all printable ''; filename*=UTF-8''"
  by code_simp

lemma disposition_char_plain:
  "printable (disposition_char c) \<and> disposition_char c \<noteq> CHR 0x22 \<and> disposition_char c \<noteq> CHR 0x5C"
  by (auto simp: printable_def disposition_char_def)

lemma upper_hex_printable: "d < 16 \<Longrightarrow> printable (upper_hex d) \<and> upper_hex d \<noteq> CHR 0x22 \<and> upper_hex d \<noteq> CHR 0x5C"
  by (drule hex_cases) (auto simp: upper_hex_def printable_def)

lemma nibbles: "byte_val c div 16 < 16" "byte_val c mod 16 < 16"
  using byte_val_less [of c] by (simp_all add: less_mult_imp_div_less del: byte_val_less)

lemma disposition_encoded_safe:
  "list_all (\<lambda>d. printable d \<and> d \<noteq> CHR 0x22 \<and> d \<noteq> CHR 0x5C) (disposition_encoded c)"
  using upper_hex_printable [OF nibbles(1)] upper_hex_printable [OF nibbles(2)]
  by (auto simp: disposition_encoded_def printable_def char_class_defs)

lemma urlDecode_disposition: "urlDecode (disposition_encoded c @ s) = c # urlDecode s"
proof (cases "is_alnum c \<or> c = CHR ''.'' \<or> c = CHR ''-'' \<or> c = CHR ''_''")
  case True
  then have "c \<noteq> CHR ''+''" "c \<noteq> CHR ''%''" by (auto simp: char_class_defs)
  then show ?thesis using True by (simp add: disposition_encoded_def)
next
  case False
  then show ?thesis
    using nibbles [of c] by (simp add: disposition_encoded_def hexDigitValue_upper hex_bits Let_def)
qed

lemma contentDisposition_printable: "list_all printable (contentDisposition name)"
proof -
  have "list_all printable (map disposition_char name)" "list_all printable (concat (map disposition_encoded name))"
    using disposition_char_plain disposition_encoded_safe by (auto simp: list_all_iff)
  moreover have "printable (CHR 0x22)" "printable (CHR 0x27)" by (simp_all add: printable_def)
  ultimately show ?thesis unfolding contentDisposition_def list_all_append using printable_text by simp
qed

text \<open>Whatever bytes a file of the phone has in its name, the header made from it is printable ASCII, so
  it cannot add a header or end the response; inside its quotes is no quote or backslash, so the name
  cannot end the parameter either; and the second form decodes to the exact name.\<close>

theorem contentDisposition_safe:
  "list_all printable (contentDisposition name) \<and>
   (\<exists>plain encoded.
      contentDisposition name =
        ''attachment; filename='' @ [CHR 0x22] @ plain @ [CHR 0x22] @ ''; filename*=UTF-8'' @ [CHR 0x27, CHR 0x27] @ encoded \<and>
      CHR 0x22 \<notin> set plain \<and> CHR 0x5C \<notin> set plain \<and> CHR 0x22 \<notin> set encoded \<and> urlDecode encoded = name)"
proof -
  let ?plain = "map disposition_char name" and ?encoded = "concat (map disposition_encoded name)"
  have plain: "list_all (\<lambda>d. printable d \<and> d \<noteq> CHR 0x22 \<and> d \<noteq> CHR 0x5C) ?plain"
    using disposition_char_plain by (simp add: list_all_iff)
  have encoded: "list_all (\<lambda>d. printable d \<and> d \<noteq> CHR 0x22 \<and> d \<noteq> CHR 0x5C) ?encoded"
    using disposition_encoded_safe by (auto simp: list_all_iff)
  have decode: "urlDecode ?encoded = name"
    by (induction name) (simp_all add: urlDecode_disposition)
  have "CHR 0x22 \<notin> set ?plain \<and> CHR 0x5C \<notin> set ?plain \<and> CHR 0x22 \<notin> set ?encoded \<and> urlDecode ?encoded = name"
    using plain encoded decode unfolding list_all_iff by blast
  then show ?thesis using contentDisposition_printable unfolding contentDisposition_def by blast
qed

end
