(* ===== verification/GuiServer.thy ===== *)
theory GuiServer
  imports GuiJson
begin

text \<open>
  \<open>GuiApp\<close> of \<open>src/src/gui/GuiServer.cpp\<close>: the checks every request passes, the routes and their
  handlers.  A handler is a function on the application's state: the system, the job runner, the
  explorer, and the work handed to the worker.  One handler call is one step; the job runner's
  interleavings are the relation of \<open>JobRunner\<close>.
\<close>

section \<open>State\<close>

record GuiOptions =
  go_host :: string
  go_port :: int
  go_backupRoot :: string
  go_scanDepth :: int
  go_openBrowser :: bool
  go_token :: string

definition default_gui_options :: GuiOptions where
  "default_gui_options =
     \<lparr>go_host = ''127.0.0.1'', go_port = 8787, go_backupRoot = [], go_scanDepth = 2, go_openBrowser = True, go_token = []\<rparr>"

text \<open>What the application is given: the host, the adb path, the version, \<open>HOME\<close>, the explorer's cache
  directory, the single page, and the options.\<close>

record 'w gui_env =
  ev_host :: "'w host"
  ev_paths :: "'w fspaths"
  ev_adbPath :: string
  ev_version :: string
  ev_home :: "string option"
  ev_cacheDir :: string
  ev_indexHtml :: string
  ev_options :: GuiOptions

text \<open>The function given to \<open>JobRunner::start\<close>.\<close>

datatype work = BackupWork BackupOptions | RestoreWork RestoreOptions

record 'w gui =
  gu_sys :: "'w sys"
  gu_jobs :: jobs
  gu_explorer :: Explorer
  gu_work :: "work list"
  gu_stopping :: bool

text \<open>The two kinds of exception \<open>handle\<close> tells apart, and a handler's outcome: \<^term>\<open>None\<close> when it never
  returns (a crafted archive).\<close>

datatype gui_error = ParseError string | Thrown string

type_synonym 'w reply = "((gui_error + Response) \<times> 'w gui) option"

definition reply :: "Response \<Rightarrow> 'w gui \<Rightarrow> 'w reply" where
  "reply response g = Some (Inr response, g)"

definition adbMissingMessage :: "'w gui_env \<Rightarrow> string" where
  "adbMissingMessage ev =
     ''Could not run '' @ apostrophe @ ev_adbPath ev @ apostrophe @
     ''. Install Android platform-tools and make sure adb is on your PATH.''"

definition adb_available :: "'w gui_env \<Rightarrow> 'w gui \<Rightarrow> bool \<times> 'w gui" where
  "adb_available ev g = (let (ok, s) = isAdbAvailable (ev_host ev) (ev_adbPath ev) (gu_sys g) in (ok, g\<lparr>gu_sys := s\<rparr>))"

definition method_not_allowed :: Response where
  "method_not_allowed = errorResponse ''Method not allowed'' 405"

section \<open>Status and devices\<close>

definition handleStatus :: "'w gui_env \<Rightarrow> 'w gui \<Rightarrow> 'w reply" where
  "handleStatus ev g =
     (let (ok, g1) = adb_available ev g
      in reply (jsonResponse (set_all
           [(''version'', JString (ev_version ev)), (''adb_path'', JString (ev_adbPath ev)), (''adb_available'', JBool ok),
            (''backup_root'', JString (go_backupRoot (ev_options ev))), (''scan_depth'', JInt (go_scanDepth (ev_options ev))),
            (''job'', jobJson (job_snapshot 0 (gu_jobs g1)))]) 200) g1)"

definition handleDevices :: "'w gui_env \<Rightarrow> 'w gui \<Rightarrow> 'w reply" where
  "handleDevices ev g =
     (let (ok, g1) = adb_available ev g;
          (again, g2) = adb_available ev g1;
          (devices, s3) = (if again then listConnectedDevices (ev_host ev) (ev_adbPath ev) (gu_sys g2) else ([], gu_sys g2))
      in reply (jsonResponse (set_all
           [(''adb_available'', JBool ok), (''devices'', push_all (map deviceJson devices))]) 200) (g2\<lparr>gu_sys := s3\<rparr>))"

text \<open>The client of the request's \<open>serial\<close>, pinned, or the answer that there is none.\<close>

definition request_client :: "'w gui_env \<Rightarrow> Request \<Rightarrow> 'w gui \<Rightarrow> (Response + AdbClient) \<times> 'w gui" where
  "request_client ev request g =
     (case adb_available ev g of
        (False, g1) \<Rightarrow> (Inl (errorResponse (adbMissingMessage ev) 400), g1)
      | (True, g1) \<Rightarrow>
          (let adb = \<lparr>ac_path = ev_adbPath ev, ac_serial = Request_param request ''serial'' []\<rparr>;
               (problem, s2) = connectionProblem (ev_host ev) adb (gu_sys g1)
           in if problem \<noteq> [] then (Inl (errorResponse problem 404), g1\<lparr>gu_sys := s2\<rparr>)
              else let (client, s3) = pinned (ev_host ev) adb s2 in (Inr client, g1\<lparr>gu_sys := s3\<rparr>)))"

definition handleDevice :: "'w gui_env \<Rightarrow> Request \<Rightarrow> 'w gui \<Rightarrow> 'w reply" where
  "handleDevice ev request g =
     (case request_client ev request g of
        (Inl response, g1) \<Rightarrow> reply response g1
      | (Inr adb, g1) \<Rightarrow>
          (let (info, s2) = queryDeviceInfo (ev_host ev) adb (gu_sys g1)
           in reply (jsonResponse (deviceJson info) 200) (g1\<lparr>gu_sys := s2\<rparr>)))"

definition installed_item :: "PackageInfo \<Rightarrow> json" where
  "installed_item package =
     set_all
       [(''name'', JString (pi_name package)), (''system_app'', JBool (pi_isSystemApp package)),
        (''apk_count'', JInt (int (length (pi_apkPaths package))))]"

definition handlePackages :: "'w gui_env \<Rightarrow> Request \<Rightarrow> 'w gui \<Rightarrow> 'w reply" where
  "handlePackages ev request g =
     (case request_client ev request g of
        (Inl response, g1) \<Rightarrow> reply response g1
      | (Inr adb, g1) \<Rightarrow>
          (let param = Request_param request ''system'' [];
               (listed, s2) = listPackages (ev_host ev) adb (param = ''1'' \<or> param = ''true'') (gu_sys g1);
               (installed, s3) = resolveApkPaths (ev_host ev) adb listed s2
           in reply (jsonResponse (set_all [(''packages'', push_all (map installed_item installed))]) 200)
                (g1\<lparr>gu_sys := s3\<rparr>)))"

section \<open>Exploring backups\<close>

definition handleBackups :: "'w gui_env \<Rightarrow> Request \<Rightarrow> 'w gui \<Rightarrow> 'w reply" where
  "handleBackups ev request g =
     (let h = ev_host ev;
          rootText = Request_param request ''root'' [];
          folder = (if rootText = [] then go_backupRoot (ev_options ev) else expandUserPath (ev_home ev) rootText)
      in reply (jsonResponse (set_all
           [(''root'', JString folder), (''exists'', JBool (h_is_directory h folder (world (gu_sys g)))),
            (''backups'', push_all (map backupSummaryJson
               (scan h (ev_paths ev) folder (go_scanDepth (ev_options ev)) (gu_sys g))))]) 200) g)"

definition not_a_backup :: "string \<Rightarrow> string" where
  "not_a_backup dir = ''Not an abp backup directory (no manifest.json): '' @ dir"

text \<open>The directory of the \<open>path\<close> parameter; the other handlers spell out the same checks.\<close>

definition backupParam :: "'w gui_env \<Rightarrow> Request \<Rightarrow> 'w gui \<Rightarrow> Response + string" where
  "backupParam ev request g =
     (let dir = expandUserPath (ev_home ev) (Request_param request ''path'' [])
      in if dir = [] then Inl (errorResponse (''Missing '' @ apostrophe @ ''path'' @ apostrophe @ '' parameter.'') 400)
         else if \<not> isBackupDirectory (ev_host ev) dir (gu_sys g) then Inl (errorResponse (not_a_backup dir) 404)
         else Inr dir)"

definition handleBackupDetail :: "'w gui_env \<Rightarrow> Request \<Rightarrow> 'w gui \<Rightarrow> 'w reply" where
  "handleBackupDetail ev request g =
     (case backupParam ev request g of
        Inl response \<Rightarrow> reply response g
      | Inr dir \<Rightarrow>
          (case loadManifest (ev_host ev) dir (gu_sys g) of
             Inl what \<Rightarrow> reply (errorResponse (''Could not read manifest.json: '' @ what) 400) g
           | Inr manifest \<Rightarrow>
               reply (jsonResponse (set_all
                 [(''summary'', backupSummaryJson (summarize (ev_host ev) (ev_paths ev) dir (gu_sys g))),
                  (''manifest'', manifestJson manifest)]) 200) g))"

definition listed_item :: "BackupFileEntry \<Rightarrow> json" where
  "listed_item entry =
     set_all
       [(''name'', JString (be_name entry)), (''path'', JString (be_relativePath entry)),
        (''directory'', JBool (be_isDirectory entry)), (''size_bytes'', JBytes (be_sizeBytes entry)),
        (''size_human'', JString (formatBytes (be_sizeBytes entry)))]"

definition handleBackupFiles :: "'w gui_env \<Rightarrow> Request \<Rightarrow> 'w gui \<Rightarrow> 'w reply" where
  "handleBackupFiles ev request g =
     (case backupParam ev request g of
        Inl response \<Rightarrow> reply response g
      | Inr dir \<Rightarrow>
          (let given = Request_param request ''sub'' ''.'';
               relative = (if given = [] then ''.'' else given)
           in if resolveInside (ev_host ev) (ev_paths ev) dir relative (gu_sys g) = None then
                reply (errorResponse (''Path is not inside the backup directory: '' @ relative) 403) g
              else case listDirectory (ev_host ev) (ev_paths ev) dir relative (gu_sys g) of
                Inl what \<Rightarrow> Some (Inl (Thrown what), g)
              | Inr entries \<Rightarrow>
                  reply (jsonResponse (set_all
                    [(''path'', JString dir), (''sub'', JString (if relative = ''.'' then [] else relative)),
                     (''entries'', push_all (map listed_item entries))]) 200) g))"

definition problem_item :: "VerifyProblem \<Rightarrow> json" where
  "problem_item problem = set_all [(''path'', JString (vp_path problem)), (''problem'', JString (vp_problem problem))]"

definition handleBackupVerify :: "'w gui_env \<Rightarrow> Request \<Rightarrow> 'w gui \<Rightarrow> 'w reply" where
  "handleBackupVerify ev request g =
     (case backupParam ev request g of
        Inl response \<Rightarrow> reply response g
      | Inr dir \<Rightarrow>
          (case verify (ev_host ev) (ev_paths ev) dir (gu_sys g) of
             Inl what \<Rightarrow> Some (Inl (Thrown what), g)
           | Inr report \<Rightarrow>
               reply (jsonResponse (set_all
                 [(''ok'', JBool (report_ok report)), (''verified'', JInt (vr_verified report)),
                  (''unverifiable'', JInt (vr_unverifiable report)),
                  (''problems'', push_all (map problem_item (vr_problems report)))]) 200) g))"

text \<open>\<open>explorer_.openArchive\<close> on the application's explorer.\<close>

definition open_archive :: "'w gui_env \<Rightarrow> string \<Rightarrow> string \<Rightarrow> 'w gui \<Rightarrow> (Archive result \<times> 'w gui) option" where
  "open_archive ev dir sub g =
     map_option (\<lambda>(r, x, s). (r, g\<lparr>gu_explorer := x, gu_sys := s\<rparr>))
       (openArchive (ev_host ev) (ev_paths ev) (ev_cacheDir ev) dir sub (gu_explorer g) (gu_sys g))"

definition child_item :: "Child \<Rightarrow> json" where
  "child_item child =
     set_all
       [(''name'', JString (ch_name child)), (''member'', JString (ch_path child)),
        (''directory'', JBool (ch_isDirectory child)), (''size_bytes'', JBytes (ch_size child)),
        (''size_human'', JString (formatBytes (ch_size child))), (''mtime'', JInt (ch_mtime child))]"

definition handleBackupArchive :: "'w gui_env \<Rightarrow> Request \<Rightarrow> 'w gui \<Rightarrow> 'w reply" where
  "handleBackupArchive ev request g =
     (case backupParam ev request g of
        Inl response \<Rightarrow> reply response g
      | Inr dir \<Rightarrow>
          (let sub = Request_param request ''sub'' [];
               given = Request_param request ''prefix'' [];
               pre = (if given \<noteq> [] \<and> last given \<noteq> CHR ''/'' then given @ ''/'' else given)
           in case open_archive ev dir sub g of
                None \<Rightarrow> None
              | Some (Inl what, g1) \<Rightarrow> reply (errorResponse what 400) g1
              | Some (Inr archive, g1) \<Rightarrow>
                  reply (jsonResponse (set_all
                    [(''sub'', JString sub), (''prefix'', JString pre),
                     (''member_count'', JInt (int (length (ar_entries archive)))),
                     (''entries'', push_all (map child_item (listChildren (ar_entries archive) pre)))]) 200) g1))"

text \<open>Everything off the phone is sandboxed; what the browser cannot show is a download.\<close>

definition content_policy :: string where
  "content_policy = ''sandbox; default-src '' @ apostrophe @ ''none'' @ apostrophe @ ''; img-src '' @ apostrophe @ ''self'' @
     apostrophe @ ''; media-src '' @ apostrophe @ ''self'' @ apostrophe @ ''; style-src '' @ apostrophe @ ''unsafe-inline'' @ apostrophe"

definition sandboxed :: "Request \<Rightarrow> string \<Rightarrow> Response \<Rightarrow> Response" where
  "sandboxed request name response =
     (let r1 = response\<lparr>rp_headers := rp_headers response @ [(''Content-Security-Policy'', content_policy)]\<rparr>
      in if Request_param request ''download'' [] = ''1'' \<or> rp_contentType r1 = ''application/octet-stream'' then
           r1\<lparr>rp_headers := rp_headers r1 @ [(''Content-Disposition'', contentDisposition name)]\<rparr>
         else r1)"

definition handleBackupFile :: "'w gui_env \<Rightarrow> Request \<Rightarrow> 'w gui \<Rightarrow> 'w reply" where
  "handleBackupFile ev request g =
     (case backupParam ev request g of
        Inl response \<Rightarrow> reply response g
      | Inr dir \<Rightarrow>
          (let h = ev_host ev; sub = Request_param request ''sub'' []; member = Request_param request ''member'' []
           in if member = [] then
                (case resolveInside h (ev_paths ev) dir sub (gu_sys g) of
                   None \<Rightarrow> reply (errorResponse (''No such file in the backup: '' @ sub) 404) g
                 | Some resolved \<Rightarrow>
                     if \<not> h_is_regular h resolved (world (gu_sys g)) then
                       reply (errorResponse (''No such file in the backup: '' @ sub) 404) g
                     else
                       let name = path_filename resolved
                       in reply (sandboxed request name
                            (Response_file resolved 0 (file_size_ec h resolved (gu_sys g)) (contentTypeFor name))) g)
              else case open_archive ev dir sub g of
                None \<Rightarrow> None
              | Some (Inl what, g1) \<Rightarrow> reply (errorResponse what 400) g1
              | Some (Inr archive, g1) \<Rightarrow>
                  (case Archive_find archive member of
                     None \<Rightarrow> reply (errorResponse (''No such file in the archive: '' @ member) 404) g1
                   | Some entry \<Rightarrow>
                       if te_type entry \<noteq> TarFile then
                         reply (errorResponse (''No such file in the archive: '' @ member) 404) g1
                       else
                         let name = path_filename member
                         in reply (sandboxed request name
                              (Response_file (ar_tarFile archive) (te_offset entry) (te_size entry) (contentTypeFor name))) g1)))"

definition media_item :: "MediaItem \<Rightarrow> json" where
  "media_item item =
     set_all
       [(''name'', JString (mi_name item)), (''folder'', JString (mi_folder item)), (''sub'', JString (mi_sub item)),
        (''member'', JString (mi_member item)), (''kind'', JString (mi_kind item)), (''size_bytes'', JBytes (mi_size item)),
        (''mtime'', JInt (mi_mtime item))]"

definition handleBackupMedia :: "'w gui_env \<Rightarrow> Request \<Rightarrow> 'w gui \<Rightarrow> 'w reply" where
  "handleBackupMedia ev request g =
     (case backupParam ev request g of
        Inl response \<Rightarrow> reply response g
      | Inr dir \<Rightarrow>
          (case media (ev_host ev) (ev_paths ev) (ev_cacheDir ev) dir kMediaLimit (gu_explorer g) (gu_sys g) of
             None \<Rightarrow> None
           | Some (r, x, s) \<Rightarrow>
               (let g1 = g\<lparr>gu_explorer := x, gu_sys := s\<rparr>
                in case r of
                     Inl what \<Rightarrow> reply (errorResponse what 400) g1
                   | Inr found \<Rightarrow> reply (jsonResponse (set_all [(''items'', push_all (map media_item found))]) 200) g1)))"

section \<open>Jobs\<close>

definition handleJob :: "Request \<Rightarrow> 'w gui \<Rightarrow> 'w reply" where
  "handleJob request g =
     (let sinceText = Request_param request ''since'' [];
          answer = (\<lambda>since. reply (jsonResponse (set_all [(''job'', jobJson (job_snapshot since (gu_jobs g)))]) 200) g)
      in if sinceText = [] then answer 0
         else case cxx_stoll sinceText of
           None \<Rightarrow> reply (errorResponse (apostrophe @ ''since'' @ apostrophe @ '' must be a number.'') 400) g
         | Some parsed \<Rightarrow> answer (if 0 < parsed then nat parsed else 0))"

definition handleCancel :: "Request \<Rightarrow> 'w gui \<Rightarrow> 'w reply" where
  "handleCancel request g =
     (if rq_method request \<noteq> ''POST'' then reply method_not_allowed g
      else case job_cancel (gu_jobs g) of
        (False, j) \<Rightarrow> reply (errorResponse ''No job is running.'' 409) (g\<lparr>gu_jobs := j\<rparr>)
      | (True, j) \<Rightarrow> handleJob request (g\<lparr>gu_jobs := j\<rparr>))"

definition handleDismiss :: "'w gui_env \<Rightarrow> Request \<Rightarrow> 'w gui \<Rightarrow> 'w reply" where
  "handleDismiss ev request g =
     (if rq_method request \<noteq> ''POST'' then reply method_not_allowed g
      else case job_dismiss (gu_jobs g) of
        (False, j) \<Rightarrow> reply (errorResponse ''A job is still running.'' 409) (g\<lparr>gu_jobs := j\<rparr>)
      | (True, j) \<Rightarrow> handleStatus ev (g\<lparr>gu_jobs := j\<rparr>))"

definition acceptedJobResponse :: "'w gui \<Rightarrow> Response" where
  "acceptedJobResponse g = jsonResponse (set_all [(''job'', jobJson (job_snapshot 0 (gu_jobs g)))]) 202"

text \<open>\<open>job_.start\<close> and the answer: the start time is only read when the job starts.\<close>

definition start_job :: "'w gui_env \<Rightarrow> string \<Rightarrow> string \<Rightarrow> work \<Rightarrow> 'w gui \<Rightarrow> 'w reply" where
  "start_job ev kind target work g =
     (if jr_running (gu_jobs g) then reply (errorResponse ''Another job is already running.'' 409) g
      else
        let (now, s1) = utcTimestamp (ev_host ev) (gu_sys g);
            g1 = g\<lparr>gu_sys := s1, gu_jobs := snd (job_start kind target now (gu_jobs g)), gu_work := gu_work g @ [work]\<rparr>
        in reply (acceptedJobResponse g1) g1)"

definition backup_request :: "'w gui_env \<Rightarrow> json \<Rightarrow> BackupOptions" where
  "backup_request ev body =
     default_backup_options
       \<lparr>bo_serial := trim (asString (json_get body ''serial'') []),
        bo_outputDir := expandUserPath (ev_home ev) (trim (asString (json_get body ''output'') [])),
        bo_includeApks := boolField body ''include_apks'' True,
        bo_includeAppData := boolField body ''include_data'' True,
        bo_includeSharedStorage := boolField body ''include_shared'' True,
        bo_includeSystemApps := boolField body ''include_system'' False,
        bo_exportPersonalData := boolField body ''include_personal'' True,
        bo_onlyPackages := stringArray (json_get body ''only''),
        bo_excludePackages := stringArray (json_get body ''exclude''),
        bo_assumeYes := True,
        bo_filesystemPaths :=
          (if boolField body ''all_files'' False then defaultCaptureRoots else []) @ stringArray (json_get body ''pull_paths'')\<rparr>"

definition request_mode :: "string \<Rightarrow> BackupMode option" where
  "request_mode mode =
     (if mode = ''root'' then Some ModeRoot
      else if mode = ''standard'' then Some ModeStandard
      else if mode = ''auto'' \<or> mode = [] then Some ModeAuto
      else None)"

definition request_json :: "Request \<Rightarrow> json result" where
  "request_json request = json_parse (if rq_body request = [] then ''{}'' else rq_body request)"

definition handleStartBackup :: "'w gui_env \<Rightarrow> Request \<Rightarrow> 'w gui \<Rightarrow> 'w reply" where
  "handleStartBackup ev request g =
     (case request_json request of
        Inl what \<Rightarrow> Some (Inl (ParseError what), g)
      | Inr body \<Rightarrow>
          (let options = backup_request ev body
           in case find (\<lambda>path. classify path \<noteq> Ok) (bo_filesystemPaths options) of
                Some path \<Rightarrow> reply (errorResponse (explainVerdict (classify path) path) 400) g
              | None \<Rightarrow>
                  (let mode = asString (json_get body ''mode'') ''auto''
                   in case request_mode mode of
                        None \<Rightarrow> reply (errorResponse (''Unknown backup mode: '' @ mode) 400) g
                      | Some m \<Rightarrow>
                          if bo_outputDir options = [] then reply (errorResponse ''An output directory is required.'' 400) g
                          else case adb_available ev g of
                            (False, g1) \<Rightarrow> reply (errorResponse (adbMissingMessage ev) 400) g1
                          | (True, g1) \<Rightarrow>
                              start_job ev ''backup'' (bo_outputDir options) (BackupWork (options\<lparr>bo_mode := m\<rparr>)) g1)))"

definition restore_request :: "'w gui_env \<Rightarrow> json \<Rightarrow> RestoreOptions" where
  "restore_request ev body =
     \<lparr>ro_serial = trim (asString (json_get body ''serial'') []),
      ro_inputDir = expandUserPath (ev_home ev) (trim (asString (json_get body ''input'') [])),
      ro_includeApks = boolField body ''include_apks'' True,
      ro_includeAppData = boolField body ''include_data'' True,
      ro_includeSharedStorage = boolField body ''include_shared'' True,
      ro_includePersonalData = boolField body ''include_personal'' True,
      ro_onlyPackages = stringArray (json_get body ''only''),
      ro_excludePackages = stringArray (json_get body ''exclude''),
      ro_assumeYes = True\<rparr>"

definition handleStartRestore :: "'w gui_env \<Rightarrow> Request \<Rightarrow> 'w gui \<Rightarrow> 'w reply" where
  "handleStartRestore ev request g =
     (case request_json request of
        Inl what \<Rightarrow> Some (Inl (ParseError what), g)
      | Inr body \<Rightarrow>
          (let options = restore_request ev body
           in if ro_inputDir options = [] then reply (errorResponse ''A backup directory is required.'' 400) g
              else if \<not> isBackupDirectory (ev_host ev) (ro_inputDir options) (gu_sys g) then
                reply (errorResponse (not_a_backup (ro_inputDir options)) 400) g
              else case adb_available ev g of
                (False, g1) \<Rightarrow> reply (errorResponse (adbMissingMessage ev) 400) g1
              | (True, g1) \<Rightarrow> start_job ev ''restore'' (ro_inputDir options) (RestoreWork options) g1))"

definition handleShutdown :: "Request \<Rightarrow> 'w gui \<Rightarrow> 'w reply" where
  "handleShutdown request g =
     (if rq_method request \<noteq> ''POST'' then reply method_not_allowed g
      else if jr_running (gu_jobs g) then
        reply (errorResponse ''A job is still running; wait for it to finish first.'' 409) g
      else reply (jsonResponse (set_all [(''stopping'', JBool True)]) 200) (g\<lparr>gu_stopping := True\<rparr>))"

section \<open>Routing\<close>

definition post_only :: "Request \<Rightarrow> ('w gui \<Rightarrow> 'w reply) \<Rightarrow> 'w gui \<Rightarrow> 'w reply" where
  "post_only request handler g = (if rq_method request \<noteq> ''POST'' then reply method_not_allowed g else handler g)"

definition route :: "'w gui_env \<Rightarrow> Request \<Rightarrow> 'w gui \<Rightarrow> 'w reply" where
  "route ev request g =
     (let path = rq_path request
      in if path = ''/api/status'' then handleStatus ev g
         else if path = ''/api/devices'' then handleDevices ev g
         else if path = ''/api/device'' then handleDevice ev request g
         else if path = ''/api/packages'' then handlePackages ev request g
         else if path = ''/api/backups'' then handleBackups ev request g
         else if path = ''/api/backup'' then handleBackupDetail ev request g
         else if path = ''/api/backup/files'' then handleBackupFiles ev request g
         else if path = ''/api/backup/verify'' then handleBackupVerify ev request g
         else if path = ''/api/backup/archive'' then handleBackupArchive ev request g
         else if path = ''/api/backup/file'' then handleBackupFile ev request g
         else if path = ''/api/backup/media'' then handleBackupMedia ev request g
         else if path = ''/api/job'' then handleJob request g
         else if path = ''/api/job/cancel'' then handleCancel request g
         else if path = ''/api/job/dismiss'' then handleDismiss ev request g
         else if path = ''/api/jobs/backup'' then post_only request (handleStartBackup ev request) g
         else if path = ''/api/jobs/restore'' then post_only request (handleStartRestore ev request) g
         else if path = ''/api/shutdown'' then handleShutdown request g
         else reply (errorResponse (''Not found: '' @ path) 404) g)"

definition host_name :: "string \<Rightarrow> string" where
  "host_name host =
     (if host \<noteq> [] \<and> hd host = CHR ''['' then
        (case find_char (CHR '']'') host of None \<Rightarrow> ''?'' | Some close \<Rightarrow> take (close + 1) host)
      else (case rfind_char (CHR '':'') host of None \<Rightarrow> host | Some colon \<Rightarrow> take colon host))"

definition hostHeaderAllowed :: "GuiOptions \<Rightarrow> Request \<Rightarrow> bool" where
  "hostHeaderAllowed options request \<longleftrightarrow>
     (if go_host options \<noteq> ''127.0.0.1'' \<and> go_host options \<noteq> ''localhost'' then True
      else let host = host_name (Request_header request ''Host'')
           in host = [] \<or> host = ''127.0.0.1'' \<or> host = ''localhost'' \<or> host = ''[::1]'')"

definition presented_token :: "Request \<Rightarrow> string" where
  "presented_token request =
     (let header = Request_header request ''X-Abp-Token''
      in if header = [] \<and> rq_path request = ''/api/backup/file'' \<and> rq_method request = ''GET''
         then Request_param request ''token'' [] else header)"

definition handle :: "'w gui_env \<Rightarrow> Request \<Rightarrow> 'w gui \<Rightarrow> (Response \<times> 'w gui) option" where
  "handle ev request g =
     (if \<not> hostHeaderAllowed (ev_options ev) request then
        Some (errorResponse ''Request rejected: unexpected Host header.'' 403, g)
      else if rq_path request = ''/'' \<or> rq_path request = ''/index.html'' then
        Some (if rq_method request \<noteq> ''GET'' then method_not_allowed else Response_html (ev_indexHtml ev) 200, g)
      else if \<not> startsWith (rq_path request) ''/api/'' then Some (errorResponse ''Not found'' 404, g)
      else if \<not> tokensMatch (go_token (ev_options ev)) (presented_token request) then
        Some (errorResponse ''Invalid or missing API token. Open the URL abp printed in your terminal.'' 403, g)
      else case route ev request g of
        None \<Rightarrow> None
      | Some (Inr response, g1) \<Rightarrow> Some (response, g1)
      | Some (Inl (ParseError what), g1) \<Rightarrow> Some (errorResponse (''Malformed JSON in request body: '' @ what) 400, g1)
      | Some (Inl (Thrown what), g1) \<Rightarrow> Some (errorResponse what 500, g1))"

end
