(* ===== verification/GuiRules.thy ===== *)
theory GuiRules
  imports GuiServer
begin

text \<open>
  What the GUI's API promises: nothing without the token, no effect on jobs without \<open>POST\<close>, one
  validated job at a time, and files served only from inside a backup.
\<close>

section \<open>The token\<close>

definition authorised :: "'w gui_env \<Rightarrow> Request \<Rightarrow> bool" where
  "authorised ev request \<longleftrightarrow>
     hostHeaderAllowed (ev_options ev) request \<and> prefix ''/api/'' (rq_path request) \<and>
     presented_token request = go_token (ev_options ev)"

text \<open>Without the token nothing happens: a request that does not present it, or comes under a foreign
  \<open>Host\<close>, changes neither the system, the jobs nor the explorer, and is answered with the page itself
  or an error.\<close>

theorem handle_needs_token:
  "authorised ev request \<or>
   (\<exists>response. handle ev request g = Some (response, g) \<and>
      (response = Response_html (ev_indexHtml ev) 200 \<or> rp_status response \<in> {403, 404, 405}))"
  by (auto simp: handle_def authorised_def tokensMatch_iff startsWith_prefix errorResponse_def jsonResponse_def
      Response_json_def method_not_allowed_def)

section \<open>Jobs\<close>

definition keeps_jobs :: "'w gui \<Rightarrow> 'w reply \<Rightarrow> bool" where
  "keeps_jobs g r \<longleftrightarrow>
     (case r of
        None \<Rightarrow> True
      | Some (_, g') \<Rightarrow> gu_jobs g' = gu_jobs g \<and> gu_work g' = gu_work g \<and> gu_stopping g' = gu_stopping g)"

lemma keeps_reply [simp]: "keeps_jobs g (reply r g) = True"
  by (simp add: keeps_jobs_def reply_def)

lemma keeps_reply_iff:
  "keeps_jobs g (reply r g') \<longleftrightarrow> gu_jobs g' = gu_jobs g \<and> gu_work g' = gu_work g \<and> gu_stopping g' = gu_stopping g"
  by (simp add: keeps_jobs_def reply_def)

lemma adb_available_keeps:
  "adb_available ev g = (ok, g') \<Longrightarrow> gu_jobs g' = gu_jobs g \<and> gu_work g' = gu_work g \<and> gu_stopping g' = gu_stopping g \<and>
   gu_explorer g' = gu_explorer g"
  by (auto simp: adb_available_def split: prod.splits)

lemma request_client_keeps:
  "request_client ev request g = (r, g') \<Longrightarrow> gu_jobs g' = gu_jobs g \<and> gu_work g' = gu_work g \<and> gu_stopping g' = gu_stopping g"
  by (auto simp: request_client_def Let_def split: prod.splits bool.splits if_splits dest!: adb_available_keeps)

lemma open_archive_keeps:
  "open_archive ev dir sub g = Some (r, g') \<Longrightarrow> gu_jobs g' = gu_jobs g \<and> gu_work g' = gu_work g \<and> gu_stopping g' = gu_stopping g"
  by (auto simp: open_archive_def)

lemma handleStatus_keeps: "keeps_jobs g (handleStatus ev g)"
  by (auto simp: handleStatus_def keeps_reply_iff split: prod.splits dest: adb_available_keeps)

lemma handleDevices_keeps: "keeps_jobs g (handleDevices ev g)"
  by (auto simp: handleDevices_def keeps_reply_iff Let_def split: prod.splits dest!: adb_available_keeps)

lemma handleDevice_keeps: "keeps_jobs g (handleDevice ev request g)"
  by (auto simp: handleDevice_def keeps_reply_iff split: prod.splits sum.splits dest!: request_client_keeps)

lemma handlePackages_keeps: "keeps_jobs g (handlePackages ev request g)"
  by (auto simp: handlePackages_def keeps_reply_iff Let_def split: prod.splits sum.splits dest!: request_client_keeps)

lemma keeps_thrown [simp]: "keeps_jobs g (Some (x, g))"
  by (simp add: keeps_jobs_def)

lemma keeps_none [simp]: "keeps_jobs g None"
  by (simp add: keeps_jobs_def)

lemma explore_keeps:
  "keeps_jobs g (handleBackups ev request g)" "keeps_jobs g (handleBackupDetail ev request g)"
  "keeps_jobs g (handleBackupFiles ev request g)" "keeps_jobs g (handleBackupVerify ev request g)"
  "keeps_jobs g (handleJob request g)"
  by (auto simp: handleBackups_def handleBackupDetail_def handleBackupFiles_def handleBackupVerify_def handleJob_def Let_def
      split: sum.splits option.splits)

lemma archive_keeps:
  "keeps_jobs g (handleBackupArchive ev request g)" "keeps_jobs g (handleBackupFile ev request g)"
  "keeps_jobs g (handleBackupMedia ev request g)"
  by (auto simp: handleBackupArchive_def handleBackupFile_def handleBackupMedia_def Let_def keeps_reply_iff
      split: sum.splits option.splits prod.splits dest!: open_archive_keeps)

text \<open>Work that was accepted has been checked.\<close>

fun work_ok :: "'w gui_env \<Rightarrow> 'w gui \<Rightarrow> work \<Rightarrow> bool" where
  "work_ok ev g (BackupWork options) \<longleftrightarrow>
     bo_outputDir options \<noteq> [] \<and> list_all (\<lambda>p. classify p = Ok) (bo_filesystemPaths options) \<and> bo_assumeYes options"
| "work_ok ev g (RestoreWork options) \<longleftrightarrow> isBackupDirectory (ev_host ev) (ro_inputDir options) (gu_sys g)"

text \<open>What a request may do to the jobs: nothing, start one piece of checked work while none is running,
  cancel, or dismiss.\<close>

definition job_effect :: "'w gui_env \<Rightarrow> 'w gui \<Rightarrow> 'w gui \<Rightarrow> bool" where
  "job_effect ev g g' \<longleftrightarrow>
     (gu_jobs g' = gu_jobs g \<and> gu_work g' = gu_work g) \<or>
     (\<exists>kind target now w. gu_jobs g' = snd (job_start kind target now (gu_jobs g)) \<and> gu_work g' = gu_work g @ [w] \<and>
        \<not> jr_running (gu_jobs g) \<and> jr_running (gu_jobs g') \<and> work_ok ev g w \<and> fst (adb_available ev g)) \<or>
     (gu_jobs g' = snd (job_cancel (gu_jobs g)) \<and> gu_work g' = gu_work g) \<or>
     (gu_jobs g' = snd (job_dismiss (gu_jobs g)) \<and> gu_work g' = gu_work g)"

definition effect_of :: "'w gui_env \<Rightarrow> 'w gui \<Rightarrow> 'w reply \<Rightarrow> bool" where
  "effect_of ev g r \<longleftrightarrow> (case r of None \<Rightarrow> True | Some (_, g') \<Rightarrow> job_effect ev g g')"

lemma keeps_effect: "keeps_jobs g r \<Longrightarrow> effect_of ev g r"
  by (auto simp: keeps_jobs_def effect_of_def job_effect_def split: option.splits)

lemma start_job_effect:
  assumes "adb_available ev g = (True, g1)" "work_ok ev g w"
  shows "effect_of ev g (start_job ev kind target w g1)"
proof -
  note k = adb_available_keeps [OF assms(1)]
  show ?thesis
  proof (cases "jr_running (gu_jobs g)")
    case True
    then show ?thesis using k by (simp add: start_job_def reply_def effect_of_def job_effect_def)
  next
    case False
    obtain now s1 where now: "utcTimestamp (ev_host ev) (gu_sys g1) = (now, s1)" by (metis prod.collapse)
    have "jr_running (snd (job_start kind target now (gu_jobs g)))" using False by (simp add: job_start_def)
    then have "job_effect ev g (g1\<lparr>gu_sys := s1, gu_jobs := snd (job_start kind target now (gu_jobs g)), gu_work := gu_work g @ [w]\<rparr>)"
      unfolding job_effect_def using False assms by (intro disjI2 disjI1) auto
    then show ?thesis using k False now by (simp add: start_job_def reply_def effect_of_def Let_def)
  qed
qed

lemma handleStartBackup_effect: "effect_of ev g (handleStartBackup ev request g)"
proof (cases "request_json request")
  case (Inl what)
  then show ?thesis by (simp add: handleStartBackup_def keeps_effect)
next
  case (Inr body)
  let ?o = "backup_request ev body"
  show ?thesis
  proof (cases "find (\<lambda>path. classify path \<noteq> Ok) (bo_filesystemPaths ?o)")
    case (Some path)
    with Inr show ?thesis by (simp add: handleStartBackup_def keeps_effect Let_def)
  next
    case None
    then have paths: "list_all (\<lambda>p. classify p = Ok) (bo_filesystemPaths ?o)"
      by (auto simp: find_None_iff list_all_iff)
    show ?thesis
    proof (cases "request_mode (asString (json_get body ''mode'') ''auto'')")
      case None
      with Inr \<open>find _ _ = None\<close> show ?thesis by (simp add: handleStartBackup_def keeps_effect Let_def)
    next
      case (Some m)
      obtain ok g1 where a: "adb_available ev g = (ok, g1)" by (metis prod.collapse)
      have "effect_of ev g (start_job ev ''backup'' (bo_outputDir ?o) (BackupWork (?o\<lparr>bo_mode := m\<rparr>)) g1)"
        if "bo_outputDir ?o \<noteq> []" ok
        using that a paths by (intro start_job_effect) (simp_all add: backup_request_def)
      then show ?thesis
        using Inr None Some a adb_available_keeps [OF a]
        by (cases ok) (auto simp: handleStartBackup_def Let_def keeps_reply_iff intro: keeps_effect)
    qed
  qed
qed

lemma handleStartRestore_effect: "effect_of ev g (handleStartRestore ev request g)"
proof (cases "request_json request")
  case (Inl what)
  then show ?thesis by (simp add: handleStartRestore_def keeps_effect)
next
  case (Inr body)
  let ?o = "restore_request ev body"
  obtain ok g1 where a: "adb_available ev g = (ok, g1)" by (metis prod.collapse)
  have "effect_of ev g (start_job ev ''restore'' (ro_inputDir ?o) (RestoreWork ?o) g1)"
    if "isBackupDirectory (ev_host ev) (ro_inputDir ?o) (gu_sys g)" ok
    using that a by (intro start_job_effect) simp_all
  then show ?thesis
    using Inr a adb_available_keeps [OF a]
    by (cases ok) (auto simp: handleStartRestore_def Let_def keeps_reply_iff intro: keeps_effect)
qed

lemma effect_of_keeps: "job_effect ev g g1 \<Longrightarrow> gu_jobs g1 = gu_jobs g2 \<Longrightarrow> gu_work g1 = gu_work g2 \<Longrightarrow> job_effect ev g g2"
  by (simp add: job_effect_def)

lemma effect_after:
  assumes "job_effect ev g g1" "keeps_jobs g1 r"
  shows "effect_of ev g r"
proof (cases r)
  case (Some p)
  then obtain x g2 where "r = Some (x, g2)" by (cases p) auto
  then show ?thesis
    using assms(2) effect_of_keeps [OF assms(1), of g2] by (simp add: keeps_jobs_def effect_of_def)
qed (simp add: effect_of_def)

lemma handleCancel_effect: "effect_of ev g (handleCancel request g)"
proof -
  obtain ok j where c: "job_cancel (gu_jobs g) = (ok, j)" by (metis prod.collapse)
  have e: "job_effect ev g (g\<lparr>gu_jobs := j\<rparr>)" using c by (simp add: job_effect_def)
  show ?thesis
    using c effect_after [OF e keeps_reply [THEN eqTrueE]] effect_after [OF e explore_keeps(5)]
    by (cases ok) (simp_all add: handleCancel_def keeps_effect)
qed

lemma handleDismiss_effect: "effect_of ev g (handleDismiss ev request g)"
proof -
  obtain ok j where c: "job_dismiss (gu_jobs g) = (ok, j)" by (metis prod.collapse)
  have e: "job_effect ev g (g\<lparr>gu_jobs := j\<rparr>)" using c by (simp add: job_effect_def)
  show ?thesis
    using c effect_after [OF e keeps_reply [THEN eqTrueE]] effect_after [OF e handleStatus_keeps]
    by (cases ok) (simp_all add: handleDismiss_def keeps_effect)
qed

lemma handleShutdown_effect: "effect_of ev g (handleShutdown request g)"
  by (auto simp: handleShutdown_def keeps_effect effect_of_def reply_def job_effect_def)

lemma post_only_effect: "effect_of ev g (handler g) \<Longrightarrow> effect_of ev g (post_only request handler g)"
  by (simp add: post_only_def keeps_effect)

lemmas reading_handlers = handleStatus_keeps handleDevices_keeps handleDevice_keeps handlePackages_keeps
  explore_keeps archive_keeps

lemmas job_handlers = handleCancel_effect handleDismiss_effect handleShutdown_effect
  post_only_effect [of _ _ "handleStartBackup ev request", OF handleStartBackup_effect]
  post_only_effect [of _ _ "handleStartRestore ev request", OF handleStartRestore_effect] for ev request

lemma route_effect: "effect_of ev g (route ev request g)"
  unfolding route_def Let_def
  by (simp add: reading_handlers job_handlers keeps_effect)

lemma route_get_keeps: "rq_method request \<noteq> ''POST'' \<Longrightarrow> keeps_jobs g (route ev request g)"
  unfolding route_def Let_def
  by (simp add: reading_handlers post_only_def handleCancel_def handleDismiss_def handleShutdown_def)

lemma job_effect_refl: "job_effect ev g g"
  by (simp add: job_effect_def)

lemma handle_effect:
  "case handle ev request g of
     None \<Rightarrow> True
   | Some (_, g') \<Rightarrow>
       job_effect ev g g' \<and>
       (rq_method request = ''POST'' \<or> gu_jobs g' = gu_jobs g \<and> gu_work g' = gu_work g \<and> gu_stopping g' = gu_stopping g)"
proof -
  have "job_effect ev g g'" if "route ev request g = Some (r, g')" for r g'
    using route_effect [of ev g request] that by (simp add: effect_of_def)
  moreover have "gu_jobs g' = gu_jobs g \<and> gu_work g' = gu_work g \<and> gu_stopping g' = gu_stopping g"
    if "route ev request g = Some (r, g')" "rq_method request \<noteq> ''POST''" for r g'
    using route_get_keeps [OF that(2), of g ev] that(1) by (simp add: keeps_jobs_def)
  ultimately show ?thesis
    by (auto simp: handle_def job_effect_refl split: option.splits prod.splits sum.splits gui_error.splits)
qed

text \<open>C13: A request can only do this to the jobs: nothing; start one piece of work while none is running
  and adb answers; cancel; or dismiss; and only with \<open>POST\<close>.  A backup that is started has an output
  directory and no device path that a capture would refuse, a restore starts from a backup.\<close>

theorem handle_job_effect:
  "case handle ev request g of
     None \<Rightarrow> True
   | Some (_, g') \<Rightarrow>
       job_effect ev g g' \<and>
       (rq_method request = ''POST'' \<or> gu_jobs g' = gu_jobs g \<and> gu_work g' = gu_work g \<and> gu_stopping g' = gu_stopping g)"
  by (rule handle_effect)

section \<open>A cancel that stays pending locks the GUI\<close>

lemma adb_unavailable:
  "fst (cancelRequested (ev_host ev) (gu_sys g)) \<Longrightarrow> \<not> fst (adb_available ev g)"
  using process_cancelled [of "[ev_adbPath ev, ''version'']" "ev_host ev" "gu_sys g" "Capture None"]
  by (auto simp: adb_available_def isAdbAvailable_def Process_run_def cancelledResult_def split: prod.splits)

text \<open>While the cancel flag is set no request starts a job, since adb does not answer; and starting a job is
  the only thing that clears the flag.  So the state that \<open>JobRunner\<close> can be left in, with the flag set
  and no job, lasts until abp is restarted.\<close>

theorem pending_cancel_blocks_jobs:
  assumes "fst (cancelRequested (ev_host ev) (gu_sys g))"
  shows "case handle ev request g of None \<Rightarrow> True | Some (_, g') \<Rightarrow> gu_work g' = gu_work g"
proof -
  have "gu_work g' = gu_work g" if "job_effect ev g g'" for g'
    using that adb_unavailable [OF assms] by (auto simp: job_effect_def)
  moreover have "job_effect ev g g'" if "handle ev request g = Some (r, g')" for r g'
  proof -
    have "job_effect ev g g'" if "route ev request g = Some (r, g')" for r g'
      using route_effect [of ev g request] that by (simp add: effect_of_def)
    then show ?thesis using that
      by (auto simp: handle_def job_effect_refl split: option.splits prod.splits sum.splits gui_error.splits if_splits)
  qed
  ultimately show ?thesis by (auto split: option.splits)
qed

definition sample_env :: "unit gui_env" where
  "sample_env = \<lparr>ev_host = store_host\<lparr>h_cancelRequested := (\<lambda>w. (True, w))\<rparr>, ev_paths = store_paths, ev_adbPath = ''adb'',
     ev_version = ''1'', ev_home = None, ev_cacheDir = ''/tmp/x'', ev_indexHtml = [],
     ev_options = default_gui_options\<lparr>go_token := ''secret''\<rparr>\<rparr>"

definition sample_gui :: "unit gui" where
  "sample_gui = \<lparr>gu_sys = quiet_sys, gu_jobs = new_jobs, gu_explorer = new_Explorer, gu_work = [], gu_stopping = False\<rparr>"

definition sample_restore_request :: Request where
  "sample_restore_request =
     (parse_target ''POST'' ''/api/jobs/restore'')\<lparr>rq_headers := [(''x-abp-token'', ''secret'')],
       rq_body := ''{ '' @ [CHR 34] @ ''input'' @ [CHR 34] @ '': '' @ [CHR 34] @ ''/b'' @ [CHR 34] @ '' }''\<rparr>"

theorem pending_cancel_blocks_jobs_witness:
  "case handle sample_env sample_restore_request sample_gui of None \<Rightarrow> True | Some (_, g') \<Rightarrow> gu_work g' = []"
proof -
  have "fst (cancelRequested (ev_host sample_env) (gu_sys sample_gui))"
    by (simp add: sample_env_def sample_gui_def cancelRequested_def)
  from pending_cancel_blocks_jobs [of sample_env sample_gui sample_restore_request, OF this]
  have "case handle sample_env sample_restore_request sample_gui of None \<Rightarrow> True | Some (_, g') \<Rightarrow> gu_work g' = gu_work sample_gui" .
  moreover have "gu_work sample_gui = []" by (simp add: sample_gui_def)
  ultimately show ?thesis by (simp only:)
qed

section \<open>Files\<close>

lemma sandboxed_facts:
  "rp_filePath (sandboxed request name r) = rp_filePath r" "rp_contentType (sandboxed request name r) = rp_contentType r"
  "(''Content-Security-Policy'', content_policy) \<in> set (rp_headers (sandboxed request name r))"
  by (simp_all add: sandboxed_def Let_def)

lemma error_no_file [simp]: "rp_filePath (errorResponse m st) = []"
  by (simp add: errorResponse_def jsonResponse_def Response_json_def empty_response_def)

text \<open>A file response that is safe to show: from inside the backup, sandboxed, and of an inert type.\<close>

definition file_response_ok :: "'w gui_env \<Rightarrow> 'w gui \<Rightarrow> 'w gui \<Rightarrow> string \<Rightarrow> Response \<Rightarrow> bool" where
  "file_response_ok ev g g' dir response \<longleftrightarrow>
     (\<exists>base resolved name. p_canonical (ev_paths ev) dir (world (gu_sys g)) = Some base \<and> inside_dir base resolved \<and>
        served_from (ev_cacheDir ev) (gu_explorer g') (gu_sys g') resolved (rp_filePath response) \<and>
        rp_contentType response = contentTypeFor name \<and>
        (''Content-Security-Policy'', content_policy) \<in> set (rp_headers response))"

text \<open>C11: The file endpoint serves only what is in the backup the request names: the file itself, resolved inside
  its directory, or a member of an archive resolved inside it (read from that archive or from the copy
  \<open>gzip\<close> made of it), always under the sandbox policy and with a type no browser runs.\<close>

theorem handleBackupFile_inside:
  assumes "canonical_paths (ev_paths ev)" "cache_ok (ev_cacheDir ev) (gu_explorer g) (gu_sys g)"
    and "handleBackupFile ev request g = Some (Inr response, g')" "rp_filePath response \<noteq> []"
  shows "\<exists>dir. backupParam ev request g = Inr dir \<and> file_response_ok ev g g' dir response"
proof (cases "backupParam ev request g")
  case (Inl r)
  then show ?thesis using assms(3,4) by (auto simp: handleBackupFile_def reply_def backupParam_def Let_def split: if_splits)
next
  case (Inr dir)
  let ?sub = "Request_param request ''sub'' []" and ?member = "Request_param request ''member'' []"
  have inside: "\<exists>base. p_canonical (ev_paths ev) dir (world (gu_sys g)) = Some base \<and> inside_dir base resolved"
    if "resolveInside (ev_host ev) (ev_paths ev) dir ?sub (gu_sys g) = Some resolved" for resolved
    using resolveInside_inside [OF assms(1) that] by blast
  show ?thesis
  proof (cases "?member = []")
    case True
    then obtain resolved where r: "resolveInside (ev_host ev) (ev_paths ev) dir ?sub (gu_sys g) = Some resolved"
      "g' = g" "\<exists>name n. response = sandboxed request name (Response_file resolved 0 n (contentTypeFor name))"
      using assms(3,4) Inr by (auto simp: handleBackupFile_def Let_def reply_def split: option.splits if_splits)
    obtain base where b: "p_canonical (ev_paths ev) dir (world (gu_sys g)) = Some base" "inside_dir base resolved"
      using inside [OF r(1)] by blast
    obtain name n where resp: "response = sandboxed request name (Response_file resolved 0 n (contentTypeFor name))"
      using r(3) by blast
    have "file_response_ok ev g g' dir response"
      unfolding file_response_ok_def
      by (rule exI [of _ base], rule exI [of _ resolved], rule exI [of _ name])
        (simp add: b resp sandboxed_facts Response_file_def empty_response_def served_from_def)
    then show ?thesis using Inr by blast
  next
    case False
    have "\<exists>archive name off n. open_archive ev dir ?sub g = Some (Inr archive, g') \<and>
        response = sandboxed request name (Response_file (ar_tarFile archive) off n (contentTypeFor name))"
      using assms(3,4) Inr False
      by (auto simp: handleBackupFile_def Let_def reply_def split: option.splits sum.splits if_splits) blast
    then obtain archive where a: "open_archive ev dir ?sub g = Some (Inr archive, g')"
      "\<exists>name off n. response = sandboxed request name (Response_file (ar_tarFile archive) off n (contentTypeFor name))"
      by blast
    obtain x s where run: "openArchive (ev_host ev) (ev_paths ev) (ev_cacheDir ev) dir ?sub (gu_explorer g) (gu_sys g) = Some (Inr archive, x, s)"
      "gu_explorer g' = x" "gu_sys g' = s"
      using a(1) by (auto simp: open_archive_def)
    obtain resolved where r: "resolveInside (ev_host ev) (ev_paths ev) dir ?sub (gu_sys g) = Some resolved"
      "served_from (ev_cacheDir ev) x s resolved (ar_tarFile archive)"
      using openArchive_served [OF assms(2) run(1)] by auto
    obtain base where b: "p_canonical (ev_paths ev) dir (world (gu_sys g)) = Some base" "inside_dir base resolved"
      using inside [OF r(1)] by blast
    obtain name off n where
      resp: "response = sandboxed request name (Response_file (ar_tarFile archive) off n (contentTypeFor name))"
      using a(2) by blast
    have "file_response_ok ev g g' dir response"
      unfolding file_response_ok_def
      by (rule exI [of _ base], rule exI [of _ resolved], rule exI [of _ name])
        (simp add: b resp r(2) run(2,3) sandboxed_facts Response_file_def empty_response_def)
    then show ?thesis using Inr by blast
  qed
qed

definition sample_file_request :: Request where
  "sample_file_request = parse_target ''GET'' ''/api/backup/file?path=%2Fb&sub=data.tar&token=secret''"

lemma sample_file_served:
  "map_option (\<lambda>(r, _). r) (handleBackupFile sample_env sample_file_request sample_gui) =
     Some (Inr \<lparr>rp_status = 200, rp_contentType = ''application/octet-stream'', rp_body = [],
       rp_headers = [(''Content-Security-Policy'', content_policy), (''Content-Disposition'', contentDisposition ''data.tar'')],
       rp_filePath = ''/b/data.tar'', rp_fileOffset = 0, rp_fileLength = 2 ^ 64 - 1\<rparr>)"
  by code_simp

theorem handleBackupFile_inside_witness:
  "\<exists>response g'. handleBackupFile sample_env sample_file_request sample_gui = Some (Inr response, g') \<and>
     file_response_ok sample_env sample_gui g' ''/b'' response"
proof -
  obtain response g' where r: "handleBackupFile sample_env sample_file_request sample_gui = Some (Inr response, g')"
    "rp_filePath response = ''/b/data.tar''"
    using sample_file_served by auto
  have "\<exists>dir. backupParam sample_env sample_file_request sample_gui = Inr dir \<and>
      file_response_ok sample_env sample_gui g' dir response"
    using r store_paths_canonical cache_ok_new
    by (intro handleBackupFile_inside) (simp_all add: sample_env_def sample_gui_def)
  moreover have "backupParam sample_env sample_file_request sample_gui = Inr ''/b''" by code_simp
  ultimately show ?thesis using r(1) by auto
qed

end
