(* ===== verification/GuiAnswers.thy ===== *)
theory GuiAnswers
  imports GuiRules
begin

text \<open>
  The form of everything the GUI answers: a status the server knows, headers no text from a phone can
  add to or end, and HTML only for the page itself.
\<close>

section \<open>Well-formed answers\<close>

definition known_status :: "int set" where
  "known_status = {200, 202, 206, 400, 403, 404, 405, 409, 416, 500}"

definition printable_header :: "string \<times> string \<Rightarrow> bool" where
  "printable_header = (\<lambda>(name, v). list_all printable name \<and> list_all printable v)"

definition wf_response :: "string \<Rightarrow> Response \<Rightarrow> bool" where
  "wf_response page r \<longleftrightarrow>
     rp_status r \<in> known_status \<and> list_all printable (rp_contentType r) \<and> list_all printable_header (rp_headers r) \<and>
     (rp_filePath r = [] \<or> rp_status r \<in> {200, 206} \<and> rp_body r = []) \<and>
     (\<not> contains_sub ''html'' (rp_contentType r) \<or> r = Response_html page 200)"

definition wf_reply :: "string \<Rightarrow> 'w reply \<Rightarrow> bool" where
  "wf_reply page r \<longleftrightarrow> (case r of Some (Inr response, _) \<Rightarrow> wf_response page response | _ \<Rightarrow> True)"

lemma wf_reply_simps [simp]:
  "wf_reply page (reply r g) = wf_response page r" "wf_reply page None" "wf_reply page (Some (Inl e, g))"
  by (simp_all add: wf_reply_def reply_def)

lemma printable_constants:
  "list_all printable ''application/json; charset=utf-8''" "list_all printable ''text/html; charset=utf-8''"
  "list_all printable ''Content-Security-Policy''" "list_all printable content_policy"
  "list_all printable ''Content-Disposition''" "list_all printable ''Content-Range''"
  by code_simp+

lemma json_not_html: "\<not> contains_sub ''html'' ''application/json; charset=utf-8''"
  by code_simp

lemma wf_json [simp]: "wf_response page (jsonResponse v st) \<longleftrightarrow> st \<in> known_status"
  using printable_constants(1) json_not_html
  by (auto simp: wf_response_def jsonResponse_def Response_json_def empty_response_def)

lemma wf_error [simp]: "wf_response page (errorResponse message st) \<longleftrightarrow> st \<in> known_status"
  by (simp add: errorResponse_def)

lemma wf_page: "wf_response page (Response_html page 200)"
  using printable_constants(2) by (simp add: wf_response_def Response_html_def empty_response_def known_status_def)

lemma type_facts: "list_all printable (contentTypeFor name) \<and> \<not> contains_sub ''html'' (contentTypeFor name)"
proof -
  have "list_all (\<lambda>t. list_all printable t \<and> \<not> contains_sub ''html'' t)
      (map snd kTypes @ [''text/plain; charset=utf-8'', ''application/octet-stream''])"
    by code_simp
  moreover have "contentTypeFor name \<in> set (map snd kTypes @ [''text/plain; charset=utf-8'', ''application/octet-stream''])"
    using contentTypeFor_cases [of name] by auto
  ultimately show ?thesis unfolding list_all_iff by blast
qed

lemma wf_file: "wf_response page (sandboxed request name (Response_file path off n (contentTypeFor name')))"
  using type_facts [of name'] printable_constants contentDisposition_printable
  by (simp add: wf_response_def sandboxed_def Response_file_def empty_response_def known_status_def printable_header_def Let_def)

section \<open>Every handler\<close>

lemma status_200s [simp]:
  "200 \<in> known_status" "202 \<in> known_status" "400 \<in> known_status" "403 \<in> known_status" "404 \<in> known_status"
  "405 \<in> known_status" "409 \<in> known_status" "500 \<in> known_status" "206 \<in> known_status" "416 \<in> known_status"
  by (simp_all add: known_status_def)

lemma method_not_allowed_wf [simp]: "wf_response page method_not_allowed"
  by (simp add: method_not_allowed_def)

lemma request_client_wf: "request_client ev request g = (Inl r, g') \<Longrightarrow> wf_response page r"
  by (auto simp: request_client_def Let_def split: prod.splits bool.splits if_splits)

lemma backupParam_wf: "backupParam ev request g = Inl r \<Longrightarrow> wf_response page r"
  by (auto simp: backupParam_def Let_def split: if_splits)

lemma handleStatus_wf: "wf_reply page (handleStatus ev g)"
  by (simp add: handleStatus_def split: prod.split)

lemma device_handlers_wf:
  "wf_reply page (handleDevices ev g)" "wf_reply page (handleDevice ev request g)"
  "wf_reply page (handlePackages ev request g)"
  by (auto simp: handleDevices_def handleDevice_def handlePackages_def Let_def
      split: prod.splits sum.splits dest: request_client_wf)

lemma explore_wf:
  "wf_reply page (handleBackups ev request g)" "wf_reply page (handleBackupDetail ev request g)"
  "wf_reply page (handleBackupFiles ev request g)" "wf_reply page (handleBackupVerify ev request g)"
  "wf_reply page (handleJob request g)"
  by (auto simp: handleBackups_def handleBackupDetail_def handleBackupFiles_def handleBackupVerify_def handleJob_def Let_def
      split: sum.splits option.splits dest: backupParam_wf)

lemma archive_wf:
  "wf_reply page (handleBackupArchive ev request g)" "wf_reply page (handleBackupFile ev request g)"
  "wf_reply page (handleBackupMedia ev request g)"
  by (auto simp: handleBackupArchive_def handleBackupFile_def handleBackupMedia_def Let_def wf_file
      split: sum.splits option.splits prod.splits dest: backupParam_wf)

lemma start_job_wf: "wf_reply page (start_job ev kind target work g)"
  by (simp add: start_job_def acceptedJobResponse_def Let_def split: prod.split)

lemma job_handlers_wf:
  "wf_reply page (handleCancel request g)" "wf_reply page (handleDismiss ev request g)"
  "wf_reply page (handleShutdown request g)" "wf_reply page (handleStartBackup ev request g)"
  "wf_reply page (handleStartRestore ev request g)"
  by (auto simp: handleCancel_def handleDismiss_def handleShutdown_def handleStartBackup_def handleStartRestore_def Let_def
      explore_wf handleStatus_wf start_job_wf split: prod.splits bool.splits sum.splits option.splits)

lemma route_wf: "wf_reply page (route ev request g)"
  unfolding route_def Let_def post_only_def
  by (simp add: handleStatus_wf device_handlers_wf explore_wf archive_wf job_handlers_wf)

lemma handle_wf: "handle ev request g = Some (r, g') \<Longrightarrow> wf_response (ev_indexHtml ev) r"
  using route_wf [of "ev_indexHtml ev" ev request g]
  by (auto simp: handle_def wf_page wf_reply_def
      split: option.splits prod.splits sum.splits gui_error.splits if_splits)

section \<open>Ranges keep the form\<close>

lemma printable_nat: "list_all printable (nat_to_string n)"
  using nat_to_string_digits [of n] by (auto simp: list_all_iff printable_def is_digit_def)

lemma printable_range:
  "list_all printable ''bytes ''" "list_all printable ''bytes */''" "printable (CHR ''-'')" "printable (CHR ''/'')"
  by code_simp+

lemma applyRange_wf: "wf_response page r \<Longrightarrow> wf_response page (applyRange request r)"
  using printable_nat printable_range printable_constants(6)
  by (auto simp: wf_response_def applyRange_def printable_header_def Response_html_def empty_response_def
      split: RangeResult.splits if_splits)

text \<open>C29: Every answer of the GUI, after its byte range has been applied, has a status the server names in its
  status line, a content type and headers of printable characters only, so nothing taken from a phone or
  a request can add a header or split the response; a body or a file, and the file only under 200 or
  206; and the type HTML only for the page itself.\<close>

theorem handle_answers_well_formed:
  "case handle ev request g of
     None \<Rightarrow> True
   | Some (response, _) \<Rightarrow> wf_response (ev_indexHtml ev) (applyRange request response)"
  by (auto split: option.split intro: applyRange_wf handle_wf)

end
