(* ===== verification/GuiSession.thy ===== *)
theory GuiSession
  imports GuiAnswers
begin

text \<open>
  The server with the application: from the bytes of the connections to the state of the GUI.
\<close>

section \<open>The application as a handler\<close>

text \<open>The handler \<open>GuiServer::run\<close> gives to the server, and the files it streams.\<close>

definition gui_handler :: "'w gui_env \<Rightarrow> Request \<Rightarrow> 'w gui \<Rightarrow> (Response result \<times> 'w gui) option" where
  "gui_handler ev request g = map_option (\<lambda>(response, g1). (Inr response, g1)) (handle ev request g)"

definition gui_files :: "'w gui_env \<Rightarrow> 'w gui \<Rightarrow> string \<Rightarrow> string option" where
  "gui_files ev g path = map_option fst (h_read (ev_host ev) path (world (gu_sys g)))"

text \<open>A connection whose bytes are no request, or a request without the token.\<close>

definition foreign_turn :: "'w gui_env \<Rightarrow> turn \<Rightarrow> bool" where
  "foreign_turn ev t \<longleftrightarrow>
     (case tn_accept t of
        Accepted reads writes \<Rightarrow> (case readRequest reads of Inr request \<Rightarrow> \<not> authorised ev request | Inl _ \<Rightarrow> True)
      | _ \<Rightarrow> True)"

text \<open>What one may be told without the token: nothing, the page, or an error, as the socket lets it through.\<close>

definition public_out :: "'w gui_env \<Rightarrow> 'w gui \<Rightarrow> string \<Rightarrow> bool" where
  "public_out ev g out \<longleftrightarrow>
     out = [] \<or>
     (\<exists>writes response. out = sendResponse (gui_files ev g) writes response \<and>
        (response = Response_html (ev_indexHtml ev) 200 \<or> rp_status response \<in> {400, 403, 404, 405, 413}))"

lemma serve_foreign:
  assumes "case readRequest reads of Inr request \<Rightarrow> \<not> authorised ev request | Inl _ \<Rightarrow> True"
  shows "\<exists>out. serve (gui_handler ev) (gui_files ev) reads writes g = Some (out, g) \<and> public_out ev g out"
proof (cases "readRequest reads")
  case (Inr request)
  then obtain response where r: "handle ev request g = Some (response, g)"
      "response = Response_html (ev_indexHtml ev) 200 \<or> rp_status response \<in> {403, 404, 405}"
    using assms handle_needs_token [of ev request g] by auto
  then have "applyRange request response = response"
    by (auto simp: applyRange_def Response_html_def empty_response_def)
  with Inr r show ?thesis by (auto simp: serve_def gui_handler_def public_out_def Let_def)
next
  case (Inl status)
  then have "status = 0 \<or> status = 400 \<or> status = 413" using readRequest_stream [of reads] by simp
  then have "status = 0 \<or> rp_status (Response_text (statusText status) status) \<in> {400, 403, 404, 405, 413}"
    by (auto simp: Response_text_def)
  with Inl show ?thesis by (auto simp: serve_def public_out_def)
qed

text \<open>C10: Nobody without the token can do anything to the GUI: whatever bytes arrive on however many connections,
  as long as none of them is a request with the token, the server does not hang, the application's state, with the
  system, the jobs and the explorer, stays as it was, and each connection gets the page itself, an error, or nothing.\<close>

theorem session_needs_token:
  assumes "list_all (foreign_turn ev) turns"
  shows "\<exists>outs ended. serveForever (gui_handler ev) (gui_files ev) turns g = Some (outs, g, ended) \<and>
    list_all (public_out ev g) outs"
  using assms
proof (induction turns)
  case (Cons t ts)
  then obtain outs ended where IH: "serveForever (gui_handler ev) (gui_files ev) ts g = Some (outs, g, ended)"
    "list_all (public_out ev g) outs" by auto
  show ?case
  proof (cases "tn_accept t")
    case (Accepted reads writes)
    then obtain out where "serve (gui_handler ev) (gui_files ev) reads writes g = Some (out, g)" "public_out ev g out"
      using Cons.prems serve_foreign [where reads = reads and ev = ev and writes = writes and g = g]
      by (auto simp: foreign_turn_def)
    with Accepted IH show ?thesis by (cases "tn_stopped t") (auto intro: exI [of _ True])
  qed (use IH in \<open>cases "tn_stopped t"; cases "tn_stopped_then t"; auto intro: exI [of _ True]\<close>)+
qed (auto intro: exI [of _ False])

definition sample_turns :: "turn list" where
  "sample_turns =
     [\<lparr>tn_stopped = False, tn_accept = Accepted [Got ''POST /api/shutdown HTTP/1.1'', Got head_mark] [], tn_stopped_then = False\<rparr>,
      \<lparr>tn_stopped = False, tn_accept = AcceptIntr, tn_stopped_then = False\<rparr>,
      \<lparr>tn_stopped = False, tn_accept = Accepted [Got ''rubbish'', Ended] [], tn_stopped_then = False\<rparr>]"

theorem session_needs_token_witness:
  "\<exists>outs ended. serveForever (gui_handler sample_env) (gui_files sample_env) sample_turns sample_gui = Some (outs, sample_gui, ended) \<and>
    list_all (public_out sample_env sample_gui) outs"
proof (rule session_needs_token)
  have "map (\<lambda>t. case tn_accept t of
      Accepted reads writes \<Rightarrow> (case readRequest reads of Inr request \<Rightarrow> presented_token request = ''secret'' | Inl _ \<Rightarrow> False)
    | _ \<Rightarrow> False) sample_turns = [False, False, False]"
    by code_simp
  moreover have "go_token (ev_options sample_env) = ''secret''" by (simp add: sample_env_def)
  ultimately show "list_all (foreign_turn sample_env) sample_turns"
    by (auto simp: sample_turns_def foreign_turn_def authorised_def split: sum.splits)
qed

end
