(* ===== verification/GuiJobs.thy ===== *)
theory GuiJobs
  imports GuiRules BackupRuns
begin

text \<open>
  The GUI with \<open>BackupManager\<close> behind it: what the worker thread of a job does from its start to its end, as a run of
  the steps of \<open>JobRunner\<close>, and what a job that ends as \<open>succeeded\<close> means.
\<close>

section \<open>The worker thread\<close>

text \<open>The function given to \<open>JobRunner::start\<close>.\<close>

definition run_work :: "'w gui_env \<Rightarrow> work \<Rightarrow> 'w sys \<Rightarrow> (json \<times> 'w sys) option" where
  "run_work ev w s =
     (case w of
        BackupWork options \<Rightarrow>
          map_option (\<lambda>(summary, s1). (backupSummaryResultJson summary, s1))
            (runBackup (ev_host ev) (ev_adbPath ev) (ev_version ev) options s)
      | RestoreWork options \<Rightarrow>
          (let (summary, s1) = runRestore (ev_host ev) (ev_adbPath ev) (ev_version ev) options s
           in Some (restoreSummaryResultJson summary, s1)))"

text \<open>What the two sinks do with what the work logs and reports.\<close>

fun sink_actions :: "event \<Rightarrow> action list" where
  "sink_actions (EvLog level m) = [LogLine level m]"
| "sink_actions (EvProgress step i n item) = [Progress step i n item]"
| "sink_actions _ = []"

fun sink_event :: "event \<Rightarrow> jobs \<Rightarrow> jobs" where
  "sink_event (EvLog level m) j = job_append (logLevelName level) m j"
| "sink_event (EvProgress step i n item) j = job_progress step i n item j"
| "sink_event _ j = j"

definition new_events :: "'w sys \<Rightarrow> 'w sys \<Rightarrow> event list" where
  "new_events s s' = drop (length (trace s)) (trace s')"

text \<open>The thread, with nothing else in between; \<open>clear\<close> is \<open>Process::clearCancel\<close>.  \<^term>\<open>None\<close>: the work never ends.
  The \<open>catch\<close> is not reached by this work, which handles the exceptions of its stages itself; for work in general it is the
  step \<open>WorkThrows\<close> of \<open>JobRunner\<close>.\<close>

definition job_worker :: "'w gui_env \<Rightarrow> ('w \<Rightarrow> 'w) \<Rightarrow> work \<Rightarrow> 'w gui \<Rightarrow> 'w gui option" where
  "job_worker ev clear w g =
     (case run_work ev w (gu_sys g) of
        None \<Rightarrow> None
      | Some (result, s1) \<Rightarrow>
          (let j1 = fold sink_event (new_events (gu_sys g) s1) (gu_jobs g);
               (stopped, s2) = cancelRequested (ev_host ev) s1;
               s3 = s2\<lparr>world := clear (world s2)\<rparr>;
               (now, s4) = utcTimestamp (ev_host ev) s3;
               j2 = j1\<lparr>jr_cancelRequested := False, jr_worker := NoWorker\<rparr>
           in Some (g\<lparr>gu_sys := s4,
                gu_jobs := job_finish (decided_state stopped (returned_state result)) result now j2\<rparr>)))"

section \<open>It is a run of the job runner\<close>

lemma job_run_append: "job_run j as j' \<Longrightarrow> job_run j' bs j'' \<Longrightarrow> job_run j (as @ bs) j''"
  by (induction rule: job_run.induct) (auto intro: job_run.more)

lemma sink_event_frame:
  "jr_worker (sink_event e j) = jr_worker j" "jr_cancelRequested (sink_event e j) = jr_cancelRequested j"
  by (cases e; simp add: job_append_def job_progress_def)+

lemma sinks_run:
  assumes "sinks_on (jr_worker j)"
  shows "job_run j (concat (map sink_actions es)) (fold sink_event es j)"
  using assms
proof (induction es arbitrary: j)
  case (Cons e es)
  have "job_run j (sink_actions e) (sink_event e j)"
    using Cons.prems by (cases e) (auto intro!: job_run.intros job_step.intros)
  moreover have "job_run (sink_event e j) (concat (map sink_actions es)) (fold sink_event es (sink_event e j))"
    using Cons.IH [of "sink_event e j"] Cons.prems by (simp add: sink_event_frame)
  ultimately show ?case by (simp add: job_run_append)
qed (simp add: job_run.nothing)

lemma fold_sink_frame:
  "jr_worker (fold sink_event es j) = jr_worker j" "jr_cancelRequested (fold sink_event es j) = jr_cancelRequested j"
  by (induction es arbitrary: j) (simp_all add: sink_event_frame)

text \<open>The steps after the work: the sinks go, the flag is read (after an interrupt, if it is found set), and so on.\<close>

definition ending_actions :: "json \<Rightarrow> bool \<Rightarrow> string \<Rightarrow> action list" where
  "ending_actions result stopped now = [WorkReturns result, DropSinks] @ (if stopped then [Interrupt] else []) @
     [ReadCancel, ClearCancel, Finish now]"

lemma ending_run:
  assumes "jr_worker j = Working" "\<not> jr_cancelRequested j \<or> stopped"
  shows "job_run j (ending_actions result stopped now)
    (job_finish (decided_state stopped (returned_state result)) result now (j\<lparr>jr_cancelRequested := False, jr_worker := NoWorker\<rparr>))"
  using assms
  by (cases stopped)
    (auto simp: ending_actions_def run_cons run_nil step_finish job_finish_def elim!: step_cases
      intro!: exI job_step.intros)

text \<open>What the worker does to the jobs is a run of the steps of \<open>JobRunner\<close>, so every invariant of those holds after it.\<close>

lemma job_worker_run:
  assumes "job_worker ev clear w g = Some g'" "jr_worker (gu_jobs g) = Working" "\<not> jr_cancelRequested (gu_jobs g)"
  shows "\<exists>as. job_run (gu_jobs g) as (gu_jobs g')"
proof -
  obtain result s1 where w: "run_work ev w (gu_sys g) = Some (result, s1)"
    using assms(1) by (auto simp: job_worker_def split: option.splits)
  obtain stopped s2 where c: "cancelRequested (ev_host ev) s1 = (stopped, s2)" by (metis prod.collapse)
  obtain now s4 where t: "utcTimestamp (ev_host ev) (s2\<lparr>world := clear (world s2)\<rparr>) = (now, s4)" by (metis prod.collapse)
  let ?es = "new_events (gu_sys g) s1"
  have sinks: "job_run (gu_jobs g) (concat (map sink_actions ?es)) (fold sink_event ?es (gu_jobs g))"
    by (rule sinks_run) (simp add: assms(2))
  have end_state: "gu_jobs g' = job_finish (decided_state stopped (returned_state result)) result now
      ((fold sink_event ?es (gu_jobs g))\<lparr>jr_cancelRequested := False, jr_worker := NoWorker\<rparr>)"
    using assms(1) by (auto simp: job_worker_def w c t)
  have "job_run (gu_jobs g) (concat (map sink_actions ?es) @ ending_actions result stopped now) (gu_jobs g')"
    unfolding end_state by (rule job_run_append [OF sinks ending_run]) (simp_all add: fold_sink_frame assms(2,3))
  then show ?thesis ..
qed

section \<open>What succeeded means\<close>

lemma returned_success:
  "returned_state (backupSummaryResultJson res) = ''succeeded'' \<Longrightarrow> bs_success res"
  by (auto simp: returned_state_def backupSummaryResultJson_def set_all_distinct json_simps split: if_splits)

text \<open>A job that \<open>handle\<close> has started is running with an empty log, and has not been asked to stop.\<close>

lemma started_job:
  assumes "handle ev request g = Some (response, g1)" "gu_work g1 = gu_work g @ [w]"
  shows "jr_worker (gu_jobs g1) = Working \<and> \<not> jr_cancelRequested (gu_jobs g1) \<and> jr_log (gu_jobs g1) = [] \<and> work_ok ev g w"
  using handle_effect [where ev = ev and request = request and g = g] assms
  by (auto simp: job_effect_def job_start_def split: if_splits)

text \<open>The log lines among some events, as the job's log has them.\<close>

definition log_lines :: "event list \<Rightarrow> (string \<times> string) list" where
  "log_lines es = concat (map (\<lambda>e. case e of EvLog level m \<Rightarrow> [(logLevelName level, m)] | _ \<Rightarrow> []) es)"

lemma fold_sink_log: "jr_log (fold sink_event es j) = jr_log j @ log_lines es"
proof (induction es arbitrary: j)
  case (Cons e es)
  have "jr_log (sink_event e j) = jr_log j @ log_lines [e]"
    by (cases e) (simp_all add: job_append_def job_progress_def log_lines_def)
  then show ?case using Cons.IH [of "sink_event e j"] by (simp add: log_lines_def)
qed (simp add: log_lines_def)

lemma trace_looks: "trace (snd (cancelRequested h s)) = trace s" "trace (snd (utcTimestamp h s)) = trace s"
  by (simp_all add: cancelRequested_def utcTimestamp_def time_now_def split_beta Let_def)

text \<open>The end of a backup job, whichever state it ends in.\<close>

lemma backup_worker:
  assumes "job_worker ev clear (BackupWork options) g = Some g'"
  obtains res s1 stopped where "runBackup (ev_host ev) (ev_adbPath ev) (ev_version ev) options (gu_sys g) = Some (res, s1)"
    "trace (gu_sys g') = trace s1" "jr_result (gu_jobs g') = backupSummaryResultJson res"
    "jr_state (gu_jobs g') = decided_state stopped (returned_state (backupSummaryResultJson res))"
    "jr_log (gu_jobs g') = jr_log (gu_jobs g) @ log_lines (new_events (gu_sys g) s1)"
proof -
  obtain res s1 where r: "runBackup (ev_host ev) (ev_adbPath ev) (ev_version ev) options (gu_sys g) = Some (res, s1)"
    using assms by (auto simp: job_worker_def run_work_def split: option.splits)
  obtain stopped s2 where c: "cancelRequested (ev_host ev) s1 = (stopped, s2)" by (metis prod.collapse)
  obtain now s4 where t: "utcTimestamp (ev_host ev) (s2\<lparr>world := clear (world s2)\<rparr>) = (now, s4)" by (metis prod.collapse)
  have traces: "trace s2 = trace s1" "trace s4 = trace s2"
    using trace_looks(1) [of "ev_host ev" s1] trace_looks(2) [of "ev_host ev" "s2\<lparr>world := clear (world s2)\<rparr>"] c t by simp_all
  show ?thesis
    using that [OF r, of stopped] assms traces
    by (auto simp: job_worker_def run_work_def r c t job_finish_def fold_sink_log)
qed

text \<open>C3: A backup job that the GUI shows as \<open>succeeded\<close> has been done, from the request to the snapshot the page polls:
  the request that started it named an output directory and only device paths that may be captured; the run has
  written a manifest in that directory, well formed and of selected packages only, that the summary shown as the
  job's result is true of; and the log shown is what the run logged, in order.\<close>

theorem gui_backup_succeeded:
  assumes "handle ev request g = Some (response, g1)" "gu_work g1 = gu_work g @ [BackupWork options]"
    and "job_worker ev clear (BackupWork options) g1 = Some g2" "sn_state (job_snapshot 0 (gu_jobs g2)) = ''succeeded''"
  shows "\<exists>res m. backed_up options res m \<and> sn_result (job_snapshot 0 (gu_jobs g2)) = backupSummaryResultJson res \<and>
    EvWrite (path_join (bo_outputDir options) ''manifest.json'') (toJson m) \<in> set (trace (gu_sys g2)) \<and>
    sn_newLines (job_snapshot 0 (gu_jobs g2)) = log_lines (new_events (gu_sys g1) (gu_sys g2)) \<and>
    bo_outputDir options \<noteq> [] \<and> list_all (\<lambda>p. classify p = Ok) (bo_filesystemPaths options)"
proof -
  note started = started_job [OF assms(1,2)]
  obtain res s1 stopped where run: "runBackup (ev_host ev) (ev_adbPath ev) (ev_version ev) options (gu_sys g1) = Some (res, s1)"
    "trace (gu_sys g2) = trace s1" "jr_result (gu_jobs g2) = backupSummaryResultJson res"
    "jr_state (gu_jobs g2) = decided_state stopped (returned_state (backupSummaryResultJson res))"
    "jr_log (gu_jobs g2) = jr_log (gu_jobs g1) @ log_lines (new_events (gu_sys g1) s1)"
    by (rule backup_worker [OF assms(3)])
  have "bs_success res"
    using assms(4) run(4) by (auto simp: job_snapshot_def decided_state_def intro: returned_success split: if_splits)
  from runBackup_writes [OF run(1) this] show ?thesis
    using started run by (auto simp: job_snapshot_def new_events_def)
qed

text \<open>A phone, a request for its \<open>/data/app\<close>, and the job that follows.\<close>

definition phone_env :: "unit gui_env" where
  "phone_env = sample_env\<lparr>ev_host := phone_host, ev_options := default_gui_options\<lparr>go_token := ''secret''\<rparr>\<rparr>"

definition quoted_word :: "string \<Rightarrow> string" where
  "quoted_word w = [CHR 0x22] @ w @ [CHR 0x22]"

definition backup_job_request :: Request where
  "backup_job_request =
     (parse_target ''POST'' ''/api/jobs/backup'')\<lparr>rq_headers := [(''x-abp-token'', ''secret'')],
       rq_body := ''{'' @ quoted_word ''output'' @ '':'' @ quoted_word ''b'' @ '','' @ quoted_word ''pull_paths'' @ '':['' @
         quoted_word ''/data/app'' @ ''],'' @ quoted_word ''include_personal'' @ '':false}''\<rparr>"

definition requested_options :: BackupOptions where
  "requested_options = backup_request phone_env (case json_parse (rq_body backup_job_request) of Inr j \<Rightarrow> j | Inl _ \<Rightarrow> JNull)"

lemma job_starts:
  "map_option (\<lambda>(r, g). (gu_work g, trace (gu_sys g))) (handle phone_env backup_job_request sample_gui) =
     Some ([BackupWork requested_options], [EvExec (Capture None) [''adb'', ''version'']])"
  by code_simp

lemma requested_values:
  "(\<lambda>p. (bo_outputDir p, bo_mode p, bo_exportPersonalData p, bo_serial p, nothing_to_back_up p)) requested_options =
     (''b'', ModeAuto, False, [], False)"
  by code_simp

lemma requested_fields:
  "bo_outputDir requested_options = ''b''" "bo_mode requested_options \<noteq> ModeRoot" "\<not> bo_exportPersonalData requested_options"
  "bo_serial requested_options = []" "\<not> nothing_to_back_up requested_options"
  using requested_values by simp_all

lemma phone_connected_then:
  "fst (connectionProblem phone_host \<lparr>ac_path = ''adb'', ac_serial = []\<rparr> \<lparr>world = (), trace = [EvExec (Capture None) [''adb'', ''version'']]\<rparr>) = []"
  by code_simp

theorem gui_backup_succeeded_witness:
  "\<exists>g1 g2 res m. map_option snd (handle phone_env backup_job_request sample_gui) = Some g1 \<and>
     job_worker phone_env (\<lambda>w. w) (BackupWork requested_options) g1 = Some g2 \<and> backed_up requested_options res m \<and>
     EvWrite (path_join (bo_outputDir requested_options) ''manifest.json'') (toJson m) \<in> set (trace (gu_sys g2))"
proof -
  obtain response g1 where h: "handle phone_env backup_job_request sample_gui = Some (response, g1)"
    using job_starts by auto
  have work: "gu_work g1 = gu_work sample_gui @ [BackupWork requested_options]" using h job_starts by (simp add: sample_gui_def)
  have sys: "gu_sys g1 = \<lparr>world = (), trace = [EvExec (Capture None) [''adb'', ''version'']]\<rparr>"
    using h job_starts by (cases "gu_sys g1") simp
  have env: "ev_host phone_env = phone_host" "ev_adbPath phone_env = ''adb''" by (simp_all add: phone_env_def sample_env_def)
  have "works phone_host (bo_outputDir requested_options)" using phone_works(1) by (simp add: phone_options_def requested_fields)
  then obtain res s1 where run: "runBackup phone_host ''adb'' (ev_version phone_env) requested_options (gu_sys g1) = Some (res, s1)"
      "bs_success res"
    using runBackup_works [of phone_host requested_options "''adb''" "gu_sys g1" "ev_version phone_env"]
      phone_connected_then requested_fields by (auto simp: sys)
  have calm: "\<not> fst (cancelRequested phone_host s)" for s
    by (simp add: phone_host_def quiet_host_def cancelRequested_def)
  obtain g2 where g2: "job_worker phone_env (\<lambda>w. w) (BackupWork requested_options) g1 = Some g2"
      "jr_state (gu_jobs g2) = returned_state (backupSummaryResultJson res)"
    using run(1) calm [of s1]
    by (auto simp: job_worker_def run_work_def env split_beta Let_def job_finish_def decided_state_def)
  have "returned_state (backupSummaryResultJson res) = ''succeeded''"
    using run(2) by (simp add: returned_state_def backupSummaryResultJson_def set_all_distinct json_simps)
  then have "sn_state (job_snapshot 0 (gu_jobs g2)) = ''succeeded''" using g2(2) by (simp add: job_snapshot_def)
  from gui_backup_succeeded [OF h work g2(1) this] h g2(1) show ?thesis by auto
qed

end
