(* ===== verification/GuiStart.thy ===== *)
theory GuiStart
  imports HttpServer Host
begin

text \<open>
  What \<open>GuiServer::run\<close> prepares around the server: the token of a session and the signals that end
  it.  The random bytes and the dispositions of the process are the system's.
\<close>

section \<open>The token\<close>

text \<open>What \<open>/dev/urandom\<close> gives for sixteen bytes, if it can be read, and the numbers the standard library's
  device draws otherwise.\<close>

definition randomToken :: "string option \<Rightarrow> nat list \<Rightarrow> string" where
  "randomToken urandom draws =
     (case urandom of
        Some bytes \<Rightarrow> concat (map (\<lambda>byte. hex_digits 2 (byte_val byte)) bytes)
      | None \<Rightarrow> map (\<lambda>d. ''0123456789abcdef'' ! d) (take 32 draws))"

definition token_source :: "string option \<Rightarrow> nat list \<Rightarrow> bool" where
  "token_source urandom draws \<longleftrightarrow>
     (case urandom of Some bytes \<Rightarrow> length bytes = 16 | None \<Rightarrow> length draws = 32 \<and> list_all (\<lambda>d. d < 16) draws)"

lemma length_concat_same: "(\<And>x. x \<in> set xs \<Longrightarrow> length (f x) = k) \<Longrightarrow> length (concat (map f xs)) = length xs * k"
  by (induction xs) auto

lemma randomToken_length: "token_source urandom draws \<Longrightarrow> length (randomToken urandom draws) = 32"
  by (auto simp: token_source_def randomToken_def length_concat_same [where k = 2] split: option.splits)

lemma hex_char_unreserved: "d < 16 \<Longrightarrow> uri_unreserved (''0123456789abcdef'' ! d)"
  by (drule hex_cases) (auto simp: uri_unreserved_def char_class_defs)

lemma hex_digits_unreserved: "c \<in> set (hex_digits k n) \<Longrightarrow> uri_unreserved c"
  by (drule hex_digits_class) (auto simp: uri_unreserved_def is_alnum_def is_alpha_def)

lemma randomToken_unreserved:
  assumes "token_source urandom draws"
  shows "list_all uri_unreserved (randomToken urandom draws)"
proof (cases urandom)
  case None
  then have "list_all (\<lambda>d. d < 16) draws" using assms by (simp add: token_source_def)
  then have "d \<in> set (take 32 draws) \<Longrightarrow> d < 16" for d by (auto simp: list_all_iff dest: in_set_takeD)
  with None show ?thesis by (auto simp: randomToken_def list_all_iff intro: hex_char_unreserved)
qed (auto simp: randomToken_def list_all_iff intro: hex_digits_unreserved)

lemma encode_unreserved: "list_all uri_unreserved s \<Longrightarrow> encodeUriComponent s = s"
  by (induction s) (simp_all add: encodeUriComponent_def encode_uri_char_def)

text \<open>The token needs no encoding in the page's address or in a query, and the server decodes it to itself.\<close>

lemma randomToken_in_url:
  assumes "token_source urandom draws"
  shows "encodeUriComponent (randomToken urandom draws) = randomToken urandom draws"
    and "urlDecode (randomToken urandom draws) = randomToken urandom draws"
proof -
  show same: "encodeUriComponent (randomToken urandom draws) = randomToken urandom draws"
    by (rule encode_unreserved) (rule randomToken_unreserved [OF assms])
  show "urlDecode (randomToken urandom draws) = randomToken urandom draws"
    using urlDecode_encoded [of "randomToken urandom draws"] same by simp
qed

text \<open>No two readings of sixteen bytes share a token: it has all of their 128 bits.\<close>

lemma hex_digits_two_inject: "m < 256 \<Longrightarrow> n < 256 \<Longrightarrow> hex_digits 2 m = hex_digits 2 n \<Longrightarrow> m = n"
proof -
  have inj: "hex_char a = hex_char b \<Longrightarrow> a = b" if "a < 16" "b < 16" for a b
    using that by - (drule hex_cases, drule hex_cases, auto simp: hex_char_def)
  assume *: "m < 256" "n < 256" "hex_digits 2 m = hex_digits 2 n"
  then have "m mod 16 = n mod 16" "m div 16 mod 16 = n div 16 mod 16"
    by (auto simp: numeral_2_eq_2 intro!: inj)
  moreover have "m div 16 mod 16 = m div 16" "n div 16 mod 16 = n div 16" using * by auto
  ultimately show "m = n" by (metis div_mult_mod_eq)
qed

lemma randomToken_injective:
  "length a = length b \<Longrightarrow> randomToken (Some a) draws = randomToken (Some b) draws' \<Longrightarrow> a = b"
proof (induction a b rule: list_induct2)
  case (Cons x xs y ys)
  then have "hex_digits 2 (byte_val x) = hex_digits 2 (byte_val y)" "xs = ys"
    by (auto simp: randomToken_def)
  then show ?case using hex_digits_two_inject [OF byte_val_less byte_val_less] byte_val_eq_iff by blast
qed simp

section \<open>The browser\<close>

text \<open>\<open>openInBrowser\<close> runs the opener on a thread of its own; here it runs at once, which is one of the orders.\<close>

definition browser_opener :: "bool \<Rightarrow> string" where
  "browser_opener apple = (if apple then ''open'' else ''xdg-open'')"

definition openInBrowser :: "'w host \<Rightarrow> bool \<Rightarrow> string \<Rightarrow> 'w sys \<Rightarrow> 'w sys" where
  "openInBrowser h apple url s =
     (let (result, s1) = Process_run h [browser_opener apple, url] s
      in if result_ok result then s1
         else log_debug h (''Could not open a browser automatically ('' @ browser_opener apple @ '' failed).'') s1)"

text \<open>Whatever the URL holds, it is one argument of one program.\<close>

lemma openInBrowser_runs:
  "extends (execs_only (\<lambda>io args. io = Capture None \<and> args = [browser_opener apple, url])) s (openInBrowser h apple url s)"
proof -
  let ?Q = "execs_only (\<lambda>io args. io = Capture None \<and> args = [browser_opener apple, url])"
  obtain result s1 where r: "Process_run h [browser_opener apple, url] s = (result, s1)" by (metis prod.collapse)
  have "extends ?Q s (snd (process h (Capture None) [browser_opener apple, url] s))" by (rule extends_process) simp
  then have s1: "extends ?Q s s1" using r by (simp add: Process_run_def)
  have "extends ?Q s (log_debug h m s1)" for m
    by (rule extends_trans [OF s1]) (intro extends_local_execs extends_log)
  with s1 show ?thesis by (simp add: openInBrowser_def r)
qed

section \<open>The interrupt\<close>

datatype disposition = DefaultAction | Ignored | Handled string | GuiInterrupt

text \<open>The flag of \<open>Process\<close>, the dispositions of the two signals, \<open>g_interruptTarget\<close>, and the server it
  points to.\<close>

record gui_signals =
  gs_cancel :: bool
  gs_int :: disposition
  gs_term :: disposition
  gs_target :: bool
  gs_server :: listener

definition onGuiInterrupt :: "gui_signals \<Rightarrow> gui_signals" where
  "onGuiInterrupt g =
     (let g1 = g\<lparr>gs_cancel := True\<rparr>
      in if gs_target g1 then g1\<lparr>gs_server := HttpServer_stop (gs_server g1)\<rparr> else g1)"

text \<open>The guard with the dispositions it found, and its end.\<close>

definition InterruptGuard :: "gui_signals \<Rightarrow> (disposition \<times> disposition) \<times> gui_signals" where
  "InterruptGuard g = ((gs_int g, gs_term g), g\<lparr>gs_target := True, gs_int := GuiInterrupt, gs_term := GuiInterrupt\<rparr>)"

definition InterruptGuard_end :: "disposition \<times> disposition \<Rightarrow> gui_signals \<Rightarrow> gui_signals" where
  "InterruptGuard_end previous g = g\<lparr>gs_int := fst previous, gs_term := snd previous, gs_target := False\<rparr>"

datatype gui_signal = SigInt | SigTerm

definition deliver_signal :: "gui_signal \<Rightarrow> gui_signals \<Rightarrow> gui_signals" where
  "deliver_signal sig g =
     (if (case sig of SigInt \<Rightarrow> gs_int g | SigTerm \<Rightarrow> gs_term g) = GuiInterrupt then onGuiInterrupt g else g)"

lemma deliver_keeps:
  "gs_int (deliver_signal sig g) = gs_int g" "gs_term (deliver_signal sig g) = gs_term g"
  "gs_target (deliver_signal sig g) = gs_target g"
  by (auto simp: deliver_signal_def onGuiInterrupt_def Let_def)

lemma delivered_keeps:
  "gs_int (fold deliver_signal sigs g) = gs_int g" "gs_term (fold deliver_signal sigs g) = gs_term g"
  "gs_target (fold deliver_signal sigs g) = gs_target g"
  by (induction sigs arbitrary: g) (auto simp: deliver_keeps)

text \<open>While the guard lives, the first signal asks a running job to stop and the server's loop to end, and more
  of them change nothing.\<close>

lemma delivered_guarded:
  "sigs \<noteq> [] \<Longrightarrow> gs_target g \<Longrightarrow> gs_int g = GuiInterrupt \<Longrightarrow> gs_term g = GuiInterrupt \<Longrightarrow>
   gs_cancel (fold deliver_signal sigs g) \<and> gs_server (fold deliver_signal sigs g) = HttpServer_stop (gs_server g)"
proof (induction sigs arbitrary: g)
  case (Cons sig sigs)
  have one: "deliver_signal sig g = g\<lparr>gs_cancel := True, gs_server := HttpServer_stop (gs_server g)\<rparr>"
    using Cons.prems by (cases sig) (simp_all add: deliver_signal_def onGuiInterrupt_def Let_def)
  show ?case
  proof (cases "sigs = []")
    case False
    then show ?thesis using Cons.IH [of "deliver_signal sig g"] Cons.prems by (simp add: one HttpServer_stop_def)
  qed (simp add: one)
qed simp

text \<open>Whatever arrives while it lives, the process has its own dispositions back after it, and a later signal
  no longer touches the server.\<close>

lemma guard_restores:
  assumes "InterruptGuard g = (previous, g1)"
  shows "gs_int (InterruptGuard_end previous (fold deliver_signal sigs g1)) = gs_int g"
    and "gs_term (InterruptGuard_end previous (fold deliver_signal sigs g1)) = gs_term g"
    and "\<not> gs_target (InterruptGuard_end previous (fold deliver_signal sigs g1))"
  using assms by (auto simp: InterruptGuard_def InterruptGuard_end_def)

lemma interrupt_ends_session:
  assumes "InterruptGuard g = (previous, g1)" "sigs \<noteq> []"
  shows "ln_stopping (gs_server (fold deliver_signal sigs g1)) \<and> ln_fd (gs_server (fold deliver_signal sigs g1)) = None \<and>
    gs_cancel (fold deliver_signal sigs g1)"
  using assms delivered_guarded [of sigs g1] by (auto simp: InterruptGuard_def HttpServer_stop_def)

end
