(* ===== verification/Terminal.thy ===== *)
theory Terminal
  imports Host
begin

text \<open>
  The drawing of \<open>src/src/util/Logger.cpp\<close>: what a message and a progress report put on stdout and
  stderr, with the sinks and the progress line.  \<open>Host.log\<close> and \<open>Host.progress\<close> are the calls; this is
  what they show.  Whether a stream is a terminal is the caller's choice.
\<close>

section \<open>The logger\<close>

datatype ColorSetting = ColorAuto | ColorAlways | ColorNever

datatype std_stream = StdOut | StdErr

text \<open>\<open>lg_sunk\<close> and \<open>lg_reported\<close> are what the installed sinks were called with, \<open>lg_out\<close> what was written.\<close>

record logger =
  lg_verbose :: bool
  lg_color :: ColorSetting
  lg_sink :: bool
  lg_progressSink :: bool
  lg_shown :: bool
  lg_tty :: "std_stream \<Rightarrow> bool"
  lg_out :: "(std_stream \<times> string) list"
  lg_sunk :: "(LogLevel \<times> string) list"
  lg_reported :: "(string \<times> int \<times> int \<times> string) list"

definition new_logger :: "(std_stream \<Rightarrow> bool) \<Rightarrow> logger" where
  "new_logger tty =
     \<lparr>lg_verbose = False, lg_color = ColorAuto, lg_sink = False, lg_progressSink = False, lg_shown = False,
      lg_tty = tty, lg_out = [], lg_sunk = [], lg_reported = []\<rparr>"

definition Logger_setVerbose :: "bool \<Rightarrow> logger \<Rightarrow> logger" where
  "Logger_setVerbose verbose lg = lg\<lparr>lg_verbose := verbose\<rparr>"

definition Logger_setColorEnabled :: "bool \<Rightarrow> logger \<Rightarrow> logger" where
  "Logger_setColorEnabled enabled lg = lg\<lparr>lg_color := (if enabled then ColorAlways else ColorNever)\<rparr>"

definition Logger_setSink :: "bool \<Rightarrow> logger \<Rightarrow> logger" where
  "Logger_setSink sink lg = lg\<lparr>lg_sink := sink\<rparr>"

definition Logger_setProgressSink :: "bool \<Rightarrow> logger \<Rightarrow> logger" where
  "Logger_setProgressSink sink lg = lg\<lparr>lg_progressSink := sink\<rparr>"

definition colorEnabledFor :: "std_stream \<Rightarrow> logger \<Rightarrow> bool" where
  "colorEnabledFor stream lg =
     (case lg_color lg of ColorAlways \<Rightarrow> True | ColorNever \<Rightarrow> False | ColorAuto \<Rightarrow> lg_tty lg stream)"

definition esc :: char where
  "esc = CHR 0x1B"

text \<open>Back to the start of the line, and erase it.\<close>

definition erase_line :: string where
  "erase_line = [CHR 0x0D, esc] @ ''[K''"

fun levelColor :: "LogLevel \<Rightarrow> string" where
  "levelColor Debug = [esc] @ ''[2m''"
| "levelColor Info = [esc] @ ''[0m''"
| "levelColor Warn = [esc] @ ''[33m''"
| "levelColor Error = [esc] @ ''[31m''"

definition put :: "std_stream \<Rightarrow> string \<Rightarrow> logger \<Rightarrow> logger" where
  "put stream t lg = lg\<lparr>lg_out := lg_out lg @ [(stream, t)]\<rparr>"

definition clearProgressLineLocked :: "logger \<Rightarrow> logger" where
  "clearProgressLineLocked lg = (if \<not> lg_shown lg then lg else (put StdOut erase_line lg)\<lparr>lg_shown := False\<rparr>)"

definition stream_of :: "LogLevel \<Rightarrow> std_stream" where
  "stream_of level = (if level = Warn \<or> level = Error then StdErr else StdOut)"

text \<open>The line a message becomes, without its newline.\<close>

definition log_line :: "bool \<Rightarrow> LogLevel \<Rightarrow> string \<Rightarrow> string" where
  "log_line colored level message =
     (if level = Info then message
      else if colored then levelColor level @ ''['' @ logLevelName level @ '']'' @ [esc] @ ''[0m '' @ message
      else ''['' @ logLevelName level @ ''] '' @ message)"

definition Logger_log :: "LogLevel \<Rightarrow> string \<Rightarrow> logger \<Rightarrow> logger" where
  "Logger_log level message lg =
     (if level = Debug \<and> \<not> lg_verbose lg then lg
      else
        let lg1 = (if lg_sink lg then lg\<lparr>lg_sunk := lg_sunk lg @ [(level, message)]\<rparr> else lg);
            lg2 = clearProgressLineLocked lg1;
            stream = stream_of level
        in put stream (log_line (colorEnabledFor stream lg2) level message @ [CHR 0x0A]) lg2)"

definition progress_line :: "string \<Rightarrow> int \<Rightarrow> int \<Rightarrow> string \<Rightarrow> string" where
  "progress_line step i n item =
     (let line = ''  ['' @ int_to_string i @ ''/'' @ int_to_string n @ ''] '' @ step @
            (if item \<noteq> [] \<and> i < n then '': '' @ item else [])
      in if 100 < length line then take 97 line @ ''...'' else line)"

definition Logger_progress :: "string \<Rightarrow> int \<Rightarrow> int \<Rightarrow> string \<Rightarrow> logger \<Rightarrow> logger" where
  "Logger_progress step i n item lg =
     (if lg_progressSink lg then lg\<lparr>lg_reported := lg_reported lg @ [(step, i, n, item)]\<rparr>
      else if \<not> lg_tty lg StdOut \<or> n \<le> 0 then lg
      else
        let lg1 = (put StdOut (erase_line @ progress_line step i n item) lg)\<lparr>lg_shown := (i < n)\<rparr>
        in if \<not> lg_shown lg1 then put StdOut erase_line lg1 else lg1)"

section \<open>What the terminal shows\<close>

text \<open>A terminal that shows both streams: the lines that were ended, and the line the cursor is on.  Every
  write holds whole escape sequences.\<close>

fun screen :: "string list \<times> string \<Rightarrow> string \<Rightarrow> string list \<times> string" where
  "screen sc [] = sc"
| "screen (ended, line) (c # s) =
     (if c = CHR 0x0D \<and> take 3 s = esc # ''[K'' then screen (ended, []) (drop 3 s)
      else if c = CHR 0x0A then screen (ended @ [line], []) s
      else screen (ended, line @ [c]) s)"

definition shown :: "logger \<Rightarrow> string list \<times> string" where
  "shown lg = foldl (\<lambda>sc (_, t). screen sc t) ([], []) (lg_out lg)"

definition plain_text :: "string \<Rightarrow> bool" where
  "plain_text s \<longleftrightarrow> CHR 0x0A \<notin> set s \<and> CHR 0x0D \<notin> set s"

lemma screen_plain_append: "plain_text s \<Longrightarrow> screen (ended, line) (s @ t) = screen (ended, line @ s) t"
  by (induction s arbitrary: line) (auto simp: plain_text_def)

lemma screen_erase: "screen (ended, line) (erase_line @ t) = screen (ended, []) t"
  by (simp add: erase_line_def)

lemma screen_newline: "screen (ended, line) (CHR 0x0A # t) = screen (ended @ [line], []) t"
  by simp

lemma plain_append [simp]: "plain_text (s @ t) \<longleftrightarrow> plain_text s \<and> plain_text t"
  by (auto simp: plain_text_def)

lemma plain_digits: "plain_text (int_to_string i)"
proof -
  have "plain_text (nat_to_string n)" for n
    using nat_to_string_digits [of n] by (auto simp: plain_text_def is_digit_def)
  then show ?thesis by (simp add: int_to_string_def plain_text_def)
qed

lemma plain_line: "plain_text m \<Longrightarrow> plain_text (log_line colored level m)"
  by (cases level) (simp_all add: log_line_def plain_text_def esc_def)

lemma plain_progress: "plain_text step \<Longrightarrow> plain_text item \<Longrightarrow> plain_text (progress_line step i n item)"
proof -
  assume "plain_text step" "plain_text item"
  define l where "l = ''  ['' @ int_to_string i @ ''/'' @ int_to_string n @ ''] '' @ step @
            (if item \<noteq> [] \<and> i < n then '': '' @ item else [])"
  have "plain_text l"
    using \<open>plain_text step\<close> \<open>plain_text item\<close> plain_digits [of i] plain_digits [of n]
    by (auto simp: l_def plain_text_def)
  then have "plain_text (take 97 l @ ''...'')" by (auto simp: plain_text_def dest: in_set_takeD)
  with \<open>plain_text l\<close> show ?thesis unfolding progress_line_def Let_def l_def [symmetric] by simp
qed

text \<open>The calls of a run, and the lines its messages should leave.\<close>

datatype log_call = Message LogLevel string | Report string int int string

fun make_call :: "logger \<Rightarrow> log_call \<Rightarrow> logger" where
  "make_call lg (Message level m) = Logger_log level m lg"
| "make_call lg (Report step i n item) = Logger_progress step i n item lg"

fun plain_call :: "log_call \<Rightarrow> bool" where
  "plain_call (Message level m) \<longleftrightarrow> plain_text m"
| "plain_call (Report step i n item) \<longleftrightarrow> plain_text step \<and> plain_text item"

fun line_of :: "logger \<Rightarrow> log_call \<Rightarrow> string list" where
  "line_of lg (Message level m) =
     (if level = Debug \<and> \<not> lg_verbose lg then [] else [log_line (colorEnabledFor (stream_of level) lg) level m])"
| "line_of lg (Report step i n item) = []"

definition on_terminal :: "logger \<Rightarrow> string list \<Rightarrow> bool" where
  "on_terminal lg ended \<longleftrightarrow> (\<exists>line. shown lg = (ended, line) \<and> (line = [] \<or> lg_shown lg))"

definition settings :: "logger \<Rightarrow> bool \<times> ColorSetting \<times> (std_stream \<Rightarrow> bool)" where
  "settings lg = (lg_verbose lg, lg_color lg, lg_tty lg)"

lemma shown_put [simp]: "shown (put stream t lg) = screen (shown lg) t"
  by (simp add: shown_def put_def)

lemma shown_fields [simp]:
  "shown (lg\<lparr>lg_shown := b\<rparr>) = shown lg" "shown (lg\<lparr>lg_sunk := x\<rparr>) = shown lg" "shown (lg\<lparr>lg_reported := y\<rparr>) = shown lg"
  by (simp_all add: shown_def)

lemma put_fields [simp]:
  "lg_shown (put stream t lg) = lg_shown lg" "lg_tty (put stream t lg) = lg_tty lg" "lg_color (put stream t lg) = lg_color lg"
  "lg_verbose (put stream t lg) = lg_verbose lg" "lg_progressSink (put stream t lg) = lg_progressSink lg"
  by (simp_all add: put_def)

lemma settings_put [simp]: "settings (put stream t lg) = settings lg"
  by (simp add: settings_def)

lemma screen_pieces:
  "plain_text u \<Longrightarrow> screen (ended, line) (u @ [CHR 0x0A]) = (ended @ [line @ u], [])"
  "screen (ended, line) erase_line = (ended, [])"
  "plain_text u \<Longrightarrow> screen (ended, line) (erase_line @ u) = (ended, u)"
  using screen_plain_append [of u ended line "[CHR 0x0A]"] screen_erase [of ended line "[]"] screen_erase [of ended line u]
    screen_plain_append [of u ended "[]" "[]"]
  by simp_all

lemma clear_line:
  assumes "on_terminal lg ended"
  shows "shown (clearProgressLineLocked lg) = (ended, [])" "\<not> lg_shown (clearProgressLineLocked lg)"
    "settings (clearProgressLineLocked lg) = settings lg"
  using assms by (auto simp: on_terminal_def clearProgressLineLocked_def screen_pieces settings_def)

lemma log_shown:
  assumes "on_terminal lg ended" "plain_text m"
  shows "on_terminal (Logger_log level m lg) (ended @ line_of lg (Message level m))"
    "settings (Logger_log level m lg) = settings lg"
proof -
  let ?lg1 = "if lg_sink lg then lg\<lparr>lg_sunk := lg_sunk lg @ [(level, m)]\<rparr> else lg"
  have same: "on_terminal ?lg1 ended" "settings ?lg1 = settings lg"
    using assms(1) by (simp_all add: on_terminal_def settings_def)
  note clear = clear_line [OF same(1)]
  have colored: "colorEnabledFor s (clearProgressLineLocked ?lg1) = colorEnabledFor s lg" for s
    using clear(3) same(2) unfolding settings_def colorEnabledFor_def by (simp only: prod.inject)
  show "on_terminal (Logger_log level m lg) (ended @ line_of lg (Message level m))"
    using assms clear colored plain_line [OF assms(2)]
    by (auto simp: Logger_log_def Let_def on_terminal_def screen_pieces)
  show "settings (Logger_log level m lg) = settings lg"
    using clear(3) same(2) by (simp add: Logger_log_def Let_def)
qed

lemma progress_shown:
  assumes "on_terminal lg ended" "plain_text step" "plain_text item"
  shows "on_terminal (Logger_progress step i n item lg) ended" "settings (Logger_progress step i n item lg) = settings lg"
  using assms plain_progress [OF assms(2,3)]
  by (auto simp: Logger_progress_def Let_def on_terminal_def screen_pieces settings_def)

lemma line_of_settings: "settings lg = settings lg' \<Longrightarrow> line_of lg c = line_of lg' c"
  by (cases c) (auto simp: settings_def colorEnabledFor_def split: ColorSetting.split)

lemma calls_shown:
  "on_terminal lg ended \<Longrightarrow> list_all plain_call calls \<Longrightarrow>
   on_terminal (foldl make_call lg calls) (ended @ concat (map (line_of lg) calls))"
proof (induction calls arbitrary: lg ended)
  case (Cons c calls)
  have "on_terminal (make_call lg c) (ended @ line_of lg c) \<and> settings (make_call lg c) = settings lg"
    using Cons.prems log_shown progress_shown by (cases c) auto
  then show ?case
    using Cons.IH [of "make_call lg c" "ended @ line_of lg c"] Cons.prems(2)
      line_of_settings [of "make_call lg c" lg] by (simp cong: map_cong)
qed simp


definition sample_calls :: "log_call list" where
  "sample_calls = [Report ''Pulling'' 1 3 ''a.apk'', Message Info ''Pulled a.apk'', Report ''Pulling'' 2 3 ''b.apk'',
     Message Debug ''hidden'', Message Warn ''b.apk is empty'', Report ''Pulling'' 2 3 ''c.apk'']"


text \<open>The logger's filter is the one of \<open>Host\<close>.\<close>

lemma Logger_log_filter:
  "lg_verbose lg = h_verbose h \<Longrightarrow> (log h level m s = s) = (Logger_log level m lg = lg)"
proof -
  assume v: "lg_verbose lg = h_verbose h"
  have "lg_out (Logger_log level m lg) \<noteq> lg_out lg" if "\<not> (level = Debug \<and> \<not> lg_verbose lg)"
    using that by (auto simp: Logger_log_def Let_def put_def clearProgressLineLocked_def)
  moreover have "trace (emit e s) \<noteq> trace s" for e by simp
  ultimately show ?thesis using v by (auto simp: log_def Logger_log_def dest: arg_cong [of _ _ trace] arg_cong [of _ _ lg_out])
qed

end
