(* ===== verification/Cli.thy ===== *)
theory Cli
  imports GuiServer GuiStart Terminal
begin

text \<open>
  \<open>src/src/cli/Cli.cpp\<close> and \<open>GuiServer::run\<close>: the command line, from the arguments to the exit code.
  What is written to \<open>std::cout\<close> and \<open>std::cerr\<close> is part of the trace; the terminal, the environment
  variables and the socket of the GUI are fields of \<open>cli_env\<close>.
\<close>

section \<open>Output\<close>

definition out_text :: "string \<Rightarrow> 'w sys \<Rightarrow> 'w sys" where
  "out_text t s = emit (EvOut t) s"

definition err_text :: "string \<Rightarrow> 'w sys \<Rightarrow> 'w sys" where
  "err_text t s = emit (EvErr t) s"

definition out_lines :: "string list \<Rightarrow> string" where
  "out_lines ls = concat (map (\<lambda>l. l @ [newline]) ls)"

definition quoted :: "string \<Rightarrow> string" where
  "quoted t = apostrophe @ t @ apostrophe"

definition tab :: char where
  "tab = CHR 0x09"

definition kUsage :: string where
  "kUsage = out_lines
     [''abp - ADB-based Android backup and restore tool'',
      [],
      ''Usage:'',
      ''  abp devices'',
      ''  abp info [-s SERIAL]'',
      ''  abp list-packages [-s SERIAL] [--system] [--json]'',
      ''  abp backup -o DIR [options]'',
      ''  abp restore -i DIR [options]'',
      ''  abp verify -i DIR'',
      ''  abp gui [options]'',
      ''  abp --help'',
      ''  abp -V | --version'',
      [],
      ''Global options (accepted before or after the subcommand):'',
      ''      --adb-path PATH     Use this adb executable instead of the one on PATH'',
      ''                          (or set the ABP_ADB_PATH environment variable).'',
      ''  -v, --verbose           Print debug-level progress output.'',
      ''      --no-color          Disable coloured output (also honours NO_COLOR).'',
      [],
      ''Backup options:'',
      ''  -s, --serial SERIAL     Target a specific device (see '' @ apostrophe @ ''abp devices'' @ apostrophe @ '').'',
      ''  -o, --output DIR        Directory to write the backup into (required).'',
      ''      --system            Include system apps (default: third-party apps only).'',
      ''      --no-apks           Skip extracting APK files.'',
      ''      --no-data           Skip app data (root: per-app tar; standard: legacy adb backup).'',
      ''      --no-shared         Skip /sdcard (shared storage / media) and removable SD cards.'',
      ''      --no-personal       Skip exporting contacts, SMS/MMS, call log, calendar, settings'',
      ''                          and (with root) Wi-Fi networks.'',
      ''      --only PKGS         Comma-separated package names to include, all others excluded.'',
      ''      --exclude PKGS      Comma-separated package names to exclude.'',
      ''      --root              Require root; fail if unavailable.'',
      ''      --standard          Force standard (non-root) mode even if root is available.'',
      ''      --all-files         Also copy every persistent device partition verbatim'',
      ''                          with '' @ apostrophe @ ''adb pull'' @ apostrophe @ '' (/data, /sdcard, /system, /vendor,'',
      ''                          ...). Without root, most of /data is unreadable and'',
      ''                          is captured only partially. This can be very large.'',
      ''      --pull-path PATH    Also copy one device path verbatim with '' @ apostrophe @ ''adb pull'' @ apostrophe @ ''.'',
      ''                          Repeatable. Implies the same capture as --all-files'',
      ''                          but for exactly the paths you name.'',
      ''  -y, --yes               Do not prompt for confirmation.'',
      [],
      ''GUI options:'',
      ''      --port PORT         Port to listen on (default: 8787, 0 picks a free one).'',
      ''      --host ADDR         Address to bind (default: 127.0.0.1, loopback only).'',
      ''  -d, --backup-dir DIR    Folder the '' @ [CHR 0x22] @ ''Explore backups'' @ [CHR 0x22] @ '' view starts from'',
      ''                          (default: the current directory).'',
      ''      --scan-depth N      How many levels below that folder to search (default: 2).'',
      ''      --no-browser        Do not open a browser automatically.'',
      [],
      ''Restore options:'',
      ''  -s, --serial SERIAL     Target a specific device.'',
      ''  -i, --input DIR         Backup directory to restore from (required).'',
      ''      --no-apks           Do not reinstall APKs.'',
      ''      --no-data           Do not restore app data.'',
      ''      --no-shared         Do not restore shared storage.'',
      ''      --no-personal       Do not copy contacts/calendar to the device or re-add Wi-Fi networks.'',
      ''      --only PKGS         Comma-separated package names to restore.'',
      ''      --exclude PKGS      Comma-separated package names to skip.'',
      ''  -y, --yes               Do not prompt for confirmation.'',
      [],
      ''Root mode requires either a device with an already-root adbd (e.g. a'',
      ''userdebug build, or after '' @ apostrophe @ ''adb root'' @ apostrophe @ '') or a working '' @ apostrophe @ ''su'' @ apostrophe @ '' binary reachable'',
      ''from the adb shell user (Magisk, etc). Standard mode uses only public adb'',
      ''functionality and works on any device with USB debugging enabled, but has'',
      ''real limitations -- see docs/ROOT_BACKUP.md and README.md.'']"

section \<open>What the command line is given\<close>

text \<open>
  \<open>ce_getline\<close> is \<open>std::getline(std::cin, line)\<close>, \<^term>\<open>None\<close> at the end of the input; \<open>ce_random\<close> what
  \<open>randomToken\<close> draws from; \<open>ce_sockets\<close> how the system answers the server's \<open>listen\<close>; \<open>ce_serve\<close> \<open>serveForever\<close>
  with the application of the options, until it is stopped and its job joined; \<open>ce_apple\<close> whether abp was
  built for macOS.
\<close>

record 'w cli_env =
  ce_host :: "'w host"
  ce_paths :: "'w fspaths"
  ce_version :: string
  ce_getline :: "'w \<Rightarrow> string option \<times> 'w"
  ce_adbPathVar :: "string option"
  ce_noColorVar :: "string option"
  ce_tokenVar :: "string option"
  ce_home :: "string option"
  ce_currentPath :: string
  ce_random :: "'w \<Rightarrow> (string option \<times> nat list) \<times> 'w"
  ce_sockets :: "'w \<Rightarrow> listen_calls \<times> 'w"
  ce_apple :: bool
  ce_serve :: "GuiOptions \<Rightarrow> 'w sys \<Rightarrow> 'w sys"
  ce_clearCancel :: "'w \<Rightarrow> 'w"

text \<open>The global options: \<open>AdbClient::adbPath\<close>, \<open>g_verbose\<close> and \<open>g_colorSetting\<close>.\<close>

record globals =
  cg_adbPath :: string
  cg_verbose :: bool
  cg_color :: ColorSetting

text \<open>A command ends with an exit code or an exception; \<^term>\<open>None\<close>: it never does.\<close>

type_synonym 'w outcome = "((string + int) \<times> 'w sys) option"

definition exit_with :: "int \<Rightarrow> 'w sys \<Rightarrow> 'w outcome" where
  "exit_with code s = Some (Inr code, s)"

section \<open>Parsing options\<close>

text \<open>A parse stops by throwing, or with a message and exit code 2.\<close>

datatype parse_stop = Throws string | Refuses string

definition splitCsv :: "string \<Rightarrow> string list" where
  "splitCsv val = filter (\<lambda>t. t \<noteq> []) (map trim (split val (CHR '','')))"

definition requires_value :: "string \<Rightarrow> string" where
  "requires_value arg = arg @ '' requires a value''"

text \<open>
  The loop of \<open>cmdBackup\<close>, \<open>cmdRestore\<close> and \<open>cmdGui\<close>: \<open>flag\<close> and \<open>valued\<close> are the options without
  and with a value, \<open>unknown\<close> the complaint about any other argument.  \<open>optionValue\<close> throws
  when the option is the last argument.
\<close>

fun parse_args ::
    "(string \<Rightarrow> ('o \<Rightarrow> 'o) option) \<Rightarrow> (string \<Rightarrow> (string \<Rightarrow> 'o \<Rightarrow> 'o result) option) \<Rightarrow> string \<Rightarrow>
     string list \<Rightarrow> 'o \<Rightarrow> parse_stop + 'o" where
  "parse_args flag valued unknown [] r = Inr r"
| "parse_args flag valued unknown (arg # rest) r =
     (case flag arg of
        Some f \<Rightarrow> parse_args flag valued unknown rest (f r)
      | None \<Rightarrow>
          (case valued arg of
             None \<Rightarrow> Inl (Refuses (unknown @ arg))
           | Some f \<Rightarrow>
               (case rest of
                  [] \<Rightarrow> Inl (Throws (requires_value arg))
                | v # rest' \<Rightarrow>
                    (case f v r of
                       Inl what \<Rightarrow> Inl (Throws what)
                     | Inr r' \<Rightarrow> parse_args flag valued unknown rest' r'))))"

text \<open>How a stopped parse ends the command.\<close>

definition parse_failed :: "'w host \<Rightarrow> parse_stop \<Rightarrow> 'w sys \<Rightarrow> 'w outcome" where
  "parse_failed h stop s =
     (case stop of
        Throws what \<Rightarrow> Some (Inl what, s)
      | Refuses message \<Rightarrow> exit_with 2 (log_error h message s))"

subsection \<open>Backup\<close>

record backup_args =
  ba_options :: BackupOptions
  ba_haveOutput :: bool

definition on_backup :: "(BackupOptions \<Rightarrow> BackupOptions) \<Rightarrow> backup_args \<Rightarrow> backup_args" where
  "on_backup f r = r\<lparr>ba_options := f (ba_options r)\<rparr>"

definition backup_flag :: "string \<Rightarrow> (backup_args \<Rightarrow> backup_args) option" where
  "backup_flag arg =
     (if arg = ''--system'' then Some (on_backup (\<lambda>p. p\<lparr>bo_includeSystemApps := True\<rparr>))
      else if arg = ''--no-apks'' then Some (on_backup (\<lambda>p. p\<lparr>bo_includeApks := False\<rparr>))
      else if arg = ''--no-data'' then Some (on_backup (\<lambda>p. p\<lparr>bo_includeAppData := False\<rparr>))
      else if arg = ''--no-shared'' then Some (on_backup (\<lambda>p. p\<lparr>bo_includeSharedStorage := False\<rparr>))
      else if arg = ''--no-personal'' then Some (on_backup (\<lambda>p. p\<lparr>bo_exportPersonalData := False\<rparr>))
      else if arg = ''--root'' then Some (on_backup (\<lambda>p. p\<lparr>bo_mode := ModeRoot\<rparr>))
      else if arg = ''--standard'' then Some (on_backup (\<lambda>p. p\<lparr>bo_mode := ModeStandard\<rparr>))
      else if arg = ''--all-files'' then
        Some (on_backup (\<lambda>p. p\<lparr>bo_filesystemPaths := bo_filesystemPaths p @ defaultCaptureRoots\<rparr>))
      else if arg = ''-y'' \<or> arg = ''--yes'' then Some (on_backup (\<lambda>p. p\<lparr>bo_assumeYes := True\<rparr>))
      else None)"

definition backup_valued :: "string \<Rightarrow> (string \<Rightarrow> backup_args \<Rightarrow> backup_args result) option" where
  "backup_valued arg =
     (if arg = ''-s'' \<or> arg = ''--serial'' then Some (\<lambda>v r. Inr (on_backup (\<lambda>p. p\<lparr>bo_serial := v\<rparr>) r))
      else if arg = ''-o'' \<or> arg = ''--output'' then
        Some (\<lambda>v r. Inr ((on_backup (\<lambda>p. p\<lparr>bo_outputDir := v\<rparr>) r)\<lparr>ba_haveOutput := True\<rparr>))
      else if arg = ''--only'' then Some (\<lambda>v r. Inr (on_backup (\<lambda>p. p\<lparr>bo_onlyPackages := splitCsv v\<rparr>) r))
      else if arg = ''--exclude'' then Some (\<lambda>v r. Inr (on_backup (\<lambda>p. p\<lparr>bo_excludePackages := splitCsv v\<rparr>) r))
      else if arg = ''--pull-path'' then
        Some (\<lambda>v r. Inr (on_backup (\<lambda>p. p\<lparr>bo_filesystemPaths := bo_filesystemPaths p @ [v]\<rparr>) r))
      else None)"

definition parse_backup :: "string list \<Rightarrow> parse_stop + BackupOptions" where
  "parse_backup args =
     (case parse_args backup_flag backup_valued ''Unknown backup option: '' args
             \<lparr>ba_options = default_backup_options, ba_haveOutput = False\<rparr> of
        Inl stop \<Rightarrow> Inl stop
      | Inr r \<Rightarrow>
          if \<not> ba_haveOutput r then Inl (Refuses ''backup requires -o/--output DIR'')
          else case find (\<lambda>path. classify path \<noteq> Ok) (bo_filesystemPaths (ba_options r)) of
            Some path \<Rightarrow> Inl (Refuses (explainVerdict (classify path) path))
          | None \<Rightarrow> Inr (ba_options r))"

subsection \<open>Restore\<close>

record restore_args =
  ra_options :: RestoreOptions
  ra_haveInput :: bool

definition on_restore :: "(RestoreOptions \<Rightarrow> RestoreOptions) \<Rightarrow> restore_args \<Rightarrow> restore_args" where
  "on_restore f r = r\<lparr>ra_options := f (ra_options r)\<rparr>"

definition restore_flag :: "string \<Rightarrow> (restore_args \<Rightarrow> restore_args) option" where
  "restore_flag arg =
     (if arg = ''--no-apks'' then Some (on_restore (\<lambda>p. p\<lparr>ro_includeApks := False\<rparr>))
      else if arg = ''--no-data'' then Some (on_restore (\<lambda>p. p\<lparr>ro_includeAppData := False\<rparr>))
      else if arg = ''--no-shared'' then Some (on_restore (\<lambda>p. p\<lparr>ro_includeSharedStorage := False\<rparr>))
      else if arg = ''--no-personal'' then Some (on_restore (\<lambda>p. p\<lparr>ro_includePersonalData := False\<rparr>))
      else if arg = ''-y'' \<or> arg = ''--yes'' then Some (on_restore (\<lambda>p. p\<lparr>ro_assumeYes := True\<rparr>))
      else None)"

definition restore_valued :: "string \<Rightarrow> (string \<Rightarrow> restore_args \<Rightarrow> restore_args result) option" where
  "restore_valued arg =
     (if arg = ''-s'' \<or> arg = ''--serial'' then Some (\<lambda>v r. Inr (on_restore (\<lambda>p. p\<lparr>ro_serial := v\<rparr>) r))
      else if arg = ''-i'' \<or> arg = ''--input'' then
        Some (\<lambda>v r. Inr ((on_restore (\<lambda>p. p\<lparr>ro_inputDir := v\<rparr>) r)\<lparr>ra_haveInput := True\<rparr>))
      else if arg = ''--only'' then Some (\<lambda>v r. Inr (on_restore (\<lambda>p. p\<lparr>ro_onlyPackages := splitCsv v\<rparr>) r))
      else if arg = ''--exclude'' then Some (\<lambda>v r. Inr (on_restore (\<lambda>p. p\<lparr>ro_excludePackages := splitCsv v\<rparr>) r))
      else None)"

definition parse_restore :: "string list \<Rightarrow> parse_stop + RestoreOptions" where
  "parse_restore args =
     (case parse_args restore_flag restore_valued ''Unknown restore option: '' args
             \<lparr>ra_options = default_restore_options, ra_haveInput = False\<rparr> of
        Inl stop \<Rightarrow> Inl stop
      | Inr r \<Rightarrow>
          if \<not> ra_haveInput r then Inl (Refuses ''restore requires -i/--input DIR'') else Inr (ra_options r))"

subsection \<open>Verify\<close>

fun parse_verify :: "string list \<Rightarrow> string \<Rightarrow> parse_stop + string" where
  "parse_verify [] input =
     (if input = [] then Inl (Refuses ''verify requires -i/--input DIR'') else Inr input)"
| "parse_verify (arg # rest) input =
     (if (arg = ''-i'' \<or> arg = ''--input'') \<and> rest \<noteq> [] then parse_verify (tl rest) (hd rest)
      else if input = [] \<and> arg \<noteq> [] \<and> hd arg \<noteq> CHR ''-'' then parse_verify rest arg
      else Inl (Refuses (''Unknown verify option: '' @ arg)))"

subsection \<open>The GUI\<close>

definition parseIntOption :: "string \<Rightarrow> string \<Rightarrow> int result" where
  "parseIntOption flag val =
     (case cxx_stoi val of
        Some (parsed, consumed) \<Rightarrow>
          if consumed = length val then Inr parsed
          else Inl (flag @ '' expects a number, got '' @ quoted val)
      | None \<Rightarrow> Inl (flag @ '' expects a number, got '' @ quoted val))"

definition gui_flag :: "string \<Rightarrow> (GuiOptions \<Rightarrow> GuiOptions) option" where
  "gui_flag arg = (if arg = ''--no-browser'' then Some (\<lambda>p. p\<lparr>go_openBrowser := False\<rparr>) else None)"

definition gui_valued :: "string \<Rightarrow> (string \<Rightarrow> GuiOptions \<Rightarrow> GuiOptions result) option" where
  "gui_valued arg =
     (if arg = ''--port'' then
        Some (\<lambda>v p. case parseIntOption arg v of Inl what \<Rightarrow> Inl what | Inr n \<Rightarrow> Inr (p\<lparr>go_port := n\<rparr>))
      else if arg = ''--host'' then Some (\<lambda>v p. Inr (p\<lparr>go_host := v\<rparr>))
      else if arg = ''-d'' \<or> arg = ''--backup-dir'' then Some (\<lambda>v p. Inr (p\<lparr>go_backupRoot := v\<rparr>))
      else if arg = ''--scan-depth'' then
        Some (\<lambda>v p. case parseIntOption arg v of Inl what \<Rightarrow> Inl what | Inr n \<Rightarrow> Inr (p\<lparr>go_scanDepth := n\<rparr>))
      else None)"

definition parse_gui :: "string list \<Rightarrow> parse_stop + GuiOptions" where
  "parse_gui args =
     (case parse_args gui_flag gui_valued ''Unknown gui option: '' args default_gui_options of
        Inl stop \<Rightarrow> Inl stop
      | Inr options \<Rightarrow>
          if go_port options < 0 \<or> 65535 < go_port options then Inl (Refuses ''--port must be between 0 and 65535.'')
          else if go_scanDepth options < 0 then Inl (Refuses ''--scan-depth cannot be negative.'')
          else Inr options)"

section \<open>Asking\<close>

definition confirm :: "'w cli_env \<Rightarrow> string \<Rightarrow> 'w sys \<Rightarrow> bool \<times> 'w sys" where
  "confirm ev prompt s =
     (let s1 = out_text (prompt @ '' [y/N] '') s; (got, w) = ce_getline ev (world s1); s2 = s1\<lparr>world := w\<rparr>
      in case got of
           None \<Rightarrow> (False, s2)
         | Some line \<Rightarrow> (trim line \<in> {''y'', ''Y'', ''yes'', ''Yes''}, s2))"

definition ensureAdbAvailable :: "'w host \<Rightarrow> string \<Rightarrow> 'w sys \<Rightarrow> bool \<times> 'w sys" where
  "ensureAdbAvailable h adbPath s =
     (case isAdbAvailable h adbPath s of
        (True, s1) \<Rightarrow> (True, s1)
      | (False, s1) \<Rightarrow>
          (False, log_error h (''Could not run '' @ quoted adbPath @
             ''. Install Android platform-tools and make sure adb is on your PATH.'') s1))"

text \<open>\<open>if (!assumeYes)\<close>: the announcement and the question.\<close>

definition agreed :: "'w cli_env \<Rightarrow> bool \<Rightarrow> string \<Rightarrow> 'w sys \<Rightarrow> bool \<times> 'w sys" where
  "agreed ev assumeYes announcement s =
     (if assumeYes then (True, s)
      else case confirm ev ''Continue?'' (out_text announcement s) of
        (True, s1) \<Rightarrow> (True, s1)
      | (False, s1) \<Rightarrow> (False, out_text (out_lines [''Aborted.'']) s1))"

section \<open>Reports\<close>

definition on_device :: "string \<Rightarrow> string" where
  "on_device serial = (if serial = [] then [] else '' '' @ serial)"

definition backup_announcement :: "BackupOptions \<Rightarrow> string" where
  "backup_announcement options =
     out_lines [''About to back up device'' @ on_device (bo_serial options) @ '' into '' @ quoted (bo_outputDir options) @ ''.''] @
     (if bo_filesystemPaths options = [] then []
      else out_lines
        [''This includes a verbatim '' @ quoted ''adb pull'' @ '' of: '' @
           join (collapseRedundant (bo_filesystemPaths options)) '', '',
         ''Copying whole partitions can take a long time and produce many gigabytes.''])"

definition padded_label :: "string \<Rightarrow> string" where
  "padded_label label = (let l = label @ '':'' in take 17 l @ replicate (17 - length l) (CHR '' ''))"

definition backup_report :: "BackupSummary \<Rightarrow> string" where
  "backup_report summary = out_lines
     ([[], ''Backup complete ('' @ bs_mode summary @ '' mode).'',
       ''  Packages:        '' @ int_to_string (bs_packageCount summary),
       ''  With app data:   '' @ int_to_string (bs_packagesWithData summary)] @
      (if 0 < bs_packagesCapturedByRootTar summary
       then [''    via root tar:   '' @ int_to_string (bs_packagesCapturedByRootTar summary)] else []) @
      (if 0 < bs_packagesCapturedByRunAs summary
       then [''    via run-as:     '' @ int_to_string (bs_packagesCapturedByRunAs summary) @ '' (complete per-app archives)'']
       else []) @
      (if 0 < bs_packagesCapturedByLegacyBackup summary
       then [''    via adb backup: '' @ int_to_string (bs_packagesCapturedByLegacyBackup summary) @
               '' (partial; apps may have opted out)''] else []) @
      [''  Errors:          '' @ int_to_string (bs_packagesWithErrors summary),
       ''  Shared storage:  '' @ (if bs_sharedStorageIncluded summary then ''included'' else ''skipped'')] @
      (if 0 < bs_removableStorageCount summary
       then [''  SD cards:        '' @ int_to_string (bs_removableStorageCount summary) @ '' copied''] else []) @
      map (\<lambda>item. ''  '' @ padded_label (er_label item) @
             (if er_count item < 0 then ''not exported ('' @ er_reason item @ '')'' else int_to_string (er_count item)))
        (bs_personalExports summary) @
      (if 0 < bs_filesystemCaptureCount summary
       then [''  Device paths:    '' @ int_to_string (bs_filesystemCaptureCount summary) @ '' pulled'' @
               (if 0 < bs_filesystemPartialCount summary
                then '' ('' @ int_to_string (bs_filesystemPartialCount summary) @ '' only partially readable)'' else [])]
       else []) @
      [''  Total size:      '' @ formatBytes (bs_totalBytes summary), ''  Output:          '' @ bs_outputDir summary] @
      (if bs_warnings summary = [] then []
       else [[], ''Before relying on this backup:''] @ map (\<lambda>warning. ''  - '' @ warning) (bs_warnings summary)))"

definition restore_announcement :: "RestoreOptions \<Rightarrow> string" where
  "restore_announcement options = out_lines
     [''About to restore '' @ quoted (ro_inputDir options) @ '' onto device'' @ on_device (ro_serial options) @ ''.'',
      ''This will overwrite existing app data for restored packages.'']"

definition restore_report :: "RestoreSummary \<Rightarrow> string" where
  "restore_report summary = out_lines
     ([[], ''Restore complete.'',
       ''  Packages restored: '' @ int_to_string (rs_packagesRestored summary),
       ''  Packages failed:   '' @ int_to_string (rs_packagesFailed summary)] @
      (if 0 < rs_packagesSkipped summary
       then [''  Nothing to restore: '' @ int_to_string (rs_packagesSkipped summary) @ '' (no APK and no data in the backup)'']
       else []) @
      [''  Shared storage:    '' @ (if rs_sharedStorageRestored summary then ''restored'' else ''skipped'')] @
      (if rr_contactsPath (rs_personal summary) \<noteq> []
       then [''  Contacts:          copied to '' @ rr_contactsPath (rs_personal summary) @ '' (import it in Contacts)''] else []) @
      (if rr_calendarPath (rs_personal summary) \<noteq> []
       then [''  Calendar:          copied to '' @ rr_calendarPath (rs_personal summary) @ '' (open it to import)''] else []) @
      (if 0 \<le> rr_wifiRestored (rs_personal summary)
       then [''  Wi-Fi networks:    '' @ int_to_string (rr_wifiRestored (rs_personal summary)) @ '' re-added'' @
               (if 0 < rr_wifiSkipped (rs_personal summary)
                then '', '' @ int_to_string (rr_wifiSkipped (rs_personal summary)) @ '' skipped'' else [])] else []) @
      (if 0 < rs_filesystemCapturesPresent summary
       then [''  Device paths:      '' @ int_to_string (rs_filesystemCapturesPresent summary) @
               '' present, not restored (copy by hand)''] else []))"

definition verify_report :: "string \<Rightarrow> VerifyReport \<Rightarrow> string" where
  "verify_report input report = out_lines
     ([''Checked '' @ quoted input @ '':'',
       ''  Checksums matched:   '' @ int_to_string (vr_verified report),
       ''  Present, no checksum: '' @ int_to_string (vr_unverifiable report)] @
      (if report_ok report then [''  Problems:            none'']
       else (''  Problems:            '' @ nat_to_string (length (vr_problems report))) #
              map (\<lambda>problem. ''    '' @ vp_path problem @ '': '' @ vp_problem problem) (vr_problems report)))"

definition listed_device_line :: "DeviceInfo \<Rightarrow> string" where
  "listed_device_line d = dev_serial d @ [tab] @ dev_state d @ (if dev_model d = [] then [] else [tab] @ dev_model d)"

definition info_report :: "DeviceInfo \<Rightarrow> string" where
  "info_report info = out_lines
     [''Serial:        '' @ dev_serial info, ''Manufacturer:  '' @ dev_manufacturer info, ''Model:         '' @ dev_model info,
      ''Android:       '' @ dev_androidRelease info @ '' (SDK '' @ int_to_string (dev_sdkInt info) @ '')'',
      ''Root access:   '' @ (if isRooted info then ''yes'' else ''no'') @ '' ('' @ describeRootMethod (dev_root info) @ '')'']"

definition package_line :: "PackageInfo \<Rightarrow> string" where
  "package_line pkg =
     pi_name pkg @ (if pi_isSystemApp pkg then [tab] @ ''[system]'' else []) @
     (if 1 < length (pi_apkPaths pkg)
      then [tab] @ ''('' @ nat_to_string (length (pi_apkPaths pkg)) @ '' apk files)'' else [])"

section \<open>Commands\<close>

definition cmdDevices :: "'w host \<Rightarrow> string \<Rightarrow> 'w sys \<Rightarrow> 'w outcome" where
  "cmdDevices h adbPath s =
     (case ensureAdbAvailable h adbPath s of
        (False, s1) \<Rightarrow> exit_with 1 s1
      | (True, s1) \<Rightarrow>
          (let (devices, s2) = listConnectedDevices h adbPath s1
           in exit_with 0 (out_text
                (if devices = []
                 then out_lines [''No devices found. Is USB debugging enabled and the device connected/authorized?'']
                 else out_lines (map listed_device_line devices)) s2)))"

text \<open>The client of \<open>info\<close> and \<open>list-packages\<close>, pinned, or the exit code.\<close>

definition cli_client :: "'w host \<Rightarrow> string \<Rightarrow> string \<Rightarrow> 'w sys \<Rightarrow> AdbClient option \<times> 'w sys" where
  "cli_client h adbPath serial s =
     (case ensureAdbAvailable h adbPath s of
        (False, s1) \<Rightarrow> (None, s1)
      | (True, s1) \<Rightarrow>
          (let adb = \<lparr>ac_path = adbPath, ac_serial = serial\<rparr>; (problem, s2) = connectionProblem h adb s1
           in if problem \<noteq> [] then (None, log_error h problem s2)
              else let (client, s3) = pinned h adb s2 in (Some client, s3)))"

definition cmdInfo :: "'w host \<Rightarrow> string \<Rightarrow> string \<Rightarrow> 'w sys \<Rightarrow> 'w outcome" where
  "cmdInfo h adbPath serial s =
     (case cli_client h adbPath serial s of
        (None, s1) \<Rightarrow> exit_with 1 s1
      | (Some adb, s1) \<Rightarrow> (let (info, s2) = queryDeviceInfo h adb s1 in exit_with 0 (out_text (info_report info) s2)))"

definition cmdListPackages :: "'w host \<Rightarrow> string \<Rightarrow> string \<Rightarrow> bool \<Rightarrow> bool \<Rightarrow> 'w sys \<Rightarrow> 'w outcome" where
  "cmdListPackages h adbPath serial includeSystem asJson s =
     (case cli_client h adbPath serial s of
        (None, s1) \<Rightarrow> exit_with 1 s1
      | (Some adb, s1) \<Rightarrow>
          (let (listed, s2) = listPackages h adb includeSystem s1;
               (packages, s3) = resolveApkPaths h adb listed s2
           in exit_with 0 (out_text
                (if asJson then out_lines [json_dump (push_all (map installed_item packages)) 2]
                 else out_lines (map package_line packages @ [nat_to_string (length packages) @ '' package(s).''])) s3)))"

text \<open>Installing the interrupt handler changes no state: from then on the host's cancel flag may rise.\<close>

definition log_errors :: "'w host \<Rightarrow> string list \<Rightarrow> 'w sys \<Rightarrow> 'w sys" where
  "log_errors h messages s = foldl (\<lambda>s1 message. log_error h message s1) s messages"

definition cmdBackup :: "'w cli_env \<Rightarrow> 'w host \<Rightarrow> string \<Rightarrow> string list \<Rightarrow> 'w sys \<Rightarrow> 'w outcome" where
  "cmdBackup ev h adbPath args s =
     (case parse_backup args of
        Inl stop \<Rightarrow> parse_failed h stop s
      | Inr options \<Rightarrow>
          (case ensureAdbAvailable h adbPath s of
             (False, s1) \<Rightarrow> exit_with 1 s1
           | (True, s1) \<Rightarrow>
               (case agreed ev (bo_assumeYes options) (backup_announcement options) s1 of
                  (False, s2) \<Rightarrow> exit_with 1 s2
                | (True, s2) \<Rightarrow>
                    (case runBackup h adbPath (ce_version ev) options s2 of
                       None \<Rightarrow> None
                     | Some (summary, s3) \<Rightarrow>
                         (let s4 = log_errors h (bs_messages summary) s3
                          in if \<not> bs_success summary then exit_with 1 s4
                             else exit_with 0 (out_text (backup_report summary) s4))))))"

definition cmdRestore :: "'w cli_env \<Rightarrow> 'w host \<Rightarrow> string \<Rightarrow> string list \<Rightarrow> 'w sys \<Rightarrow> 'w outcome" where
  "cmdRestore ev h adbPath args s =
     (case parse_restore args of
        Inl stop \<Rightarrow> parse_failed h stop s
      | Inr options \<Rightarrow>
          (case ensureAdbAvailable h adbPath s of
             (False, s1) \<Rightarrow> exit_with 1 s1
           | (True, s1) \<Rightarrow>
               (case agreed ev (ro_assumeYes options) (restore_announcement options) s1 of
                  (False, s2) \<Rightarrow> exit_with 1 s2
                | (True, s2) \<Rightarrow>
                    (let (summary, s3) = runRestore h adbPath (ce_version ev) options s2;
                         s4 = log_errors h (rs_messages summary) s3
                     in if \<not> rs_success summary then exit_with 1 s4
                        else exit_with (if 0 < rs_packagesFailed summary then 1 else 0)
                               (out_text (restore_report summary) s4)))))"

definition cmdVerify :: "'w cli_env \<Rightarrow> 'w host \<Rightarrow> string list \<Rightarrow> 'w sys \<Rightarrow> 'w outcome" where
  "cmdVerify ev h args s =
     (case parse_verify args [] of
        Inl stop \<Rightarrow> parse_failed h stop s
      | Inr input \<Rightarrow>
          (case verify h (ce_paths ev) input s of
             Inl what \<Rightarrow> Some (Inl what, s)
           | Inr report \<Rightarrow>
               exit_with (if report_ok report then 0 else 1) (out_text (verify_report input report) s)))"

subsection \<open>The GUI\<close>

definition gui_url :: "GuiOptions \<Rightarrow> int \<Rightarrow> string" where
  "gui_url options port =
     ''http://'' @ (if go_host options = ''0.0.0.0'' then ''127.0.0.1'' else go_host options) @ '':'' @ int_to_string port @
     ''/?token='' @ go_token options"

definition gui_settled :: "'w cli_env \<Rightarrow> GuiOptions \<Rightarrow> 'w sys \<Rightarrow> GuiOptions \<times> 'w sys" where
  "gui_settled ev options s =
     (let (token, s1) = (if go_token options \<noteq> [] then (go_token options, s)
                         else let ((urandom, draws), w) = ce_random ev (world s) in (randomToken urandom draws, s\<lparr>world := w\<rparr>));
          root = (if go_backupRoot options = [] then ce_currentPath ev else go_backupRoot options)
      in (options\<lparr>go_token := token, go_backupRoot := expandUserPath (ce_home ev) root\<rparr>, s1))"

definition GuiServer_run :: "'w cli_env \<Rightarrow> 'w host \<Rightarrow> GuiOptions \<Rightarrow> 'w sys \<Rightarrow> 'w outcome" where
  "GuiServer_run ev h optionsIn s =
     (let (options, s1) = gui_settled ev optionsIn s;
          (calls, w) = ce_sockets ev (world s1);
          s2 = s1\<lparr>world := w\<rparr>
      in case HttpServer_listen calls (go_host options) (go_port options) new_listener of
           Inl what \<Rightarrow>
             (let s3 = log_error h what s2
              in exit_with 1
                   (if contains_sub ''Could not bind'' what \<and> go_port options \<noteq> 0 then
                      log_error h ''Is another abp gui already running? Try a different --port, or --port 0 to pick a free one.'' s3
                    else s3))
         | Inr server \<Rightarrow>
             (let url = gui_url options (ln_port server);
                  s3 = out_text (out_lines [''abp '' @ ce_version ev @ '' web GUI'', ''  Serving:      '' @ url,
                         ''  Backup root:  '' @ go_backupRoot options]) s2;
                  s4 = (if go_host options \<noteq> ''127.0.0.1'' \<and> go_host options \<noteq> ''localhost'' then
                          log_warn h (''Listening on '' @ go_host options @
                            '': anyone who can reach this port and knows the token can back up and restore the connected device.'') s3
                        else s3);
                  s5 = out_text (out_lines [''  Press Ctrl-C to stop.'', []]) s4;
                  s6 = (if go_openBrowser options then openInBrowser h (ce_apple ev) url s5 else s5);
                  s7 = ce_serve ev options s6;
                  s8 = s7\<lparr>world := ce_clearCancel ev (world s7)\<rparr>
              in exit_with 0 (out_text (out_lines [''GUI stopped.'']) s8)))"

definition cmdGui :: "'w cli_env \<Rightarrow> 'w host \<Rightarrow> string \<Rightarrow> string list \<Rightarrow> 'w sys \<Rightarrow> 'w outcome" where
  "cmdGui ev h adbPath args s =
     (case parse_gui args of
        Inl stop \<Rightarrow> parse_failed h stop s
      | Inr parsed \<Rightarrow>
          (let options = (case ce_tokenVar ev of None \<Rightarrow> parsed | Some token \<Rightarrow> parsed\<lparr>go_token := token\<rparr>);
               (ok, s1) = isAdbAvailable h adbPath s;
               s2 = (if ok then s1
                     else log_warn h (''Could not run '' @ quoted adbPath @
                       ''. The GUI will start, but backing up and restoring needs adb on your PATH.'') s1)
           in GuiServer_run ev h options s2))"

section \<open>The entry point\<close>

text \<open>The global options are taken out wherever they stand.\<close>

fun extract_globals :: "string list \<Rightarrow> globals \<Rightarrow> (string + globals \<times> string list)" where
  "extract_globals [] g = Inr (g, [])"
| "extract_globals (arg # rest) g =
     (if arg = ''--adb-path'' then
        (case rest of
           [] \<Rightarrow> Inl ''--adb-path requires a value''
         | path # rest' \<Rightarrow> extract_globals rest' (g\<lparr>cg_adbPath := path\<rparr>))
      else if arg = ''--no-color'' then extract_globals rest (g\<lparr>cg_color := ColorNever\<rparr>)
      else if arg = ''-v'' \<or> arg = ''--verbose'' then extract_globals rest (g\<lparr>cg_verbose := True\<rparr>)
      else case extract_globals rest g of
        Inl what \<Rightarrow> Inl what
      | Inr (g1, args) \<Rightarrow> Inr (g1, arg # args))"

definition initial_globals :: "'w cli_env \<Rightarrow> globals" where
  "initial_globals ev =
     \<lparr>cg_adbPath = (case ce_adbPathVar ev of None \<Rightarrow> ''adb'' | Some path \<Rightarrow> path), cg_verbose = False,
      cg_color = (case ce_noColorVar ev of None \<Rightarrow> ColorAuto | Some v \<Rightarrow> if v \<noteq> [] then ColorNever else ColorAuto)\<rparr>"

fun devices_args :: "string list \<Rightarrow> string option" where
  "devices_args [] = None"
| "devices_args (a # rest) = (if a = ''-l'' then devices_args rest else Some (''Unknown devices option: '' @ a))"

definition is_serial_option :: "string \<Rightarrow> bool" where
  "is_serial_option a \<longleftrightarrow> a = ''-s'' \<or> a = ''--serial''"

text \<open>The serial of \<open>info\<close> and \<open>list-packages\<close>: every \<open>-s\<close> is looked at, also one that is itself a value.\<close>

fun find_serial :: "string list \<Rightarrow> string \<Rightarrow> string + string" where
  "find_serial [] serial = Inr serial"
| "find_serial (a # rest) serial =
     (if \<not> is_serial_option a then find_serial rest serial
      else case rest of [] \<Rightarrow> Inl (requires_value a) | v # _ \<Rightarrow> find_serial rest v)"

fun info_args :: "string list \<Rightarrow> string option" where
  "info_args [] = None"
| "info_args (a # rest) =
     (if is_serial_option a then (case rest of [] \<Rightarrow> None | _ # rest' \<Rightarrow> info_args rest') else Some (''Unknown info option: '' @ a))"

fun list_args :: "string list \<Rightarrow> bool \<Rightarrow> bool \<Rightarrow> string + (bool \<times> bool)" where
  "list_args [] includeSystem asJson = Inr (includeSystem, asJson)"
| "list_args (a # rest) includeSystem asJson =
     (if a = ''--system'' then list_args rest True asJson
      else if a = ''--json'' then list_args rest includeSystem True
      else if is_serial_option a then
        (case rest of [] \<Rightarrow> Inr (includeSystem, asJson) | _ # rest' \<Rightarrow> list_args rest' includeSystem asJson)
      else Inl (''Unknown list-packages option: '' @ a))"

definition refuse :: "'w host \<Rightarrow> string \<Rightarrow> 'w sys \<Rightarrow> 'w outcome" where
  "refuse h message s = exit_with 2 (log_error h message s)"

definition run_command :: "'w cli_env \<Rightarrow> 'w host \<Rightarrow> string \<Rightarrow> string \<Rightarrow> string list \<Rightarrow> 'w sys \<Rightarrow> 'w outcome" where
  "run_command ev h adbPath command rest s =
     (if command = ''devices'' then
        (case devices_args rest of Some message \<Rightarrow> refuse h message s | None \<Rightarrow> cmdDevices h adbPath s)
      else
        case (if command = ''info'' \<or> command = ''list-packages'' then find_serial rest [] else Inr []) of
          Inl message \<Rightarrow> refuse h message s
        | Inr serial \<Rightarrow>
            (if command = ''info'' then
               (case info_args rest of Some message \<Rightarrow> refuse h message s | None \<Rightarrow> cmdInfo h adbPath serial s)
             else if command = ''list-packages'' then
               (case list_args rest False False of
                  Inl message \<Rightarrow> refuse h message s
                | Inr (includeSystem, asJson) \<Rightarrow> cmdListPackages h adbPath serial includeSystem asJson s)
             else if command = ''backup'' then cmdBackup ev h adbPath rest s
             else if command = ''restore'' then cmdRestore ev h adbPath rest s
             else if command = ''verify'' then cmdVerify ev h rest s
             else if command = ''gui'' then cmdGui ev h adbPath rest s
             else exit_with 2 (err_text kUsage (log_error h (''Unknown command: '' @ command) s))))"

definition Cli_run :: "'w cli_env \<Rightarrow> string list \<Rightarrow> 'w sys \<Rightarrow> (int \<times> 'w sys) option" where
  "Cli_run ev argv s =
     (case extract_globals argv (initial_globals ev) of
        Inl message \<Rightarrow> Some (2, log_error (ce_host ev) message s)
      | Inr (g, args) \<Rightarrow>
          (let h = (ce_host ev)\<lparr>h_verbose := cg_verbose g\<rparr>
           in case args of
                [] \<Rightarrow> Some (1, err_text kUsage s)
              | command # rest \<Rightarrow>
                  if command = ''-h'' \<or> command = ''--help'' \<or> command = ''help'' then Some (0, out_text kUsage s)
                  else if command = ''-V'' \<or> command = ''--version'' \<or> command = ''version'' then
                    Some (0, out_text (out_lines [''abp '' @ ce_version ev]) s)
                  else case run_command ev h (cg_adbPath g) command rest s of
                    None \<Rightarrow> None
                  | Some (Inr code, s1) \<Rightarrow> Some (code, s1)
                  | Some (Inl what, s1) \<Rightarrow> Some (2, log_error h what s1)))"

text \<open>\<open>main\<close>: the first argument is the program's name.\<close>

definition abp_main :: "'w cli_env \<Rightarrow> string list \<Rightarrow> 'w sys \<Rightarrow> (int \<times> 'w sys) option" where
  "abp_main ev argv s = Cli_run ev (drop 1 argv) s"

end
