(* ===== verification/CliRules.thy ===== *)
theory CliRules
  imports Cli BackupRuns
begin

text \<open>
  What the command line promises: global options may stand anywhere, every set of options can be
  asked for, a usage error touches nothing, nothing is run without consent, and exit code 0 of a
  backup means a backup.
\<close>

section \<open>Global options\<close>

text \<open>The arguments as a user thinks of them, and how they are spelled.\<close>

datatype cli_word = Plain string | Verbose string | NoColor | AdbPath string

fun cli_word_ok :: "cli_word \<Rightarrow> bool" where
  "cli_word_ok (Plain a) \<longleftrightarrow> a \<notin> {''--adb-path'', ''--no-color'', ''-v'', ''--verbose''}"
| "cli_word_ok (Verbose a) \<longleftrightarrow> a \<in> {''-v'', ''--verbose''}"
| "cli_word_ok _ \<longleftrightarrow> True"

fun spell_word :: "cli_word \<Rightarrow> string list" where
  "spell_word (Plain a) = [a]"
| "spell_word (Verbose a) = [a]"
| "spell_word NoColor = [''--no-color'']"
| "spell_word (AdbPath p) = [''--adb-path'', p]"

fun set_global :: "globals \<Rightarrow> cli_word \<Rightarrow> globals" where
  "set_global g (Plain a) = g"
| "set_global g (Verbose a) = g\<lparr>cg_verbose := True\<rparr>"
| "set_global g NoColor = g\<lparr>cg_color := ColorNever\<rparr>"
| "set_global g (AdbPath p) = g\<lparr>cg_adbPath := p\<rparr>"

fun plain_word :: "cli_word \<Rightarrow> string list" where
  "plain_word (Plain a) = [a]"
| "plain_word _ = []"

definition spell :: "cli_word list \<Rightarrow> string list" where
  "spell ws = concat (map spell_word ws)"

lemma spell_Cons: "spell (w # ws) = spell_word w @ spell ws"
  by (simp add: spell_def)

lemma extract_spelled:
  "list_all cli_word_ok ws \<Longrightarrow>
   extract_globals (spell ws) g = Inr (foldl set_global g ws, concat (map plain_word ws))"
proof (induction ws arbitrary: g)
  case Nil
  then show ?case by (simp add: spell_def)
next
  case (Cons w ws)
  then have IH: "extract_globals (spell ws) g' = Inr (foldl set_global g' ws, concat (map plain_word ws))" for g' by simp
  from Cons.prems have ok: "cli_word_ok w" by simp
  show ?case
  proof (cases w)
    case (Verbose a)
    with ok IH show ?thesis by (auto simp: spell_Cons)
  qed (use ok IH in \<open>simp_all add: spell_Cons\<close>)
qed

lemma spelled_extract:
  "extract_globals args g = Inr (g', rest) \<Longrightarrow> \<exists>ws. args = spell ws \<and> list_all cli_word_ok ws"
proof (induction args g arbitrary: g' rest rule: extract_globals.induct)
  case (1 g)
  have "[] = spell [] \<and> list_all cli_word_ok []" by (simp add: spell_def)
  then show ?case by blast
next
  case (2 arg args g)
  consider (path) "arg = ''--adb-path''" | (color) "arg = ''--no-color''" | (verbose) "arg = ''-v'' \<or> arg = ''--verbose''"
    | (plain) "cli_word_ok (Plain arg)"
    by auto
  then show ?case
  proof cases
    case path
    with "2.prems" obtain p args' where a: "args = p # args'" "extract_globals args' (g\<lparr>cg_adbPath := p\<rparr>) = Inr (g', rest)"
      by (auto split: list.splits)
    obtain ws where "args' = spell ws" "list_all cli_word_ok ws" using "2.IH"(1) [OF path a] by blast
    then have "arg # args = spell (AdbPath p # ws) \<and> list_all cli_word_ok (AdbPath p # ws)"
      using path a(1) by (simp add: spell_Cons)
    then show ?thesis by blast
  next
    case color
    with "2.prems" have a: "extract_globals args (g\<lparr>cg_color := ColorNever\<rparr>) = Inr (g', rest)" by simp
    obtain ws where "args = spell ws" "list_all cli_word_ok ws" using "2.IH"(2) [OF _ color a] color by auto
    then have "arg # args = spell (NoColor # ws) \<and> list_all cli_word_ok (NoColor # ws)" using color by (simp add: spell_Cons)
    then show ?thesis by blast
  next
    case verbose
    then have n: "arg \<noteq> ''--adb-path''" "arg \<noteq> ''--no-color''" by auto
    with verbose "2.prems" have a: "extract_globals args (g\<lparr>cg_verbose := True\<rparr>) = Inr (g', rest)" by simp
    obtain ws where "args = spell ws" "list_all cli_word_ok ws" using "2.IH"(3) [OF n verbose a] by blast
    then have "arg # args = spell (Verbose arg # ws) \<and> list_all cli_word_ok (Verbose arg # ws)"
      using verbose by (auto simp: spell_Cons)
    then show ?thesis by blast
  next
    case plain
    then have n: "arg \<noteq> ''--adb-path''" "arg \<noteq> ''--no-color''" "\<not> (arg = ''-v'' \<or> arg = ''--verbose'')" by auto
    with "2.prems" obtain g1 as where a: "extract_globals args g = Inr (g1, as)" by (auto split: sum.splits)
    obtain ws where "args = spell ws" "list_all cli_word_ok ws" using "2.IH"(4) [OF n a] by blast
    then have "arg # args = spell (Plain arg # ws) \<and> list_all cli_word_ok (Plain arg # ws)"
      using plain by (simp add: spell_Cons)
    then show ?thesis by blast
  qed
qed

text \<open>The global options may stand anywhere among the arguments: what is taken out of a command line is
  exactly what it spells, the commands see the other words in their order, the last \<open>--adb-path\<close> counts,
  and a command line is refused only when it spells nothing, its last word being \<open>--adb-path\<close>.\<close>

theorem extract_globals_spelled:
  "(extract_globals args g = Inr (g', rest)) =
   (\<exists>ws. list_all cli_word_ok ws \<and> args = spell ws \<and> g' = foldl set_global g ws \<and> rest = concat (map plain_word ws))"
proof
  assume r: "extract_globals args g = Inr (g', rest)"
  obtain ws where ws: "args = spell ws" "list_all cli_word_ok ws" using spelled_extract [OF r] by blast
  then have "g' = foldl set_global g ws \<and> rest = concat (map plain_word ws)"
    using r extract_spelled [OF ws(2), of g] by simp
  with ws show "\<exists>ws. list_all cli_word_ok ws \<and> args = spell ws \<and> g' = foldl set_global g ws \<and> rest = concat (map plain_word ws)"
    by blast
qed (auto simp: extract_spelled)

section \<open>Every set of options can be asked for\<close>

definition flag_if :: "bool \<Rightarrow> string \<Rightarrow> string list" where
  "flag_if b f = (if b then [f] else [])"

definition csv_option :: "string \<Rightarrow> string list \<Rightarrow> string list" where
  "csv_option f names = (if names = [] then [] else [f, join names '',''])"

definition print_backup :: "BackupOptions \<Rightarrow> string list" where
  "print_backup p =
     [''-s'', bo_serial p, ''-o'', bo_outputDir p] @ flag_if (bo_includeSystemApps p) ''--system'' @
     flag_if (\<not> bo_includeApks p) ''--no-apks'' @ flag_if (\<not> bo_includeAppData p) ''--no-data'' @
     flag_if (\<not> bo_includeSharedStorage p) ''--no-shared'' @ flag_if (\<not> bo_exportPersonalData p) ''--no-personal'' @
     csv_option ''--only'' (bo_onlyPackages p) @ csv_option ''--exclude'' (bo_excludePackages p) @
     flag_if (bo_mode p = ModeRoot) ''--root'' @ flag_if (bo_mode p = ModeStandard) ''--standard'' @
     concat (map (\<lambda>path. [''--pull-path'', path]) (bo_filesystemPaths p)) @ flag_if (bo_assumeYes p) ''--yes''"

definition print_restore :: "RestoreOptions \<Rightarrow> string list" where
  "print_restore p =
     [''-s'', ro_serial p, ''-i'', ro_inputDir p] @ flag_if (\<not> ro_includeApks p) ''--no-apks'' @
     flag_if (\<not> ro_includeAppData p) ''--no-data'' @ flag_if (\<not> ro_includeSharedStorage p) ''--no-shared'' @
     flag_if (\<not> ro_includePersonalData p) ''--no-personal'' @ csv_option ''--only'' (ro_onlyPackages p) @
     csv_option ''--exclude'' (ro_excludePackages p) @ flag_if (ro_assumeYes p) ''--yes''"

text \<open>Names that survive the comma-separated form.\<close>

definition csv_name :: "string \<Rightarrow> bool" where
  "csv_name n \<longleftrightarrow> n \<noteq> [] \<and> trim n = n \<and> CHR '','' \<notin> set n"

lemma splitCsv_join: "names \<noteq> [] \<Longrightarrow> list_all csv_name names \<Longrightarrow> splitCsv (join names '','') = names"
proof -
  assume n: "names \<noteq> []" "list_all csv_name names"
  then have "split (join names '','') (CHR '','') = names"
    by (intro split_join) (auto simp: csv_name_def list_all_iff)
  moreover have "map trim names = names" "filter (\<lambda>t. t \<noteq> []) names = names"
    using n(2) by (auto simp: csv_name_def list_all_iff intro: map_idI)
  ultimately show ?thesis by (simp add: splitCsv_def)
qed

abbreviation "parse_b \<equiv> parse_args backup_flag backup_valued ''Unknown backup option: ''"

lemma csv_step:
  assumes "flag f = None" "valued f = Some g" "\<And>v x. g v x = Inr (h (splitCsv v) x)" "list_all csv_name names"
  shows "parse_args flag valued u (csv_option f names @ rest) r =
    parse_args flag valued u rest (if names = [] then r else h names r)"
  using assms splitCsv_join [of names] by (simp add: csv_option_def)

abbreviation "parse_r \<equiv> parse_args restore_flag restore_valued ''Unknown restore option: ''"

lemmas backup_step_defs = flag_if_def csv_option_def backup_flag_def backup_valued_def on_backup_def
lemmas restore_step_defs = flag_if_def csv_option_def restore_flag_def restore_valued_def on_restore_def

lemma backup_flag_steps:
  "parse_b (flag_if b ''--system'' @ rest) \<lparr>ba_options = q, ba_haveOutput = c\<rparr> =
     parse_b rest \<lparr>ba_options = q\<lparr>bo_includeSystemApps := b \<or> bo_includeSystemApps q\<rparr>, ba_haveOutput = c\<rparr>"
  "parse_b (flag_if b ''--no-apks'' @ rest) \<lparr>ba_options = q, ba_haveOutput = c\<rparr> =
     parse_b rest \<lparr>ba_options = q\<lparr>bo_includeApks := \<not> b \<and> bo_includeApks q\<rparr>, ba_haveOutput = c\<rparr>"
  "parse_b (flag_if b ''--no-data'' @ rest) \<lparr>ba_options = q, ba_haveOutput = c\<rparr> =
     parse_b rest \<lparr>ba_options = q\<lparr>bo_includeAppData := \<not> b \<and> bo_includeAppData q\<rparr>, ba_haveOutput = c\<rparr>"
  "parse_b (flag_if b ''--no-shared'' @ rest) \<lparr>ba_options = q, ba_haveOutput = c\<rparr> =
     parse_b rest \<lparr>ba_options = q\<lparr>bo_includeSharedStorage := \<not> b \<and> bo_includeSharedStorage q\<rparr>, ba_haveOutput = c\<rparr>"
  "parse_b (flag_if b ''--no-personal'' @ rest) \<lparr>ba_options = q, ba_haveOutput = c\<rparr> =
     parse_b rest \<lparr>ba_options = q\<lparr>bo_exportPersonalData := \<not> b \<and> bo_exportPersonalData q\<rparr>, ba_haveOutput = c\<rparr>"
  "parse_b (flag_if b ''--yes'' @ rest) \<lparr>ba_options = q, ba_haveOutput = c\<rparr> =
     parse_b rest \<lparr>ba_options = q\<lparr>bo_assumeYes := b \<or> bo_assumeYes q\<rparr>, ba_haveOutput = c\<rparr>"
  "parse_b (flag_if b ''--root'' @ rest) \<lparr>ba_options = q, ba_haveOutput = c\<rparr> =
     parse_b rest \<lparr>ba_options = q\<lparr>bo_mode := (if b then ModeRoot else bo_mode q)\<rparr>, ba_haveOutput = c\<rparr>"
  "parse_b (flag_if b ''--standard'' @ rest) \<lparr>ba_options = q, ba_haveOutput = c\<rparr> =
     parse_b rest \<lparr>ba_options = q\<lparr>bo_mode := (if b then ModeStandard else bo_mode q)\<rparr>, ba_haveOutput = c\<rparr>"
  by (cases b; simp add: backup_step_defs)+

lemma backup_csv_steps:
  "list_all csv_name names \<Longrightarrow> parse_b (csv_option ''--only'' names @ rest) \<lparr>ba_options = q, ba_haveOutput = c\<rparr> =
     parse_b rest \<lparr>ba_options = q\<lparr>bo_onlyPackages := (if names = [] then bo_onlyPackages q else names)\<rparr>, ba_haveOutput = c\<rparr>"
  "list_all csv_name names \<Longrightarrow> parse_b (csv_option ''--exclude'' names @ rest) \<lparr>ba_options = q, ba_haveOutput = c\<rparr> =
     parse_b rest \<lparr>ba_options = q\<lparr>bo_excludePackages := (if names = [] then bo_excludePackages q else names)\<rparr>, ba_haveOutput = c\<rparr>"
  by (simp_all add: backup_step_defs splitCsv_join)

lemma backup_start_step:
  "parse_b (''-s'' # serial # ''-o'' # dir # rest) \<lparr>ba_options = q, ba_haveOutput = c\<rparr> =
   parse_b rest \<lparr>ba_options = q\<lparr>bo_serial := serial, bo_outputDir := dir\<rparr>, ba_haveOutput = True\<rparr>"
  by (simp add: backup_step_defs)

lemma backup_paths_step:
  "parse_b (concat (map (\<lambda>path. [''--pull-path'', path]) ps) @ rest) \<lparr>ba_options = q, ba_haveOutput = c\<rparr> =
   parse_b rest \<lparr>ba_options = q\<lparr>bo_filesystemPaths := bo_filesystemPaths q @ ps\<rparr>, ba_haveOutput = c\<rparr>"
  by (induction ps arbitrary: q) (simp_all add: backup_step_defs)

lemma parse_print_backup:
  assumes "list_all csv_name (bo_onlyPackages p)" "list_all csv_name (bo_excludePackages p)"
  shows "parse_b (print_backup p @ []) \<lparr>ba_options = default_backup_options, ba_haveOutput = False\<rparr> =
    Inr \<lparr>ba_options = p, ba_haveOutput = True\<rparr>"
  using assms unfolding print_backup_def append_assoc append_Cons append_Nil
  by (simp only: backup_start_step backup_flag_steps backup_csv_steps backup_paths_step parse_args.simps(1))
    (cases p; cases "bo_mode p"; simp add: default_backup_options_def)

lemma restore_steps:
  "parse_r (flag_if b ''--no-apks'' @ rest) \<lparr>ra_options = q, ra_haveInput = c\<rparr> =
     parse_r rest \<lparr>ra_options = q\<lparr>ro_includeApks := \<not> b \<and> ro_includeApks q\<rparr>, ra_haveInput = c\<rparr>"
  "parse_r (flag_if b ''--no-data'' @ rest) \<lparr>ra_options = q, ra_haveInput = c\<rparr> =
     parse_r rest \<lparr>ra_options = q\<lparr>ro_includeAppData := \<not> b \<and> ro_includeAppData q\<rparr>, ra_haveInput = c\<rparr>"
  "parse_r (flag_if b ''--no-shared'' @ rest) \<lparr>ra_options = q, ra_haveInput = c\<rparr> =
     parse_r rest \<lparr>ra_options = q\<lparr>ro_includeSharedStorage := \<not> b \<and> ro_includeSharedStorage q\<rparr>, ra_haveInput = c\<rparr>"
  "parse_r (flag_if b ''--no-personal'' @ rest) \<lparr>ra_options = q, ra_haveInput = c\<rparr> =
     parse_r rest \<lparr>ra_options = q\<lparr>ro_includePersonalData := \<not> b \<and> ro_includePersonalData q\<rparr>, ra_haveInput = c\<rparr>"
  "parse_r (flag_if b ''--yes'' @ rest) \<lparr>ra_options = q, ra_haveInput = c\<rparr> =
     parse_r rest \<lparr>ra_options = q\<lparr>ro_assumeYes := b \<or> ro_assumeYes q\<rparr>, ra_haveInput = c\<rparr>"
  by (cases b; simp add: restore_step_defs)+

lemma restore_csv_steps:
  "list_all csv_name names \<Longrightarrow> parse_r (csv_option ''--only'' names @ rest) \<lparr>ra_options = q, ra_haveInput = c\<rparr> =
     parse_r rest \<lparr>ra_options = q\<lparr>ro_onlyPackages := (if names = [] then ro_onlyPackages q else names)\<rparr>, ra_haveInput = c\<rparr>"
  "list_all csv_name names \<Longrightarrow> parse_r (csv_option ''--exclude'' names @ rest) \<lparr>ra_options = q, ra_haveInput = c\<rparr> =
     parse_r rest \<lparr>ra_options = q\<lparr>ro_excludePackages := (if names = [] then ro_excludePackages q else names)\<rparr>, ra_haveInput = c\<rparr>"
  by (simp_all add: restore_step_defs splitCsv_join)

lemma restore_start_step:
  "parse_r (''-s'' # serial # ''-i'' # dir # rest) \<lparr>ra_options = q, ra_haveInput = c\<rparr> =
   parse_r rest \<lparr>ra_options = q\<lparr>ro_serial := serial, ro_inputDir := dir\<rparr>, ra_haveInput = True\<rparr>"
  by (simp add: restore_step_defs)

lemma parse_print_restore:
  assumes "list_all csv_name (ro_onlyPackages p)" "list_all csv_name (ro_excludePackages p)"
  shows "parse_r (print_restore p @ []) \<lparr>ra_options = default_restore_options, ra_haveInput = False\<rparr> =
    Inr \<lparr>ra_options = p, ra_haveInput = True\<rparr>"
  using assms unfolding print_restore_def append_assoc append_Cons append_Nil
  by (simp only: restore_start_step restore_steps restore_csv_steps parse_args.simps(1))
    (cases p; simp add: default_restore_options_def)

text \<open>C17: Every backup and every restore the options can express can be asked for on the command line: the
  printed options are parsed back to exactly the same options, for package names without commas or
  surrounding space and device paths that may be pulled.\<close>

theorem options_roundtrip:
  assumes "list_all csv_name (bo_onlyPackages p)" "list_all csv_name (bo_excludePackages p)"
    and "list_all isPullable (bo_filesystemPaths p)"
    and "list_all csv_name (ro_onlyPackages r)" "list_all csv_name (ro_excludePackages r)"
  shows "parse_backup (print_backup p) = Inr p \<and> parse_restore (print_restore r) = Inr r"
proof -
  have "find (\<lambda>path. classify path \<noteq> Ok) (bo_filesystemPaths p) = None"
    using assms(3) by (auto simp: find_None_iff list_all_iff isPullable_def)
  then show ?thesis
    using parse_print_backup [OF assms(1,2)] parse_print_restore [OF assms(4,5)]
    by (simp add: parse_backup_def parse_restore_def)
qed

definition sample_backup_options :: BackupOptions where
  "sample_backup_options = default_backup_options
     \<lparr>bo_outputDir := ''out'', bo_includeApks := False, bo_onlyPackages := [''org.example'', ''org.other''],
      bo_filesystemPaths := [''/data/local''], bo_mode := ModeStandard, bo_assumeYes := True\<rparr>"

theorem options_roundtrip_witness:
  "parse_backup (print_backup sample_backup_options) = Inr sample_backup_options \<and>
   parse_restore (print_restore default_restore_options) = Inr default_restore_options"
proof (rule options_roundtrip)
  show "list_all csv_name (bo_onlyPackages sample_backup_options)" by code_simp
  show "list_all isPullable (bo_filesystemPaths sample_backup_options)" by code_simp
qed (simp_all add: sample_backup_options_def default_backup_options_def default_restore_options_def)

section \<open>A usage error touches nothing\<close>

fun message_event :: "event \<Rightarrow> bool" where
  "message_event (EvLog _ _) = True"
| "message_event (EvErr _) = True"
| "message_event _ = False"

definition untouched :: "'w sys \<Rightarrow> 'w sys \<Rightarrow> bool" where
  "untouched s s' \<longleftrightarrow> world s' = world s \<and> extends message_event s s'"

definition refusal_only :: "'w sys \<Rightarrow> 'w outcome \<Rightarrow> bool" where
  "refusal_only s r \<longleftrightarrow>
     (case r of
        None \<Rightarrow> True
      | Some (Inl _, s') \<Rightarrow> untouched s s'
      | Some (Inr code, s') \<Rightarrow> code \<in> {0, 1} \<or> code = 2 \<and> untouched s s')"

lemma untouched_simps [simp]:
  "untouched s s" "untouched s (log_error h m s)" "untouched s (err_text t (log_error h m s))"
  by (auto simp: untouched_def log_error_def log_def err_text_def intro!: extends_emit)

lemma refusal_simps [simp]:
  "refusal_only s None" "code \<in> {0, 1} \<Longrightarrow> refusal_only s (exit_with code s')" "refusal_only s (Some (Inl what, s))"
  "refusal_only s (parse_failed h stop s)" "refusal_only s (refuse h message s)"
  by (auto simp: refusal_only_def exit_with_def parse_failed_def refuse_def split: parse_stop.splits)

lemma refusal_unknown: "refusal_only s (exit_with 2 (err_text t (log_error h m s)))"
  by (simp add: refusal_only_def exit_with_def)

lemma read_commands_refusal:
  "refusal_only s (cmdDevices h adb s)" "refusal_only s (cmdInfo h adb serial s)"
  "refusal_only s (cmdListPackages h adb serial sys json s)" "refusal_only s (cmdVerify ev h args s)"
  by (auto simp: cmdDevices_def cmdInfo_def cmdListPackages_def cmdVerify_def Let_def
      split: prod.split bool.split option.split sum.split)

lemma cmdBackup_refusal: "refusal_only s (cmdBackup ev h adb args s)"
  by (auto simp: cmdBackup_def Let_def split: prod.split bool.split option.split sum.split)

lemma cmdRestore_refusal: "refusal_only s (cmdRestore ev h adb args s)"
  by (auto simp: cmdRestore_def Let_def split: prod.split bool.split sum.split)

lemma GuiServer_run_refusal: "refusal_only s (GuiServer_run ev h options s')"
  by (auto simp: GuiServer_run_def Let_def split: prod.split sum.split)

lemma cmdGui_refusal: "refusal_only s (cmdGui ev h adb args s)"
  by (auto simp: cmdGui_def Let_def GuiServer_run_refusal split: prod.split sum.split)

lemma run_command_refusal: "refusal_only s (run_command ev h adb command rest s)"
  unfolding run_command_def
  by (simp add: read_commands_refusal cmdBackup_refusal cmdRestore_refusal cmdGui_refusal refusal_unknown
      split: option.split sum.split)


section \<open>Nothing without consent\<close>

fun waiting_event :: "string \<Rightarrow> event \<Rightarrow> bool" where
  "waiting_event adb (EvExec io args) \<longleftrightarrow> args = [adb, ''version'']"
| "waiting_event adb (EvLog _ _) \<longleftrightarrow> True"
| "waiting_event adb (EvOut _) \<longleftrightarrow> True"
| "waiting_event adb _ \<longleftrightarrow> False"

definition consents :: "string option \<Rightarrow> bool" where
  "consents line \<longleftrightarrow> (case line of None \<Rightarrow> False | Some l \<Rightarrow> trim l \<in> {''y'', ''Y'', ''yes'', ''Yes''})"

lemma ensureAdb_waits: "extends (waiting_event adb) s (snd (ensureAdbAvailable h adb s))"
proof -
  have "extends (waiting_event adb) s (snd (isAdbAvailable h adb s))"
    using extends_cancelRequested [of "waiting_event adb" s h]
    by (auto simp: isAdbAvailable_def Process_run_def process_def Let_def intro!: extends_emit split: prod.splits bool.splits)
  then show ?thesis
    by (auto simp: ensureAdbAvailable_def log_error_def log_def intro!: extends_emit split: prod.split bool.split)
qed

lemma not_agreed:
  assumes "\<And>w. \<not> consents (fst (ce_getline ev w))"
  shows "\<not> fst (agreed ev False announcement s)" "extends (waiting_event adb) s (snd (agreed ev False announcement s))"
  using assms [of "world s"]
  by (auto simp: agreed_def confirm_def out_text_def consents_def Let_def intro!: extends_emit
      split: prod.splits bool.splits option.splits)

lemma parse_args_keeps:
  "\<lbrakk>parse_args flag valued u args r = Inr r'; \<forall>a\<in>set args. \<forall>f x. flag a = Some f \<longrightarrow> P x \<longrightarrow> P (f x);
    \<forall>a\<in>set args. \<forall>f v x x'. valued a = Some f \<longrightarrow> f v x = Inr x' \<longrightarrow> P x \<longrightarrow> P x'; P r\<rbrakk> \<Longrightarrow> P r'"
proof (induction flag valued u args r rule: parse_args.induct)
  case (1 flag valued u r)
  then show ?case by simp
next
  case (2 flag valued u arg rest r)
  show ?case
  proof (cases "flag arg")
    case (Some f)
    have "parse_args flag valued u rest (f r) = Inr r'" "P (f r)"
      using "2.prems" Some by simp_all
    then show ?thesis using "2.IH"(2) [OF Some] "2.prems"(2,3) by simp
  next
    case None
    with "2.prems"(1) obtain f v rest' r1 where
      v: "valued arg = Some f" "rest = v # rest'" "f v r = Inr r1" "parse_args flag valued u rest' r1 = Inr r'"
      by (auto split: option.splits list.splits sum.splits)
    moreover have "P r1" using "2.prems"(3,4) v(1,3) by auto
    ultimately show ?thesis using "2.IH"(1) [OF None v] "2.prems"(2,3) by simp
  qed
qed

lemma parse_backup_asks:
  assumes "parse_backup args = Inr p" "''-y'' \<notin> set args" "''--yes'' \<notin> set args"
  shows "\<not> bo_assumeYes p"
proof -
  obtain r where r: "parse_b args \<lparr>ba_options = default_backup_options, ba_haveOutput = False\<rparr> = Inr r" "p = ba_options r"
    using assms(1) by (auto simp: parse_backup_def split: sum.splits if_splits option.splits)
  have "\<not> bo_assumeYes (ba_options r)"
    using assms(2,3)
    by (intro parse_args_keeps [OF r(1), where P = "\<lambda>r. \<not> bo_assumeYes (ba_options r)"])
      (auto simp: backup_flag_def backup_valued_def on_backup_def default_backup_options_def split: if_splits)
  with r(2) show ?thesis by simp
qed

lemma parse_restore_asks:
  assumes "parse_restore args = Inr p" "''-y'' \<notin> set args" "''--yes'' \<notin> set args"
  shows "\<not> ro_assumeYes p"
proof -
  obtain r where r: "parse_r args \<lparr>ra_options = default_restore_options, ra_haveInput = False\<rparr> = Inr r" "p = ra_options r"
    using assms(1) by (auto simp: parse_restore_def split: sum.splits if_splits)
  have "\<not> ro_assumeYes (ra_options r)"
    using assms(2,3)
    by (intro parse_args_keeps [OF r(1), where P = "\<lambda>r. \<not> ro_assumeYes (ra_options r)"])
      (auto simp: restore_flag_def restore_valued_def on_restore_def default_restore_options_def split: if_splits)
  with r(2) show ?thesis by simp
qed

definition waits :: "string \<Rightarrow> 'w sys \<Rightarrow> 'w outcome \<Rightarrow> bool" where
  "waits adb s r \<longleftrightarrow> (\<exists>end s'. r = Some (end, s') \<and> end \<noteq> Inr 0 \<and> extends (waiting_event adb) s s')"

lemma waits_parse_failed: "waits adb s (parse_failed h stop s)"
  by (auto simp: waits_def parse_failed_def exit_with_def log_error_def log_def intro!: extends_emit split: parse_stop.split)

lemma waits_exit: "code \<noteq> 0 \<Longrightarrow> extends (waiting_event adb) s s' \<Longrightarrow> waits adb s (exit_with code s')"
  by (simp add: waits_def exit_with_def)

lemma not_agreed_cases:
  assumes "\<And>w. \<not> consents (fst (ce_getline ev w))" "extends (waiting_event adb) s s1"
  shows "\<exists>s2. agreed ev False announcement s1 = (False, s2) \<and> extends (waiting_event adb) s s2"
  using not_agreed [OF assms(1), where s = s1 and announcement = announcement] extends_trans [OF assms(2)]
  by (metis prod.collapse)

lemma cmdBackup_waits:
  assumes "\<And>w. \<not> consents (fst (ce_getline ev w))" "''-y'' \<notin> set args" "''--yes'' \<notin> set args"
  shows "waits adb s (cmdBackup ev h adb args s)"
proof (cases "parse_backup args")
  case (Inr p)
  obtain ok s1 where a: "ensureAdbAvailable h adb s = (ok, s1)" by (metis prod.collapse)
  have w: "extends (waiting_event adb) s s1" using ensureAdb_waits [of adb s h] a by simp
  obtain s2 where "agreed ev False (backup_announcement p) s1 = (False, s2)" "extends (waiting_event adb) s s2"
    using not_agreed_cases [OF assms(1) w] by blast
  then show ?thesis
    using Inr a w parse_backup_asks [OF Inr assms(2,3)] by (cases ok) (simp_all add: cmdBackup_def waits_exit)
qed (simp add: cmdBackup_def waits_parse_failed)

lemma cmdRestore_waits:
  assumes "\<And>w. \<not> consents (fst (ce_getline ev w))" "''-y'' \<notin> set args" "''--yes'' \<notin> set args"
  shows "waits adb s (cmdRestore ev h adb args s)"
proof (cases "parse_restore args")
  case (Inr p)
  obtain ok s1 where a: "ensureAdbAvailable h adb s = (ok, s1)" by (metis prod.collapse)
  have w: "extends (waiting_event adb) s s1" using ensureAdb_waits [of adb s h] a by simp
  obtain s2 where "agreed ev False (restore_announcement p) s1 = (False, s2)" "extends (waiting_event adb) s s2"
    using not_agreed_cases [OF assms(1) w] by blast
  then show ?thesis
    using Inr a w parse_restore_asks [OF Inr assms(2,3)] by (cases ok) (simp_all add: cmdRestore_def waits_exit)
qed (simp add: cmdRestore_def waits_parse_failed)

text \<open>C15: Without \<open>-y\<close> or \<open>--yes\<close> among its arguments and without a yes from the terminal, neither a backup nor
  a restore does anything: whatever the other arguments, it runs nothing but \<open>adb version\<close>, writes no file, ends,
  and does not report success.\<close>

theorem nothing_without_consent:
  assumes "\<And>w. \<not> consents (fst (ce_getline ev w))" "''-y'' \<notin> set rest" "''--yes'' \<notin> set rest"
    and "command \<in> {''backup'', ''restore''}"
  shows "\<exists>end s'. run_command ev h adb command rest s = Some (end, s') \<and> end \<noteq> Inr 0 \<and> extends (waiting_event adb) s s'"
  using assms(4) cmdBackup_waits [OF assms(1-3)] cmdRestore_waits [OF assms(1-3)]
  by (auto simp: run_command_def waits_def)

section \<open>Exit code 0 of a backup\<close>

lemma log_errors_Nil [simp]: "log_errors h [] s = s"
  by (simp add: log_errors_def)

lemma cmdBackup_done:
  assumes "cmdBackup ev h adb args s = Some (Inr 0, s')"
  shows "\<exists>p res m. parse_backup args = Inr p \<and> backed_up p res m \<and>
    EvWrite (path_join (bo_outputDir p) ''manifest.json'') (toJson m) \<in> set (trace s') \<and>
    EvOut (backup_report res) \<in> set (trace s')"
proof -
  obtain p where p: "parse_backup args = Inr p"
    using assms by (auto simp: cmdBackup_def parse_failed_def exit_with_def split: sum.splits parse_stop.splits)
  obtain s1 where a: "ensureAdbAvailable h adb s = (True, s1)"
    using assms p by (auto simp: cmdBackup_def exit_with_def split: prod.splits bool.splits)
  obtain s2 where g: "agreed ev (bo_assumeYes p) (backup_announcement p) s1 = (True, s2)"
    using assms p a by (auto simp: cmdBackup_def exit_with_def split: prod.splits bool.splits)
  obtain res s3 where r: "runBackup h adb (ce_version ev) p s2 = Some (res, s3)" "bs_success res"
    and s': "s' = out_text (backup_report res) (log_errors h (bs_messages res) s3)"
    using assms p a g by (auto simp: cmdBackup_def exit_with_def Let_def split: option.splits if_splits)
  obtain m where m: "backed_up p res m" "EvWrite (path_join (bo_outputDir p) ''manifest.json'') (toJson m) \<in> set (trace s3)"
    using runBackup_writes [OF r] by blast
  then have "s' = out_text (backup_report res) s3" using s' by (simp add: backed_up_def)
  with p m show ?thesis by (auto simp: out_text_def)
qed

text \<open>C14: When \<open>abp backup\<close> exits with 0, its arguments asked for a backup and that backup exists: this run wrote a
  manifest into the output directory, with valid and selected packages only, and what was printed is the
  report of a summary that is true of it and has neither a cancellation nor an error message.\<close>

theorem backup_exit_0:
  assumes "Cli_run ev argv s = Some (0, s')" "extract_globals argv (initial_globals ev) = Inr (g, ''backup'' # rest)"
  shows "\<exists>p res m. parse_backup rest = Inr p \<and> backed_up p res m \<and>
    EvWrite (path_join (bo_outputDir p) ''manifest.json'') (toJson m) \<in> set (trace s') \<and>
    EvOut (backup_report res) \<in> set (trace s')"
proof -
  let ?h = "(ce_host ev)\<lparr>h_verbose := cg_verbose g\<rparr>"
  have "cmdBackup ev ?h (cg_adbPath g) rest s = Some (Inr 0, s')"
    using assms by (auto simp: Cli_run_def run_command_def Let_def split: option.splits sum.splits)
  then show ?thesis by (rule cmdBackup_done)
qed

definition sample_cli :: "unit cli_env" where
  "sample_cli = \<lparr>ce_host = phone_host, ce_paths = store_paths, ce_version = ''1.0'', ce_getline = (\<lambda>w. (Some ''no'', w)),
     ce_adbPathVar = None, ce_noColorVar = None, ce_tokenVar = None, ce_home = None, ce_currentPath = ''/'',
     ce_random = (\<lambda>w. ((Some (replicate 16 (CHR ''t'')), []), w)),
     ce_sockets = (\<lambda>w. (\<lparr>lc_socket = Inr 3, lc_address_ok = (\<lambda>_. True), lc_bind = None, lc_listen = None, lc_name = Some 8787\<rparr>, w)),
     ce_apple = False,
     ce_serve = (\<lambda>_ s. s), ce_clearCancel = (\<lambda>w. w)\<rparr>"

definition sample_backup_args :: "string list" where
  "sample_backup_args = [''-o'', ''b'', ''--no-personal'', ''--pull-path'', ''/data/app'', ''--yes'']"

lemma sample_cli_fields: "ce_host sample_cli = phone_host" "ce_version sample_cli = ''1.0''"
  by (simp_all add: sample_cli_def)

lemma sample_parsed: "parse_backup sample_backup_args = Inr (phone_options\<lparr>bo_assumeYes := True\<rparr>)"
  by code_simp

lemma sample_globals: "extract_globals (''-v'' # ''backup'' # sample_backup_args) (initial_globals sample_cli) =
    Inr (\<lparr>cg_adbPath = ''adb'', cg_verbose = True, cg_color = ColorAuto\<rparr>, ''backup'' # sample_backup_args)"
  by code_simp

lemma sample_backup_runs: "\<exists>s'. Cli_run sample_cli (''-v'' # ''backup'' # sample_backup_args) quiet_sys = Some (0, s')"
proof -
  let ?h = "phone_host\<lparr>h_verbose := True\<rparr>" and ?p = "phone_options\<lparr>bo_assumeYes := True\<rparr>"
  let ?s1 = "\<lparr>world = (), trace = [EvExec (Capture None) [''adb'', ''version'']]\<rparr>"
  have adb: "ensureAdbAvailable ?h ''adb'' quiet_sys = (True, ?s1)" by code_simp
  have "works ?h (bo_outputDir ?p)" using phone_works(1) by (simp add: works_def)
  moreover have "fst (connectionProblem ?h \<lparr>ac_path = ''adb'', ac_serial = bo_serial ?p\<rparr> ?s1) = []" by code_simp
  moreover have "\<not> nothing_to_back_up ?p" using phone_works(3) by (simp add: nothing_to_back_up_def)
  ultimately obtain res s' where r: "runBackup ?h ''adb'' ''1.0'' ?p ?s1 = Some (res, s')" "bs_success res"
    using runBackup_works [of ?h ?p "''adb''" ?s1 "''1.0''"] phone_works(2,4) by auto
  have "agreed sample_cli True a ?s1 = (True, ?s1)" for a by (simp add: agreed_def)
  then have "cmdBackup sample_cli ?h ''adb'' sample_backup_args quiet_sys =
      Some (Inr 0, out_text (backup_report res) (log_errors ?h (bs_messages res) s'))"
    using adb r by (simp add: cmdBackup_def sample_parsed sample_cli_fields exit_with_def)
  then show ?thesis by (simp add: Cli_run_def sample_globals run_command_def sample_cli_fields del: extract_globals.simps)
qed

theorem backup_exit_0_witness:
  "\<exists>s' p res m. Cli_run sample_cli (''-v'' # ''backup'' # sample_backup_args) quiet_sys = Some (0, s') \<and>
     parse_backup sample_backup_args = Inr p \<and> backed_up p res m \<and>
     EvWrite (path_join (bo_outputDir p) ''manifest.json'') (toJson m) \<in> set (trace s')"
proof -
  obtain s' where r: "Cli_run sample_cli (''-v'' # ''backup'' # sample_backup_args) quiet_sys = Some (0, s')"
    using sample_backup_runs by blast
  show ?thesis using r backup_exit_0 [OF r sample_globals] by blast
qed

theorem nothing_without_consent_witness:
  "\<exists>end s'. run_command sample_cli phone_host ''adb'' ''restore'' [''-i'', ''b''] quiet_sys = Some (end, s') \<and>
     end \<noteq> Inr 0 \<and> extends (waiting_event ''adb'') quiet_sys s'"
  by (rule nothing_without_consent) (auto simp: sample_cli_def consents_def trim_def)

section \<open>An empty selection selects everything\<close>

text \<open>An empty value of \<open>--only\<close>, as an unset shell variable gives, is not refused: it selects every package,
  so a restore meant for a few apps overwrites the data of all of them.\<close>

theorem empty_only_selects_all:
  "\<exists>p. parse_restore [''-i'', dir, ''--only'', [], ''-y''] = Inr p \<and>
     package_selected (ro_onlyPackages p) (ro_excludePackages p) name"
  by (simp add: parse_restore_def restore_step_defs splitCsv_def package_selected_def default_restore_options_def trim_def)

end
