(* ===== verification/Spawn.thy ===== *)
theory Spawn
  imports Host
begin

text \<open>
  The inside of \<open>src/src/util/Process.cpp\<close>: the descriptors a child is started with, the loop that
  moves its data, its reaping, and the signals a cancel sends.  What the kernel answers (free
  descriptors, \<open>poll\<close>, \<open>read\<close>, \<open>write\<close>, \<open>waitpid\<close>, the clock and the cancel flag at each look) is an
  argument.  Theory \<open>SpawnHost\<close> relates the results to \<open>Host.h_exec\<close>.
\<close>

section \<open>Descriptor tables\<close>

text \<open>What a descriptor refers to: one inherited from abp's caller, or one made for this child.\<close>

datatype desc =
    Inherited nat | NullInput | InFile | OutFile
  | InRead | InWrite | OutRead | OutWrite | ErrRead | ErrWrite

text \<open>Descriptors with their close-on-exec flag; \<open>limit\<close> is the number a process may have.\<close>

type_synonym fds = "nat \<Rightarrow> (desc \<times> bool) option"

definition lowest_free :: "nat \<Rightarrow> nat \<Rightarrow> fds \<Rightarrow> nat option" where
  "lowest_free limit from t = find (\<lambda>i. t i = None) [from..<limit]"

text \<open>\<open>open(..., O_CLOEXEC)\<close> and \<open>pipe2(fds, O_CLOEXEC)\<close>.\<close>

definition fd_open :: "nat \<Rightarrow> desc \<Rightarrow> fds \<Rightarrow> (nat \<times> fds) option" where
  "fd_open limit d t = map_option (\<lambda>i. (i, t(i \<mapsto> (d, True)))) (lowest_free limit 0 t)"

definition Pipe_open :: "nat \<Rightarrow> desc \<Rightarrow> desc \<Rightarrow> fds \<Rightarrow> (nat \<times> nat \<times> fds) option" where
  "Pipe_open limit r w t =
     (case fd_open limit r t of
        None \<Rightarrow> None
      | Some (i, t1) \<Rightarrow> (case fd_open limit w t1 of None \<Rightarrow> None | Some (j, t2) \<Rightarrow> Some (i, j, t2)))"

definition fd_close :: "nat \<Rightarrow> fds \<Rightarrow> fds" where
  "fd_close i t = t(i := None)"

text \<open>\<open>dup2(i, j)\<close> for different descriptors, and \<open>fcntl(i, F_DUPFD, 3)\<close>: neither copy is close-on-exec.\<close>

definition fd_dup2 :: "nat \<Rightarrow> nat \<Rightarrow> fds \<Rightarrow> fds" where
  "fd_dup2 i j t = (case t i of None \<Rightarrow> t | Some (d, _) \<Rightarrow> t(j \<mapsto> (d, False)))"

definition fd_dupfd :: "nat \<Rightarrow> nat \<Rightarrow> fds \<Rightarrow> (nat \<times> fds) option" where
  "fd_dupfd limit i t =
     (case t i of
        None \<Rightarrow> None
      | Some (d, _) \<Rightarrow> map_option (\<lambda>k. (k, t(k \<mapsto> (d, False)))) (lowest_free limit 3 t))"

definition redirect :: "nat \<Rightarrow> nat \<Rightarrow> nat \<Rightarrow> fds \<Rightarrow> fds" where
  "redirect limit source target t =
     (if source = target then (case t target of None \<Rightarrow> t | Some (d, _) \<Rightarrow> t(target \<mapsto> (d, False)))
      else
        let (source1, t1) =
              (if source < 3 then
                 (case fd_dupfd limit source t of None \<Rightarrow> (source, t) | Some (k, t1) \<Rightarrow> (k, fd_close source t1))
               else (source, t))
        in fd_close source1 (fd_dup2 source1 target t1))"

text \<open>What survives \<open>execvp\<close>.\<close>

definition after_exec :: "fds \<Rightarrow> nat \<Rightarrow> desc option" where
  "after_exec t i = (case t i of Some (d, False) \<Rightarrow> Some d | _ \<Rightarrow> None)"

section \<open>The child's descriptors\<close>

text \<open>\<open>openNullInput()\<close>, when it is made and when it can be.\<close>

definition open_null :: "nat \<Rightarrow> bool \<Rightarrow> fds \<Rightarrow> nat option \<times> fds" where
  "open_null limit ok t =
     (case (if ok then fd_open limit NullInput t else None) of None \<Rightarrow> (None, t) | Some (i, t1) \<Rightarrow> (Some i, t1))"

definition redirect_null :: "nat \<Rightarrow> nat option \<Rightarrow> fds \<Rightarrow> fds" where
  "redirect_null limit null t = (case null of None \<Rightarrow> t | Some i \<Rightarrow> redirect limit i 0 t)"

text \<open>
  The tables of the children of \<open>run\<close>, \<open>runToFile\<close> and \<open>runFromFile\<close> just before \<open>execvp\<close>;
  \<^term>\<open>None\<close> when a pipe cannot be made.  The files are opened before.  \<open>null_ok\<close>: \<open>/dev/null\<close> can be opened.
\<close>

definition child_of_run :: "nat \<Rightarrow> bool \<Rightarrow> bool \<Rightarrow> fds \<Rightarrow> fds option" where
  "child_of_run limit hasInput null_ok t =
     (case (if hasInput then map_option (\<lambda>(r, w, t1). (Some (r, w), t1)) (Pipe_open limit InRead InWrite t)
            else Some (None, t)) of
        None \<Rightarrow> None
      | Some (inPipe, t1) \<Rightarrow>
          (case Pipe_open limit OutRead OutWrite t1 of
             None \<Rightarrow> None
           | Some (outR, outW, t2) \<Rightarrow>
               (case Pipe_open limit ErrRead ErrWrite t2 of
                  None \<Rightarrow> None
                | Some (errR, errW, t3) \<Rightarrow>
                    (let (null, t4) = open_null limit (\<not> hasInput \<and> null_ok) t3;
                         t5 = fd_close errR (fd_close outR (case inPipe of None \<Rightarrow> t4 | Some (_, w) \<Rightarrow> fd_close w t4));
                         t6 = (case inPipe of Some (r, _) \<Rightarrow> redirect limit r 0 t5 | None \<Rightarrow> redirect_null limit null t5)
                     in Some (redirect limit errW 2 (redirect limit outW 1 t6))))))"

definition child_of_runToFile :: "nat \<Rightarrow> bool \<Rightarrow> nat \<Rightarrow> fds \<Rightarrow> fds option" where
  "child_of_runToFile limit null_ok outFile t =
     (case Pipe_open limit ErrRead ErrWrite t of
        None \<Rightarrow> None
      | Some (errR, errW, t1) \<Rightarrow>
          (let (null, t2) = open_null limit null_ok t1
           in Some (redirect limit errW 2 (redirect limit outFile 1 (redirect_null limit null (fd_close errR t2))))))"

definition child_of_runFromFile :: "nat \<Rightarrow> nat \<Rightarrow> fds \<Rightarrow> fds option" where
  "child_of_runFromFile limit inFile t =
     (case Pipe_open limit OutRead OutWrite t of
        None \<Rightarrow> None
      | Some (outR, outW, t1) \<Rightarrow>
          (case Pipe_open limit ErrRead ErrWrite t1 of
             None \<Rightarrow> None
           | Some (errR, errW, t2) \<Rightarrow>
               Some (redirect limit errW 2 (redirect limit outW 1
                 (redirect limit inFile 0 (fd_close errR (fd_close outR t2)))))))"

section \<open>Cancelling\<close>

datatype signal = SIGTERM | SIGKILL

record CancelWatch =
  cw_terminated :: bool
  cw_killed :: bool
  cw_terminatedAt :: int
  cw_signals :: "(signal \<times> int) list"

definition new_CancelWatch :: CancelWatch where
  "new_CancelWatch = \<lparr>cw_terminated = False, cw_killed = False, cw_terminatedAt = 0, cw_signals = []\<rparr>"

text \<open>In nanoseconds of the steady clock; \<open>cw_signals\<close> are the signals sent, with their times.\<close>

definition kTerminateGrace :: int where
  "kTerminateGrace = 2000000000"

text \<open>One look: the flag and the time it saw.\<close>

type_synonym look = "bool \<times> int"

definition CancelWatch_check :: "look \<Rightarrow> CancelWatch \<Rightarrow> CancelWatch" where
  "CancelWatch_check look watch =
     (let (requested, now) = look
      in if \<not> requested then watch
         else if \<not> cw_terminated watch then
           watch\<lparr>cw_terminated := True, cw_terminatedAt := now, cw_signals := cw_signals watch @ [(SIGTERM, now)]\<rparr>
         else if \<not> cw_killed watch \<and> now - cw_terminatedAt watch > kTerminateGrace then
           watch\<lparr>cw_killed := True, cw_signals := cw_signals watch @ [(SIGKILL, now)]\<rparr>
         else watch)"

section \<open>Moving the data\<close>

record revents =
  re_ready :: bool
  re_broken :: bool

datatype poll_answer = PollIntr | PollError | Polled revents revents revents
datatype read_answer = ReadData string | ReadEnd | ReadAgain | ReadError
datatype write_answer = Wrote nat | WriteAgain | WriteError

text \<open>One turn of the loop: what \<open>poll\<close> reported for stdin, stdout and stderr, the look at the flag, and what
  the calls answer if they are made.\<close>

record poll_round =
  pr_poll :: poll_answer
  pr_look :: look
  pr_write :: write_answer
  pr_out :: read_answer
  pr_err :: read_answer

record pump =
  pu_offset :: nat
  pu_sent :: string
  pu_stdin :: bool
  pu_stdout :: bool
  pu_stderr :: bool
  pu_out :: string
  pu_err :: string
  pu_watch :: CancelWatch

definition stdin_step :: "string option \<Rightarrow> revents \<Rightarrow> write_answer \<Rightarrow> pump \<Rightarrow> pump" where
  "stdin_step input ev answer p =
     (if \<not> pu_stdin p \<or> \<not> (re_ready ev \<or> re_broken ev) then p
      else
        let nothingLeft = (case input of None \<Rightarrow> True | Some d \<Rightarrow> length d \<le> pu_offset p)
        in if nothingLeft \<or> \<not> re_ready ev then p\<lparr>pu_stdin := False\<rparr>
           else case answer of
             Wrote n \<Rightarrow> p\<lparr>pu_offset := pu_offset p + n, pu_sent := pu_sent p @ take n (drop (pu_offset p) (the input))\<rparr>
           | WriteAgain \<Rightarrow> p
           | WriteError \<Rightarrow> p\<lparr>pu_stdin := False\<rparr>)"

text \<open>What one stream's turn adds, and whether the stream stays open.\<close>

definition read_step :: "bool \<Rightarrow> revents \<Rightarrow> read_answer \<Rightarrow> string \<times> bool" where
  "read_step isOpen ev answer =
     (if \<not> isOpen \<or> \<not> (re_ready ev \<or> re_broken ev) then ([], isOpen)
      else case answer of
        ReadData bytes \<Rightarrow> (bytes, True)
      | ReadEnd \<Rightarrow> ([], False)
      | ReadError \<Rightarrow> ([], False)
      | ReadAgain \<Rightarrow> ([], \<not> re_broken ev))"

definition pump_round :: "string option \<Rightarrow> poll_round \<Rightarrow> revents \<Rightarrow> revents \<Rightarrow> revents \<Rightarrow> pump \<Rightarrow> pump" where
  "pump_round input r evIn evOut evErr p =
     (let p1 = stdin_step input evIn (pr_write r) p;
          (out, outOpen) = read_step (pu_stdout p1) evOut (pr_out r);
          (err, errOpen) = read_step (pu_stderr p1) evErr (pr_err r)
      in p1\<lparr>pu_out := pu_out p1 @ out, pu_stdout := outOpen, pu_err := pu_err p1 @ err, pu_stderr := errOpen\<rparr>)"

definition pump_open :: "pump \<Rightarrow> bool" where
  "pump_open p \<longleftrightarrow> pu_stdin p \<or> pu_stdout p \<or> pu_stderr p"

text \<open>\<^term>\<open>None\<close>: the loop is still running when the rounds are used up.\<close>

fun pumpIo :: "string option \<Rightarrow> poll_round list \<Rightarrow> pump \<Rightarrow> pump option" where
  "pumpIo input [] p = (if pump_open p then None else Some p)"
| "pumpIo input (r # rs) p =
     (if \<not> pump_open p then Some p
      else
        let p1 = p\<lparr>pu_watch := CancelWatch_check (pr_look r) (pu_watch p)\<rparr>
        in case pr_poll r of
             PollIntr \<Rightarrow> pumpIo input rs p1
           | PollError \<Rightarrow> Some p1
           | Polled evIn evOut evErr \<Rightarrow> pumpIo input rs (pump_round input r evIn evOut evErr p1))"

section \<open>Reaping\<close>

datatype wait_status = Exited int | Signaled int | OtherStatus
datatype wait_answer = WaitDone wait_status | WaitRunning | WaitIntr | WaitFailed

fun exit_of :: "wait_status \<Rightarrow> int" where
  "exit_of (Exited code) = code"
| "exit_of (Signaled signo) = 128 + signo"
| "exit_of OtherStatus = - 1"

text \<open>Each turn: the answer of \<open>waitpid\<close> and, if the child still runs, the look and a pause of \<open>pauseMs\<close>.  The
  result is the exit code, the watch, and the pauses made.\<close>

definition next_pause :: "nat \<Rightarrow> nat" where
  "next_pause pauseMs = (if pauseMs < 50 then pauseMs * 2 else 50)"

fun reap :: "(wait_answer \<times> look) list \<Rightarrow> nat \<Rightarrow> CancelWatch \<Rightarrow> (int \<times> CancelWatch \<times> nat list) option" where
  "reap [] pauseMs watch = None"
| "reap ((answer, look) # rest) pauseMs watch =
     (case answer of
        WaitDone status \<Rightarrow> Some (exit_of status, watch, [])
      | WaitFailed \<Rightarrow> Some (- 1, watch, [])
      | _ \<Rightarrow>
          (case reap rest (next_pause pauseMs) (CancelWatch_check look watch) of
             None \<Rightarrow> None
           | Some (code, watch', pauses) \<Rightarrow> Some (code, watch', pauseMs # pauses)))"

section \<open>Running a child\<close>

text \<open>The kernel's part: abp's own table, whether the file opens (with the error text), \<open>fork\<close> succeeds,
  and what the loops are answered.\<close>

record kernel =
  kn_limit :: nat
  kn_fds :: fds
  kn_null_ok :: bool
  kn_file_error :: "string option"
  kn_fork_ok :: bool
  kn_rounds :: "poll_round list"
  kn_waits :: "(wait_answer \<times> look) list"

definition spawn_failed :: "string \<Rightarrow> ProcessResult" where
  "spawn_failed err = emptyArgsResult\<lparr>stdErr := err\<rparr>"

definition open_file :: "kernel \<Rightarrow> desc \<Rightarrow> string + nat \<times> fds" where
  "open_file kn d =
     (case kn_file_error kn of
        Some err \<Rightarrow> Inl err
      | None \<Rightarrow>
          (case fd_open (kn_limit kn) d (kn_fds kn) of
             None \<Rightarrow> Inl ''Too many open files''
           | Some opened \<Rightarrow> Inr opened))"

text \<open>The descriptors of the child, or why there is none.\<close>

definition child_table :: "kernel \<Rightarrow> proc_io \<Rightarrow> string + fds option" where
  "child_table kn io =
     (case io of
        Capture input \<Rightarrow> Inr (child_of_run (kn_limit kn) (input \<noteq> None) (kn_null_ok kn) (kn_fds kn))
      | ToFile path \<Rightarrow>
          (case open_file kn OutFile of
             Inl err \<Rightarrow> Inl (''failed to open output file: '' @ err)
           | Inr (outFile, t) \<Rightarrow> Inr (child_of_runToFile (kn_limit kn) (kn_null_ok kn) outFile t))
      | FromFile path \<Rightarrow>
          (case open_file kn InFile of
             Inl err \<Rightarrow> Inl (''failed to open input file: '' @ err)
           | Inr (inFile, t) \<Rightarrow> Inr (child_of_runFromFile (kn_limit kn) inFile t)))"

definition new_pump :: "proc_io \<Rightarrow> pump" where
  "new_pump io =
     \<lparr>pu_offset = 0, pu_sent = [], pu_stdin = (case io of Capture (Some _) \<Rightarrow> True | _ \<Rightarrow> False),
      pu_stdout = (case io of ToFile _ \<Rightarrow> False | _ \<Rightarrow> True), pu_stderr = True, pu_out = [], pu_err = [],
      pu_watch = new_CancelWatch\<rparr>"

definition given_input :: "proc_io \<Rightarrow> string option" where
  "given_input io = (case io of Capture input \<Rightarrow> input | _ \<Rightarrow> None)"

text \<open>\<open>run\<close>, \<open>runToFile\<close> and \<open>runFromFile\<close>; \<^term>\<open>None\<close> while the child runs.\<close>

definition spawn :: "kernel \<Rightarrow> bool \<Rightarrow> proc_io \<Rightarrow> string list \<Rightarrow> (ProcessResult \<times> (signal \<times> int) list) option" where
  "spawn kn cancel io args =
     (if args = [] then Some (emptyArgsResult, [])
      else if cancel then Some (cancelledResult, [])
      else case child_table kn io of
        Inl err \<Rightarrow> Some (spawn_failed err, [])
      | Inr None \<Rightarrow> Some (spawn_failed [], [])
      | Inr (Some table) \<Rightarrow>
          if \<not> kn_fork_ok kn then Some (spawn_failed [], [])
          else case pumpIo (given_input io) (kn_rounds kn) (new_pump io) of
            None \<Rightarrow> None
          | Some p \<Rightarrow>
              (case reap (kn_waits kn) 1 (pu_watch p) of
                 None \<Rightarrow> None
               | Some (code, watch, _) \<Rightarrow>
                   Some (\<lparr>exitCode = code, stdOut = pu_out p, stdErr = pu_err p, spawnFailed = False,
                          cancelled = cw_terminated watch\<rparr>, cw_signals watch)))"

definition spawn_run :: "kernel \<Rightarrow> bool \<Rightarrow> string list \<Rightarrow> string option \<Rightarrow> (ProcessResult \<times> (signal \<times> int) list) option" where
  "spawn_run kn cancel args input = spawn kn cancel (Capture input) args"

definition spawn_runToFile :: "kernel \<Rightarrow> bool \<Rightarrow> string list \<Rightarrow> string \<Rightarrow> (ProcessResult \<times> (signal \<times> int) list) option" where
  "spawn_runToFile kn cancel args path = spawn kn cancel (ToFile path) args"

definition spawn_runFromFile :: "kernel \<Rightarrow> bool \<Rightarrow> string list \<Rightarrow> string \<Rightarrow> (ProcessResult \<times> (signal \<times> int) list) option" where
  "spawn_runFromFile kn cancel args path = spawn kn cancel (FromFile path) args"

end
