(* ===== verification/SpawnRules.thy ===== *)
theory SpawnRules
  imports Spawn
begin

text \<open>
  What starting a child guarantees: its standard streams, the bytes moved, and the signals of a cancel.
\<close>

section \<open>Descriptors\<close>

lemma lowest_free_Some:
  "lowest_free limit from t = Some i \<Longrightarrow> from \<le> i \<and> t i = None \<and> (\<forall>j. from \<le> j \<and> j < i \<longrightarrow> t j \<noteq> None)"
proof -
  assume f: "lowest_free limit from t = Some i"
  then obtain k where k: "k < length [from..<limit]" "t ([from..<limit] ! k) = None" "i = [from..<limit] ! k"
    "\<forall>j<k. t ([from..<limit] ! j) \<noteq> None"
    by (auto simp: lowest_free_def find_Some_iff)
  have "t j \<noteq> None" if "from \<le> j" "j < i" for j
    using k(1,3) k(4) [rule_format, of "j - from"] that by auto
  with k show ?thesis by auto
qed

lemma fd_open_Some:
  assumes "fd_open limit d t = Some (i, t')"
  shows "t i = None" "t' = t(i \<mapsto> (d, True))" "\<And>j. j < i \<Longrightarrow> t j \<noteq> None"
  using assms lowest_free_Some [of limit 0 t i] by (auto simp: fd_open_def)

lemma Pipe_open_Some:
  assumes "Pipe_open limit r w t = Some (i, j, t')"
  shows "i < j" "t i = None" "t j = None" "t' = t(i \<mapsto> (r, True), j \<mapsto> (w, True))" "\<And>k. k < i \<Longrightarrow> t k \<noteq> None"
    "\<And>k. k \<le> j \<Longrightarrow> t' k \<noteq> None"
proof -
  obtain t1 where o1: "fd_open limit r t = Some (i, t1)" and o2: "fd_open limit w t1 = Some (j, t')"
    using assms by (auto simp: Pipe_open_def split: option.splits)
  note a = fd_open_Some [OF o1] and b = fd_open_Some [OF o2]
  have "\<not> j < i" using a(3) [of j] a(2) b(1) by auto
  moreover have "j \<noteq> i" using a(2) b(1) by auto
  ultimately show "i < j" by simp
  then show "t i = None" "t j = None" "t' = t(i \<mapsto> (r, True), j \<mapsto> (w, True))"
    using a(1,2) b(1,2) by (auto split: if_splits)
  show "t k \<noteq> None" if "k < i" for k using a(3) [OF that] .
  show "t' k \<noteq> None" if "k \<le> j" for k
    using b(3) [of k] that a(2) b(2) by (cases "k = j") auto
qed

text \<open>Whatever slot the source sits in, and whether or not it has to be moved out of the way first, it ends up
  at the target, its own slot is empty, and no other slot has changed.\<close>

lemma redirect_eq:
  assumes "t source \<noteq> None" "target < 3"
  shows "redirect limit source target t =
    (\<lambda>i. if i = target then map_option (\<lambda>(d, _). (d, False)) (t source) else if i = source then None else t i)"
proof -
  obtain d c where d: "t source = Some (d, c)" using assms(1) by auto
  show ?thesis
  proof (cases "source \<noteq> target \<and> source < 3 \<and> lowest_free limit 3 t \<noteq> None")
    case True
    then obtain k where k: "lowest_free limit 3 t = Some k" by auto
    with lowest_free_Some [OF k] d assms(2) True show ?thesis
      by (auto simp: redirect_def fd_dupfd_def fd_dup2_def fd_close_def fun_eq_iff)
  next
    case False
    with d assms(2) show ?thesis
      by (auto simp: redirect_def fd_dupfd_def fd_dup2_def fd_close_def fun_eq_iff)
  qed
qed

lemma open_null_cases:
  "open_null limit ok t = (null, t') \<Longrightarrow>
   null = None \<and> t' = t \<or> (\<exists>i. null = Some i \<and> t i = None \<and> t' = t(i \<mapsto> (NullInput, True)) \<and> (\<forall>j<i. t j \<noteq> None))"
  using fd_open_Some [of limit NullInput t]
  by (auto simp: open_null_def split: option.splits if_splits)

definition streams_ok :: "kernel \<Rightarrow> proc_io \<Rightarrow> fds \<Rightarrow> bool" where
  "streams_ok kn io t \<longleftrightarrow>
     (case io of
        Capture None \<Rightarrow> after_exec t 0 \<in> {Some NullInput, after_exec (kn_fds kn) 0}
      | Capture (Some _) \<Rightarrow> after_exec t 0 = Some InRead
      | ToFile _ \<Rightarrow> after_exec t 0 \<in> {Some NullInput, after_exec (kn_fds kn) 0}
      | FromFile _ \<Rightarrow> after_exec t 0 = Some InFile) \<and>
     after_exec t 1 = (case io of ToFile _ \<Rightarrow> Some OutFile | _ \<Rightarrow> Some OutWrite) \<and>
     after_exec t 2 = Some ErrWrite \<and>
     (\<forall>i\<ge>3. after_exec t i = after_exec (kn_fds kn) i)"

lemma runFromFile_streams:
  assumes "fd_open limit InFile t = Some (f, t1)" "child_of_runFromFile limit f t1 = Some t'"
  shows "after_exec t' 0 = Some InFile \<and> after_exec t' 1 = Some OutWrite \<and> after_exec t' 2 = Some ErrWrite \<and>
    (\<forall>i\<ge>3. after_exec t' i = after_exec t i)"
proof -
  note f = fd_open_Some [OF assms(1)]
  obtain outR outW t2 errR errW t3 where
    o: "Pipe_open limit OutRead OutWrite t1 = Some (outR, outW, t2)"
    and e: "Pipe_open limit ErrRead ErrWrite t2 = Some (errR, errW, t3)"
    and t': "t' = redirect limit errW 2 (redirect limit outW 1 (redirect limit f 0 (fd_close errR (fd_close outR t3))))"
    using assms(2) by (auto simp: child_of_runFromFile_def split: option.splits)
  note o = Pipe_open_Some [OF o] and e = Pipe_open_Some [OF e]
  have "f < outR" using o(2) f(3) [of outR] f(2) by (cases outR f rule: linorder_cases) auto
  moreover have "outW < errR" using e(2) o(6) [of errR] by (cases "errR \<le> outW") auto
  ultimately have order: "f < outR" "outR < outW" "outW < errR" "errR < errW" using o(1) e(1) by auto
  have t3: "t3 = t(f \<mapsto> (InFile, True), outR \<mapsto> (OutRead, True), outW \<mapsto> (OutWrite, True),
      errR \<mapsto> (ErrRead, True), errW \<mapsto> (ErrWrite, True))"
    by (simp add: e(4) o(4) f(2))
  have free: "t f = None" "t outR = None" "t outW = None" "t errR = None" "t errW = None"
    using order f(1,2) o(2,3,4) e(2,3) by (auto split: if_splits)
  show ?thesis
    using order free
    by (auto simp: t' t3 redirect_eq fd_close_def after_exec_def)
qed

lemma runToFile_streams:
  assumes "fd_open limit OutFile t = Some (f, t1)" "child_of_runToFile limit null_ok f t1 = Some t'" "t 0 \<noteq> None"
  shows "after_exec t' 0 \<in> {Some NullInput, after_exec t 0} \<and> after_exec t' 1 = Some OutFile \<and>
    after_exec t' 2 = Some ErrWrite \<and> (\<forall>i\<ge>3. after_exec t' i = after_exec t i)"
proof -
  note f = fd_open_Some [OF assms(1)]
  obtain errR errW t2 null t3 where
    e: "Pipe_open limit ErrRead ErrWrite t1 = Some (errR, errW, t2)" and n: "open_null limit null_ok t2 = (null, t3)"
    and t': "t' = redirect limit errW 2 (redirect limit f 1 (redirect_null limit null (fd_close errR t3)))"
    using assms(2) by (auto simp: child_of_runToFile_def Let_def split: option.splits prod.splits)
  note e = Pipe_open_Some [OF e]
  have f0: "f \<noteq> 0" using f(1) assms(3) by (cases "f = 0") auto
  have "f < errR" using e(2) f(3) [of errR] f(2) by (cases errR f rule: linorder_cases) auto
  then have order: "0 < f" "f < errR" "errR < errW" using e(1) f0 by auto
  have t2: "t2 = t(f \<mapsto> (OutFile, True), errR \<mapsto> (ErrRead, True), errW \<mapsto> (ErrWrite, True))"
    by (simp add: e(4) f(2))
  have free: "t f = None" "t errR = None" "t errW = None"
    using order f(1,2) e(2,3) by (auto split: if_splits)
  consider "null = None" "t3 = t2" | i where "null = Some i" "t2 i = None" "t3 = t2(i \<mapsto> (NullInput, True))" "errW < i"
  proof (cases null)
    case (Some i)
    then have "t2 i = None" "t3 = t2(i \<mapsto> (NullInput, True))" using open_null_cases [OF n] by auto
    moreover have "errW < i" using \<open>t2 i = None\<close> e(6) [of i] by (cases "i \<le> errW") auto
    ultimately show ?thesis using Some that(2) by blast
  qed (use open_null_cases [OF n] that(1) in auto)
  then show ?thesis
  proof cases
    case 1
    then show ?thesis
      using order free by (auto simp: t' t2 redirect_null_def redirect_eq fd_close_def after_exec_def)
  next
    case (2 i)
    then have "t i = None" using order by (auto simp: t2)
    with 2 show ?thesis
      using order free by (auto simp: t' t2 redirect_null_def redirect_eq fd_close_def after_exec_def)
  qed
qed

text \<open>The two pipes every child of \<open>run\<close> has, on a table that already holds its input.\<close>

lemma output_pipes:
  assumes "Pipe_open limit OutRead OutWrite t = Some (outR, outW, t2)" "Pipe_open limit ErrRead ErrWrite t2 = Some (errR, errW, t3)"
  shows "outR < outW" "outW < errR" "errR < errW" "t outR = None" "t outW = None" "t errR = None" "t errW = None"
    "t3 = t(outR \<mapsto> (OutRead, True), outW \<mapsto> (OutWrite, True), errR \<mapsto> (ErrRead, True), errW \<mapsto> (ErrWrite, True))"
    "\<And>k. k < outR \<Longrightarrow> t k \<noteq> None" "\<And>k. k \<le> errW \<Longrightarrow> t3 k \<noteq> None"
proof -
  note o = Pipe_open_Some [OF assms(1)] and e = Pipe_open_Some [OF assms(2)]
  show order: "outR < outW" "errR < errW" using o(1) e(1) by auto
  show oe: "outW < errR" using e(2) o(6) [of errR] by (cases "errR \<le> outW") auto
  show "t outR = None" "t outW = None" using o(2,3) by auto
  show "t errR = None" "t errW = None" using e(2,3) o(4) order oe by (auto split: if_splits)
  show "t3 = t(outR \<mapsto> (OutRead, True), outW \<mapsto> (OutWrite, True), errR \<mapsto> (ErrRead, True), errW \<mapsto> (ErrWrite, True))"
    by (simp add: e(4) o(4))
  show "t k \<noteq> None" if "k < outR" for k using o(5) [OF that] .
  show "t3 k \<noteq> None" if "k \<le> errW" for k using e(6) [OF that] .
qed

lemma run_no_input_streams:
  assumes "child_of_run limit False null_ok t = Some t'"
  shows "after_exec t' 0 \<in> {Some NullInput, after_exec t 0} \<and> after_exec t' 1 = Some OutWrite \<and>
    after_exec t' 2 = Some ErrWrite \<and> (\<forall>i\<ge>3. after_exec t' i = after_exec t i)"
proof -
  obtain outR outW t2 errR errW t3 null t4 where
    o: "Pipe_open limit OutRead OutWrite t = Some (outR, outW, t2)"
    and e: "Pipe_open limit ErrRead ErrWrite t2 = Some (errR, errW, t3)"
    and n: "open_null limit null_ok t3 = (null, t4)"
    and t': "t' = redirect limit errW 2 (redirect limit outW 1 (redirect_null limit null (fd_close errR (fd_close outR t4))))"
    using assms by (auto simp: child_of_run_def Let_def split: option.splits prod.splits)
  note p = output_pipes [OF o e]
  consider "null = None" "t4 = t3" | i where "null = Some i" "t3 i = None" "t4 = t3(i \<mapsto> (NullInput, True))" "errW < i"
  proof (cases null)
    case (Some i)
    then have "t3 i = None" "t4 = t3(i \<mapsto> (NullInput, True))" using open_null_cases [OF n] by auto
    moreover have "errW < i" using \<open>t3 i = None\<close> p(10) [of i] by (cases "i \<le> errW") auto
    ultimately show ?thesis using Some that(2) by blast
  qed (use open_null_cases [OF n] that(1) in auto)
  then show ?thesis
  proof cases
    case 1
    then show ?thesis
      using p(1-7) by (auto simp: t' p(8) redirect_null_def redirect_eq fd_close_def after_exec_def)
  next
    case (2 i)
    then have "t i = None" using p(1-3) by (auto simp: p(8))
    with 2 show ?thesis
      using p(1-7) by (auto simp: t' p(8) redirect_null_def redirect_eq fd_close_def after_exec_def)
  qed
qed

lemma run_input_streams:
  assumes "child_of_run limit True null_ok t = Some t'"
  shows "after_exec t' 0 = Some InRead \<and> after_exec t' 1 = Some OutWrite \<and>
    after_exec t' 2 = Some ErrWrite \<and> (\<forall>i\<ge>3. after_exec t' i = after_exec t i)"
proof -
  obtain inR inW t1 outR outW t2 errR errW t3 where
    i: "Pipe_open limit InRead InWrite t = Some (inR, inW, t1)"
    and o: "Pipe_open limit OutRead OutWrite t1 = Some (outR, outW, t2)"
    and e: "Pipe_open limit ErrRead ErrWrite t2 = Some (errR, errW, t3)"
    and t': "t' = redirect limit errW 2 (redirect limit outW 1 (redirect limit inR 0 (fd_close errR (fd_close outR (fd_close inW t3)))))"
    using assms by (auto simp: child_of_run_def open_null_def Let_def split: option.splits prod.splits)
  note i = Pipe_open_Some [OF i] and p = output_pipes [OF o e]
  have io: "inW < outR" using p(4) i(6) [of outR] by (cases "outR \<le> inW") auto
  have free: "t inR = None" "t inW = None" "t outR = None" "t outW = None" "t errR = None" "t errW = None"
    using i(1-4) io p(1-7) by (auto split: if_splits)
  show ?thesis
    using i(1) io p(1-3) free by (auto simp: t' p(8) i(4) redirect_eq fd_close_def after_exec_def)
qed


text \<open>A process with the standard streams of a list.\<close>

definition started_with :: "nat list \<Rightarrow> fds" where
  "started_with present i = (if i \<in> set present then Some (Inherited i, False) else None)"

definition sample_kernel :: "nat list \<Rightarrow> kernel" where
  "sample_kernel present =
     \<lparr>kn_limit = 64, kn_fds = started_with present, kn_null_ok = True, kn_file_error = None, kn_fork_ok = True,
      kn_rounds = [], kn_waits = []\<rparr>"

lemma sample_children:
  "map_sum id (map_option (\<lambda>t. [after_exec t 0, after_exec t 1, after_exec t 2])) (child_table (sample_kernel [0, 2]) (ToFile ''a.tar'')) =
     Inr (Some [Some NullInput, Some OutFile, Some ErrWrite])"
  "map_sum id (map_option (\<lambda>t. [after_exec t 0, after_exec t 1, after_exec t 2])) (child_table (sample_kernel [1, 2]) (ToFile ''a.tar'')) =
     Inr (Some [None, Some NullInput, Some ErrWrite])"
  by code_simp+


text \<open>When abp is started without stdin, the file that \<open>runToFile\<close> opens takes descriptor 0 and is overwritten
  there by \<open>/dev/null\<close> before it is moved to stdout: the child writes its archive to a \<open>/dev/null\<close> opened
  for reading, and has no stdin.\<close>

theorem runToFile_loses_output:
  "\<exists>t. child_table (sample_kernel [1, 2]) (ToFile ''a.tar'') = Inr (Some t) \<and>
     after_exec t 1 = Some NullInput \<and> after_exec t 0 = None"
  using sample_children(2) by (cases "child_table (sample_kernel [1, 2]) (ToFile ''a.tar'')") auto

section \<open>The captured output\<close>

text \<open>
  \<open>honest stream answer rs S\<close>: over the rounds \<open>rs\<close> the kernel delivers \<open>S\<close> on a stream: data in order, in
  pieces of any size, interrupted or not, its end or a hang-up only when nothing is left, and no error.
\<close>

definition polled :: "revents \<Rightarrow> bool" where
  "polled ev \<longleftrightarrow> re_ready ev \<or> re_broken ev"

definition out_events :: "poll_answer \<Rightarrow> revents option" where
  "out_events a = (case a of Polled _ evOut _ \<Rightarrow> Some evOut | _ \<Rightarrow> None)"

definition err_events :: "poll_answer \<Rightarrow> revents option" where
  "err_events a = (case a of Polled _ _ evErr \<Rightarrow> Some evErr | _ \<Rightarrow> None)"

fun honest :: "(poll_answer \<Rightarrow> revents option) \<Rightarrow> (poll_round \<Rightarrow> read_answer) \<Rightarrow> poll_round list \<Rightarrow> string \<Rightarrow> bool" where
  "honest events answer [] S = True"
| "honest events answer (r # rs) S =
     (if pr_poll r = PollError then False
      else case events (pr_poll r) of
        None \<Rightarrow> honest events answer rs S
      | Some ev \<Rightarrow>
          if \<not> polled ev then honest events answer rs S
          else case answer r of
            ReadData bytes \<Rightarrow> take (length bytes) S = bytes \<and> honest events answer rs (drop (length bytes) S)
          | ReadEnd \<Rightarrow> S = []
          | ReadAgain \<Rightarrow> (if re_broken ev then S = [] else honest events answer rs S)
          | ReadError \<Rightarrow> False)"

lemma stdin_step_frame:
  "pu_stdout (stdin_step input ev a p) = pu_stdout p" "pu_stderr (stdin_step input ev a p) = pu_stderr p"
  "pu_out (stdin_step input ev a p) = pu_out p" "pu_err (stdin_step input ev a p) = pu_err p"
  "pu_watch (stdin_step input ev a p) = pu_watch p"
  by (auto simp: stdin_step_def Let_def split: write_answer.split)

text \<open>What is still to come on a stream: \<open>S\<close> while it is open, nothing once it is closed.\<close>

definition pending :: "(poll_answer \<Rightarrow> revents option) \<Rightarrow> (poll_round \<Rightarrow> read_answer) \<Rightarrow> poll_round list \<Rightarrow> bool \<Rightarrow> string \<Rightarrow> bool" where
  "pending events answer rs isOpen S \<longleftrightarrow> (if isOpen then honest events answer rs S else S = [])"

lemma pending_step:
  assumes "pending events answer (r # rs) isOpen S" "events (pr_poll r) = Some ev" "read_step isOpen ev (answer r) = (bytes, isOpen')"
  shows "\<exists>S'. S = bytes @ S' \<and> pending events answer rs isOpen' S'"
proof (cases "isOpen \<and> polled ev")
  case True
  show ?thesis
  proof (cases "answer r")
    case (ReadData d)
    with assms True have "S = bytes @ drop (length bytes) S" "pending events answer rs isOpen' (drop (length bytes) S)"
      by (auto simp: pending_def read_step_def polled_def split: if_splits) (metis append_take_drop_id)+
    then show ?thesis by blast
  qed (use assms True in \<open>auto simp: pending_def read_step_def polled_def split: if_splits\<close>)
next
  case False
  with assms show ?thesis by (auto simp: pending_def read_step_def polled_def split: if_splits)
qed

lemma pending_skip:
  "pending events answer (r # rs) isOpen S \<Longrightarrow> events (pr_poll r) = None \<Longrightarrow> pending events answer rs isOpen S"
  by (simp add: pending_def split: if_splits)

lemma pumpIo_captures:
  "\<lbrakk>pumpIo input rs p = Some p'; pending out_events pr_out rs (pu_stdout p) S; pending err_events pr_err rs (pu_stderr p) E\<rbrakk> \<Longrightarrow> pu_out p' = pu_out p @ S \<and> pu_err p' = pu_err p @ E"
proof (induction rs arbitrary: p S E)
  case Nil
  then show ?case by (auto simp: pending_def pump_open_def split: if_splits)
next
  case (Cons r rs)
  show ?case
  proof (cases "pump_open p")
    case False
    with Cons.prems show ?thesis by (auto simp: pending_def pump_open_def)
  next
    case True
    let ?p1 = "p\<lparr>pu_watch := CancelWatch_check (pr_look r) (pu_watch p)\<rparr>"
    show ?thesis
    proof (cases "pr_poll r")
      case PollIntr
      with True Cons.prems(1) have run: "pumpIo input rs ?p1 = Some p'" by simp
      have no_events: "out_events (pr_poll r) = None" "err_events (pr_poll r) = None"
        using PollIntr by (simp_all add: out_events_def err_events_def)
      have "pending out_events pr_out rs (pu_stdout ?p1) S" "pending err_events pr_err rs (pu_stderr ?p1) E"
        using pending_skip [OF Cons.prems(2)] pending_skip [OF Cons.prems(3)] no_events by simp_all
      from Cons.IH [OF run this] show ?thesis by simp
    next
      case PollError
      with True Cons.prems show ?thesis by (auto simp: pending_def split: if_splits)
    next
      case (Polled evIn evOut evErr)
      let ?p2 = "pump_round input r evIn evOut evErr ?p1"
      from Polled True Cons.prems(1) have run: "pumpIo input rs ?p2 = Some p'" by simp
      obtain o1 oo where out: "read_step (pu_stdout p) evOut (pr_out r) = (o1, oo)" by (metis prod.collapse)
      obtain e1 eo where err: "read_step (pu_stderr p) evErr (pr_err r) = (e1, eo)" by (metis prod.collapse)
      have p2: "pu_out ?p2 = pu_out p @ o1" "pu_stdout ?p2 = oo" "pu_err ?p2 = pu_err p @ e1" "pu_stderr ?p2 = eo"
        by (simp_all add: pump_round_def stdin_step_frame out err Let_def)
      have events: "out_events (pr_poll r) = Some evOut" "err_events (pr_poll r) = Some evErr"
        using Polled by (simp_all add: out_events_def err_events_def)
      obtain S' where S: "S = o1 @ S'" "pending out_events pr_out rs oo S'"
        using pending_step [OF Cons.prems(2) events(1) out] by blast
      obtain E' where E: "E = e1 @ E'" "pending err_events pr_err rs eo E'"
        using pending_step [OF Cons.prems(3) events(2) err] by blast
      show ?thesis
        using Cons.IH [OF run, of S' E'] S E p2 by simp
    qed
  qed
qed

lemma spawn_captured:
  assumes "spawn kn cancel io args = Some (r, signals)" "\<not> spawnFailed r"
    and "honest out_events pr_out (kn_rounds kn) S" "honest err_events pr_err (kn_rounds kn) E"
  shows "stdErr r = E \<and> (case io of ToFile _ \<Rightarrow> stdOut r = [] | _ \<Rightarrow> stdOut r = S)"
proof -
  obtain p where p: "pumpIo (given_input io) (kn_rounds kn) (new_pump io) = Some p" "stdOut r = pu_out p" "stdErr r = pu_err p"
    using assms(1,2)
    by (auto simp: spawn_def emptyArgsResult_def cancelledResult_def spawn_failed_def
        split: if_splits sum.splits option.splits)
  let ?S = "case io of ToFile _ \<Rightarrow> [] | _ \<Rightarrow> S"
  have "pending out_events pr_out (kn_rounds kn) (pu_stdout (new_pump io)) ?S"
    "pending err_events pr_err (kn_rounds kn) (pu_stderr (new_pump io)) E"
    using assms(3,4) by (auto simp: pending_def new_pump_def split: proc_io.split)
  from pumpIo_captures [OF p(1) this] p(2,3) show ?thesis
    by (simp add: new_pump_def split: proc_io.splits)
qed

text \<open>C21: What a child writes is what the caller gets: if the kernel delivers \<open>S\<close> on its stdout and \<open>E\<close> on its
  stderr, in pieces of any size, interleaved and interrupted in any way, then a call that returns has
  captured exactly these, except that the stdout of \<open>runToFile\<close> goes to its file.\<close>

theorem spawn_captures:
  assumes "spawn kn cancel io args = Some (r, signals)" "\<not> spawnFailed r"
    and "honest out_events pr_out (kn_rounds kn) S" "honest err_events pr_err (kn_rounds kn) E"
  shows "stdErr r = E \<and> (case io of ToFile _ \<Rightarrow> stdOut r = [] | _ \<Rightarrow> stdOut r = S)"
  using assms by (rule spawn_captured)

definition chatty_kernel :: kernel where
  "chatty_kernel = (sample_kernel [0, 1, 2])
     \<lparr>kn_rounds :=
        [\<lparr>pr_poll = PollIntr, pr_look = (False, 0), pr_write = WriteAgain, pr_out = ReadAgain, pr_err = ReadAgain\<rparr>,
         \<lparr>pr_poll = Polled \<lparr>re_ready = False, re_broken = False\<rparr> \<lparr>re_ready = True, re_broken = False\<rparr> \<lparr>re_ready = False, re_broken = False\<rparr>,
          pr_look = (True, 5), pr_write = WriteAgain, pr_out = ReadData ''A dev'', pr_err = ReadAgain\<rparr>,
         \<lparr>pr_poll = Polled \<lparr>re_ready = False, re_broken = False\<rparr> \<lparr>re_ready = True, re_broken = True\<rparr> \<lparr>re_ready = True, re_broken = False\<rparr>,
          pr_look = (True, 3000000000), pr_write = WriteAgain, pr_out = ReadData ''ice'', pr_err = ReadData ''killed''\<rparr>,
         \<lparr>pr_poll = Polled \<lparr>re_ready = False, re_broken = False\<rparr> \<lparr>re_ready = False, re_broken = True\<rparr> \<lparr>re_ready = False, re_broken = True\<rparr>,
          pr_look = (True, 3000000001), pr_write = WriteAgain, pr_out = ReadEnd, pr_err = ReadAgain\<rparr>],
      kn_waits := [(WaitRunning, (True, 3000000002)), (WaitDone (Signaled 9), (True, 3000000003))]\<rparr>"

lemma chatty_spawn:
  "spawn chatty_kernel False (Capture None) [''adb''] =
     Some (\<lparr>exitCode = 137, stdOut = ''A device'', stdErr = ''killed'', spawnFailed = False, cancelled = True\<rparr>,
       [(SIGTERM, 5), (SIGKILL, 3000000000)])"
  by code_simp

lemma chatty_honest:
  "honest out_events pr_out (kn_rounds chatty_kernel) ''A device''" "honest err_events pr_err (kn_rounds chatty_kernel) ''killed''"
  by code_simp+

theorem spawn_captures_witness:
  "\<exists>r signals. spawn chatty_kernel False (Capture None) [''adb''] = Some (r, signals) \<and> stdErr r = ''killed'' \<and> stdOut r = ''A device''"
  using spawn_captures [OF chatty_spawn _ chatty_honest] chatty_spawn by simp

section \<open>Cancelling\<close>

definition watch_ok :: "CancelWatch \<Rightarrow> bool" where
  "watch_ok w \<longleftrightarrow>
     (if \<not> cw_terminated w then cw_signals w = [] \<and> \<not> cw_killed w
      else if \<not> cw_killed w then cw_signals w = [(SIGTERM, cw_terminatedAt w)]
      else \<exists>t. cw_signals w = [(SIGTERM, cw_terminatedAt w), (SIGKILL, t)] \<and> t - cw_terminatedAt w > kTerminateGrace)"

lemma watch_ok_new [simp]: "watch_ok new_CancelWatch"
  by (simp add: watch_ok_def new_CancelWatch_def)

lemma watch_ok_check: "watch_ok w \<Longrightarrow> watch_ok (CancelWatch_check look w)"
  by (auto simp: watch_ok_def CancelWatch_check_def split: prod.split if_splits)

lemma pumpIo_watch: "pumpIo input rs p = Some p' \<Longrightarrow> watch_ok (pu_watch p) \<Longrightarrow> watch_ok (pu_watch p')"
  by (induction input rs p rule: pumpIo.induct)
    (auto simp: Let_def pump_round_def stdin_step_frame watch_ok_check split: if_splits poll_answer.splits prod.splits)

lemma reap_watch: "reap ws ms w = Some (code, w', pauses) \<Longrightarrow> watch_ok w \<Longrightarrow> watch_ok w'"
  by (induction ws ms w arbitrary: pauses rule: reap.induct)
    (auto simp: watch_ok_check split: wait_answer.splits option.splits)

lemma check_again:
  "cw_terminated w \<Longrightarrow> cw_terminated (CancelWatch_check look w) \<and>
     cw_terminatedAt (CancelWatch_check look w) = cw_terminatedAt w \<and>
     (\<not> fst look \<or> cw_killed (CancelWatch_check look w) \<or> snd look - cw_terminatedAt w \<le> kTerminateGrace)"
  by (auto simp: CancelWatch_check_def split: prod.split)

text \<open>A call that returns reports \<open>cancelled\<close> exactly when it sent its child a signal or found the cancel
  pending before starting it; a child is sent \<open>SIGTERM\<close> at most once, then \<open>SIGKILL\<close> at most once and only
  after more than the two seconds of grace, and nothing else.\<close>

theorem spawn_signals:
  assumes "spawn kn cancel io args = Some (r, signals)"
  shows "(signals = [] \<or> (\<exists>t. signals = [(SIGTERM, t)]) \<or>
      (\<exists>t t'. signals = [(SIGTERM, t), (SIGKILL, t')] \<and> t' - t > kTerminateGrace)) \<and>
    (cancelled r \<longleftrightarrow> signals \<noteq> [] \<or> cancel \<and> args \<noteq> [])"
proof (cases "\<exists>p w code ps. pumpIo (given_input io) (kn_rounds kn) (new_pump io) = Some p \<and>
    reap (kn_waits kn) 1 (pu_watch p) = Some (code, w, ps) \<and> signals = cw_signals w \<and> cancelled r = cw_terminated w \<and> \<not> cancel")
  case True
  then obtain p w code ps where run: "pumpIo (given_input io) (kn_rounds kn) (new_pump io) = Some p"
    "reap (kn_waits kn) 1 (pu_watch p) = Some (code, w, ps)" "signals = cw_signals w" "cancelled r = cw_terminated w" "\<not> cancel"
    by blast
  have "watch_ok w"
    using reap_watch [OF run(2)] pumpIo_watch [OF run(1)] by (simp add: new_pump_def)
  with run show ?thesis by (auto simp: watch_ok_def split: if_splits)
next
  case False
  with assms show ?thesis
    by (auto simp: spawn_def emptyArgsResult_def cancelledResult_def spawn_failed_def
        split: if_splits sum.splits option.splits)
qed

theorem spawn_signals_witness:
  "\<exists>r signals. spawn chatty_kernel False (Capture None) [''adb''] = Some (r, signals) \<and> (cancelled r \<longleftrightarrow> signals \<noteq> [])"
  using spawn_signals [OF chatty_spawn] chatty_spawn by simp


end
