(* ===== verification/SpawnParent.thy ===== *)
theory SpawnParent
  imports SpawnRules
begin

text \<open>
  The parent's side of \<open>src/src/util/Process.cpp\<close>: the \<open>Fd\<close> and \<open>Pipe\<close> objects of \<open>run\<close>, \<open>runToFile\<close> and
  \<open>runFromFile\<close>, from their opening to their destructors on every path, with the table abp has after each system
  call; and the small preparations \<open>ignoreSigPipeOnce\<close>, \<open>buildArgv\<close> and \<open>setNonBlocking\<close>.
\<close>

section \<open>The objects that own descriptors\<close>

text \<open>Each local \<open>Fd\<close> is named by what it is to hold; \<^term>\<open>None\<close> is the \<open>-1\<close> of an \<open>Fd\<close> that holds nothing.
  \<open>pa_seen\<close> are the tables of the process after each of its calls, the last one last.\<close>

record parent =
  pa_fds :: fds
  pa_own :: "desc \<Rightarrow> nat option"
  pa_seen :: "fds list"

definition new_parent :: "fds \<Rightarrow> parent" where
  "new_parent t = \<lparr>pa_fds = t, pa_own = (\<lambda>_. None), pa_seen = []\<rparr>"

definition called :: "fds \<Rightarrow> (desc \<Rightarrow> nat option) \<Rightarrow> parent \<Rightarrow> parent" where
  "called t own p = \<lparr>pa_fds = t, pa_own = own, pa_seen = pa_seen p @ [t]\<rparr>"

text \<open>\<open>Fd::close\<close>, also run by the destructor.\<close>

definition close_owned :: "desc \<Rightarrow> parent \<Rightarrow> parent" where
  "close_owned d p =
     (case pa_own p d of None \<Rightarrow> p | Some i \<Rightarrow> called (fd_close i (pa_fds p)) ((pa_own p)(d := None)) p)"

definition open_owned :: "nat \<Rightarrow> desc \<Rightarrow> parent \<Rightarrow> bool \<times> parent" where
  "open_owned limit d p =
     (case fd_open limit d (pa_fds p) of
        None \<Rightarrow> (False, p)
      | Some (i, t) \<Rightarrow> (True, called t ((pa_own p)(d \<mapsto> i)) p))"

text \<open>\<open>Pipe::open\<close>: both ends or none.\<close>

definition open_pipe :: "nat \<Rightarrow> desc \<Rightarrow> desc \<Rightarrow> parent \<Rightarrow> bool \<times> parent" where
  "open_pipe limit r w p =
     (case Pipe_open limit r w (pa_fds p) of
        None \<Rightarrow> (False, p)
      | Some (i, j, t) \<Rightarrow> (True, called t ((pa_own p)(r \<mapsto> i, w \<mapsto> j)) p))"

definition open_null_owned :: "kernel \<Rightarrow> parent \<Rightarrow> parent" where
  "open_null_owned kn p = (if kn_null_ok kn then snd (open_owned (kn_limit kn) NullInput p) else p)"

definition open_file_owned :: "kernel \<Rightarrow> desc \<Rightarrow> parent \<Rightarrow> bool \<times> parent" where
  "open_file_owned kn d p = (if kn_file_error kn \<noteq> None then (False, p) else open_owned (kn_limit kn) d p)"

section \<open>Up to the fork\<close>

text \<open>Whether \<open>fork\<close> is reached, and what is open then.\<close>

definition open_outputs :: "kernel \<Rightarrow> parent \<Rightarrow> bool \<times> parent" where
  "open_outputs kn p =
     (let (ok, p1) = open_pipe (kn_limit kn) OutRead OutWrite p
      in if \<not> ok then (False, p1) else open_pipe (kn_limit kn) ErrRead ErrWrite p1)"

definition prepare :: "kernel \<Rightarrow> proc_io \<Rightarrow> parent \<Rightarrow> bool \<times> parent" where
  "prepare kn io p =
     (case io of
        Capture input \<Rightarrow>
          (let (ok1, p1) = (if input \<noteq> None then open_pipe (kn_limit kn) InRead InWrite p else (True, p))
           in if \<not> ok1 then (False, p1)
              else let (ok2, p2) = open_outputs kn p1
                   in if \<not> ok2 then (False, p2) else (True, if input = None then open_null_owned kn p2 else p2))
      | ToFile _ \<Rightarrow>
          (let (ok1, p1) = open_file_owned kn OutFile p
           in if \<not> ok1 then (False, p1)
              else let (ok2, p2) = open_pipe (kn_limit kn) ErrRead ErrWrite p1
                   in if \<not> ok2 then (False, p2) else (True, open_null_owned kn p2))
      | FromFile _ \<Rightarrow>
          (let (ok1, p1) = open_file_owned kn InFile p
           in if \<not> ok1 then (False, p1) else open_outputs kn p1))"

section \<open>After the fork\<close>

text \<open>The ends that belong to the child, and the destructors in the order in which they run.\<close>

definition child_ends :: "proc_io \<Rightarrow> desc list" where
  "child_ends io =
     (case io of
        Capture _ \<Rightarrow> [NullInput, InRead, OutWrite, ErrWrite]
      | ToFile _ \<Rightarrow> [NullInput, OutFile, ErrWrite]
      | FromFile _ \<Rightarrow> [InFile, OutWrite, ErrWrite])"

definition destroyed :: "proc_io \<Rightarrow> desc list" where
  "destroyed io =
     (case io of
        Capture _ \<Rightarrow> [NullInput, ErrWrite, ErrRead, OutWrite, OutRead, InWrite, InRead]
      | ToFile _ \<Rightarrow> [NullInput, ErrWrite, ErrRead, OutFile]
      | FromFile _ \<Rightarrow> [ErrWrite, ErrRead, OutWrite, OutRead, InFile])"

definition unwind :: "proc_io \<Rightarrow> parent \<Rightarrow> parent" where
  "unwind io p = fold close_owned (destroyed io) p"

definition parent_pumping :: "kernel \<Rightarrow> proc_io \<Rightarrow> parent option" where
  "parent_pumping kn io =
     (case prepare kn io (new_parent (kn_fds kn)) of
        (ok, p) \<Rightarrow> if ok \<and> kn_fork_ok kn then Some (fold close_owned (child_ends io) p) else None)"

text \<open>\<open>pumpIo\<close> closes the write end of the child's stdin when all is written or the child has gone.\<close>

definition parent_of :: "kernel \<Rightarrow> proc_io \<Rightarrow> parent option" where
  "parent_of kn io =
     (case parent_pumping kn io of
        None \<Rightarrow> Some (unwind io (snd (prepare kn io (new_parent (kn_fds kn)))))
      | Some p \<Rightarrow>
          (case pumpIo (given_input io) (kn_rounds kn) (new_pump io) of
             None \<Rightarrow> None
           | Some pump \<Rightarrow> Some (unwind io (if pu_stdin pump then p else close_owned InWrite p))))"

section \<open>Small preparations\<close>

text \<open>\<open>ignoreSigPipeOnce\<close>: the static flag, and the disposition of \<open>SIGPIPE\<close>, which a failing \<open>sigaction\<close> does
  not tell.\<close>

datatype sigpipe = SigDefault | SigIgnored | SigOther

definition ignoreSigPipeOnce :: "bool \<Rightarrow> bool \<times> sigpipe \<Rightarrow> bool \<times> sigpipe" where
  "ignoreSigPipeOnce asked st =
     (let (once, current) = st
      in if once then st else (True, if asked \<and> current = SigDefault then SigIgnored else current))"

text \<open>The arguments as \<open>exec\<close> gets them: up to the first zero byte each, and a null pointer at the end.\<close>

definition c_str :: "string \<Rightarrow> string" where
  "c_str s = takeWhile (\<lambda>c. c \<noteq> CHR 0x00) s"

definition buildArgv :: "string list \<Rightarrow> string option list" where
  "buildArgv args = map (\<lambda>arg. Some (c_str arg)) args @ [None]"

text \<open>\<open>O_NONBLOCK\<close> of Linux; no flags when \<open>F_GETFL\<close> fails.\<close>

definition setNonBlocking :: "int option \<Rightarrow> int option" where
  "setNonBlocking flags = map_option (\<lambda>fl. or fl 0x800) flags"

section \<open>What the parent owns\<close>

text \<open>Every descriptor made for the child is owned by one object and closes on \<open>exec\<close>; the others are as they were.\<close>

definition holds :: "fds \<Rightarrow> (desc \<Rightarrow> nat option) \<Rightarrow> fds \<Rightarrow> bool" where
  "holds base own t \<longleftrightarrow>
     (\<forall>d i. own d = Some i \<longrightarrow> base i = None \<and> t i = Some (d, True)) \<and> (\<forall>i. (\<forall>d. own d \<noteq> Some i) \<longrightarrow> t i = base i)"

lemma holds_free: "holds base own t \<Longrightarrow> t i = None \<Longrightarrow> base i = None \<and> own d \<noteq> Some i"
  by (cases "\<exists>d. own d = Some i") (auto simp: holds_def)

lemma holds_open:
  assumes "holds base own t" "own d = None" "t i = None"
  shows "holds base (own(d \<mapsto> i)) (t(i \<mapsto> (d, True)))"
proof -
  have free: "base i = None" "own e \<noteq> Some i" for e using holds_free [OF assms(1,3)] by auto
  have "(t(i \<mapsto> (d, True))) j = base j" if "\<forall>e. (own(d \<mapsto> i)) e \<noteq> Some j" for j
  proof -
    have "j \<noteq> i" using that by (metis fun_upd_same)
    moreover have "own e \<noteq> Some j" for e using that assms(2) by (cases "e = d") (auto dest: spec [of _ e])
    ultimately show ?thesis using assms(1) by (simp add: holds_def)
  qed
  moreover have "base j = None \<and> (t(i \<mapsto> (d, True))) j = Some (e, True)" if "(own(d \<mapsto> i)) e = Some j" for e j
  proof (cases "e = d")
    case True
    with that free show ?thesis by simp
  next
    case False
    with that have "own e = Some j" by simp
    with assms(1) free(2) [of e] show ?thesis by (auto simp: holds_def)
  qed
  ultimately show ?thesis by (simp add: holds_def)
qed

lemma holds_close:
  assumes "holds base own t" "own d = Some i"
  shows "holds base (own(d := None)) (fd_close i t)"
proof -
  have i: "base i = None" "t i = Some (d, True)" using assms by (auto simp: holds_def)
  have "fd_close i t j = base j" if "\<forall>e. (own(d := None)) e \<noteq> Some j" for j
  proof (cases "j = i")
    case False
    have "own e \<noteq> Some j" for e using that assms(2) False by (cases "e = d") (auto dest: spec [of _ e])
    then show ?thesis using assms(1) False by (simp add: holds_def fd_close_def)
  qed (simp add: fd_close_def i)
  moreover have "base j = None \<and> fd_close i t j = Some (e, True)" if "(own(d := None)) e = Some j" for e j
  proof -
    have e: "e \<noteq> d" "own e = Some j" using that by (auto split: if_splits)
    then have "base j = None" "t j = Some (e, True)" using assms(1) by (auto simp: holds_def)
    moreover have "j \<noteq> i" using e(1) i(2) \<open>t j = Some (e, True)\<close> by auto
    ultimately show ?thesis by (simp add: fd_close_def)
  qed
  ultimately show ?thesis by (simp add: holds_def)
qed

lemma holds_after_exec: "holds base own t \<Longrightarrow> after_exec t = after_exec base"
proof
  fix i
  assume "holds base own t"
  then show "after_exec t i = after_exec base i"
    by (cases "\<exists>d. own d = Some i") (auto simp: holds_def after_exec_def)
qed

text \<open>Now, and after every call so far, no descriptor made for the child would survive an \<open>exec\<close>.\<close>

definition owns :: "fds \<Rightarrow> parent \<Rightarrow> bool" where
  "owns base p \<longleftrightarrow> holds base (pa_own p) (pa_fds p) \<and> list_all (\<lambda>t. after_exec t = after_exec base) (pa_seen p)"

lemma owns_new [simp]: "owns t (new_parent t)"
  by (simp add: owns_def holds_def new_parent_def)

lemma owns_called: "owns base p \<Longrightarrow> holds base own t \<Longrightarrow> owns base (called t own p)"
  by (simp add: owns_def called_def holds_after_exec)

lemma owns_close: "owns base p \<Longrightarrow> owns base (close_owned d p)"
  by (auto simp: close_owned_def owns_def [of base p] intro!: owns_called holds_close split: option.split)

lemma owns_fold_close: "owns base p \<Longrightarrow> owns base (fold close_owned ds p)"
  by (induction ds arbitrary: p) (simp_all add: owns_close)

lemma owns_open:
  assumes "owns base p" "pa_own p d = None"
  shows "owns base (snd (open_owned limit d p))"
proof (cases "fd_open limit d (pa_fds p)")
  case (Some r)
  then obtain i t where r: "fd_open limit d (pa_fds p) = Some (i, t)" by (cases r) auto
  have "owns base (called t ((pa_own p)(d \<mapsto> i)) p)"
    using fd_open_Some [OF r] assms by (auto simp: owns_def [of base p] intro!: owns_called holds_open)
  with r show ?thesis by (simp add: open_owned_def)
qed (simp add: open_owned_def assms)

lemma owns_open_pipe:
  assumes "owns base p" "pa_own p r = None" "pa_own p w = None" "r \<noteq> w"
  shows "owns base (snd (open_pipe limit r w p))"
proof (cases "Pipe_open limit r w (pa_fds p)")
  case (Some x)
  then obtain i j t where x: "Pipe_open limit r w (pa_fds p) = Some (i, j, t)" by (cases x) auto
  note o = Pipe_open_Some [OF x]
  have "owns base (called t ((pa_own p)(r \<mapsto> i, w \<mapsto> j)) p)"
    using o(1-4) assms by (auto simp: owns_def [of base p] intro!: owns_called holds_open)
  with x show ?thesis by (simp add: open_pipe_def)
qed (simp add: open_pipe_def assms)

section \<open>Which objects own a descriptor\<close>

text \<open>\<open>owned_by D base p\<close>: the invariant, and only the objects in \<open>D\<close> hold something.\<close>

definition owned_by :: "desc set \<Rightarrow> fds \<Rightarrow> parent \<Rightarrow> bool" where
  "owned_by D base p \<longleftrightarrow> owns base p \<and> (\<forall>d. d \<notin> D \<longrightarrow> pa_own p d = None)"

lemma owned_new: "owned_by D t (new_parent t)"
  by (simp add: owned_by_def) (simp add: new_parent_def)

lemma owned_mono: "owned_by D base p \<Longrightarrow> D \<subseteq> E \<Longrightarrow> owned_by E base p"
  by (auto simp: owned_by_def)

lemma own_close: "pa_own (close_owned d p) = (pa_own p)(d := None)"
  by (auto simp: close_owned_def called_def split: option.split)

lemma own_fold_close: "pa_own (fold close_owned ds p) d = (if d \<in> set ds then None else pa_own p d)"
  by (induction ds arbitrary: p) (auto simp: own_close)

lemma own_open: "pa_own p e = None \<Longrightarrow> e \<noteq> d \<Longrightarrow> pa_own (snd (open_owned limit d p)) e = None"
  by (auto simp: open_owned_def called_def split: option.split prod.split)

lemma own_open_pipe: "pa_own p e = None \<Longrightarrow> e \<noteq> r \<Longrightarrow> e \<noteq> w \<Longrightarrow> pa_own (snd (open_pipe limit r w p)) e = None"
  by (auto simp: open_pipe_def called_def split: option.split prod.split)

lemma owned_close: "owned_by D base p \<Longrightarrow> owned_by (D - set ds) base (fold close_owned ds p)"
  by (auto simp: owned_by_def owns_fold_close own_fold_close)

lemma owned_open: "owned_by D base p \<Longrightarrow> d \<notin> D \<Longrightarrow> owned_by (insert d D) base (snd (open_owned limit d p))"
  by (auto simp: owned_by_def owns_open own_open)

lemma owned_open_pipe:
  "owned_by D base p \<Longrightarrow> r \<notin> D \<Longrightarrow> w \<notin> D \<Longrightarrow> r \<noteq> w \<Longrightarrow> owned_by (insert r (insert w D)) base (snd (open_pipe limit r w p))"
  by (auto simp: owned_by_def owns_open_pipe own_open_pipe)

lemma owned_open_null: "owned_by D base p \<Longrightarrow> NullInput \<notin> D \<Longrightarrow> owned_by (insert NullInput D) base (open_null_owned kn p)"
  by (auto simp: open_null_owned_def intro: owned_open owned_mono)

lemma owned_open_file: "owned_by D base p \<Longrightarrow> d \<notin> D \<Longrightarrow> owned_by (insert d D) base (snd (open_file_owned kn d p))"
  by (auto simp: open_file_owned_def intro: owned_open owned_mono)

lemma owned_outputs:
  assumes "owned_by D base p" "D \<inter> {OutRead, OutWrite, ErrRead, ErrWrite} = {}"
  shows "owned_by ({OutRead, OutWrite, ErrRead, ErrWrite} \<union> D) base (snd (open_outputs kn p))"
proof -
  have "owned_by (insert OutRead (insert OutWrite D)) base (snd (open_pipe (kn_limit kn) OutRead OutWrite p))"
    using assms by (intro owned_open_pipe) auto
  then show ?thesis
    using assms(2)
    by (auto simp: open_outputs_def split: prod.split
        intro: owned_mono owned_mono [OF owned_open_pipe [where r = ErrRead and w = ErrWrite]])
qed

lemma owned_none: "owned_by {} base p \<Longrightarrow> pa_fds p = base"
  by (auto simp: owned_by_def owns_def holds_def)

lemma owned_prepare: "owned_by (set (destroyed io)) (kn_fds kn) (snd (prepare kn io (new_parent (kn_fds kn))))"
proof (cases io)
  case (Capture input)
  let ?p = "new_parent (kn_fds kn)"
  have piped: "owned_by {InRead, InWrite} (kn_fds kn) (snd (open_pipe (kn_limit kn) InRead InWrite ?p))"
    using owned_open_pipe [OF owned_new [of "{}"], of InRead InWrite] by simp
  have outs: "owned_by {OutRead, OutWrite, ErrRead, ErrWrite, InRead, InWrite} (kn_fds kn) (snd (open_outputs kn q))"
    if "owned_by {InRead, InWrite} (kn_fds kn) q" for q
    by (rule owned_mono [OF owned_outputs [OF that]]) auto
  have null: "owned_by {NullInput, OutRead, OutWrite, ErrRead, ErrWrite, InRead, InWrite} (kn_fds kn) (open_null_owned kn q)"
    if "owned_by {OutRead, OutWrite, ErrRead, ErrWrite, InRead, InWrite} (kn_fds kn) q" for q
    using owned_open_null [OF that] by simp
  show ?thesis
    using piped outs [OF piped] outs [OF owned_new] null [OF outs [OF owned_new]]
    by (auto simp: Capture prepare_def destroyed_def Let_def split: prod.split elim!: owned_mono)
next
  case (ToFile path)
  let ?p1 = "snd (open_file_owned kn OutFile (new_parent (kn_fds kn)))"
  have f: "owned_by {OutFile} (kn_fds kn) ?p1" using owned_open_file [OF owned_new [of "{}"]] by simp
  have pipe: "owned_by {ErrRead, ErrWrite, OutFile} (kn_fds kn) (snd (open_pipe (kn_limit kn) ErrRead ErrWrite ?p1))"
    using owned_open_pipe [OF f] by simp
  have null: "owned_by {NullInput, ErrWrite, ErrRead, OutFile} (kn_fds kn)
      (open_null_owned kn (snd (open_pipe (kn_limit kn) ErrRead ErrWrite ?p1)))"
    by (rule owned_mono [OF owned_open_null [OF pipe]]) auto
  show ?thesis
    using f pipe null
    by (auto simp: ToFile prepare_def destroyed_def Let_def split: prod.split elim!: owned_mono)
next
  case (FromFile path)
  let ?p1 = "snd (open_file_owned kn InFile (new_parent (kn_fds kn)))"
  have f: "owned_by {InFile} (kn_fds kn) ?p1" using owned_open_file [OF owned_new [of "{}"]] by simp
  have outs: "owned_by {ErrWrite, ErrRead, OutWrite, OutRead, InFile} (kn_fds kn) (snd (open_outputs kn ?p1))"
    by (rule owned_mono [OF owned_outputs [OF f]]) auto
  show ?thesis
    using f outs
    by (auto simp: FromFile prepare_def destroyed_def Let_def split: prod.split elim!: owned_mono)
qed

lemma owned_pumping:
  assumes "parent_pumping kn io = Some p"
  shows "owned_by {InWrite, OutRead, ErrRead} (kn_fds kn) p"
proof -
  have "owned_by (set (destroyed io) - set (child_ends io)) (kn_fds kn) p"
    using assms owned_close [OF owned_prepare [of io kn], of "child_ends io"]
    by (auto simp: parent_pumping_def split: prod.splits if_splits)
  then show ?thesis by (rule owned_mono) (auto simp: destroyed_def child_ends_def split: proc_io.splits)
qed

lemma unwind_restores: "owned_by (set (destroyed io)) base p \<Longrightarrow> pa_fds (unwind io p) = base \<and> owns base (unwind io p)"
  using owned_close [of "set (destroyed io)" base p "destroyed io"] owned_none [of base "unwind io p"]
  by (simp add: unwind_def owned_by_def)

lemma pumping_owned_destroyed:
  assumes "parent_pumping kn io = Some p"
  shows "owned_by (set (destroyed io)) (kn_fds kn) p"
  using assms owned_close [OF owned_prepare [of io kn], of "child_ends io"]
  by (auto simp: parent_pumping_def split: prod.splits if_splits elim: owned_mono)

lemma parent_of_restores:
  assumes "parent_of kn io = Some p"
  shows "pa_fds p = kn_fds kn \<and> owns (kn_fds kn) p"
proof (cases "parent_pumping kn io")
  case None
  then show ?thesis using assms unwind_restores [OF owned_prepare] by (auto simp: parent_of_def)
next
  case (Some q)
  then obtain pump :: pump where p: "p = unwind io (if pu_stdin pump then q else close_owned InWrite q)"
    using assms by (auto simp: parent_of_def split: option.splits)
  have "owned_by (set (destroyed io)) (kn_fds kn) (if pu_stdin pump then q else close_owned InWrite q)"
    using pumping_owned_destroyed [OF Some] owned_close [OF pumping_owned_destroyed [OF Some], of "[InWrite]"]
    by (auto elim: owned_mono)
  from unwind_restores [OF this] show ?thesis by (simp add: p)
qed

text \<open>C19: abp never leaks a descriptor: whatever fails (the file, a pipe, the fork) and however the child ends, once
  the call has returned abp's table is what it was before it; while a child runs abp holds only its own
  ends of the pipes, so that their end is seen; and after none of the calls in between would a
  process that another thread starts then inherit anything made for this child.\<close>

theorem parent_descriptors:
  "(case parent_pumping kn io of
      None \<Rightarrow> True
    | Some p \<Rightarrow> \<forall>i. pa_fds p i = kn_fds kn i \<or> pa_fds p i \<in> {Some (InWrite, True), Some (OutRead, True), Some (ErrRead, True)}) \<and>
   (case parent_of kn io of
      None \<Rightarrow> True
    | Some p \<Rightarrow> pa_fds p = kn_fds kn \<and> list_all (\<lambda>t. after_exec t = after_exec (kn_fds kn)) (pa_seen p))"
proof (rule conjI)
  have "pa_fds p i = kn_fds kn i \<or> pa_fds p i \<in> {Some (InWrite, True), Some (OutRead, True), Some (ErrRead, True)}"
    if "parent_pumping kn io = Some p" for p i
  proof (cases "\<exists>d. pa_own p d = Some i")
    case True
    then obtain d where d: "pa_own p d = Some i" by blast
    then have "d \<in> {InWrite, OutRead, ErrRead}" using owned_pumping [OF that] by (auto simp: owned_by_def)
    with d owned_pumping [OF that] show ?thesis by (auto simp: owned_by_def owns_def holds_def)
  next
    case False
    then show ?thesis using owned_pumping [OF that] by (simp add: owned_by_def owns_def holds_def)
  qed
  then show "case parent_pumping kn io of
      None \<Rightarrow> True
    | Some p \<Rightarrow> \<forall>i. pa_fds p i = kn_fds kn i \<or> pa_fds p i \<in> {Some (InWrite, True), Some (OutRead, True), Some (ErrRead, True)}"
    by (simp split: option.split)
  show "case parent_of kn io of
      None \<Rightarrow> True
    | Some p \<Rightarrow> pa_fds p = kn_fds kn \<and> list_all (\<lambda>t. after_exec t = after_exec (kn_fds kn)) (pa_seen p)"
    using parent_of_restores by (auto simp: owns_def split: option.split)
qed

section \<open>The child starts from the parent's table\<close>

text \<open>What the child does with the table it was forked with.\<close>

definition child_steps :: "nat \<Rightarrow> proc_io \<Rightarrow> parent \<Rightarrow> fds" where
  "child_steps limit io p =
     (let own = (\<lambda>d. the (pa_own p d));
          outputs = (\<lambda>t. redirect limit (own ErrWrite) 2 (redirect limit (own OutWrite) 1 t))
      in case io of
           Capture input \<Rightarrow>
             (let t1 = (if input = None then pa_fds p else fd_close (own InWrite) (pa_fds p));
                  t2 = fd_close (own ErrRead) (fd_close (own OutRead) t1)
              in outputs (if input = None then redirect_null limit (pa_own p NullInput) t2 else redirect limit (own InRead) 0 t2))
         | ToFile _ \<Rightarrow>
             redirect limit (own ErrWrite) 2
               (redirect limit (own OutFile) 1 (redirect_null limit (pa_own p NullInput) (fd_close (own ErrRead) (pa_fds p))))
         | FromFile _ \<Rightarrow>
             outputs (redirect limit (own InFile) 0 (fd_close (own ErrRead) (fd_close (own OutRead) (pa_fds p)))))"

text \<open>The table of \<open>child_table\<close> is the one these steps make of the parent's, so what is proved of the child's
  streams and of the parent's descriptors is about one and the same fork.\<close>

lemma child_of_fork:
  "(case prepare kn io (new_parent (kn_fds kn)) of (ok, p) \<Rightarrow> if ok then Some (child_steps (kn_limit kn) io p) else None) =
   (case child_table kn io of Inr t \<Rightarrow> t | Inl _ \<Rightarrow> None)"
proof (cases io)
  case (Capture input)
  then show ?thesis
    by (cases input)
      (auto simp: prepare_def child_table_def child_of_run_def child_steps_def open_outputs_def open_pipe_def
        open_null_owned_def open_owned_def open_null_def new_parent_def called_def redirect_null_def Let_def
        split: option.splits prod.splits if_splits)
next
  case (ToFile path)
  then show ?thesis
    by (auto simp: prepare_def child_table_def child_of_runToFile_def child_steps_def open_file_def open_file_owned_def open_pipe_def
        open_null_owned_def open_owned_def open_null_def new_parent_def called_def redirect_null_def Let_def
        split: option.splits prod.splits if_splits)
next
  case (FromFile path)
  then show ?thesis
    by (auto simp: prepare_def child_table_def child_of_runFromFile_def child_steps_def open_file_def open_file_owned_def
        open_outputs_def open_pipe_def open_owned_def new_parent_def called_def Let_def
        split: option.splits prod.splits if_splits)
qed

section \<open>Preparations\<close>

text \<open>After the first child \<open>SIGPIPE\<close> kills abp no more, a disposition of the program's own is kept, and nothing
  changes after that.\<close>

lemma ignoreSigPipeOnce_safe:
  "ignoreSigPipeOnce True (False, current) = (True, if current = SigDefault then SigIgnored else current)"
  "ignoreSigPipeOnce asked (ignoreSigPipeOnce asked' st) = ignoreSigPipeOnce asked' st"
  by (auto simp: ignoreSigPipeOnce_def Let_def split: prod.splits)

text \<open>The program gets exactly the arguments, if none of them holds a zero byte.\<close>

lemma buildArgv_exact: "list_all (\<lambda>arg. CHR 0x00 \<notin> set arg) args \<Longrightarrow> buildArgv args = map Some args @ [None]"
  by (auto simp: buildArgv_def c_str_def list_all_iff takeWhile_eq_all_conv)

lemma buildArgv_zero_byte: "buildArgv [a @ CHR 0x00 # b] = [Some (c_str a), None]"
  by (induction a) (auto simp: buildArgv_def c_str_def)

end
