(* ===== verification/SpawnHost.thy ===== *)
theory SpawnHost
  imports SpawnParent AdbClient
begin

text \<open>
  The inside of \<open>Process.cpp\<close> against what the rest of abp sees of it: when a call returns, and that a host whose
  \<open>h_exec\<close> starts its children this way gives the callers what the child wrote.
\<close>

section \<open>A call returns once its child has ended\<close>

text \<open>The rounds in which a stream ends: its data is all read, it hangs up with nothing left, or an error.\<close>

fun stream_ends :: "(poll_answer \<Rightarrow> revents option) \<Rightarrow> (poll_round \<Rightarrow> read_answer) \<Rightarrow> poll_round list \<Rightarrow> bool" where
  "stream_ends events answer [] = False"
| "stream_ends events answer (r # rs) =
     ((case events (pr_poll r) of
         None \<Rightarrow> False
       | Some ev \<Rightarrow> polled ev \<and> (answer r = ReadEnd \<or> answer r = ReadError \<or> answer r = ReadAgain \<and> re_broken ev)) \<or>
      stream_ends events answer rs)"

text \<open>The child takes all of its input, or hangs up.\<close>

fun input_ends :: "string option \<Rightarrow> nat \<Rightarrow> poll_round list \<Rightarrow> bool" where
  "input_ends input offset [] = False"
| "input_ends input offset (r # rs) =
     (case pr_poll r of
        Polled ev _ _ \<Rightarrow>
          if \<not> polled ev then input_ends input offset rs
          else if (case input of None \<Rightarrow> True | Some d \<Rightarrow> length d \<le> offset) \<or> \<not> re_ready ev then True
          else (case pr_write r of
                  Wrote n \<Rightarrow> input_ends input (offset + n) rs
                | WriteAgain \<Rightarrow> input_ends input offset rs
                | WriteError \<Rightarrow> True)
      | _ \<Rightarrow> input_ends input offset rs)"

text \<open>All streams that are open end, or \<open>poll\<close> fails.\<close>

definition rounds_end :: "string option \<Rightarrow> poll_round list \<Rightarrow> pump \<Rightarrow> bool" where
  "rounds_end input rs p \<longleftrightarrow>
     (pu_stdin p \<longrightarrow> input_ends input (pu_offset p) rs) \<and> (pu_stdout p \<longrightarrow> stream_ends out_events pr_out rs) \<and>
     (pu_stderr p \<longrightarrow> stream_ends err_events pr_err rs)"

lemma read_step_ends:
  assumes "isOpen \<longrightarrow> stream_ends events answer (r # rs)" "events (pr_poll r) = Some ev"
    "read_step isOpen ev (answer r) = (bytes, isOpen')"
  shows "isOpen' \<longrightarrow> stream_ends events answer rs"
  using assms by (auto simp: read_step_def polled_def split: if_splits read_answer.splits)

lemma stdin_step_ends:
  assumes "pu_stdin p \<longrightarrow> input_ends input (pu_offset p) (r # rs)" "pr_poll r = Polled evIn evOut evErr"
  shows "pu_stdin (stdin_step input evIn (pr_write r) p) \<longrightarrow>
    input_ends input (pu_offset (stdin_step input evIn (pr_write r) p)) rs"
  using assms by (auto simp: stdin_step_def polled_def Let_def split: if_splits write_answer.splits option.splits)

lemma rounds_end_round:
  assumes "rounds_end input (r # rs) p" "pr_poll r = Polled evIn evOut evErr"
  shows "rounds_end input rs (pump_round input r evIn evOut evErr p)"
proof -
  obtain o1 oo where out: "read_step (pu_stdout p) evOut (pr_out r) = (o1, oo)" by (metis prod.collapse)
  obtain e1 eo where err: "read_step (pu_stderr p) evErr (pr_err r) = (e1, eo)" by (metis prod.collapse)
  have ev: "out_events (pr_poll r) = Some evOut" "err_events (pr_poll r) = Some evErr"
    using assms(2) by (simp_all add: out_events_def err_events_def)
  have "oo \<longrightarrow> stream_ends out_events pr_out rs" "eo \<longrightarrow> stream_ends err_events pr_err rs"
    using read_step_ends [where events = out_events and answer = pr_out, OF _ ev(1) out]
      read_step_ends [where events = err_events and answer = pr_err, OF _ ev(2) err] assms(1)
    unfolding rounds_end_def by blast+
  then show ?thesis
    using stdin_step_ends [OF _ assms(2), of p input] assms(1)
    by (simp add: rounds_end_def pump_round_def stdin_step_frame out err Let_def)
qed

lemma rounds_end_skip:
  assumes "rounds_end input (r # rs) p" "pr_poll r = PollIntr"
  shows "rounds_end input rs p"
  using assms by (simp add: rounds_end_def out_events_def err_events_def)

lemma rounds_end_watch [simp]: "rounds_end input rs (p\<lparr>pu_watch := w\<rparr>) = rounds_end input rs p"
  by (simp add: rounds_end_def)

lemma pumpIo_returns: "rounds_end input rs p \<Longrightarrow> pumpIo input rs p \<noteq> None"
proof (induction rs arbitrary: p)
  case (Cons r rs)
  show ?case
  proof (cases "pr_poll r")
    case PollIntr
    then show ?thesis using Cons.IH [of "p\<lparr>pu_watch := CancelWatch_check (pr_look r) (pu_watch p)\<rparr>"] rounds_end_skip [OF Cons.prems]
      by (auto simp: Let_def)
  next
    case (Polled evIn evOut evErr)
    then show ?thesis
      using Cons.IH [OF rounds_end_round [of input r rs "p\<lparr>pu_watch := CancelWatch_check (pr_look r) (pu_watch p)\<rparr>"]] Cons.prems
      by (auto simp: Let_def)
  qed simp
qed (auto simp: rounds_end_def pump_open_def)

text \<open>The child is reaped at last, or \<open>waitpid\<close> fails for good.\<close>

fun reaped :: "(wait_answer \<times> look) list \<Rightarrow> bool" where
  "reaped [] = False"
| "reaped ((answer, _) # rest) = ((case answer of WaitDone _ \<Rightarrow> True | WaitFailed \<Rightarrow> True | _ \<Rightarrow> False) \<or> reaped rest)"

lemma reap_returns: "reaped ws \<Longrightarrow> reap ws ms w \<noteq> None"
  by (induction ws ms w rule: reap.induct) (auto split: wait_answer.splits option.splits)

definition child_ends_well :: "kernel \<Rightarrow> proc_io \<Rightarrow> bool" where
  "child_ends_well kn io \<longleftrightarrow> rounds_end (given_input io) (kn_rounds kn) (new_pump io) \<and> reaped (kn_waits kn)"

lemma spawn_returns:
  assumes "child_ends_well kn io"
  shows "spawn kn cancel io args \<noteq> None"
proof -
  obtain p where p: "pumpIo (given_input io) (kn_rounds kn) (new_pump io) = Some p"
    using assms pumpIo_returns [of "given_input io" "kn_rounds kn" "new_pump io"] by (auto simp: child_ends_well_def)
  have "reap (kn_waits kn) 1 (pu_watch p) \<noteq> None"
    using assms by (simp add: child_ends_well_def reap_returns)
  with p show ?thesis by (auto simp: spawn_def split: sum.split option.split)
qed

section \<open>Hosts that start children this way\<close>

text \<open>\<open>kn io args w\<close> is how the kernel answers the call in the world \<open>w\<close>; \<open>h_exec\<close> comes after the looks at the
  arguments and the flag.\<close>

definition runs_children :: "(proc_io \<Rightarrow> string list \<Rightarrow> 'w \<Rightarrow> kernel) \<Rightarrow> 'w host \<Rightarrow> bool" where
  "runs_children kn h \<longleftrightarrow>
     (\<forall>io args w. args \<noteq> [] \<longrightarrow> child_ends_well (kn io args w) io \<and>
        map_option fst (spawn (kn io args w) False io args) = Some (fst (h_exec h io args w)))"

text \<open>The process that the whole of abp is written against is the one \<open>Process.cpp\<close> implements, on each of its
  early returns too.\<close>

lemma process_refines:
  assumes "runs_children kn h" "cancelRequested h s = (cancel, s1)"
  shows "map_option fst (spawn (kn io args (world s1)) cancel io args) = Some (fst (process h io args s))"
proof (cases "args = [] \<or> cancel")
  case True
  then show ?thesis using assms(2) by (auto simp: spawn_def process_def)
next
  case False
  then have "map_option fst (spawn (kn io args (world s1)) False io args) = Some (fst (h_exec h io args (world s1)))"
    using assms(1) by (simp add: runs_children_def)
  with False assms(2) show ?thesis by (simp add: process_def split_beta Let_def)
qed

text \<open>The child is started: its descriptors can be made and \<open>fork\<close> succeeds.\<close>

definition starts :: "kernel \<Rightarrow> proc_io \<Rightarrow> bool" where
  "starts kn io \<longleftrightarrow> (case child_table kn io of Inr (Some _) \<Rightarrow> kn_fork_ok kn | _ \<Rightarrow> False)"

lemma spawn_started:
  assumes "spawn kn False io args = Some (r, signals)" "starts kn io" "args \<noteq> []"
  shows "\<not> spawnFailed r"
  using assms by (auto simp: spawn_def starts_def split: sum.splits option.splits prod.splits)

lemma process_captures:
  assumes "runs_children kn h" "cancelRequested h s = (False, s1)" "args \<noteq> []"
    and "starts (kn (Capture input) args (world s1)) (Capture input)"
    and "honest out_events pr_out (kn_rounds (kn (Capture input) args (world s1))) S"
    and "honest err_events pr_err (kn_rounds (kn (Capture input) args (world s1))) E"
  shows "\<not> spawnFailed (fst (process h (Capture input) args s)) \<and> stdOut (fst (process h (Capture input) args s)) = S \<and>
    stdErr (fst (process h (Capture input) args s)) = E"
proof -
  let ?kn = "kn (Capture input) args (world s1)" and ?r = "fst (process h (Capture input) args s)"
  obtain signals where run: "spawn ?kn False (Capture input) args = Some (?r, signals)"
    using process_refines [OF assms(1,2), of "Capture input" args] by auto
  have ok: "\<not> spawnFailed ?r" using spawn_started [OF run assms(4,3)] .
  with spawn_captured [OF run ok assms(5,6)] show ?thesis by simp
qed

text \<open>C18: abp sees the devices that adb lists, from the bytes on a pipe to the parsed list: on a host that starts its
  children by descriptors, \<open>fork\<close>, the \<open>poll\<close> loop and \<open>waitpid\<close>, if \<open>adb devices -l\<close> writes \<open>S\<close>, in pieces of
  any size, interleaved with its stderr and interrupted in any way, and ends, then the call returns and the
  list is the one parsed from \<open>S\<close>.\<close>

theorem devices_seen:
  assumes "runs_children kn h" "cancelRequested h s = (False, s1)"
    and "starts (kn (Capture None) [adb, ''devices'', ''-l''] (world s1)) (Capture None)"
    and "honest out_events pr_out (kn_rounds (kn (Capture None) [adb, ''devices'', ''-l''] (world s1))) S"
    and "honest err_events pr_err (kn_rounds (kn (Capture None) [adb, ''devices'', ''-l''] (world s1))) E"
  shows "fst (listConnectedDevices h adb s) = parse_devices S"
proof -
  have "\<not> spawnFailed (fst (Process_run h [adb, ''devices'', ''-l''] s)) \<and> stdOut (fst (Process_run h [adb, ''devices'', ''-l''] s)) = S"
    using process_captures [OF assms(1,2) _ assms(3-5)] by (simp add: Process_run_def)
  then show ?thesis by (simp add: listConnectedDevices_def split_beta Let_def)
qed

text \<open>A kernel whose every child says that one device is there, hangs up and exits.\<close>

definition device_kernel :: kernel where
  "device_kernel = (sample_kernel [0, 1, 2])
     \<lparr>kn_rounds :=
        [\<lparr>pr_poll = Polled \<lparr>re_ready = False, re_broken = True\<rparr> \<lparr>re_ready = True, re_broken = False\<rparr> \<lparr>re_ready = False, re_broken = True\<rparr>,
          pr_look = (False, 1), pr_write = WriteAgain, pr_out = ReadData ''R5CT dev'', pr_err = ReadEnd\<rparr>,
         \<lparr>pr_poll = PollIntr, pr_look = (False, 2), pr_write = WriteAgain, pr_out = ReadAgain, pr_err = ReadAgain\<rparr>,
         \<lparr>pr_poll = Polled \<lparr>re_ready = False, re_broken = False\<rparr> \<lparr>re_ready = True, re_broken = True\<rparr> \<lparr>re_ready = False, re_broken = False\<rparr>,
          pr_look = (False, 3), pr_write = WriteAgain, pr_out = ReadData ''ice'', pr_err = ReadAgain\<rparr>,
         \<lparr>pr_poll = Polled \<lparr>re_ready = False, re_broken = False\<rparr> \<lparr>re_ready = False, re_broken = True\<rparr> \<lparr>re_ready = False, re_broken = False\<rparr>,
          pr_look = (False, 4), pr_write = WriteAgain, pr_out = ReadEnd, pr_err = ReadAgain\<rparr>],
      kn_waits := [(WaitRunning, (False, 5)), (WaitDone (Exited 0), (False, 6))]\<rparr>"

definition device_host :: "unit host" where
  "device_host = quiet_host\<lparr>h_exec := (\<lambda>io args w. (fst (the (spawn device_kernel False io args)), w))\<rparr>"

lemma device_kernel_ends: "child_ends_well device_kernel io"
  by (cases io) (auto simp: child_ends_well_def rounds_end_def device_kernel_def new_pump_def polled_def out_events_def err_events_def
      split: option.split)

lemma device_host_runs: "runs_children (\<lambda>_ _ _. device_kernel) device_host"
proof -
  have "map_option fst (spawn device_kernel False io args) = Some (fst (the (spawn device_kernel False io args)))" for io args
    using spawn_returns [OF device_kernel_ends, of False io args] by auto
  then show ?thesis by (simp add: runs_children_def device_kernel_ends device_host_def)
qed

lemma device_kernel_run:
  "starts device_kernel (Capture None)" "honest out_events pr_out (kn_rounds device_kernel) ''R5CT device''"
  "honest err_events pr_err (kn_rounds device_kernel) []"
  by code_simp+

theorem devices_seen_witness: "map dev_serial (fst (listConnectedDevices device_host ''adb'' quiet_sys)) = [''R5CT'']"
proof -
  have "cancelRequested device_host quiet_sys = (False, quiet_sys)" by code_simp
  from devices_seen [OF device_host_runs this device_kernel_run]
  have "fst (listConnectedDevices device_host ''adb'' quiet_sys) = parse_devices ''R5CT device''" .
  moreover have "map dev_serial (parse_devices ''R5CT device'') = [''R5CT'']" by code_simp
  ultimately show ?thesis by simp
qed

end
