(* ===== verification/Spec2Isabelle.thy ===== *)
theory Spec2Isabelle
  imports DevicePaths TarArchive BackupThenRestore GuiSession GuiJobs CliRules SpawnHost
begin

text \<open>
  \<^bold>\<open>abp, the Android backup tool: a verification library.\<close>

  abp drives the external program \<open>adb\<close> to back up and restore an Android device.  A backup is a
  directory with \<open>manifest.json\<close>, one tar archive per app and storage area, APKs, device paths pulled
  verbatim and exports of personal data; a restore reads it back.  The command line
  (\<open>src/src/cli\<close>) and a local web GUI (\<open>src/src/gui\<close>) both call \<open>BackupManager\<close>, which picks a device and
  a backend (root or standard) and runs the stages; the GUI also explores, verifies and serves backups.

  \<^bold>\<open>How the code is modelled.\<close>  Pure functions are HOL functions on strings (lists of bytes), \<open>int\<close> and
  words.  Code that acts on the world is a function on \<open>'w sys\<close> (theory \<open>Host\<close>): an arbitrary world \<open>'w\<close> and
  the trace of what was done (messages, progress, processes started, files written, output).  The
  operating system and \<open>adb\<close> are not under \<open>src/\<close>: they are the functions of the record \<open>'w host\<close>
  (and \<open>fspaths\<close>, \<open>gui_env\<close>, \<open>cli_env\<close>, \<open>kernel\<close> for what only one component asks), arguments of every definition, about
  which nothing is assumed unless a theorem says so.  C++ exceptions are the left side of a sum;
  \<open>size_t\<close> and other 64-bit arithmetic is \<open>nat\<close> with \<open>u64\<close> where it can wrap; SHA-256 works on \<open>32 word\<close>, the
  token comparison on \<open>8 word\<close>, doubles are exact rationals rounded as IEEE 754 does.

  \<^bold>\<open>Foundations.\<close>
  \<^item> \<open>Prelude\<close>: the theorem collections, insertion sort with its laws, \<open>u64\<close>.
  \<^item> \<open>CxxLib\<close>, \<open>CxxDouble\<close>, \<open>CxxTime\<close>: the parts of the C++ library the sources use: searching in strings,
    \<open>stoi\<close>, \<open>stoll\<close>, \<open>stoull\<close>, \<open>stod\<close>, \<open>to_string\<close>, \<open>%.17g\<close>, \<open>gmtime\<close>.
  \<^item> \<open>ShellWords\<close>: how a POSIX shell cuts a command line into words, to say what \<open>shellQuote\<close> and every
    script sent to the device mean.
  \<^item> \<open>Host\<close>: the host, the trace, \<open>util/FsUtil.cpp\<close>, the entry conditions of \<open>util/Process.cpp\<close> and the filter
    of \<open>util/Logger.cpp\<close>; \<open>extends Q s s'\<close> says that everything a step added to the trace satisfies \<open>Q\<close>.

  \<^bold>\<open>Utilities.\<close>
  \<^item> \<open>StringUtil\<close> (\<open>util/StringUtil.cpp\<close>): quoting is read back exactly; valid package names are what they should be.
  \<^item> \<open>DevicePaths\<close> (\<open>util/DevicePaths.cpp\<close>): the policy on device paths, by their segments.
  \<^item> \<open>Json\<close> (\<open>util/Json.cpp\<close>): parser and printer; the parser takes fuel, which the length of the text bounds, and
    is proved to return; printing and parsing is the identity.
  \<^item> \<open>Sha256\<close> (\<open>util/Sha256.cpp\<close>): the streaming hash refines the one-shot definition.
  \<^item> \<open>Spawn\<close>, \<open>SpawnRules\<close> (\<open>util/Process.cpp\<close>): the descriptor table of a child, the loop over \<open>poll\<close> rounds, reaping and
    the signals of a cancel.  The rounds and waits are lists of the kernel's answers, and a loop that outlives
    its list is \<^term>\<open>None\<close>; what a child writes is what is captured.
  \<^item> \<open>SpawnParent\<close>: the \<open>Fd\<close> and \<open>Pipe\<close> objects of the parent up to their destructors, on every path: no descriptor
    leaks, and none is exposed to a child that another thread starts.
  \<^item> \<open>SpawnHost\<close>: the composition.  \<open>runs_children\<close> says that \<open>Host.h_exec\<close> is what \<open>Spawn.spawn\<close> makes of the
    kernel's answers, each child ending (\<open>child_ends_well\<close>, enough for the call to return); then \<open>Host.process\<close>, which the
    rest of the library calls, is refined by \<open>spawn\<close>, and \<open>adb devices\<close> is followed from the pipe to the list.
  \<^item> \<open>Terminal\<close> (\<open>util/Logger.cpp\<close>): what is drawn, and that progress never garbles the log.

  \<^bold>\<open>Device and backup data.\<close>
  \<^item> \<open>Device\<close> (\<open>include/abp/Device.h\<close>, \<open>Package.h\<close>, \<open>BackupOptions.h\<close>): plain data.
  \<^item> \<open>AdbClient\<close>, \<open>DeviceCalls\<close> (\<open>adb/AdbClient.cpp\<close>): every method; which processes each may start, by the \<open>chain\<close>
    lemmas that the later components share.
  \<^item> \<open>Manifest\<close> (\<open>backup/Manifest.cpp\<close>): the data, the JSON form and the file round trip.
  \<^item> \<open>ArchiveIntegrity\<close>, \<open>TarArchive\<close>: checksums of archives; the index of a tar file.  \<open>parsePax_loop\<close> and \<open>index_loop\<close>
    take fuel, one unit per byte of the record and per block of the archive and a little more: a loop that advances
    cannot use it up, and \<^term>\<open>None\<close> is a loop that does not, which a crafted pax record causes.

  \<^bold>\<open>Backup and restore.\<close>
  \<^item> \<open>IBackupBackend\<close>, \<open>RootBackend\<close>, \<open>StandardBackend\<close>: the virtual methods as a record, their contract as a locale
    interpreted on both backends; which archives are verified before they are streamed, and that no package is
    silently skipped.
  \<^item> \<open>PersonalFormats\<close>, \<open>PersonalTexts\<close>, \<open>PersonalData\<close> (\<open>backup/PersonalData.cpp\<close>): the text formats and their round
    trips, the export of the seven kinds, and the restore.
  \<^item> \<open>Captures\<close>, \<open>BackupManager\<close>, \<open>BackupRuns\<close>, \<open>RestoreRuns\<close> (\<open>backup/BackupManager.cpp\<close>): the stages, the whole runs,
    what a successful summary says of the manifest written, and how a restore accounts for every package.
  \<^item> \<open>Measured\<close>, \<open>BackupThenRestore\<close>: every size in a manifest is one the file system has told; so, below a petabyte, the
    directory a successful backup leaves is accepted by a restore, with the manifest the backup has written.
    A run is an \<open>option\<close> because writing a calendar may never end (\<open>fold_loop\<close>, a \<open>partial_function\<close>).

  \<^bold>\<open>The GUI.\<close>
  \<^item> \<open>HttpServer\<close>, \<open>HttpExchange\<close> (\<open>gui/HttpServer.cpp\<close>): one connection, from the answers of \<open>read\<close> to the bytes
    written, and the loop that accepts; a printed request is read back, a range stays inside its segment.
  \<^item> \<open>BackupStore\<close>, \<open>BackupExplorer\<close> (\<open>backup/\<close>): scanning, verifying, browsing, archives with their cache.  A backup
    that verifies is one that \<open>RootBackend\<close> accepts; nothing outside a backup is served.
  \<^item> \<open>JobRunner\<close>: the single background job as a step relation over requests, worker steps and signals, with
    its invariant over every interleaving.
  \<^item> \<open>GuiJson\<close>, \<open>GuiServer\<close>, \<open>GuiRules\<close>, \<open>GuiAnswers\<close> (\<open>gui/GuiServer.cpp\<close>): every handler, the routes and the
    checks before them; what a request without the token, or without \<open>POST\<close>, cannot do; the form of every answer.
  \<^item> \<open>GuiSession\<close>: the server with the application as its handler, from the bytes of any number of connections to
    the application's state; a session without the token leaves it as it was.
  \<^item> \<open>GuiStart\<close>: the token of a session, which goes through addresses unchanged and keeps all 128 bits read, the opener of
    the browser, and the guard around the loop that lets a signal stop the job and the server and then restores the
    dispositions.
  \<^item> \<open>GuiJobs\<close>: the worker thread with \<open>BackupManager\<close> behind it, as a run of the steps of \<open>JobRunner\<close>; a backup job shown
    as succeeded has the manifest of \<open>BackupRuns\<close>, and its log is the run's.

  \<^bold>\<open>The command line.\<close>
  \<^item> \<open>Cli\<close>, \<open>CliRules\<close> (\<open>cli/Cli.cpp\<close>): from the arguments to the exit code (\<open>abp_main\<close> is \<open>main.cpp\<close>); options round trip, usage errors
    touch nothing, nothing runs without consent, and exit code 0 of a backup means the manifest of \<open>BackupRuns\<close>.

  \<^bold>\<open>Concurrency.\<close>  The cancel flag is a world that may change at every look (\<open>h_cancelRequested\<close>).  The job runner is
  modelled with its interleavings; each request handler is one step.  The mutexes of \<open>Logger\<close>, the job
  runner and the explorer make their operations single steps.

  \<^bold>\<open>Not modelled.\<close>  The system calls behind sockets (their answers are arguments), the threads of the server (its handlers run
  in some order, one after the other) and the thread that opens the browser (it runs at once), the random device
  and the directory the GUI starts in (parameters), the installation of the command line's signal handler (the cancel
  flag may rise at every look, handler or not); the web page, a constant that runs in a browser; the version string, which
  the build fills in and which is an argument; tests, build files and documentation.
\<close>

end
